(* ===== verification/Prelude.thy ===== *)
theory Prelude
  imports Main
begin

text \<open>
  What every component of the development shares: the errors a request can end with and
  the result type they make (\<open>api_error + 'a\<close>), the chaining of guards in a handler, the
  list operations that stand for the queries the services issue against a table, decimal
  numerals, and interfaces as locales:
  \<^item> \<open>row_update\<close>: an update of rows that keeps their key;
  \<^item> \<open>guarded_handler\<close> (and \<open>atomic_handler\<close>): a handler behind an authorisation check;
  \<^item> \<open>operation_system\<close> (and \<open>refining_system\<close>): operations that keep an invariant (and follow
    an abstract machine), and what runs of them do.
\<close>

section \<open>Errors and guard chains\<close>

named_theorems table_simps \<open>queries and updates on tables\<close>
named_theorems handler_defs \<open>definitions of the request handlers\<close>

text \<open>
  The Nest exceptions the services throw, with their messages; the extra fields some of
  them carry are the lists of strings. \<open>DbError\<close> is an error of the database client that
  no service translates.
\<close>

datatype db_code = P2002 | P2003 | P2025

datatype api_error =
    BadRequest string
  | BadRequestIds string "string list" "string list"
  | NotFound string
  | Forbidden string
  | Conflict string "string list"
  | Unauthorized string
  | DbError db_code
  | LibraryError string

type_synonym 'a res = "api_error + 'a"

text \<open>
  A handler takes the state and returns a result with the next state. \<open>attempt\<close> runs a
  check that only reads: when it fails the handler ends there with the state as it is.
\<close>

definition attempt :: "('e + 'a) \<Rightarrow> 'w \<Rightarrow> ('a \<Rightarrow> ('e + 'b) \<times> 'w) \<Rightarrow> ('e + 'b) \<times> 'w" where
  "attempt m w k = (case m of Inl e \<Rightarrow> (Inl e, w) | Inr a \<Rightarrow> k a)"

definition require :: "bool \<Rightarrow> 'e \<Rightarrow> 'e + unit" where
  "require b e = (if b then Inr () else Inl e)"

definition found :: "'e \<Rightarrow> 'a option \<Rightarrow> 'e + 'a" where
  "found e x = (case x of None \<Rightarrow> Inl e | Some a \<Rightarrow> Inr a)"

definition and_then :: "('e + 'a) \<Rightarrow> ('a \<Rightarrow> 'e + 'b) \<Rightarrow> 'e + 'b" where
  "and_then m k = (case m of Inl e \<Rightarrow> Inl e | Inr a \<Rightarrow> k a)"

lemma attempt_simps [simp]:
  "attempt (Inl e) w k = (Inl e, w)"
  "attempt (Inr a) w k = k a"
  by (simp_all add: attempt_def)

lemma and_then_simps [simp]:
  "and_then (Inl e) k = Inl e"
  "and_then (Inr a) k = k a"
  by (simp_all add: and_then_def)

lemma require_simps [simp]:
  "require True e = Inr ()"
  "require False e = Inl e"
  by (simp_all add: require_def)

lemma found_simps [simp]:
  "found e None = Inl e"
  "found e (Some a) = Inr a"
  by (simp_all add: found_def)

lemma require_Inr [simp]: "require b e = Inr u \<longleftrightarrow> b"
  by (simp add: require_def)

lemma require_Inl [simp]: "require b e = Inl e' \<longleftrightarrow> \<not> b \<and> e' = e"
  by (auto simp: require_def)

lemma found_Inr [simp]: "found e x = Inr a \<longleftrightarrow> x = Some a"
  by (auto simp: found_def split: option.splits)

lemma found_Inl [simp]: "found e x = Inl e' \<longleftrightarrow> x = None \<and> e' = e"
  by (auto simp: found_def split: option.splits)

lemma and_then_Inr: "and_then m k = Inr b \<longleftrightarrow> (\<exists>a. m = Inr a \<and> k a = Inr b)"
  by (auto simp: and_then_def split: sum.splits)

lemma attempt_Inr:
  "attempt m w k = (Inr b, w') \<longleftrightarrow> (\<exists>a. m = Inr a \<and> k a = (Inr b, w'))"
  by (auto simp: attempt_def split: sum.splits)

lemma attempt_split:
  "P (attempt m w k) \<longleftrightarrow> (\<forall>e. m = Inl e \<longrightarrow> P (Inl e, w)) \<and> (\<forall>a. m = Inr a \<longrightarrow> P (k a))"
  by (cases m) simp_all

lemma attempt_changes:
  assumes "snd (attempt m w k) \<noteq> w"
  obtains a where "m = Inr a" and "snd (k a) \<noteq> w"
  using assms by (cases m) auto

lemma attempt_inv:
  "P w \<Longrightarrow> (\<And>a. m = Inr a \<Longrightarrow> P (snd (k a))) \<Longrightarrow> P (snd (attempt m w k))"
  by (cases m) auto

text \<open>A handler that fails has changed nothing.\<close>

definition fails_clean :: "'w \<Rightarrow> ('e + 'a) \<times> 'w \<Rightarrow> bool" where
  "fails_clean w r \<longleftrightarrow> (\<forall>e. fst r = Inl e \<longrightarrow> snd r = w)"

lemma fails_clean_attempt: "(\<And>a. m = Inr a \<Longrightarrow> fails_clean w (k a)) \<Longrightarrow> fails_clean w (attempt m w k)"
  by (cases m) (simp_all add: fails_clean_def)

lemma fails_clean_Inr [simp]: "fails_clean w (Inr a, w')"
  by (simp add: fails_clean_def)

lemma fails_clean_if: "fails_clean w a \<Longrightarrow> fails_clean w b \<Longrightarrow> fails_clean w (if c then a else b)"
  by simp

lemma fails_cleanD: "fails_clean w (r, w') \<Longrightarrow> r = Inl e \<Longrightarrow> w' = w"
  by (simp add: fails_clean_def)

text \<open>A step that goes on from the state another one left, unless that one failed.\<close>

definition then_do :: "'a res \<times> 'w \<Rightarrow> ('a \<Rightarrow> 'w \<Rightarrow> 'b res \<times> 'w) \<Rightarrow> 'b res \<times> 'w" where
  "then_do r k = (case r of (Inl err, w) \<Rightarrow> (Inl err, w) | (Inr a, w) \<Rightarrow> k a w)"

text \<open>A transaction: when it fails, the state is the one before it.\<close>

definition atomically :: "'w \<Rightarrow> 'a res \<times> 'w \<Rightarrow> 'a res \<times> 'w" where
  "atomically w r = (case r of (Inl err, _) \<Rightarrow> (Inl err, w) | (Inr a, w') \<Rightarrow> (Inr a, w'))"

lemma then_do_simps [simp]:
  "then_do (Inl err, w) k = (Inl err, w)"
  "then_do (Inr a, w) k = k a w"
  by (simp_all add: then_do_def)

lemma then_do_inv:
  assumes "P (snd r)" and "\<And>a w. r = (Inr a, w) \<Longrightarrow> P w \<Longrightarrow> P (snd (k a w))"
  shows "P (snd (then_do r k))"
  using assms by (cases r; cases "fst r") auto

lemma then_do_Inr:
  "then_do r k = (Inr b, w') \<longleftrightarrow> (\<exists>a w. r = (Inr a, w) \<and> k a w = (Inr b, w'))"
  by (cases r; cases "fst r") auto

lemma atomically_inv: "P w \<Longrightarrow> P (snd r) \<Longrightarrow> P (snd (atomically w r))"
  by (cases r; cases "fst r") (auto simp: atomically_def)

lemma atomically_Inr [simp]: "atomically w r = (Inr a, w') \<longleftrightarrow> r = (Inr a, w')"
  by (cases r; cases "fst r") (auto simp: atomically_def)

section \<open>Tables as lists of rows\<close>

text \<open>
  \<open>findUnique\<close> on a key, \<open>updateMany\<close>, \<open>deleteMany\<close>, \<open>count\<close> and an \<open>upsert\<close> whose update
  part is empty. The order of a list stands for the order in which the database returns
  rows when a query asks for none.
\<close>

definition find_row :: "('r \<Rightarrow> 'k) \<Rightarrow> 'k \<Rightarrow> 'r list \<Rightarrow> 'r option" where
  "find_row key k rows = List.find (\<lambda>r. key r = k) rows"

definition update_where :: "('r \<Rightarrow> bool) \<Rightarrow> ('r \<Rightarrow> 'r) \<Rightarrow> 'r list \<Rightarrow> 'r list" where
  "update_where p f rows = map (\<lambda>r. if p r then f r else r) rows"

definition delete_where :: "('r \<Rightarrow> bool) \<Rightarrow> 'r list \<Rightarrow> 'r list" where
  "delete_where p rows = filter (\<lambda>r. \<not> p r) rows"

definition count_where :: "('r \<Rightarrow> bool) \<Rightarrow> 'r list \<Rightarrow> nat" where
  "count_where p rows = length (filter p rows)"

definition insert_absent :: "('r \<Rightarrow> 'k) \<Rightarrow> 'r \<Rightarrow> 'r list \<Rightarrow> 'r list" where
  "insert_absent key r rows = (if key r \<in> key ` set rows then rows else rows @ [r])"

text \<open>A write is refused when it breaks a unique key of the table.\<close>

definition unique_rows :: "('r \<Rightarrow> 'k) \<Rightarrow> 'r list \<Rightarrow> 'r list res" where
  "unique_rows key rows = (if distinct (map key rows) then Inr rows else Inl (DbError P2002))"

lemma unique_rows_Inr [simp]: "unique_rows key rows = Inr rows' \<longleftrightarrow> distinct (map key rows) \<and> rows' = rows"
  by (auto simp: unique_rows_def)

text \<open>\<open>Array.from(new Set(xs))\<close>: the first occurrence of each element.\<close>

definition uniq :: "'a list \<Rightarrow> 'a list" where
  "uniq xs = rev (remdups (rev xs))"

lemma set_uniq [simp]: "set (uniq xs) = set xs"
  by (simp add: uniq_def)

lemma distinct_uniq [simp]: "distinct (uniq xs)"
  by (simp add: uniq_def)

lemma uniq_id: "distinct xs \<Longrightarrow> uniq xs = xs"
  by (simp add: uniq_def distinct_remdups_id)

lemma find_row_simps [simp]:
  "find_row key k [] = None"
  "find_row key k (r # rows) = (if key r = k then Some r else find_row key k rows)"
  by (simp_all add: find_row_def)

lemma find_row_SomeD: "find_row key k rows = Some r \<Longrightarrow> r \<in> set rows \<and> key r = k"
  by (induction rows) (auto split: if_splits)

lemma find_row_None: "find_row key k rows = None \<longleftrightarrow> k \<notin> key ` set rows"
  by (induction rows) auto

lemma find_row_distinct:
  "distinct (map key rows) \<Longrightarrow> r \<in> set rows \<Longrightarrow> find_row key (key r) rows = Some r"
  by (induction rows) (auto simp: rev_image_eqI)

lemma find_row_append:
  "find_row key k (xs @ ys) = (case find_row key k xs of None \<Rightarrow> find_row key k ys | Some r \<Rightarrow> Some r)"
  by (induction xs) auto

lemma update_where_simps [simp]:
  "update_where p f [] = []"
  "update_where p f (r # rows) = (if p r then f r else r) # update_where p f rows"
  by (simp_all add: update_where_def)

lemma set_update_where: "set (update_where p f rows) = (\<lambda>r. if p r then f r else r) ` set rows"
  by (simp add: update_where_def)

lemma in_update_where [table_simps]:
  "r \<in> set (update_where p f rows) \<longleftrightarrow>
    (\<exists>r0 \<in> set rows. (p r0 \<and> r = f r0) \<or> (\<not> p r0 \<and> r = r0))"
  by (auto simp: set_update_where)

lemma length_update_where [simp]: "length (update_where p f rows) = length rows"
  by (simp add: update_where_def)

lemma map_update_where:
  "(\<And>r. p r \<Longrightarrow> g (f r) = g r) \<Longrightarrow> map g (update_where p f rows) = map g rows"
  by (induction rows) auto

lemma filter_update_where:
  "(\<And>r. p r \<Longrightarrow> q (f r) = q r) \<Longrightarrow> filter q (update_where p f rows) = update_where p f (filter q rows)"
  by (induction rows) auto

lemma update_where_id: "(\<And>r. r \<in> set rows \<Longrightarrow> p r \<Longrightarrow> f r = r) \<Longrightarrow> update_where p f rows = rows"
  by (induction rows) auto

lemma update_where_none: "(\<And>r. r \<in> set rows \<Longrightarrow> \<not> p r) \<Longrightarrow> update_where p f rows = rows"
  by (rule update_where_id) auto

lemma delete_where_simps [simp]:
  "delete_where p [] = []"
  "delete_where p (r # rows) = (if p r then delete_where p rows else r # delete_where p rows)"
  by (simp_all add: delete_where_def)

lemma set_delete_where [simp]: "set (delete_where p rows) = {r \<in> set rows. \<not> p r}"
  by (simp add: delete_where_def)

lemma distinct_delete_where: "distinct (map key rows) \<Longrightarrow> distinct (map key (delete_where p rows))"
  by (induction rows) auto

lemma count_where_0 [simp]: "count_where p rows = 0 \<longleftrightarrow> (\<forall>r \<in> set rows. \<not> p r)"
  by (simp add: count_where_def filter_empty_conv)

lemma set_insert_absent:
  "set (insert_absent key r rows) = (if key r \<in> key ` set rows then set rows else insert r (set rows))"
  by (simp add: insert_absent_def)

lemma insert_absent_key: "key r \<in> key ` set (insert_absent key r rows)"
  by (simp add: set_insert_absent)

lemma keys_insert_absent: "key ` set (insert_absent key r rows) = insert (key r) (key ` set rows)"
  by (simp add: set_insert_absent insert_absorb)

lemma distinct_insert_absent:
  "distinct (map key rows) \<Longrightarrow> distinct (map key (insert_absent key r rows))"
  by (auto simp: insert_absent_def)

lemma insert_absent_idem [simp]:
  "insert_absent key r (insert_absent key r rows) = insert_absent key r rows"
  by (simp add: insert_absent_def)

subsection \<open>Ordered queries\<close>

text \<open>
  \<open>orderBy\<close> as insertion sort by a comparison; \<open>findFirst\<close> with a descending order is the
  last row that no later row exceeds.
\<close>

fun insert_by :: "('r \<Rightarrow> 'r \<Rightarrow> bool) \<Rightarrow> 'r \<Rightarrow> 'r list \<Rightarrow> 'r list" where
  "insert_by le x [] = [x]"
| "insert_by le x (y # ys) = (if le x y then x # y # ys else y # insert_by le x ys)"

definition order_by :: "('r \<Rightarrow> 'r \<Rightarrow> bool) \<Rightarrow> 'r list \<Rightarrow> 'r list" where
  "order_by le rows = foldr (insert_by le) rows []"

fun greatest_by :: "('r \<Rightarrow> 'r \<Rightarrow> bool) \<Rightarrow> 'r list \<Rightarrow> 'r option" where
  "greatest_by le [] = None"
| "greatest_by le (x # xs) =
    (case greatest_by le xs of None \<Rightarrow> Some x | Some y \<Rightarrow> Some (if le x y then y else x))"

lemma set_insert_by [simp]: "set (insert_by le x xs) = insert x (set xs)"
  by (induction xs) auto

lemma length_insert_by [simp]: "length (insert_by le x xs) = Suc (length xs)"
  by (induction xs) auto

lemma order_by_simps [simp]:
  "order_by le [] = []"
  "order_by le (x # xs) = insert_by le x (order_by le xs)"
  by (simp_all add: order_by_def)

lemma set_order_by [simp]: "set (order_by le rows) = set rows"
  by (induction rows) simp_all

lemma length_order_by [simp]: "length (order_by le rows) = length rows"
  by (induction rows) simp_all

lemma distinct_insert_by: "distinct (map k (x # xs)) \<Longrightarrow> distinct (map k (insert_by le x xs))"
  by (induction xs) auto

lemma distinct_order_by: "distinct (map k rows) \<Longrightarrow> distinct (map k (order_by le rows))"
proof (induction rows)
  case (Cons x xs)
  then have "distinct (map k (x # order_by le xs))" by simp
  then show ?case using distinct_insert_by by (metis order_by_simps(2))
qed simp

lemma greatest_by_None [simp]: "greatest_by le xs = None \<longleftrightarrow> xs = []"
  by (cases xs) (simp_all split: option.splits)

lemma greatest_by_in: "greatest_by le xs = Some x \<Longrightarrow> x \<in> set xs"
  by (induction xs arbitrary: x) (auto split: option.splits if_splits)

definition total_preorder :: "('r \<Rightarrow> 'r \<Rightarrow> bool) \<Rightarrow> bool" where
  "total_preorder le \<longleftrightarrow> (\<forall>x y. le x y \<or> le y x) \<and> (\<forall>x y z. le x y \<longrightarrow> le y z \<longrightarrow> le x z)"

lemma greatest_by_max:
  assumes "total_preorder le" and "greatest_by le xs = Some m" and "x \<in> set xs"
  shows "le x m"
  using assms(2,3)
proof (induction xs arbitrary: m x)
  case (Cons y ys)
  have refl: "le a a" for a using assms(1) by (auto simp: total_preorder_def)
  have tot: "le a b \<or> le b a" for a b using assms(1) by (auto simp: total_preorder_def)
  have trans: "le a b \<Longrightarrow> le b c \<Longrightarrow> le a c" for a b c
    using assms(1) by (auto simp: total_preorder_def)
  show ?case
  proof (cases "greatest_by le ys")
    case None
    with Cons.prems refl show ?thesis by auto
  next
    case (Some g)
    have below: "z \<in> set ys \<Longrightarrow> le z g" for z by (rule Cons.IH [OF Some])
    from Some Cons.prems(1) have m: "m = (if le y g then g else y)" by simp
    show ?thesis
    proof (cases "le y g")
      case True
      with m below Cons.prems(2) show ?thesis by auto
    next
      case False
      then have "le g y" using tot by blast
      with below trans have "z \<in> set ys \<Longrightarrow> le z y" for z by blast
      with m False Cons.prems(2) refl show ?thesis by auto
    qed
  qed
qed simp

lemma sorted_insert_by:
  assumes "total_preorder le" and "sorted_wrt le xs"
  shows "sorted_wrt le (insert_by le x xs)"
  using assms(2)
proof (induction xs)
  case (Cons y ys)
  have tot: "le a b \<or> le b a" for a b using assms(1) by (auto simp: total_preorder_def)
  have trans: "le a b \<Longrightarrow> le b c \<Longrightarrow> le a c" for a b c
    using assms(1) by (auto simp: total_preorder_def)
  from Cons show ?case using tot [of x y] by (auto intro: trans)
qed simp

lemma sorted_order_by: "total_preorder le \<Longrightarrow> sorted_wrt le (order_by le rows)"
  by (induction rows) (simp_all add: sorted_insert_by)

section \<open>Decimal numerals\<close>

text \<open>Template literals such as \<open>${project.key}-${n}\<close> print integers in decimal.\<close>

definition digit_char :: "nat \<Rightarrow> char" where
  "digit_char d = char_of (48 + d)"

fun show_nat :: "nat \<Rightarrow> string" where
  "show_nat n = (if n < 10 then [digit_char n] else show_nat (n div 10) @ [digit_char (n mod 10)])"

declare show_nat.simps [simp del]

definition show_int :: "int \<Rightarrow> string" where
  "show_int i = (if i < 0 then CHR ''-'' # show_nat (nat (- i)) else show_nat (nat i))"

lemma digit_char_inject: "a < 10 \<Longrightarrow> b < 10 \<Longrightarrow> digit_char a = digit_char b \<Longrightarrow> a = b"
  by (auto simp: digit_char_def dest: arg_cong [where f = "of_char :: char \<Rightarrow> nat"])

lemma show_nat_nonempty [simp]: "show_nat n \<noteq> []"
  by (subst show_nat.simps) simp

lemma show_nat_snoc:
  "show_nat n = (if n < 10 then [] else show_nat (n div 10)) @ [digit_char (n mod 10)]"
  by (subst show_nat.simps) simp

lemma show_nat_inject: "show_nat m = show_nat n \<Longrightarrow> m = n"
proof (induction m arbitrary: n rule: less_induct)
  case (less m)
  let ?pre = "\<lambda>n. if n < 10 then [] else show_nat (n div 10)"
  have eq: "?pre m = ?pre n" and last: "digit_char (m mod 10) = digit_char (n mod 10)"
    using less.prems by (simp_all only: show_nat_snoc [of m] show_nat_snoc [of n] append1_eq_conv)
  have rem: "m mod 10 = n mod 10" by (rule digit_char_inject [OF _ _ last]) simp_all
  show ?case
  proof (cases "m < 10")
    case True
    with eq have "n < 10" by (metis show_nat_nonempty)
    with True rem show ?thesis by simp
  next
    case False
    with eq have n: "\<not> n < 10" by (metis show_nat_nonempty)
    from False n eq have "show_nat (m div 10) = show_nat (n div 10)" by simp
    moreover have "m div 10 < m" using False by simp
    ultimately have "m div 10 = n div 10" using less.IH by blast
    with rem show ?thesis by (metis div_mult_mod_eq)
  qed
qed

lemma show_nat_digits: "c \<in> set (show_nat n) \<Longrightarrow> \<exists>d < 10. c = digit_char d"
proof (induction n rule: less_induct)
  case (less n)
  show ?case
  proof (cases "n < 10")
    case True
    with less.prems show ?thesis by (subst (asm) show_nat.simps) auto
  next
    case False
    then have "n div 10 < n" by simp
    moreover have "c \<in> set (show_nat (n div 10)) \<or> c = digit_char (n mod 10)"
      using less.prems False by (subst (asm) show_nat.simps) auto
    moreover have "n mod 10 < 10" by simp
    ultimately show ?thesis using less.IH by blast
  qed
qed

lemma dash_not_digit: "d < 10 \<Longrightarrow> digit_char d \<noteq> CHR ''-''"
  by (auto simp: digit_char_def dest: arg_cong [where f = "of_char :: char \<Rightarrow> nat"])

lemma dash_not_in_show_nat: "CHR ''-'' \<notin> set (show_nat n)"
  using show_nat_digits dash_not_digit by metis

lemma show_int_inject: "show_int i = show_int j \<Longrightarrow> i = j"
proof -
  assume eq: "show_int i = show_int j"
  have dash: "show_nat n \<noteq> CHR ''-'' # xs" for n xs
    using dash_not_in_show_nat [of n] by auto
  show "i = j"
  proof (cases "i < 0")
    case True
    have "j < 0"
    proof (rule ccontr)
      assume "\<not> j < 0"
      with True eq have "show_nat (nat j) = CHR ''-'' # show_nat (nat (- i))"
        by (simp add: show_int_def)
      with dash show False by blast
    qed
    with True eq have "nat (- i) = nat (- j)" by (auto simp: show_int_def dest: show_nat_inject)
    with True \<open>j < 0\<close> show ?thesis by simp
  next
    case False
    with eq dash have "\<not> j < 0" by (metis show_int_def)
    with False eq have "nat i = nat j" by (auto simp: show_int_def dest: show_nat_inject)
    with False \<open>\<not> j < 0\<close> show ?thesis by simp
  qed
qed

section \<open>Strings\<close>

text \<open>
  \<open>String.prototype.trim\<close>: white space and line terminators at both ends. Strings are lists of
  code units below 256.
\<close>

definition is_space :: "char \<Rightarrow> bool" where
  "is_space c \<longleftrightarrow> (of_char c :: nat) \<in> {9, 10, 11, 12, 13, 32, 160}"

definition trim :: "string \<Rightarrow> string" where
  "trim s = rev (dropWhile is_space (rev (dropWhile is_space s)))"

lemma trim_Nil [simp]: "trim [] = []"
  by (simp add: trim_def)

lemma hd_dropWhile_not: "dropWhile P xs = y # ys \<Longrightarrow> \<not> P y"
  using hd_dropWhile [of P xs] by force

lemma rev_dropWhile_rev: "\<exists>zs. xs = rev (dropWhile P (rev xs)) @ zs"
  by (metis rev_append rev_rev_ident takeWhile_dropWhile_id)

lemma trim_ends:
  assumes "trim s \<noteq> []"
  shows "\<not> is_space (hd (trim s))" and "\<not> is_space (last (trim s))"
proof -
  let ?d = "dropWhile is_space s"
  obtain zs where d: "?d = trim s @ zs"
    using rev_dropWhile_rev [of ?d is_space] by (auto simp: trim_def)
  with assms have "\<exists>ys. ?d = hd (trim s) # ys" by (cases "trim s") auto
  then show "\<not> is_space (hd (trim s))" using hd_dropWhile_not by metis
  from assms have "dropWhile is_space (rev ?d) \<noteq> []" by (simp add: trim_def)
  then have "\<not> is_space (hd (dropWhile is_space (rev ?d)))" by (rule hd_dropWhile)
  then show "\<not> is_space (last (trim s))" by (simp add: trim_def last_rev)
qed

lemma dropWhile_eq_self: "xs = [] \<or> \<not> P (hd xs) \<Longrightarrow> dropWhile P xs = xs"
  by (cases xs) auto

lemma trim_id: "s = [] \<or> (\<not> is_space (hd s) \<and> \<not> is_space (last s)) \<Longrightarrow> trim s = s"
  by (auto simp: trim_def dropWhile_eq_self hd_rev)

lemma trim_trim [simp]: "trim (trim s) = trim s"
  using trim_ends [of s] by (intro trim_id) blast

lemma length_trim: "length (trim s) \<le> length s"
  unfolding trim_def using length_dropWhile_le le_trans by (metis length_rev)

text \<open>An optional string in a condition: absent, null and the empty string are false.\<close>

definition truthy :: "string option \<Rightarrow> bool" where
  "truthy x = (x \<noteq> None \<and> x \<noteq> Some [])"

lemma truthy_simps [simp]:
  "\<not> truthy None"
  "truthy (Some s) \<longleftrightarrow> s \<noteq> []"
  by (simp_all add: truthy_def)

text \<open>Spreading \<open>ip\<close> into a row only when it is truthy.\<close>

definition if_truthy :: "string option \<Rightarrow> string option" where
  "if_truthy x = (if truthy x then x else None)"

text \<open>\<open>toLowerCase\<close> on code units below 256.\<close>

definition lower_char :: "char \<Rightarrow> char" where
  "lower_char c = (let n = of_char c :: nat
     in if 65 \<le> n \<and> n \<le> 90 \<or> 192 \<le> n \<and> n \<le> 222 \<and> n \<noteq> 215 then char_of (n + 32) else c)"

definition lower :: "string \<Rightarrow> string" where
  "lower s = map lower_char s"

definition newline :: string where
  "newline = [char_of (10::nat)]"

text \<open>\<open>startsWith\<close>, \<open>includes\<close> and \<open>join\<close>.\<close>

definition starts_with :: "string \<Rightarrow> string \<Rightarrow> bool" where
  "starts_with prefix s \<longleftrightarrow> take (length prefix) s = prefix"

fun has_part :: "string \<Rightarrow> string \<Rightarrow> bool" where
  "has_part [] t = (t = [])"
| "has_part (c # s) t = (starts_with t (c # s) \<or> has_part s t)"

fun join :: "string \<Rightarrow> string list \<Rightarrow> string" where
  "join sep [] = []"
| "join sep [s] = s"
| "join sep (s # t # ss) = s @ sep @ join sep (t # ss)"

lemma has_part_iff: "has_part s t \<longleftrightarrow> (\<exists>a b. s = a @ t @ b)"
proof (induction s)
  case (Cons c s)
  have "starts_with t (c # s) \<longleftrightarrow> (\<exists>b. c # s = t @ b)"
    unfolding starts_with_def by (metis append_eq_conv_conj append_take_drop_id)
  with Cons show ?case by (auto simp: Cons_eq_append_conv)
qed simp

text \<open>\<open>x ?? y\<close> and a property of an update that is applied only when it is present.\<close>

definition override :: "'a option \<Rightarrow> 'a \<Rightarrow> 'a" where
  "override new old = (case new of None \<Rightarrow> old | Some x \<Rightarrow> x)"

lemma override_simps [simp]:
  "override None old = old"
  "override (Some x) old = x"
  by (simp_all add: override_def)

section \<open>Interfaces\<close>

text \<open>Updating rows without touching the key the table is searched by.\<close>

locale row_update =
  fixes key :: "'r \<Rightarrow> 'k" and upd :: "'r \<Rightarrow> 'r"
  assumes key_upd: "key (upd r) = key r"
begin

lemma keys_kept: "map key (update_where p upd rows) = map key rows"
  by (rule map_update_where) (rule key_upd)

lemma distinct_kept: "distinct (map key (update_where p upd rows)) = distinct (map key rows)"
  by (simp only: keys_kept)

lemma find_updated:
  "find_row key k (update_where p upd rows) =
    map_option (\<lambda>r. if p r then upd r else r) (find_row key k rows)"
  by (induction rows) (auto simp: key_upd)

end

text \<open>A handler behind a check: what it changes, and when it can succeed.\<close>

locale guarded_handler =
  fixes run :: "'w \<Rightarrow> ('e + 'a) \<times> 'w" and may :: "'w \<Rightarrow> bool"
  assumes denied: "\<not> may w \<Longrightarrow> \<exists>e. run w = (Inl e, w)"
begin

lemma effect_authorised: "snd (run w) \<noteq> w \<Longrightarrow> may w"
  using denied by fastforce

lemma success_authorised: "run w = (Inr a, w') \<Longrightarrow> may w"
  using denied by fastforce

end

locale atomic_handler = guarded_handler +
  assumes clean: "fails_clean w (run w)"
begin

lemma effect_succeeds: "snd (run w) \<noteq> w \<Longrightarrow> \<exists>a. fst (run w) = Inr a"
  using clean [of w] by (cases "fst (run w)") (auto simp: fails_clean_def)

end

text \<open>Operations that keep an invariant.\<close>

locale operation_system =
  fixes inv :: "'w \<Rightarrow> bool" and ok :: "'op \<Rightarrow> 'w \<Rightarrow> bool" and exec :: "'op \<Rightarrow> 'w \<Rightarrow> 'w"
  assumes exec_inv: "inv w \<Longrightarrow> ok op w \<Longrightarrow> inv (exec op w)"
begin

fun run_ok :: "'op list \<Rightarrow> 'w \<Rightarrow> bool" where
  "run_ok [] w = True"
| "run_ok (op # ops) w = (ok op w \<and> run_ok ops (exec op w))"

lemma run_inv: "inv w \<Longrightarrow> run_ok ops w \<Longrightarrow> inv (fold exec ops w)"
  by (induction ops arbitrary: w) (auto intro: exec_inv)

end

text \<open>Operations that moreover follow an abstract machine, each by at most one of its steps.\<close>

locale refining_system = operation_system inv ok exec
  for inv :: "'w \<Rightarrow> bool" and ok :: "'op \<Rightarrow> 'w \<Rightarrow> bool" and exec :: "'op \<Rightarrow> 'w \<Rightarrow> 'w" +
  fixes view :: "'w \<Rightarrow> 's" and step :: "'s \<Rightarrow> 's \<Rightarrow> bool"
  assumes exec_refines: "inv w \<Longrightarrow> ok op w \<Longrightarrow> step\<^sup>=\<^sup>= (view w) (view (exec op w))"
begin

lemma run_refines: "inv w \<Longrightarrow> run_ok ops w \<Longrightarrow> step\<^sup>*\<^sup>* (view w) (view (fold exec ops w))"
proof (induction ops arbitrary: w)
  case (Cons op ops)
  then have "step\<^sup>*\<^sup>* (view w) (view (exec op w))" using exec_refines [of w op] by auto
  also have "step\<^sup>*\<^sup>* (view (exec op w)) (view (fold exec ops (exec op w)))"
    using Cons exec_inv by auto
  finally show ?case by simp
qed simp

end

text \<open>
  Operations that follow a labelled machine: the step an operation takes, if any, is the one its label
  names. The states along a run are compared one by one, so nothing can be undone and redone in between.
\<close>

fun states_along :: "('op \<Rightarrow> 'w \<Rightarrow> 'w) \<Rightarrow> 'op list \<Rightarrow> 'w \<Rightarrow> 'w list" where
  "states_along exec [] w = [w]"
| "states_along exec (op # ops) w = w # states_along exec ops (exec op w)"

fun follows_labels :: "('op \<Rightarrow> 's \<Rightarrow> 's \<Rightarrow> bool) \<Rightarrow> 'op list \<Rightarrow> 's list \<Rightarrow> bool" where
  "follows_labels step (op # ops) (s # t # ss) = ((t = s \<or> step op s t) \<and> follows_labels step ops (t # ss))"
| "follows_labels step ops ss = (ops = [] \<and> length ss = 1)"

locale labelled_system = operation_system inv ok exec
  for inv :: "'w \<Rightarrow> bool" and ok :: "'op \<Rightarrow> 'w \<Rightarrow> bool" and exec :: "'op \<Rightarrow> 'w \<Rightarrow> 'w" +
  fixes view :: "'w \<Rightarrow> 's" and step :: "'op \<Rightarrow> 's \<Rightarrow> 's \<Rightarrow> bool"
  assumes exec_steps: "inv w \<Longrightarrow> ok op w \<Longrightarrow> view (exec op w) = view w \<or> step op (view w) (view (exec op w))"
begin

lemma run_follows:
  "inv w \<Longrightarrow> run_ok ops w \<Longrightarrow> follows_labels step ops (map view (states_along exec ops w))"
proof (induction ops arbitrary: w)
  case (Cons op ops)
  then have "follows_labels step ops (map view (states_along exec ops (exec op w)))" by (auto intro: exec_inv)
  with Cons.prems exec_steps [of w op] show ?case by (cases ops) auto
qed simp

text \<open>What every step the operations of a run can take keeps, the run keeps.\<close>

lemma run_keeps:
  assumes "inv w" and "run_ok ops w" and "P (view w)"
    and "\<And>op s t. op \<in> set ops \<Longrightarrow> step op s t \<Longrightarrow> P s \<Longrightarrow> P t"
  shows "P (view (fold exec ops w))"
  using assms
proof (induction ops arbitrary: w)
  case (Cons op ops)
  from exec_steps [of w op] Cons.prems have "P (view (exec op w))" by auto
  with Cons show ?case by (auto intro: exec_inv)
qed simp

end

end
