(* ===== verification/JsNumber.thy ===== *)
theory JsNumber
  imports Prelude Complex_Main "HOL-Library.Log_Nat"
begin

text \<open>
  The numbers of the language: binary64 values as exact rationals with the two infinities and
  not-a-number. Arithmetic rounds the exact result to the nearest double, ties to even, with
  subnormals and overflow. Negative zero is identified with zero: no modelled operation tells
  them apart (divisions by zero are guarded, and \<open>===\<close>, ordering and printing agree on them).
\<close>

section \<open>Rounding\<close>

datatype jsnum = NaN | PosInf | NegInf | Fin rat

text \<open>The nearest integer, ties to even.\<close>

definition nearest_even :: "rat \<Rightarrow> int" where
  "nearest_even m = (let f = \<lfloor>m\<rfloor>; d = m - of_int f
     in if d < 1 / 2 then f else if 1 / 2 < d then f + 1 else if even f then f else f + 1)"

text \<open>The exponent of the leading binary digit of a positive number.\<close>

definition log2_floor :: "rat \<Rightarrow> int" where
  "log2_floor q = (if 1 \<le> q then bitlen \<lfloor>q\<rfloor> - 1
     else let b = bitlen \<lfloor>1 / q\<rfloor> in if q * 2 ^ nat (b - 1) = 1 then 1 - b else - b)"

definition ulp_exponent :: "rat \<Rightarrow> int" where
  "ulp_exponent q = max (log2_floor \<bar>q\<bar> - 52) (- 1074)"

definition scale :: "rat \<Rightarrow> int \<Rightarrow> rat" where
  "scale q e = (if 0 \<le> e then q * 2 ^ nat e else q / 2 ^ nat (- e))"

definition max_double :: rat where
  "max_double = (2 ^ 53 - 1) * 2 ^ 971"

definition to_double :: "rat \<Rightarrow> jsnum" where
  "to_double q = (if q = 0 then Fin 0
     else let e = ulp_exponent q; r = scale (of_int (nearest_even (scale q (- e)))) e
          in if max_double < r then PosInf else if r < - max_double then NegInf else Fin r)"

section \<open>Operations\<close>

definition js_finite :: "jsnum \<Rightarrow> bool" where
  "js_finite x \<longleftrightarrow> (\<exists>q. x = Fin q)"

fun js_neg :: "jsnum \<Rightarrow> jsnum" where
  "js_neg NaN = NaN"
| "js_neg PosInf = NegInf"
| "js_neg NegInf = PosInf"
| "js_neg (Fin q) = Fin (- q)"

fun js_add :: "jsnum \<Rightarrow> jsnum \<Rightarrow> jsnum" where
  "js_add (Fin a) (Fin b) = to_double (a + b)"
| "js_add NaN y = NaN"
| "js_add x NaN = NaN"
| "js_add PosInf NegInf = NaN"
| "js_add NegInf PosInf = NaN"
| "js_add PosInf y = PosInf"
| "js_add NegInf y = NegInf"
| "js_add x PosInf = PosInf"
| "js_add x NegInf = NegInf"

definition js_sub :: "jsnum \<Rightarrow> jsnum \<Rightarrow> jsnum" where
  "js_sub x y = js_add x (js_neg y)"

text \<open>The sign of a number, for products and quotients with an infinity.\<close>

fun js_sign :: "jsnum \<Rightarrow> int" where
  "js_sign NaN = 0"
| "js_sign PosInf = 1"
| "js_sign NegInf = - 1"
| "js_sign (Fin q) = (if q = 0 then 0 else if 0 < q then 1 else - 1)"

definition signed_inf :: "int \<Rightarrow> jsnum" where
  "signed_inf s = (if s = 0 then NaN else if 0 < s then PosInf else NegInf)"

definition js_mul :: "jsnum \<Rightarrow> jsnum \<Rightarrow> jsnum" where
  "js_mul x y = (case (x, y) of (Fin a, Fin b) \<Rightarrow> to_double (a * b)
     | (NaN, _) \<Rightarrow> NaN | (_, NaN) \<Rightarrow> NaN | _ \<Rightarrow> signed_inf (js_sign x * js_sign y))"

text \<open>Division by a finite number other than zero, which is all the code does.\<close>

definition js_div :: "jsnum \<Rightarrow> rat \<Rightarrow> jsnum" where
  "js_div x b = (case x of Fin a \<Rightarrow> to_double (a / b) | NaN \<Rightarrow> NaN
     | _ \<Rightarrow> signed_inf (js_sign x * js_sign (Fin b)))"

fun js_less :: "jsnum \<Rightarrow> jsnum \<Rightarrow> bool" where
  "js_less (Fin a) (Fin b) = (a < b)"
| "js_less NaN y = False"
| "js_less x NaN = False"
| "js_less x NegInf = False"
| "js_less PosInf y = False"
| "js_less NegInf y = True"
| "js_less x PosInf = True"

definition js_eq :: "jsnum \<Rightarrow> jsnum \<Rightarrow> bool" where
  "js_eq x y \<longleftrightarrow> x = y \<and> x \<noteq> NaN"

definition js_le :: "jsnum \<Rightarrow> jsnum \<Rightarrow> bool" where
  "js_le x y \<longleftrightarrow> js_less x y \<or> js_eq x y"

definition js_min :: "jsnum \<Rightarrow> jsnum \<Rightarrow> jsnum" where
  "js_min x y = (if x = NaN \<or> y = NaN then NaN else if js_less y x then y else x)"

definition js_max :: "jsnum \<Rightarrow> jsnum \<Rightarrow> jsnum" where
  "js_max x y = (if x = NaN \<or> y = NaN then NaN else if js_less x y then y else x)"

text \<open>
  \<open>Math.floor\<close>, \<open>Math.ceil\<close>, \<open>Math.abs\<close> and \<open>Math.round\<close> (ties upwards). On a double their
  exact results are doubles again.
\<close>

definition js_int :: "(rat \<Rightarrow> int) \<Rightarrow> jsnum \<Rightarrow> jsnum" where
  "js_int f x = (case x of Fin q \<Rightarrow> Fin (of_int (f q)) | _ \<Rightarrow> x)"

definition round_up :: "rat \<Rightarrow> int" where
  "round_up q = \<lfloor>q + 1 / 2\<rfloor>"

definition js_floor :: "jsnum \<Rightarrow> jsnum" where
  "js_floor = js_int floor"

definition js_ceil :: "jsnum \<Rightarrow> jsnum" where
  "js_ceil = js_int ceiling"

definition js_round :: "jsnum \<Rightarrow> jsnum" where
  "js_round = js_int round_up"

definition js_abs :: "jsnum \<Rightarrow> jsnum" where
  "js_abs x = (if js_less x (Fin 0) then js_neg x else x)"

definition of_int_js :: "int \<Rightarrow> jsnum" where
  "of_int_js i = to_double (of_int i)"

text \<open>\<open>Math.max(0, Math.min(100, x))\<close>.\<close>

definition clamp_percent :: "jsnum \<Rightarrow> jsnum" where
  "clamp_percent x = js_max (Fin 0) (js_min (Fin 100) x)"

text \<open>
  A time value: \<open>TimeClip\<close> cuts the fraction off and refuses what is beyond 8.64e15; \<open>None\<close>
  is an invalid date.
\<close>

definition truncate_rat :: "rat \<Rightarrow> int" where
  "truncate_rat q = (if 0 \<le> q then \<lfloor>q\<rfloor> else \<lceil>q\<rceil>)"

definition time_clip :: "jsnum \<Rightarrow> int option" where
  "time_clip x = (case x of Fin q \<Rightarrow> if \<bar>q\<bar> \<le> 8640000000000000 then Some (truncate_rat q) else None | _ \<Rightarrow> None)"

section \<open>Rounding lemmas\<close>

lemma nearest_even_of_int [simp]: "nearest_even (of_int i) = i"
  by (simp add: nearest_even_def)

lemma nearest_even_bounds:
  assumes "of_int a \<le> m" and "m \<le> of_int b"
  shows "a \<le> nearest_even m \<and> nearest_even m \<le> b"
proof -
  have f: "of_int \<lfloor>m\<rfloor> \<le> m" "m < of_int \<lfloor>m\<rfloor> + 1" by linarith+
  have "a \<le> \<lfloor>m\<rfloor>" using assms(1) by (simp add: le_floor_iff)
  moreover have "\<lfloor>m\<rfloor> \<le> b" using assms(2) f(1) by linarith
  moreover have "\<lfloor>m\<rfloor> + 1 \<le> b" if "1 / 2 \<le> m - of_int \<lfloor>m\<rfloor>"
  proof (rule ccontr)
    assume "\<not> \<lfloor>m\<rfloor> + 1 \<le> b"
    with \<open>\<lfloor>m\<rfloor> \<le> b\<close> have "b = \<lfloor>m\<rfloor>" by linarith
    with assms(2) f(1) that show False by linarith
  qed
  ultimately show ?thesis by (auto simp: nearest_even_def Let_def)
qed

lemma nearest_even_close: "\<bar>of_int (nearest_even m) - m\<bar> \<le> 1 / 2"
proof -
  define d where "d = m - of_int \<lfloor>m\<rfloor>"
  have d: "0 \<le> d" "d < 1" unfolding d_def by linarith+
  have "of_int (nearest_even m) - m = - d \<and> d \<le> 1 / 2 \<or> of_int (nearest_even m) - m = 1 - d \<and> 1 / 2 \<le> d"
    by (simp add: nearest_even_def Let_def d_def)
  with d show ?thesis by auto
qed

lemma power2_less: "(2::rat) ^ a * 2 ^ b < 2 ^ c \<Longrightarrow> a + b < c"
  by (simp add: power_add [symmetric])

lemma bitlen_floor:
  assumes "1 \<le> (q::rat)"
  shows "1 \<le> bitlen \<lfloor>q\<rfloor>" and "2 ^ nat (bitlen \<lfloor>q\<rfloor> - 1) \<le> q" and "q < 2 ^ nat (bitlen \<lfloor>q\<rfloor>)"
proof -
  have p: "0 < \<lfloor>q\<rfloor>" using assms by simp
  note b = bitlen_bounds [OF p]
  have "bitlen \<lfloor>q\<rfloor> \<noteq> 0" using b p by auto
  then show "1 \<le> bitlen \<lfloor>q\<rfloor>" using bitlen_nonneg [of "\<lfloor>q\<rfloor>"] by linarith
  have "(of_int (2 ^ nat (bitlen \<lfloor>q\<rfloor> - 1)) :: rat) \<le> of_int \<lfloor>q\<rfloor>" using b by (simp only: of_int_le_iff)
  then show "2 ^ nat (bitlen \<lfloor>q\<rfloor> - 1) \<le> q" by (simp add: order_trans [OF _ of_int_floor_le])
  have "\<lfloor>q\<rfloor> < 2 ^ nat (bitlen \<lfloor>q\<rfloor>)" using b by blast
  then show "q < 2 ^ nat (bitlen \<lfloor>q\<rfloor>)" by (simp add: floor_less_iff)
qed

lemma log2_floor_bound:
  assumes "0 < q" and "q * 2 ^ j < 2 ^ n"
  shows "log2_floor q < int n - int j"
proof (cases "1 \<le> q")
  case True
  note b = bitlen_floor [OF True]
  have "2 ^ nat (bitlen \<lfloor>q\<rfloor> - 1) * 2 ^ j < (2::rat) ^ n"
    using b(2) assms(2) by (meson mult_right_mono order_le_less_trans zero_le_numeral zero_le_power)
  then have "nat (bitlen \<lfloor>q\<rfloor> - 1) + j < n" by (rule power2_less)
  with b(1) True show ?thesis by (simp add: log2_floor_def)
next
  case False
  then have "1 \<le> 1 / q" using assms(1) by simp
  note b = bitlen_floor [OF this]
  let ?b = "bitlen \<lfloor>1 / q\<rfloor>"
  show ?thesis
  proof (cases "q * 2 ^ nat (?b - 1) = 1")
    case True
    have "2 ^ j = q * 2 ^ nat (?b - 1) * 2 ^ j" using True by simp
    also have "\<dots> = q * 2 ^ j * 2 ^ nat (?b - 1)" by (simp only: ac_simps)
    also have "\<dots> < 2 ^ n * 2 ^ nat (?b - 1)" using assms(2) by simp
    finally have "j < n + nat (?b - 1)" by (simp add: power_add [symmetric])
    with b(1) True False show ?thesis by (simp add: log2_floor_def Let_def)
  next
    case exact: False
    have "1 < q * 2 ^ nat ?b" using b(3) assms(1) by (simp add: field_simps)
    then have "2 ^ j < q * 2 ^ nat ?b * 2 ^ j" by simp
    also have "\<dots> = q * 2 ^ j * 2 ^ nat ?b" by simp
    also have "\<dots> < 2 ^ n * 2 ^ nat ?b" using assms(2) by simp
    finally have "j < n + nat ?b" by (simp add: power_add [symmetric])
    with b(1) exact False show ?thesis by (simp add: log2_floor_def Let_def)
  qed
qed

text \<open>
  Rounding stays between the multiples of a power of two that it started between, as long as
  they have at most 53 binary digits; so it leaves such multiples alone.
\<close>

lemma to_double_between_grid:
  assumes "of_int a / 2 ^ j \<le> q" and "q \<le> of_int b / 2 ^ j" and "- (2 ^ 53) < a" and "b < 2 ^ 53" and "j \<le> 1074"
  shows "\<exists>r. to_double q = Fin r \<and> of_int a / 2 ^ j \<le> r \<and> r \<le> of_int b / 2 ^ j"
proof (cases "q = 0")
  case True
  with assms(1,2) show ?thesis by (simp add: to_double_def)
next
  case False
  define k where "k = nat (- ulp_exponent q)"
  have big: "(2 ^ 53 :: rat) \<le> max_double" by (simp add: max_double_def)
  have ends: "(- (2 ^ 53) :: rat) < of_int a" "(of_int b :: rat) < 2 ^ 53"
  proof -
    have "(of_int (- (2 ^ 53)) :: rat) < of_int a" "(of_int b :: rat) < of_int (2 ^ 53)"
      using assms(3,4) by (simp_all only: of_int_less_iff)
    then show "(- (2 ^ 53) :: rat) < of_int a" "(of_int b :: rat) < 2 ^ 53" by simp_all
  qed
  have q: "of_int a \<le> q * 2 ^ j" "q * 2 ^ j \<le> of_int b" using assms(1,2) by (simp_all add: field_simps)
  then have "\<bar>q\<bar> * 2 ^ j < 2 ^ 53" using ends by (cases "0 \<le> q") (simp_all add: abs_if)
  then have "log2_floor \<bar>q\<bar> < int 53 - int j" using False by (intro log2_floor_bound) simp_all
  then have exp: "ulp_exponent q \<le> - int j" using assms(5) by (simp add: ulp_exponent_def)
  then have up: "scale q (- ulp_exponent q) = q * 2 ^ k" and down: "scale x (ulp_exponent q) = x / 2 ^ k" for x
    by (auto simp: scale_def k_def)
  have "j \<le> k" using exp by (simp add: k_def)
  then obtain d where d: "k = j + d" by (metis le_Suc_ex)
  let ?n = "nearest_even (q * 2 ^ k)"
  have "of_int (a * 2 ^ d) \<le> q * 2 ^ k" "q * 2 ^ k \<le> of_int (b * 2 ^ d)"
    using mult_right_mono [OF q(1), of "2 ^ d"] mult_right_mono [OF q(2), of "2 ^ d"] by (simp_all add: d power_add mult.assoc)
  then have "a * 2 ^ d \<le> ?n \<and> ?n \<le> b * 2 ^ d" by (rule nearest_even_bounds)
  then have "(of_int (a * 2 ^ d) :: rat) \<le> of_int ?n" "(of_int ?n :: rat) \<le> of_int (b * 2 ^ d)"
    by (simp_all only: of_int_le_iff)
  then have b: "of_int a / 2 ^ j \<le> (of_int ?n :: rat) / 2 ^ k" "(of_int ?n :: rat) / 2 ^ k \<le> of_int b / 2 ^ j"
    by (simp_all add: field_simps d power_add)
  have "- (2 ^ 53) \<le> (of_int a :: rat) / 2 ^ j" "(of_int b :: rat) / 2 ^ j \<le> 2 ^ 53"
  proof -
    have one: "(1::rat) \<le> 2 ^ j" by simp
    have "(2::rat) ^ 53 * 1 \<le> 2 ^ 53 * 2 ^ j" using one by (rule mult_left_mono) simp
    then have "- ((2::rat) ^ 53 * 2 ^ j) \<le> of_int a" "of_int b \<le> (2::rat) ^ 53 * 2 ^ j"
      using ends by linarith+
    then show "- (2 ^ 53) \<le> (of_int a :: rat) / 2 ^ j" "(of_int b :: rat) / 2 ^ j \<le> 2 ^ 53"
      by (simp_all add: pos_le_divide_eq pos_divide_le_eq)
  qed
  with b big have "- max_double \<le> (of_int ?n :: rat) / 2 ^ k" "(of_int ?n :: rat) / 2 ^ k \<le> max_double"
    by linarith+
  then have "to_double q = Fin ((of_int ?n :: rat) / 2 ^ k)"
    using False by (simp add: to_double_def Let_def up down not_less)
  with b show ?thesis by blast
qed

lemma to_double_between:
  assumes "of_int a \<le> q" and "q \<le> of_int b" and "- (2 ^ 53) < a" and "b < 2 ^ 53"
  shows "\<exists>r. to_double q = Fin r \<and> of_int a \<le> r \<and> r \<le> of_int b"
  using to_double_between_grid [of a 0 q b] assms by simp

lemma to_double_grid: "- (2 ^ 53) < a \<Longrightarrow> a < 2 ^ 53 \<Longrightarrow> j \<le> 1074 \<Longrightarrow> to_double (of_int a / 2 ^ j) = Fin (of_int a / 2 ^ j)"
  using to_double_between_grid [of a j "of_int a / 2 ^ j" a] by auto

lemma to_double_of_int [simp]: "\<bar>i\<bar> < 2 ^ 53 \<Longrightarrow> to_double (of_int i) = Fin (of_int i)"
  using to_double_between [of i "of_int i" i] by (auto simp: abs_less_iff)

lemma to_double_numeral [simp]:
  "to_double 0 = Fin 0" "to_double 1 = Fin 1" "numeral n < (2 ^ 53 :: int) \<Longrightarrow> to_double (numeral n) = Fin (numeral n)"
  using to_double_of_int [of 0] to_double_of_int [of 1] to_double_of_int [of "numeral n"] by simp_all

lemma to_double_not_NaN [simp]: "to_double q \<noteq> NaN"
  by (simp add: to_double_def Let_def)

lemma js_finite_code [code]: "js_finite x = (case x of Fin q \<Rightarrow> True | _ \<Rightarrow> False)"
  by (simp add: js_finite_def split: jsnum.splits)

end
