(* ===== verification/Schema.thy ===== *)
theory Schema
  imports JsNumber
begin

text \<open>
  The tables of \<^verbatim>\<open>apps/api/prisma/schema.prisma\<close> that the modelled services read and
  write, one record per model with the columns they use, the inputs of the task endpoints,
  the domain events they emit, and the state of the API as one record \<open>world\<close> of tables and
  emitted events. Identifiers are the text of their UUIDs, dates are milliseconds since the
  epoch, nullable columns are \<open>option\<close> values; \<open>updatedAt\<close> columns are left out.

  A request also reads its environment: the clock (\<open>clk n\<close> is what the n-th clock read of
  the request returns), generated UUIDs (\<open>uuid n\<close> is the n-th one), the collation of the
  database for text columns (\<open>coll\<close>) and \<open>generateKeyBetween\<close> of the package
  \<^verbatim>\<open>fractional-indexing\<close> (\<open>keyBetween a b\<close>, \<open>None\<close> when it throws). These are
  parameters of the model.
\<close>

section \<open>Enumerations\<close>

datatype user_kind = UInternal | UClient
datatype company_role = Admin | Member
datatype project_role = Client | Viewer | Contributor | Manager
datatype project_visibility = PPublic | PTeams | PPrivate
datatype workflow_preset = Engineering | Design | Generic
datatype priority = Low | Medium | High | Critical
datatype task_type = Epic | Story | Task | Bug | Subtask
datatype visibility = VInternal | VClientVisible
datatype sprint_state = Planned | Active | Completed
datatype link_type = Blocks | Related | Duplicate
datatype subject_kind = SubjUser | SubjTeam
datatype frequency = Daily | Weekly | Monthly
datatype goal_status = GActive | GCompleted | GArchived
datatype trigger_source = ByUser | ByGithub | ByDeployment | BySystem

section \<open>Rows\<close>

record user_row =
  u_id :: string
  u_name :: string
  u_email :: string
  u_kind :: user_kind
  u_companyRole :: "company_role option"
  u_avatarUrl :: "string option"
  u_googleId :: "string option"
  u_archivedAt :: "int option"
  u_createdAt :: int
  u_lastSeenAt :: int
  u_weeklyHoursTarget :: "int option"
  u_pomodoroEnabled :: bool
  u_digestEnabled :: bool
  u_digestChannel :: string

record team_member_row =
  tm_teamId :: string
  tm_userId :: string

record team_row =
  te_id :: string
  te_name :: string
  te_slug :: string
  te_description :: "string option"
  te_createdById :: string

record project_row =
  p_id :: string
  p_key :: string
  p_name :: string
  p_description :: "string option"
  p_visibility :: project_visibility
  p_workflowPreset :: workflow_preset
  p_sprintsEnabled :: bool
  p_githubAutoStatus :: bool
  p_defaultTaskVisibility :: visibility
  p_archivedAt :: "int option"
  p_nextTaskNumber :: int
  p_maxAttachmentMb :: int
  p_chatSpaceId :: "string option"
  p_chatBroadcastEvents :: "string list"
  p_createdById :: string
  p_createdAt :: int

record template_task =
  tt_title :: string
  tt_description :: "string option"
  tt_type :: "task_type option"
  tt_priority :: "priority option"
  tt_status :: "string option"

record template_row =
  tpl_id :: string
  tpl_name :: string
  tpl_description :: "string option"
  tpl_workflowPreset :: workflow_preset
  tpl_sprintsEnabled :: bool
  tpl_visibility :: project_visibility
  tpl_labels :: "(string \<times> string) list"
  tpl_sampleTasks :: "template_task list"
  tpl_createdById :: string

record access_row =
  a_id :: string
  a_projectId :: string
  a_subjectKind :: subject_kind
  a_userId :: "string option"
  a_teamId :: "string option"
  a_role :: project_role
  a_grantedById :: string

record column_row =
  c_id :: string
  c_projectId :: string
  c_name :: string
  c_position :: int
  c_color :: "string option"

record status_row =
  s_id :: string
  s_projectId :: string
  s_columnId :: string
  s_name :: string
  s_position :: int
  s_color :: "string option"
  s_isInitialStatus :: bool
  s_isDoneStatus :: bool

record transition_row =
  wt_projectId :: string
  wt_fromStatus :: string
  wt_toStatus :: string

record task_row =
  t_id :: string
  t_projectId :: string
  t_keyNumber :: int
  t_type :: task_type
  t_title :: string
  t_description :: "string option"
  t_status :: string
  t_priority :: priority
  t_isBlocked :: bool
  t_blockedReason :: "string option"
  t_visibility :: visibility
  t_reportedByClient :: bool
  t_parentTaskId :: "string option"
  t_sprintId :: "string option"
  t_assigneeUserId :: "string option"
  t_reporterUserId :: string
  t_createdById :: string
  t_startDate :: "int option"
  t_dueDate :: "int option"
  t_estimate :: "int option"
  t_boardPosition :: string
  t_completedAt :: "int option"
  t_createdAt :: int

record link_row =
  l_id :: string
  l_fromTaskId :: string
  l_toTaskId :: string
  l_type :: link_type
  l_createdById :: string

record watcher_row =
  w_userId :: string
  w_taskId :: string

record reporter_row =
  r_taskId :: string
  r_userId :: string
  r_addedById :: string
  r_addedAt :: int

record mute_row =
  m_userId :: string
  m_taskId :: string

record label_row =
  lb_id :: string
  lb_projectId :: string
  lb_name :: string
  lb_color :: string

record task_label_row =
  tl_taskId :: string
  tl_labelId :: string
  tl_addedById :: string
  tl_addedAt :: int

record sprint_row =
  sp_id :: string
  sp_projectId :: string
  sp_name :: string
  sp_goal :: "string option"
  sp_startDate :: "int option"
  sp_endDate :: "int option"
  sp_state :: sprint_state
  sp_createdById :: string
  sp_createdAt :: int

record membership_row =
  sm_sprintId :: string
  sm_taskId :: string
  sm_addedAt :: int
  sm_removedAt :: "int option"

record worklog_row =
  wl_id :: string
  wl_taskId :: string
  wl_userId :: string
  wl_seconds :: int
  wl_startedAt :: int
  wl_endedAt :: "int option"
  wl_note :: "string option"

record goal_row =
  g_id :: string
  g_name :: string
  g_description :: "string option"
  g_ownerUserId :: string
  g_status :: goal_status
  g_progress :: "int option"
  g_startDate :: "int option"
  g_targetDate :: "int option"
  g_parentGoalId :: "string option"
  g_createdAt :: int

record key_result_row =
  kr_id :: string
  kr_goalId :: string
  kr_name :: string
  kr_unit :: "string option"
  kr_kind :: string
  kr_targetValue :: rat
  kr_currentValue :: rat
  kr_weight :: int
  kr_position :: int
  kr_createdAt :: int

record goal_task_row =
  gt_goalId :: string
  gt_taskId :: string
  gt_addedById :: string
  gt_addedAt :: int

record recurrence_row =
  rc_id :: string
  rc_taskId :: string
  rc_frequency :: frequency
  rc_interval :: int
  rc_weekdays :: "int list"
  rc_dayOfMonth :: "int option"
  rc_timezone :: string
  rc_nextRunAt :: int
  rc_lastRunAt :: "int option"
  rc_enabled :: bool
  rc_endsAt :: "int option"

text \<open>
  A value of a custom field: what its JSON column can hold after validation, and the dates that
  formulas compute with (a time value, \<open>None\<close> when invalid). The JSON configurations of a field
  have the shape that its validation asks for.
\<close>

datatype fval = VNum jsnum | VStr string | VBool bool | VDate "int option" | VNull | VArr "fval list"

datatype field_kind = KText | KNumber | KSelect | KMultiselect | KDate | KUrl | KCheckbox | KFormula | KRollup

record field_option =
  fo_value :: string
  fo_label :: string
  fo_color :: "string option"

datatype rollup_relation = RelSubtasks | RelLinkedTasks
datatype rollup_agg = AggSum | AggAvg | AggMin | AggMax | AggCount

record rollup_config =
  ru_relation :: rollup_relation
  ru_field :: string
  ru_agg :: rollup_agg

datatype visibility_op = OpEquals | OpIn | OpIsSet

record visibility_rule =
  vr_fieldKey :: string
  vr_op :: visibility_op
  vr_value :: "fval option"

record custom_field_row =
  cf_id :: string
  cf_projectId :: string
  cf_name :: string
  cf_kind :: field_kind
  cf_options :: "field_option list"
  cf_position :: int
  cf_required :: bool
  cf_archivedAt :: "int option"
  cf_formulaExpression :: "string option"
  cf_rollupConfig :: "rollup_config option"
  cf_visibilityRule :: "visibility_rule option"
  cf_createdAt :: int

record custom_value_row =
  cv_id :: string
  cv_taskId :: string
  cv_fieldId :: string
  cv_value :: fval

text \<open>
  The discussion of a task: comments with the range of another comment they quote, who they mention,
  the reactions to them and the bodies they had before an edit. An attachment has the columns
  that comments and the search read.
\<close>

record comment_row =
  cm_id :: string
  cm_taskId :: string
  cm_authorUserId :: string
  cm_bodyMd :: string
  cm_visibility :: visibility
  cm_editLockedAt :: "int option"
  cm_parentCommentId :: "string option"
  cm_quotedCommentId :: "string option"
  cm_quotedRangeStart :: "int option"
  cm_quotedRangeEnd :: "int option"
  cm_deletedAt :: "int option"
  cm_deletedById :: "string option"
  cm_createdAt :: int

record mention_row =
  mn_commentId :: string
  mn_userId :: "string option"
  mn_teamId :: "string option"

record reaction_row =
  rx_commentId :: string
  rx_userId :: string
  rx_emoji :: string

record revision_row =
  rv_commentId :: string
  rv_bodyMd :: string
  rv_editedById :: string
  rv_editedAt :: int

datatype attachment_parent = AttTask | AttComment | AttBugReport

datatype scan_status = ScanPending | ScanClean | ScanInfected

record attachment_row =
  at_id :: string
  at_parentType :: attachment_parent
  at_parentId :: string
  at_projectId :: string
  at_uploaderUserId :: string
  at_originalFilename :: string
  at_mimeType :: string
  at_sizeBytes :: int
  at_storageKey :: string
  at_visibility :: visibility
  at_scanStatus :: scan_status
  at_deletedAt :: "int option"
  at_createdAt :: int

text \<open>
  A JSON document, and an object as the list of its properties in their order. Automations keep the
  filter of their trigger and the parameters of their action in such objects.
\<close>

datatype json = JNull | JBool bool | JNum jsnum | JStr string | JArr "json list" | JObj "(string \<times> json) list"

type_synonym json_object = "(string \<times> json) list"

datatype automation_trigger =
    OnTaskCreated | OnStatusChanged | OnAssigned | OnUnassigned | OnDueSoon | OnBlocked | OnLabeled | OnCommentAdded

datatype automation_action =
    DoSetPriority | DoSetAssignee | DoAddLabel | DoRemoveLabel | DoTransitionStatus | DoAddComment | DoAddWatcher
  | DoNotifyUser | DoSetDueDate | DoSetSprint | DoSendWebhook

datatype run_status = RunSucceeded | RunSkipped | RunFailed

text \<open>The message of a run is a text, or that of the error that ended it.\<close>

datatype run_message = RunText string | RunError api_error

record automation_row =
  am_id :: string
  am_projectId :: string
  am_name :: string
  am_description :: "string option"
  am_enabled :: bool
  am_trigger :: automation_trigger
  am_triggerConfig :: json_object
  am_action :: automation_action
  am_actionConfig :: json_object
  am_createdById :: string
  am_runCount :: int
  am_lastRunAt :: "int option"
  am_createdAt :: int

record step_row =
  st_id :: string
  st_automationId :: string
  st_position :: int
  st_action :: automation_action
  st_actionConfig :: json_object

record run_row =
  ar_id :: string
  ar_automationId :: string
  ar_taskId :: "string option"
  ar_status :: run_status
  ar_message :: "run_message option"
  ar_payload :: json_object
  ar_createdAt :: int

record notification_row =
  nt_id :: string
  nt_recipientUserId :: string
  nt_type :: string
  nt_payload :: json_object
  nt_relatedTaskId :: "string option"
  nt_relatedProjectId :: "string option"
  nt_readAt :: "int option"
  nt_createdAt :: int

record saved_search_row =
  ss_id :: string
  ss_userId :: string
  ss_name :: string
  ss_query :: json_object
  ss_createdAt :: int

text \<open>
  What signing in keeps: the refresh tokens and the links sent by mail, each by the hash of its
  secret, the log of sign-ins, and the mails that were handed to the mail server. \<open>revoked_jti\<close> is an
  entry of the Redis set of revoked access tokens with the time it expires at.
\<close>

datatype link_intent = ClientLogin | ClientSignup | ProjectInvite

record refresh_row =
  rt_id :: string
  rt_userId :: string
  rt_tokenHash :: string
  rt_expiresAt :: int
  rt_rotatedToId :: "string option"
  rt_revokedAt :: "int option"
  rt_ip :: "string option"
  rt_userAgent :: "string option"
  rt_createdAt :: int

record magic_row =
  ml_id :: string
  ml_email :: string
  ml_tokenHash :: string
  ml_intent :: link_intent
  ml_expiresAt :: int
  ml_usedAt :: "int option"
  ml_ip :: "string option"
  ml_projectId :: "string option"
  ml_invitedByUserId :: "string option"
  ml_createdAt :: int

datatype audit_action =
    LoginGoogle | LoginMagicLink | LoginDev | LoggedOut | SessionRevoked | SessionRevokedOthers | RefreshReuse

record audit_row =
  al_userId :: "string option"
  al_action :: audit_action
  al_ip :: "string option"
  al_userAgent :: "string option"
  al_metadata :: "json_object option"
  al_createdAt :: int

record revoked_jti =
  rj_jti :: string
  rj_until :: int

record mail =
  mail_to :: string
  mail_subject :: string
  mail_text :: string

text \<open>A node of the editor's document tree, with its attributes, children, marks and text.\<close>

datatype pm_node = PmNode (pm_type: string) (pm_attrs: json_object) (pm_content: "pm_node list option")
  (pm_marks: "(string \<times> json_object) list") (pm_text: "string option")

text \<open>
  The documents of a project: pages in a tree, the versions of each, the tasks they are linked to and
  the comments on them. \<open>contentJson\<close> is \<open>None\<close> when the column is null and \<open>Some None\<close> when it holds
  the JSON value null.
\<close>

record doc_row =
  dc_id :: string
  dc_projectId :: string
  dc_title :: string
  dc_body :: string
  dc_contentJson :: "pm_node option option"
  dc_authorUserId :: string
  dc_position :: int
  dc_parentDocId :: "string option"
  dc_archivedAt :: "int option"
  dc_createdAt :: int

record doc_revision_row =
  dv_id :: string
  dv_docId :: string
  dv_title :: string
  dv_body :: string
  dv_contentJson :: "pm_node option option"
  dv_authorUserId :: string
  dv_createdAt :: int

record doc_task_row =
  dt_docId :: string
  dt_taskId :: string
  dt_addedAt :: int

record doc_comment_row =
  dm_id :: string
  dm_docId :: string
  dm_authorUserId :: string
  dm_bodyMd :: string
  dm_parentCommentId :: "string option"
  dm_deletedAt :: "int option"
  dm_createdAt :: int

text \<open>
  What decides whether and how a user is notified: preferences per channel and event, muted tasks and
  documents, quiet hours, the binding to a chat account, the open digests, and the jobs that wait
  for delivery.
\<close>

datatype channel = InAppChannel | ChatChannel | EmailChannel
datatype mute_entity = MuteTask | MuteDoc

record pref_row =
  np_id :: string
  np_userId :: string
  np_channel :: channel
  np_eventType :: string
  np_enabled :: bool
  np_snoozeUntil :: "int option"
  np_digestMode :: bool
  np_projectId :: "string option"

record entity_mute_row =
  nm_id :: string
  nm_userId :: string
  nm_entityType :: mute_entity
  nm_entityId :: string
  nm_createdAt :: int

record snooze_row =
  sz_id :: string
  sz_userId :: string
  sz_daysOfWeek :: "string list"
  sz_startHour :: int
  sz_endHour :: int
  sz_enabled :: bool
  sz_createdAt :: int

record chat_binding_row =
  cb_userId :: string

record digest_item =
  di_notificationType :: string
  di_payload :: json_object
  di_taskId :: "string option"
  di_projectId :: "string option"
  di_reason :: string
  di_queuedAt :: string

record digest_row =
  dq_id :: string
  dq_userId :: string
  dq_channelKind :: string
  dq_items :: "digest_item list"
  dq_firstQueuedAt :: int
  dq_sentAt :: "int option"

record delivery_job =
  dj_recipientUserId :: string
  dj_type :: string
  dj_inApp :: bool
  dj_chat :: bool
  dj_payload :: json_object
  dj_taskId :: "string option"
  dj_projectId :: "string option"
  dj_reason :: string
  dj_enqueuedAt :: string

text \<open>What a team writes down after a sprint.\<close>

record action_item =
  it_id :: string
  it_description :: string
  it_ownerUserId :: "string option"
  it_done :: bool
  it_dueDate :: "string option"

record retro_row =
  sr_id :: string
  sr_sprintId :: string
  sr_authorUserId :: "string option"
  sr_whatWentWell :: "string option"
  sr_whatCouldImprove :: "string option"
  sr_actionItems :: "action_item list"
  sr_createdAt :: int

record goal_evaluation_row =
  sg_id :: string
  sg_sprintId :: string
  sg_goalAchieved :: bool
  sg_note :: "string option"
  sg_evaluatedByUserId :: "string option"
  sg_evaluatedAt :: int

text \<open>Templates of tasks and of comments, and the dashboards of users with who may see them.\<close>

record task_template_row =
  tp_id :: string
  tp_projectId :: string
  tp_name :: string
  tp_description :: "string option"
  tp_titleTemplate :: string
  tp_bodyTemplate :: "string option"
  tp_priority :: priority
  tp_estimate :: "int option"
  tp_defaultStatus :: "string option"
  tp_labelIds :: "string list"
  tp_tags :: "string list"
  tp_taskType :: "task_type option"
  tp_createdById :: string
  tp_updatedAt :: int

record comment_template_row =
  ct_id :: string
  ct_projectId :: "string option"
  ct_name :: string
  ct_body :: string
  ct_createdByUserId :: "string option"

datatype dashboard_scope = ScopePrivate | ScopeWorkspace | ScopeShared

record dashboard_row =
  db_id :: string
  db_name :: string
  db_description :: "string option"
  db_ownerUserId :: string
  db_scope :: dashboard_scope
  db_widgets :: "json list"
  db_baseFilters :: json_object
  db_updatedAt :: int

record dashboard_access_row =
  da_id :: string
  da_dashboardId :: string
  da_userId :: "string option"
  da_teamId :: "string option"

text \<open>Deployments that other systems report, the commits that tie tasks to them, and the event log.\<close>

datatype deployment_status = DepStarted | DepSucceeded | DepFailed | DepRolledBack
datatype deployment_source = FromVercel | FromRailway | FromGithubActions | FromDocker | FromGeneric

record github_link_row =
  gl_id :: string
  gl_taskId :: string
  gl_commitSha :: "string option"

record deployment_row =
  dp_id :: string
  dp_projectId :: string
  dp_environment :: string
  dp_status :: deployment_status
  dp_source :: deployment_source
  dp_commitSha :: "string option"
  dp_commitMessage :: "string option"
  dp_url :: "string option"
  dp_startedAt :: int
  dp_finishedAt :: "int option"
  dp_raw :: json_object

record task_deployment_row =
  td_taskId :: string
  td_deploymentId :: string

record deployment_secret_row =
  ds_projectId :: string
  ds_source :: deployment_source
  ds_secretHash :: string
  ds_rotatedAt :: "int option"

datatype event_visibility = EvPublic | EvInternal | EvAdminOnly

record event_row =
  ev_id :: string
  ev_type :: string
  ev_actorUserId :: "string option"
  ev_entityType :: string
  ev_entityId :: string
  ev_projectId :: "string option"
  ev_payload :: json_object
  ev_visibility :: event_visibility
  ev_createdAt :: int

section \<open>Inputs\<close>

text \<open>
  A property that may be absent is an \<open>option\<close>; one that may also be \<open>null\<close> is an option of
  an option (\<open>None\<close> is \<open>undefined\<close>, \<open>Some None\<close> is \<open>null\<close>).
\<close>

record create_task_input =
  ci_projectId :: string
  ci_type :: "task_type option"
  ci_title :: string
  ci_description :: "string option"
  ci_priority :: "priority option"
  ci_visibility :: "visibility option"
  ci_parentTaskId :: "string option"
  ci_sprintId :: "string option"
  ci_assigneeUserId :: "string option"
  ci_dueDate :: "int option"
  ci_estimate :: "int option"

record update_task_input =
  ui_type :: "task_type option"
  ui_title :: "string option"
  ui_description :: "string option"
  ui_priority :: "priority option"
  ui_visibility :: "visibility option"
  ui_parentTaskId :: "string option option"
  ui_sprintId :: "string option option"
  ui_assigneeUserId :: "string option option"
  ui_reporterUserId :: "string option"
  ui_startDate :: "int option option"
  ui_dueDate :: "int option option"
  ui_estimate :: "int option option"
  ui_blockedReason :: "string option option"

record auth_user =
  au_id :: string
  au_email :: string
  au_kind :: user_kind
  au_companyRole :: "company_role option"
  au_jti :: string

section \<open>Events\<close>

text \<open>
  The domain events, grouped by the service that emits them; the abbreviations name each event
  at the type of all of them.
\<close>

datatype task_event =
    TaskCreated_ev string string string string "string option" "string option"
  | ClientReportedBug_ev string string string string
  | TaskUpdated_ev string string update_task_input
  | TaskStatusChanged_ev string string string trigger_source "string option" string
  | TaskDeleted_ev string string string
  | TaskBlocked_ev string string "string option"
  | TaskUnblocked_ev string string "string option"
  | TaskReporterAdded_ev string string string string
  | TaskReporterRemoved_ev string string string string
  | TaskLabeled_ev string string string string
  | TaskUnlabeled_ev string string string string

datatype label_event =
    LabelCreated_ev string string string
  | LabelDeleted_ev string string string

datatype sprint_event =
    SprintCreated_ev string string string
  | SprintUpdated_ev string string string "string option"
  | SprintStarted_ev string string string
  | SprintCompleted_ev string string string
  | SprintDeleted_ev string string string
  | SprintTasksAdded_ev string string "string list" string
  | SprintTaskRemoved_ev string string string string

datatype worklog_event =
    WorklogStarted_ev string string string string
  | WorklogStopped_ev string string int string
  | WorklogLogged_ev string string int string

datatype goal_event =
    GoalCreated_ev string string
  | GoalUpdated_ev string string
  | GoalDeleted_ev string string
  | GoalTaskLinked_ev string string string

datatype project_event =
    ProjectCreated_ev string string "string option"
  | ProjectUpdated_ev string string
  | ProjectArchived_ev string string
  | ProjectRestored_ev string string
  | ProjectWorkflowUpdated_ev string string nat bool
  | AccessGranted_ev string string string
  | AccessRevoked_ev string string string

datatype comment_event =
    CommentAdded_ev string string string visibility "string list" "string list" nat
  | CommentEdited_ev string string string
  | CommentDeleted_ev string string
  | ReactionAdded_ev string string string string
  | ReactionRemoved_ev string string string string

text \<open>The last two are the events an automation emits itself, which name it.\<close>

datatype automation_event =
    AutomationCreated_ev string string string
  | StatusMoved_ev string json string string string string
  | Commented_ev string string string string

text \<open>
  Accounts and teams. A user changes the own profile (the fields changed) or an administrator does
  (the new name and email).
\<close>

datatype account_event =
    UserLogin_ev string "string option" string "string option"
  | MagicLinkSent_ev string "string option"
  | RefreshReuse_ev string "string option"
  | UserGuestInvited_ev string string string
  | OwnProfileUpdated_ev string "string list"
  | ProfileUpdated_ev string string "string option" "string option"
  | UserRoleChanged_ev string company_role string bool
  | UserKindChanged_ev string user_kind string
  | UserTeamsChanged_ev string "string list" string
  | UserArchived_ev string string
  | UserUnarchived_ev string string
  | TeamCreated_ev string string
  | TeamDeleted_ev string string
  | TeamMemberAdded_ev string string string
  | TeamMemberRemoved_ev string string string
  | ProjectGuestInvited_ev string string string project_role string

datatype doc_event =
    DocCreated_ev string string string
  | DocUpdated_ev string string string
  | DocArchived_ev string string string

datatype retro_event =
    RetroSaved_ev string string string string
  | GoalEvaluated_ev string string bool string

text \<open>A digest carries its items in five groups: mentions, assignments, blocked, due soon, other.\<close>

datatype notice_event =
    NotificationCreated_ev string string string "string option" "string option"
  | ChatDispatch_ev string string json_object "string option" "string option" string
  | DigestReady_ev string string string string nat "digest_item list list" "digest_item list"

datatype attachment_event =
    AttachmentUploaded_ev string string "string option" string string int
  | AttachmentDeleted_ev string string string

datatype deploy_event =
    Deploy_ev deployment_status string string string deployment_source "string option" "string list"
  | ProductionRelease_ev string string string deployment_source "string option" "string list"

datatype event =
    TaskEvent task_event
  | LabelEvent label_event
  | SprintEvent sprint_event
  | WorklogEvent worklog_event
  | GoalEvent goal_event
  | ProjectEvent project_event
  | CustomFieldsRecomputed string
  | CommentEvent comment_event
  | AutomationEvent automation_event
  | AccountEvent account_event
  | DocEvent doc_event
  | RetroEvent retro_event
  | NoticeEvent notice_event
  | AttachmentEvent attachment_event
  | DeployEvent deploy_event

abbreviation TaskCreated where
  "TaskCreated x0 x1 x2 x3 x4 x5 \<equiv> TaskEvent (TaskCreated_ev x0 x1 x2 x3 x4 x5)"

abbreviation ClientReportedBug where
  "ClientReportedBug x0 x1 x2 x3 \<equiv> TaskEvent (ClientReportedBug_ev x0 x1 x2 x3)"

abbreviation TaskUpdated where
  "TaskUpdated x0 x1 x2 \<equiv> TaskEvent (TaskUpdated_ev x0 x1 x2)"

abbreviation TaskStatusChanged where
  "TaskStatusChanged x0 x1 x2 x3 x4 x5 \<equiv> TaskEvent (TaskStatusChanged_ev x0 x1 x2 x3 x4 x5)"

abbreviation TaskDeleted where
  "TaskDeleted x0 x1 x2 \<equiv> TaskEvent (TaskDeleted_ev x0 x1 x2)"

abbreviation TaskBlocked where
  "TaskBlocked x0 x1 x2 \<equiv> TaskEvent (TaskBlocked_ev x0 x1 x2)"

abbreviation TaskUnblocked where
  "TaskUnblocked x0 x1 x2 \<equiv> TaskEvent (TaskUnblocked_ev x0 x1 x2)"

abbreviation TaskReporterAdded where
  "TaskReporterAdded x0 x1 x2 x3 \<equiv> TaskEvent (TaskReporterAdded_ev x0 x1 x2 x3)"

abbreviation TaskReporterRemoved where
  "TaskReporterRemoved x0 x1 x2 x3 \<equiv> TaskEvent (TaskReporterRemoved_ev x0 x1 x2 x3)"

abbreviation TaskLabeled where
  "TaskLabeled x0 x1 x2 x3 \<equiv> TaskEvent (TaskLabeled_ev x0 x1 x2 x3)"

abbreviation TaskUnlabeled where
  "TaskUnlabeled x0 x1 x2 x3 \<equiv> TaskEvent (TaskUnlabeled_ev x0 x1 x2 x3)"

abbreviation LabelCreated where
  "LabelCreated x0 x1 x2 \<equiv> LabelEvent (LabelCreated_ev x0 x1 x2)"

abbreviation LabelDeleted where
  "LabelDeleted x0 x1 x2 \<equiv> LabelEvent (LabelDeleted_ev x0 x1 x2)"

abbreviation SprintCreated where
  "SprintCreated x0 x1 x2 \<equiv> SprintEvent (SprintCreated_ev x0 x1 x2)"

abbreviation SprintUpdated where
  "SprintUpdated x0 x1 x2 x3 \<equiv> SprintEvent (SprintUpdated_ev x0 x1 x2 x3)"

abbreviation SprintStarted where
  "SprintStarted x0 x1 x2 \<equiv> SprintEvent (SprintStarted_ev x0 x1 x2)"

abbreviation SprintCompleted where
  "SprintCompleted x0 x1 x2 \<equiv> SprintEvent (SprintCompleted_ev x0 x1 x2)"

abbreviation SprintDeleted where
  "SprintDeleted x0 x1 x2 \<equiv> SprintEvent (SprintDeleted_ev x0 x1 x2)"

abbreviation SprintTasksAdded where
  "SprintTasksAdded x0 x1 x2 x3 \<equiv> SprintEvent (SprintTasksAdded_ev x0 x1 x2 x3)"

abbreviation SprintTaskRemoved where
  "SprintTaskRemoved x0 x1 x2 x3 \<equiv> SprintEvent (SprintTaskRemoved_ev x0 x1 x2 x3)"

abbreviation WorklogStarted where
  "WorklogStarted x0 x1 x2 x3 \<equiv> WorklogEvent (WorklogStarted_ev x0 x1 x2 x3)"

abbreviation WorklogStopped where
  "WorklogStopped x0 x1 x2 x3 \<equiv> WorklogEvent (WorklogStopped_ev x0 x1 x2 x3)"

abbreviation WorklogLogged where
  "WorklogLogged x0 x1 x2 x3 \<equiv> WorklogEvent (WorklogLogged_ev x0 x1 x2 x3)"

abbreviation GoalCreated where
  "GoalCreated x0 x1 \<equiv> GoalEvent (GoalCreated_ev x0 x1)"

abbreviation GoalUpdated where
  "GoalUpdated x0 x1 \<equiv> GoalEvent (GoalUpdated_ev x0 x1)"

abbreviation GoalDeleted where
  "GoalDeleted x0 x1 \<equiv> GoalEvent (GoalDeleted_ev x0 x1)"

abbreviation GoalTaskLinked where
  "GoalTaskLinked x0 x1 x2 \<equiv> GoalEvent (GoalTaskLinked_ev x0 x1 x2)"

abbreviation ProjectCreated where
  "ProjectCreated x0 x1 x2 \<equiv> ProjectEvent (ProjectCreated_ev x0 x1 x2)"

abbreviation ProjectUpdated where
  "ProjectUpdated x0 x1 \<equiv> ProjectEvent (ProjectUpdated_ev x0 x1)"

abbreviation ProjectArchived where
  "ProjectArchived x0 x1 \<equiv> ProjectEvent (ProjectArchived_ev x0 x1)"

abbreviation ProjectRestored where
  "ProjectRestored x0 x1 \<equiv> ProjectEvent (ProjectRestored_ev x0 x1)"

abbreviation ProjectWorkflowUpdated where
  "ProjectWorkflowUpdated x0 x1 x2 x3 \<equiv> ProjectEvent (ProjectWorkflowUpdated_ev x0 x1 x2 x3)"

abbreviation AccessGranted where
  "AccessGranted x0 x1 x2 \<equiv> ProjectEvent (AccessGranted_ev x0 x1 x2)"

abbreviation AccessRevoked where
  "AccessRevoked x0 x1 x2 \<equiv> ProjectEvent (AccessRevoked_ev x0 x1 x2)"

section \<open>The state and the environment\<close>

record world =
  users :: "user_row list"
  teamMembers :: "team_member_row list"
  teams :: "team_row list"
  projects :: "project_row list"
  templates :: "template_row list"
  accessGrants :: "access_row list"
  columns :: "column_row list"
  statuses :: "status_row list"
  transitions :: "transition_row list"
  tasks :: "task_row list"
  links :: "link_row list"
  watchers :: "watcher_row list"
  reporters :: "reporter_row list"
  mutes :: "mute_row list"
  labels :: "label_row list"
  taskLabels :: "task_label_row list"
  sprints :: "sprint_row list"
  memberships :: "membership_row list"
  worklogs :: "worklog_row list"
  goals :: "goal_row list"
  goalTasks :: "goal_task_row list"
  keyResults :: "key_result_row list"
  recurrences :: "recurrence_row list"
  customFields :: "custom_field_row list"
  customValues :: "custom_value_row list"
  comments :: "comment_row list"
  mentions :: "mention_row list"
  reactions :: "reaction_row list"
  revisions :: "revision_row list"
  attachments :: "attachment_row list"
  automations :: "automation_row list"
  automationSteps :: "step_row list"
  automationRuns :: "run_row list"
  notifications :: "notification_row list"
  savedSearches :: "saved_search_row list"
  refreshTokens :: "refresh_row list"
  magicLinks :: "magic_row list"
  auditLog :: "audit_row list"
  revokedJtis :: "revoked_jti list"
  outbox :: "mail list"
  docs :: "doc_row list"
  docRevisions :: "doc_revision_row list"
  docTasks :: "doc_task_row list"
  docComments :: "doc_comment_row list"
  notificationPrefs :: "pref_row list"
  entityMutes :: "entity_mute_row list"
  snoozeRules :: "snooze_row list"
  chatBindings :: "chat_binding_row list"
  digests :: "digest_row list"
  deliveryQueue :: "delivery_job list"
  retros :: "retro_row list"
  goalEvaluations :: "goal_evaluation_row list"
  taskTemplates :: "task_template_row list"
  commentTemplates :: "comment_template_row list"
  dashboards :: "dashboard_row list"
  dashboardAccess :: "dashboard_access_row list"
  githubLinks :: "github_link_row list"
  deployments :: "deployment_row list"
  taskDeployments :: "task_deployment_row list"
  deploymentSecrets :: "deployment_secret_row list"
  eventLog :: "event_row list"
  scanQueue :: "string list"
  thumbQueue :: "string list"
  emitted :: "event list"

record env =
  clk :: "nat \<Rightarrow> int"
  uuid :: "nat \<Rightarrow> string"
  coll :: "string \<Rightarrow> string \<Rightarrow> bool"
  keyBetween :: "string option \<Rightarrow> string option \<Rightarrow> string option"

definition emit :: "event \<Rightarrow> world \<Rightarrow> world" where
  "emit ev w = w\<lparr>emitted := emitted w @ [ev]\<rparr>"

text \<open>\<open>findUnique\<close> by primary key, and \<open>findUniqueOrThrow\<close>.\<close>

definition find_project :: "world \<Rightarrow> string \<Rightarrow> project_row option" where
  "find_project w pid = find_row p_id pid (projects w)"

definition find_task :: "world \<Rightarrow> string \<Rightarrow> task_row option" where
  "find_task w tid = find_row t_id tid (tasks w)"

definition find_user :: "world \<Rightarrow> string \<Rightarrow> user_row option" where
  "find_user w uid = find_row u_id uid (users w)"

definition find_sprint :: "world \<Rightarrow> string \<Rightarrow> sprint_row option" where
  "find_sprint w sid = find_row sp_id sid (sprints w)"

definition find_label :: "world \<Rightarrow> string \<Rightarrow> label_row option" where
  "find_label w lid = find_row lb_id lid (labels w)"

definition find_column :: "world \<Rightarrow> string \<Rightarrow> column_row option" where
  "find_column w cid = find_row c_id cid (columns w)"

definition find_status :: "world \<Rightarrow> string \<Rightarrow> status_row option" where
  "find_status w sid = find_row s_id sid (statuses w)"

definition task_or_throw :: "world \<Rightarrow> string \<Rightarrow> task_row res" where
  "task_or_throw w tid = found (DbError P2025) (find_task w tid)"

definition sprint_or_throw :: "world \<Rightarrow> string \<Rightarrow> sprint_row res" where
  "sprint_or_throw w sid = found (DbError P2025) (find_sprint w sid)"

definition project_or_throw :: "world \<Rightarrow> string \<Rightarrow> project_row res" where
  "project_or_throw w pid = found (DbError P2025) (find_project w pid)"

text \<open>Foreign keys: an optional reference is good when it is null or names a row.\<close>

definition fk_ok :: "('r \<Rightarrow> string) \<Rightarrow> 'r list \<Rightarrow> string option \<Rightarrow> bool" where
  "fk_ok key rows ref = (case ref of None \<Rightarrow> True | Some k \<Rightarrow> k \<in> key ` set rows)"

definition find_comment :: "world \<Rightarrow> string \<Rightarrow> comment_row option" where
  "find_comment w cid = find_row cm_id cid (comments w)"

text \<open>
  Deleting a task deletes the rows that reference it with \<open>onDelete: Cascade\<close> and clears the
  parent of its children (\<open>onDelete: SetNull\<close>); the rows of its comments go with them, and a
  reference to one of these comments is cleared.
\<close>

definition unless_in :: "'a set \<Rightarrow> 'a option \<Rightarrow> 'a option" where
  "unless_in gone x = (case x of None \<Rightarrow> None | Some c \<Rightarrow> if c \<in> gone then None else Some c)"

definition comments_of :: "string \<Rightarrow> world \<Rightarrow> string set" where
  "comments_of tid w = cm_id ` set (filter (\<lambda>c. cm_taskId c = tid) (comments w))"

definition cascade_task :: "string \<Rightarrow> world \<Rightarrow> world" where
  "cascade_task tid w = w\<lparr>
     tasks := map (\<lambda>t. if t_parentTaskId t = Some tid then t\<lparr>t_parentTaskId := None\<rparr> else t)
                (delete_where (\<lambda>t. t_id t = tid) (tasks w)),
     links := delete_where (\<lambda>l. l_fromTaskId l = tid \<or> l_toTaskId l = tid) (links w),
     watchers := delete_where (\<lambda>r. w_taskId r = tid) (watchers w),
     reporters := delete_where (\<lambda>r. r_taskId r = tid) (reporters w),
     mutes := delete_where (\<lambda>r. m_taskId r = tid) (mutes w),
     taskLabels := delete_where (\<lambda>r. tl_taskId r = tid) (taskLabels w),
     memberships := delete_where (\<lambda>r. sm_taskId r = tid) (memberships w),
     worklogs := delete_where (\<lambda>r. wl_taskId r = tid) (worklogs w),
     goalTasks := delete_where (\<lambda>r. gt_taskId r = tid) (goalTasks w),
     recurrences := delete_where (\<lambda>r. rc_taskId r = tid) (recurrences w),
     customValues := delete_where (\<lambda>r. cv_taskId r = tid) (customValues w),
     comments := map (\<lambda>c. c\<lparr>cm_parentCommentId := unless_in (comments_of tid w) (cm_parentCommentId c),
                         cm_quotedCommentId := unless_in (comments_of tid w) (cm_quotedCommentId c)\<rparr>)
                   (delete_where (\<lambda>c. cm_taskId c = tid) (comments w)),
     mentions := delete_where (\<lambda>r. mn_commentId r \<in> comments_of tid w) (mentions w),
     reactions := delete_where (\<lambda>r. rx_commentId r \<in> comments_of tid w) (reactions w),
     revisions := delete_where (\<lambda>r. rv_commentId r \<in> comments_of tid w) (revisions w),
     docTasks := delete_where (\<lambda>r. dt_taskId r = tid) (docTasks w),
     githubLinks := delete_where (\<lambda>r. gl_taskId r = tid) (githubLinks w),
     taskDeployments := delete_where (\<lambda>r. td_taskId r = tid) (taskDeployments w)\<rparr>"

lemma emit_fields [simp]:
  "users (emit ev w) = users w" "teamMembers (emit ev w) = teamMembers w"
  "teams (emit ev w) = teams w" "templates (emit ev w) = templates w"
  "keyResults (emit ev w) = keyResults w"
  "projects (emit ev w) = projects w" "accessGrants (emit ev w) = accessGrants w"
  "columns (emit ev w) = columns w" "statuses (emit ev w) = statuses w"
  "transitions (emit ev w) = transitions w" "tasks (emit ev w) = tasks w"
  "links (emit ev w) = links w" "watchers (emit ev w) = watchers w"
  "reporters (emit ev w) = reporters w" "mutes (emit ev w) = mutes w"
  "labels (emit ev w) = labels w" "taskLabels (emit ev w) = taskLabels w"
  "sprints (emit ev w) = sprints w" "memberships (emit ev w) = memberships w"
  "worklogs (emit ev w) = worklogs w" "goals (emit ev w) = goals w"
  "goalTasks (emit ev w) = goalTasks w" "recurrences (emit ev w) = recurrences w"
  "customFields (emit ev w) = customFields w" "customValues (emit ev w) = customValues w"
  "comments (emit ev w) = comments w" "mentions (emit ev w) = mentions w"
  "reactions (emit ev w) = reactions w" "revisions (emit ev w) = revisions w"
  "attachments (emit ev w) = attachments w" "automations (emit ev w) = automations w"
  "automationSteps (emit ev w) = automationSteps w" "automationRuns (emit ev w) = automationRuns w"
  "notifications (emit ev w) = notifications w" "savedSearches (emit ev w) = savedSearches w"
  "refreshTokens (emit ev w) = refreshTokens w" "magicLinks (emit ev w) = magicLinks w"
  "auditLog (emit ev w) = auditLog w" "revokedJtis (emit ev w) = revokedJtis w" "outbox (emit ev w) = outbox w"
  "docs (emit ev w) = docs w"
  "docRevisions (emit ev w) = docRevisions w"
  "docTasks (emit ev w) = docTasks w"
  "docComments (emit ev w) = docComments w"
  "notificationPrefs (emit ev w) = notificationPrefs w"
  "entityMutes (emit ev w) = entityMutes w"
  "snoozeRules (emit ev w) = snoozeRules w"
  "chatBindings (emit ev w) = chatBindings w"
  "digests (emit ev w) = digests w"
  "deliveryQueue (emit ev w) = deliveryQueue w"
  "retros (emit ev w) = retros w"
  "goalEvaluations (emit ev w) = goalEvaluations w"
  "taskTemplates (emit ev w) = taskTemplates w"
  "commentTemplates (emit ev w) = commentTemplates w"
  "dashboards (emit ev w) = dashboards w"
  "dashboardAccess (emit ev w) = dashboardAccess w"
  "githubLinks (emit ev w) = githubLinks w"
  "deployments (emit ev w) = deployments w"
  "taskDeployments (emit ev w) = taskDeployments w"
  "deploymentSecrets (emit ev w) = deploymentSecrets w"
  "eventLog (emit ev w) = eventLog w"
  "scanQueue (emit ev w) = scanQueue w"
  "thumbQueue (emit ev w) = thumbQueue w"
  "emitted (emit ev w) = emitted w @ [ev]"
  by (simp_all add: emit_def)

lemma find_taskD: "find_task w tid = Some t \<Longrightarrow> t \<in> set (tasks w) \<and> t_id t = tid"
  by (auto simp: find_task_def dest: find_row_SomeD)

lemma find_projectD: "find_project w pid = Some p \<Longrightarrow> p \<in> set (projects w) \<and> p_id p = pid"
  by (auto simp: find_project_def dest: find_row_SomeD)

lemma find_commentD: "find_comment w cid = Some c \<Longrightarrow> c \<in> set (comments w) \<and> cm_id c = cid"
  by (auto simp: find_comment_def dest: find_row_SomeD)

lemma find_sprintD: "find_sprint w sid = Some s \<Longrightarrow> s \<in> set (sprints w) \<and> sp_id s = sid"
  by (auto simp: find_sprint_def dest: find_row_SomeD)

lemma find_statusD: "find_status w sid = Some s \<Longrightarrow> s \<in> set (statuses w) \<and> s_id s = sid"
  by (auto simp: find_status_def dest: find_row_SomeD)

lemma find_columnD: "find_column w sid = Some s \<Longrightarrow> s \<in> set (columns w) \<and> c_id s = sid"
  by (auto simp: find_column_def dest: find_row_SomeD)

lemma find_labelD: "find_label w lid = Some l \<Longrightarrow> l \<in> set (labels w) \<and> lb_id l = lid"
  by (auto simp: find_label_def dest: find_row_SomeD)

text \<open>The rows of a small concrete state that the witnesses build on.\<close>

definition empty_world :: world where
  "empty_world = \<lparr>users = [], teamMembers = [], teams = [], projects = [], templates = [], accessGrants = [], columns = [],
     statuses = [], transitions = [], tasks = [], links = [], watchers = [], reporters = [],
     mutes = [], labels = [], taskLabels = [], sprints = [], memberships = [], worklogs = [],
     goals = [], goalTasks = [], keyResults = [], recurrences = [], customFields = [], customValues = [],
     comments = [], mentions = [], reactions = [], revisions = [], attachments = [], automations = [],
     automationSteps = [], automationRuns = [], notifications = [], savedSearches = [], refreshTokens = [],
     magicLinks = [], auditLog = [], revokedJtis = [], outbox = [],
     docs = [], docRevisions = [], docTasks = [], docComments = [], notificationPrefs = [], entityMutes = [],
     snoozeRules = [], chatBindings = [], digests = [], deliveryQueue = [], retros = [], goalEvaluations = [],
     taskTemplates = [], commentTemplates = [], dashboards = [], dashboardAccess = [], githubLinks = [], deployments = [],
     taskDeployments = [], deploymentSecrets = [], eventLog = [], scanQueue = [], thumbQueue = [], emitted = []\<rparr>"

definition sample_project :: project_row where
  "sample_project = \<lparr>p_id = ''P'', p_key = ''PRJ'', p_name = ''project'', p_description = None,
     p_visibility = PPrivate,
     p_workflowPreset = Generic, p_sprintsEnabled = True, p_githubAutoStatus = True,
     p_defaultTaskVisibility = VInternal, p_archivedAt = None, p_nextTaskNumber = 2,
     p_maxAttachmentMb = 100, p_chatSpaceId = None, p_chatBroadcastEvents = [], p_createdById = ''A'',
     p_createdAt = 0\<rparr>"

definition sample_task :: "string \<Rightarrow> string \<Rightarrow> task_row" where
  "sample_task tid st = \<lparr>t_id = tid, t_projectId = ''P'', t_keyNumber = 1, t_type = Task,
     t_title = ''title'', t_description = None, t_status = st, t_priority = Medium,
     t_isBlocked = False, t_blockedReason = None, t_visibility = VInternal,
     t_reportedByClient = False, t_parentTaskId = None, t_sprintId = None,
     t_assigneeUserId = None, t_reporterUserId = ''U'', t_createdById = ''U'',
     t_startDate = None, t_dueDate = None, t_estimate = None, t_boardPosition = ''a0'',
     t_completedAt = None, t_createdAt = 0\<rparr>"

definition sample_admin :: auth_user where
  "sample_admin = \<lparr>au_id = ''A'', au_email = ''a@x'', au_kind = UInternal,
     au_companyRole = Some Admin, au_jti = ''j''\<rparr>"

definition sample_member :: auth_user where
  "sample_member = \<lparr>au_id = ''U'', au_email = ''u@x'', au_kind = UInternal,
     au_companyRole = Some Member, au_jti = ''j''\<rparr>"

definition sample_guest :: auth_user where
  "sample_guest = \<lparr>au_id = ''G'', au_email = ''g@x'', au_kind = UClient,
     au_companyRole = None, au_jti = ''j''\<rparr>"

definition sample_env :: env where
  "sample_env = \<lparr>clk = (\<lambda>n. int n), uuid = (\<lambda>n. replicate (Suc n) CHR ''x''), coll = (\<lambda>a b. True),
     keyBetween = (\<lambda>a b. Some ''a1'')\<rparr>"

definition sample_status :: "string \<Rightarrow> string \<Rightarrow> bool \<Rightarrow> bool \<Rightarrow> status_row" where
  "sample_status sid nm ini dn = \<lparr>s_id = sid, s_projectId = ''P'', s_columnId = ''C'', s_name = nm,
     s_position = 0, s_color = None, s_isInitialStatus = ini, s_isDoneStatus = dn\<rparr>"

definition sample_column :: "string \<Rightarrow> string \<Rightarrow> int \<Rightarrow> column_row" where
  "sample_column cid nm pos = \<lparr>c_id = cid, c_projectId = ''P'', c_name = nm, c_position = pos, c_color = None\<rparr>"

lemmas sample_defs = empty_world_def sample_project_def sample_task_def sample_admin_def
  sample_member_def sample_guest_def

lemmas finder_defs = find_comment_def find_project_def find_task_def find_sprint_def find_label_def
  find_column_def find_status_def task_or_throw_def sprint_or_throw_def project_or_throw_def

end
