(* ===== verification/Permissions.thy ===== *)
theory Permissions
  imports Schema
begin

text \<open>
  \<^verbatim>\<open>apps/api/src/modules/permissions/permissions.service.ts\<close>: the effective role of a user
  in a project, the guard \<open>assertAtLeast\<close> that every service calls first, and \<open>canSeeTask\<close>.
  The roles are made a \<open>linorder\<close> by \<open>ROLE_RANK\<close>, so that the maximum the code computes is the
  library's \<open>Max\<close>.
\<close>

section \<open>The service\<close>

fun role_rank :: "project_role \<Rightarrow> nat" where
  "role_rank Client = 0"
| "role_rank Viewer = 1"
| "role_rank Contributor = 2"
| "role_rank Manager = 3"

fun max_role :: "project_role option \<Rightarrow> project_role option \<Rightarrow> project_role option" where
  "max_role None b = b"
| "max_role a None = a"
| "max_role (Some a) (Some b) = (if role_rank a \<ge> role_rank b then Some a else Some b)"

definition team_ids :: "world \<Rightarrow> auth_user \<Rightarrow> string list" where
  "team_ids w u = (if au_kind u = UInternal
     then map tm_teamId (filter (\<lambda>m. tm_userId m = au_id u) (teamMembers w)) else [])"

text \<open>The filter of the \<open>projectAccess.findMany\<close> query.\<close>

definition grant_matches :: "world \<Rightarrow> auth_user \<Rightarrow> string \<Rightarrow> access_row \<Rightarrow> bool" where
  "grant_matches w u pid g \<longleftrightarrow> a_projectId g = pid \<and>
     (a_subjectKind g = SubjUser \<and> a_userId g = Some (au_id u) \<or>
      a_subjectKind g = SubjTeam \<and> (\<exists>tid \<in> set (team_ids w u). a_teamId g = Some tid))"

definition effectiveRole :: "world \<Rightarrow> auth_user \<Rightarrow> string \<Rightarrow> project_role option res" where
  "effectiveRole w u pid =
    (if au_kind u = UInternal \<and> au_companyRole u = Some Admin then Inr (Some Manager)
     else case find_project w pid of
       None \<Rightarrow> Inl (NotFound ''Project not found'')
     | Some p \<Rightarrow>
         let grants = filter (grant_matches w u pid) (accessGrants w);
             role = foldl (\<lambda>r g. max_role r (Some (a_role g))) None grants
         in Inr (if role = None \<and> p_visibility p = PPublic \<and> au_kind u = UInternal
                 then Some Viewer else role))"

fun role_name :: "project_role \<Rightarrow> string" where
  "role_name Client = ''Client''"
| "role_name Viewer = ''Viewer''"
| "role_name Contributor = ''Contributor''"
| "role_name Manager = ''Manager''"

definition assertAtLeast :: "world \<Rightarrow> auth_user \<Rightarrow> string \<Rightarrow> project_role \<Rightarrow> project_role res" where
  "assertAtLeast w u pid m = and_then (effectiveRole w u pid) (\<lambda>role.
     case role of
       None \<Rightarrow> Inl (Forbidden (''Requires project role '' @ role_name m @ ''; have none''))
     | Some r \<Rightarrow> if role_rank r < role_rank m
         then Inl (Forbidden (''Requires project role '' @ role_name m @ ''; have '' @ role_name r))
         else Inr r)"

definition canSeeTask :: "world \<Rightarrow> auth_user \<Rightarrow> string \<Rightarrow> visibility \<Rightarrow> bool res" where
  "canSeeTask w u pid vis = and_then (effectiveRole w u pid) (\<lambda>role.
     case role of
       None \<Rightarrow> Inr False
     | Some r \<Rightarrow>
         if r \<noteq> Client then Inr True
         else if vis = VClientVisible then Inr True
         else Inr (case find_project w pid of
                     None \<Rightarrow> False
                   | Some p \<Rightarrow> p_defaultTaskVisibility p = VClientVisible))"

section \<open>Roles as a linear order\<close>

lemma role_rank_inject: "role_rank a = role_rank b \<longleftrightarrow> a = b"
  by (cases a; cases b) simp_all

instantiation project_role :: linorder
begin

definition less_eq_project_role :: "project_role \<Rightarrow> project_role \<Rightarrow> bool" where
  "less_eq_project_role a b \<longleftrightarrow> role_rank a \<le> role_rank b"

definition less_project_role :: "project_role \<Rightarrow> project_role \<Rightarrow> bool" where
  "less_project_role a b \<longleftrightarrow> role_rank a < role_rank b"

instance
proof
  fix x y z :: project_role
  show "(x < y) = (x \<le> y \<and> \<not> y \<le> x)"
    by (auto simp: less_eq_project_role_def less_project_role_def)
  show "x \<le> x" by (simp add: less_eq_project_role_def)
  show "x \<le> y \<Longrightarrow> y \<le> z \<Longrightarrow> x \<le> z" by (simp add: less_eq_project_role_def)
  show "x \<le> y \<Longrightarrow> y \<le> x \<Longrightarrow> x = y"
    by (simp add: less_eq_project_role_def flip: role_rank_inject)
  show "x \<le> y \<or> y \<le> x" by (auto simp: less_eq_project_role_def)
qed

end

lemma max_role_eq: "max_role (Some a) (Some b) = Some (max a b)"
  by (auto simp: max_def less_eq_project_role_def dest: antisym [of "role_rank a" "role_rank b"]
        simp: role_rank_inject)

lemma foldl_max_role_Some:
  "foldl (\<lambda>r g. max_role r (Some (f g))) (Some a) gs = Some (Max (insert a (f ` set gs)))"
proof (induction gs arbitrary: a)
  case (Cons g gs)
  have "Max (insert (max a (f g)) (f ` set gs)) = Max (insert a (insert (f g) (f ` set gs)))"
    by (cases "gs = []") (simp_all add: max.assoc)
  then show ?case by (simp only: foldl_Cons max_role_eq Cons.IH list.set image_insert)
qed simp

lemma foldl_max_role:
  "foldl (\<lambda>r g. max_role r (Some (f g))) None gs =
    (if gs = [] then None else Some (Max (f ` set gs)))"
  by (cases gs) (simp_all add: foldl_max_role_Some)

section \<open>Lemmas of the guard\<close>

definition is_admin :: "auth_user \<Rightarrow> bool" where
  "is_admin u \<longleftrightarrow> au_kind u = UInternal \<and> au_companyRole u = Some Admin"

definition has_role :: "world \<Rightarrow> auth_user \<Rightarrow> string \<Rightarrow> project_role \<Rightarrow> bool" where
  "has_role w u pid m \<longleftrightarrow> (\<exists>r. effectiveRole w u pid = Inr (Some r) \<and> m \<le> r)"

lemma effectiveRole_admin [simp]: "is_admin u \<Longrightarrow> effectiveRole w u pid = Inr (Some Manager)"
  by (simp add: effectiveRole_def is_admin_def)

lemma Manager_top [simp]: "m \<le> Manager"
  by (cases m) (simp_all add: less_eq_project_role_def)

lemma Client_bottom [simp]: "Client \<le> m"
  by (simp add: less_eq_project_role_def)

lemma has_role_admin: "is_admin u \<Longrightarrow> has_role w u pid m"
  by (simp add: has_role_def)

lemma assertAtLeast_ok: "(\<exists>r. assertAtLeast w u pid m = Inr r) \<longleftrightarrow> has_role w u pid m"
  by (auto simp: assertAtLeast_def has_role_def and_then_def less_eq_project_role_def not_less
      split: sum.splits option.splits)

lemma assertAtLeast_Inr:
  "assertAtLeast w u pid m = Inr r \<longleftrightarrow> effectiveRole w u pid = Inr (Some r) \<and> m \<le> r"
  by (auto simp: assertAtLeast_def and_then_def less_eq_project_role_def not_less
      split: sum.splits option.splits)

lemma assertAtLeast_denied: "\<not> has_role w u pid m \<Longrightarrow> \<exists>e. assertAtLeast w u pid m = Inl e"
  using assertAtLeast_ok [of w u pid m] by (cases "assertAtLeast w u pid m") auto

lemma assertAtLeast_admin [simp]: "is_admin u \<Longrightarrow> assertAtLeast w u pid m = Inr Manager"
  by (simp add: assertAtLeast_Inr)

lemma has_role_mono: "has_role w u pid m \<Longrightarrow> m' \<le> m \<Longrightarrow> has_role w u pid m'"
  by (auto simp: has_role_def intro: order_trans)

text \<open>The guard reads only four tables.\<close>

lemma effectiveRole_cong:
  assumes "projects w = projects w'" and "accessGrants w = accessGrants w'"
    and "teamMembers w = teamMembers w'"
  shows "effectiveRole w u pid = effectiveRole w' u pid"
proof -
  have "grant_matches w u pid = grant_matches w' u pid"
    using assms by (auto simp: grant_matches_def team_ids_def fun_eq_iff)
  with assms show ?thesis by (simp add: effectiveRole_def find_project_def split: option.split)
qed

lemma sample_admin_is_admin [simp]: "is_admin sample_admin"
  by (simp add: is_admin_def sample_admin_def)

section \<open>Properties\<close>


definition permission_world :: world where
  "permission_world = empty_world\<lparr>projects := [sample_project],
     teamMembers := [\<lparr>tm_teamId = ''T'', tm_userId = ''U''\<rparr>],
     accessGrants := [
       \<lparr>a_id = ''a1'', a_projectId = ''P'', a_subjectKind = SubjUser, a_userId = Some ''U'', a_teamId = None, a_role = Viewer, a_grantedById = ''A''\<rparr>,
       \<lparr>a_id = ''a2'', a_projectId = ''P'', a_subjectKind = SubjTeam, a_userId = None, a_teamId = Some ''T'', a_role = Contributor, a_grantedById = ''A''\<rparr>]\<rparr>"

lemma permission_world_grants:
  "{g \<in> set (accessGrants permission_world). grant_matches permission_world sample_member ''P'' g} =
    set (accessGrants permission_world)"
  by (auto simp: permission_world_def sample_defs grant_matches_def team_ids_def)


text \<open>
  Who may open a task. A user sees a task exactly when the user has some role in the
  project and either that role is above Client, or the task is marked visible to clients, or
  the project shares all its tasks with its guests.
\<close>

theorem can_see_task_iff:
  "canSeeTask w u pid vis = Inr True \<longleftrightarrow>
    (\<exists>r. effectiveRole w u pid = Inr (Some r) \<and>
      (Client < r \<or> vis = VClientVisible \<or>
       (\<exists>p. find_project w pid = Some p \<and> p_defaultTaskVisibility p = VClientVisible)))"
proof -
  have pos: "Client < r \<longleftrightarrow> r \<noteq> Client" for r
    by (cases r) (simp_all add: less_project_role_def)
  show ?thesis
    by (cases "effectiveRole w u pid")
       (auto simp: canSeeTask_def pos split: option.splits if_splits)
qed

end
