(* ===== verification/Workflow.thy ===== *)
theory Workflow
  imports Schema
begin

text \<open>
  \<^verbatim>\<open>apps/api/src/modules/tasks/workflow.ts\<close>: the status vocabulary of the three workflow
  presets, their done statuses and default transitions, and the string key of an edge. The
  arrow in the key is not a code unit below 256; it stands here as its three UTF-8 bytes.
\<close>

fun WORKFLOW_STATUSES :: "workflow_preset \<Rightarrow> string list" where
  "WORKFLOW_STATUSES Engineering = [''Todo'', ''In Progress'', ''In Review'', ''Testing'', ''Done'']"
| "WORKFLOW_STATUSES Design = [''Todo'', ''In Progress'', ''In Review'', ''Approved'', ''Done'']"
| "WORKFLOW_STATUSES Generic = [''Todo'', ''In Progress'', ''Done'']"

definition isValidStatusFor :: "workflow_preset \<Rightarrow> string \<Rightarrow> bool" where
  "isValidStatusFor preset st \<longleftrightarrow> st \<in> set (WORKFLOW_STATUSES preset)"

definition defaultStatusFor :: "workflow_preset \<Rightarrow> string" where
  "defaultStatusFor preset = hd (WORKFLOW_STATUSES preset)"

definition doneStatusesFor :: "workflow_preset \<Rightarrow> string list" where
  "doneStatusesFor preset = (if preset = Design then [''Approved'', ''Done''] else [''Done''])"

fun defaultTransitionsFor :: "workflow_preset \<Rightarrow> (string \<times> string) list" where
  "defaultTransitionsFor Engineering =
     [(''Todo'', ''In Progress''), (''In Progress'', ''Todo''), (''In Progress'', ''In Review''),
      (''In Review'', ''In Progress''), (''In Review'', ''Testing''), (''Testing'', ''In Review''),
      (''Testing'', ''Done''), (''Done'', ''Testing''), (''Done'', ''In Progress'')]"
| "defaultTransitionsFor Design =
     [(''Todo'', ''In Progress''), (''In Progress'', ''Todo''), (''In Progress'', ''In Review''),
      (''In Review'', ''In Progress''), (''In Review'', ''Approved''), (''Approved'', ''In Review''),
      (''Approved'', ''Done''), (''Done'', ''Approved''), (''Done'', ''In Progress'')]"
| "defaultTransitionsFor Generic =
     [(''Todo'', ''In Progress''), (''In Progress'', ''Todo''), (''In Progress'', ''Done''),
      (''Done'', ''In Progress'')]"

definition arrow :: string where
  "arrow = [char_of (0xE2 :: nat), char_of (0x86 :: nat), char_of (0x92 :: nat)]"

definition transitionKey :: "string \<Rightarrow> string \<Rightarrow> string" where
  "transitionKey from to = from @ arrow @ to"

section \<open>Lemmas\<close>

lemma transitions_distinct [simp]: "distinct (defaultTransitionsFor preset)"
  by (cases preset) simp_all

lemma statuses_distinct [simp]: "distinct (WORKFLOW_STATUSES preset)"
  by (cases preset) simp_all

lemma default_status_valid: "isValidStatusFor preset (defaultStatusFor preset)"
  by (cases preset) (simp_all add: isValidStatusFor_def defaultStatusFor_def)

lemma done_status_valid: "st \<in> set (doneStatusesFor preset) \<Longrightarrow> isValidStatusFor preset st"
  by (cases preset) (auto simp: doneStatusesFor_def isValidStatusFor_def)

lemma default_transitions_valid:
  "(a, b) \<in> set (defaultTransitionsFor preset) \<Longrightarrow>
    isValidStatusFor preset a \<and> isValidStatusFor preset b \<and> a \<noteq> b"
  by (cases preset) (auto simp: isValidStatusFor_def)

text \<open>The first byte of the arrow marks where the first name ends.\<close>

lemma transitionKey_inject:
  assumes "hd arrow \<notin> set a" and "hd arrow \<notin> set a'"
    and "transitionKey a b = transitionKey a' b'"
  shows "a = a' \<and> b = b'"
  using assms
proof (induction a arbitrary: a')
  case Nil
  then show ?case by (cases a') (auto simp: transitionKey_def arrow_def)
next
  case (Cons x a)
  then show ?case by (cases a') (auto simp: transitionKey_def arrow_def)
qed

text \<open>Reachability along the default edges, as the reflexive transitive closure.\<close>

definition workflow_edges :: "workflow_preset \<Rightarrow> (string \<times> string) set" where
  "workflow_edges preset = set (defaultTransitionsFor preset)"

lemma edge_step: "(a, b) \<in> workflow_edges p \<Longrightarrow> (b, c) \<in> (workflow_edges p)\<^sup>* \<Longrightarrow> (a, c) \<in> (workflow_edges p)\<^sup>*"
  by (rule converse_rtrancl_into_rtrancl)

lemma edges_mem:
  "(''Todo'', ''In Progress'') \<in> workflow_edges p" "(''In Progress'', ''Todo'') \<in> workflow_edges p"
  "(''Done'', ''In Progress'') \<in> workflow_edges p"
  "p \<noteq> Generic \<Longrightarrow> (''In Progress'', ''In Review'') \<in> workflow_edges p"
  "p \<noteq> Generic \<Longrightarrow> (''In Review'', ''In Progress'') \<in> workflow_edges p"
  "(''In Progress'', ''Done'') \<in> workflow_edges Generic"
  "(''In Review'', ''Testing'') \<in> workflow_edges Engineering" "(''Testing'', ''Done'') \<in> workflow_edges Engineering"
  "(''In Review'', ''Approved'') \<in> workflow_edges Design" "(''Approved'', ''Done'') \<in> workflow_edges Design"
  by (cases p; simp add: workflow_edges_def)+

lemma review_from_progress: "p \<noteq> Generic \<Longrightarrow> (''In Progress'', ''In Review'') \<in> (workflow_edges p)\<^sup>*"
  by (rule r_into_rtrancl, rule edges_mem)

lemma testing_from_progress: "(''In Progress'', ''Testing'') \<in> (workflow_edges Engineering)\<^sup>*"
  by (rule rtrancl_into_rtrancl [OF review_from_progress edges_mem(7)]) simp

lemma approved_from_progress: "(''In Progress'', ''Approved'') \<in> (workflow_edges Design)\<^sup>*"
  by (rule rtrancl_into_rtrancl [OF review_from_progress edges_mem(9)]) simp

lemma done_from_progress: "(''In Progress'', ''Done'') \<in> (workflow_edges p)\<^sup>*"
proof (cases p)
  case Engineering
  then show ?thesis
    using rtrancl_into_rtrancl [OF testing_from_progress edges_mem(8)] by simp
next
  case Design
  then show ?thesis
    using rtrancl_into_rtrancl [OF approved_from_progress edges_mem(10)] by simp
next
  case Generic
  then show ?thesis using r_into_rtrancl [OF edges_mem(6)] by simp
qed

lemma todo_from_progress: "(''In Progress'', ''Todo'') \<in> (workflow_edges p)\<^sup>*"
  by (rule r_into_rtrancl, rule edges_mem)

lemma from_in_progress:
  "isValidStatusFor p st \<Longrightarrow> (''In Progress'', st) \<in> (workflow_edges p)\<^sup>*"
  by (cases p) (auto simp: isValidStatusFor_def intro: review_from_progress testing_from_progress
      approved_from_progress done_from_progress todo_from_progress)

lemma back_edges:
  "(''Todo'', ''In Progress'') \<in> (workflow_edges p)\<^sup>*"
  "(''Done'', ''In Progress'') \<in> (workflow_edges p)\<^sup>*"
  "p \<noteq> Generic \<Longrightarrow> (''In Review'', ''In Progress'') \<in> (workflow_edges p)\<^sup>*"
  by (rule r_into_rtrancl, rule edges_mem, assumption?)+

lemma back_edges_review:
  "(''Testing'', ''In Progress'') \<in> (workflow_edges Engineering)\<^sup>*"
  "(''Approved'', ''In Progress'') \<in> (workflow_edges Design)\<^sup>*"
  by (rule converse_rtrancl_into_rtrancl [OF _ back_edges(3)], simp add: workflow_edges_def, simp)+

lemma to_in_progress:
  "isValidStatusFor p st \<Longrightarrow> (st, ''In Progress'') \<in> (workflow_edges p)\<^sup>*"
  by (cases p) (auto simp: isValidStatusFor_def intro: back_edges back_edges_review)

section \<open>Properties\<close>

text \<open>
  The default workflow of each preset is strongly connected over its statuses, so no
  task can get stuck, and it has no direct edge from Todo to Done.
\<close>

theorem default_workflow_connected:
  "(\<forall>a b. isValidStatusFor p a \<and> isValidStatusFor p b \<longrightarrow> (a, b) \<in> (workflow_edges p)\<^sup>*) \<and>
   (''Todo'', ''Done'') \<notin> workflow_edges p"
proof
  show "\<forall>a b. isValidStatusFor p a \<and> isValidStatusFor p b \<longrightarrow> (a, b) \<in> (workflow_edges p)\<^sup>*"
    using to_in_progress from_in_progress by (meson rtrancl_trans)
  show "(''Todo'', ''Done'') \<notin> workflow_edges p"
    by (cases p) (simp_all add: workflow_edges_def)
qed

theorem default_workflow_connected_witness:
  "(''Testing'', ''Todo'') \<in> (workflow_edges Engineering)\<^sup>*"
  using default_workflow_connected [of Engineering] by (simp add: isValidStatusFor_def)

end
