(* ===== verification/ProjectWorkflow.thy ===== *)
theory ProjectWorkflow
  imports Permissions Workflow
begin

text \<open>
  \<^verbatim>\<open>apps/api/src/modules/projects/project-workflow.service.ts\<close>: the editable columns and
  statuses of a project. One definition per method, then the invariant of the three tables
  it edits (with the tasks that name a status) and its preservation by every operation.
\<close>

section \<open>Data transfer objects\<close>

record column_dto =
  cd_id :: string
  cd_name :: string
  cd_position :: int
  cd_color :: "string option"

record status_dto =
  sd_id :: string
  sd_columnId :: string
  sd_name :: string
  sd_position :: int
  sd_color :: "string option"
  sd_isInitialStatus :: bool
  sd_isDoneStatus :: bool

record workflow_snapshot =
  ws_columns :: "column_dto list"
  ws_statuses :: "status_dto list"

definition column_select :: "column_row \<Rightarrow> column_dto" where
  "column_select c = \<lparr>cd_id = c_id c, cd_name = c_name c, cd_position = c_position c,
     cd_color = c_color c\<rparr>"

definition status_select :: "status_row \<Rightarrow> status_dto" where
  "status_select s = \<lparr>sd_id = s_id s, sd_columnId = s_columnId s, sd_name = s_name s,
     sd_position = s_position s, sd_color = s_color s, sd_isInitialStatus = s_isInitialStatus s,
     sd_isDoneStatus = s_isDoneStatus s\<rparr>"

fun PRESET_DEFAULTS :: "workflow_preset \<Rightarrow> (string \<times> bool) list" where
  "PRESET_DEFAULTS Engineering = [(''Todo'', False), (''In Progress'', False),
     (''In Review'', False), (''Testing'', False), (''Done'', True)]"
| "PRESET_DEFAULTS Design = [(''Todo'', False), (''In Progress'', False),
     (''In Review'', False), (''Approved'', True), (''Done'', True)]"
| "PRESET_DEFAULTS Generic = [(''Todo'', False), (''In Progress'', False), (''Done'', True)]"

definition MAX_NAME_LEN :: nat where
  "MAX_NAME_LEN = 60"

section \<open>Helpers\<close>

definition sanitizeName :: "string \<Rightarrow> string res" where
  "sanitizeName name = (let trimmed = trim name in
     if trimmed = [] then Inl (BadRequest ''Name is required'')
     else if length trimmed > MAX_NAME_LEN then Inl (BadRequest ''Name too long (max 60 characters)'')
     else Inr trimmed)"

definition mapUniqueError :: "string \<Rightarrow> api_error \<Rightarrow> api_error" where
  "mapUniqueError msg e = (if e = DbError P2002 then Conflict msg [] else e)"

text \<open>\<open>$transaction\<close> inside \<open>try\<close>: a failure rolls the state back and is rethrown mapped.\<close>

definition in_transaction :: "string \<Rightarrow> world \<Rightarrow> ('a \<times> world) res \<Rightarrow> 'a res \<times> world" where
  "in_transaction msg w r = (case r of
     Inl e \<Rightarrow> (Inl (mapUniqueError msg e), w)
   | Inr (a, w') \<Rightarrow> (Inr a, w'))"

text \<open>The unique constraints of the tables this service writes.\<close>

definition column_key :: "column_row \<Rightarrow> string \<times> string" where
  "column_key c = (c_projectId c, c_name c)"

definition status_key :: "status_row \<Rightarrow> string \<times> string" where
  "status_key s = (s_projectId s, s_name s)"

definition transition_key :: "transition_row \<Rightarrow> string \<times> string \<times> string" where
  "transition_key t = (wt_projectId t, wt_fromStatus t, wt_toStatus t)"

definition position_then_name ::
  "(string \<Rightarrow> string \<Rightarrow> bool) \<Rightarrow> ('r \<Rightarrow> int) \<Rightarrow> ('r \<Rightarrow> string) \<Rightarrow> 'r \<Rightarrow> 'r \<Rightarrow> bool" where
  "position_then_name le pos name a b \<longleftrightarrow>
     pos a < pos b \<or> pos a = pos b \<and> le (name a) (name b)"

section \<open>Reads\<close>

definition snapshotInternal :: "env \<Rightarrow> world \<Rightarrow> string \<Rightarrow> workflow_snapshot" where
  "snapshotInternal e w pid = \<lparr>
     ws_columns = map column_select (order_by (position_then_name (coll e) c_position c_name)
        (filter (\<lambda>c. c_projectId c = pid) (columns w))),
     ws_statuses = map status_select (order_by (position_then_name (coll e) s_position s_name)
        (filter (\<lambda>s. s_projectId s = pid) (statuses w)))\<rparr>"

definition snapshot :: "env \<Rightarrow> auth_user \<Rightarrow> string \<Rightarrow> world \<Rightarrow> workflow_snapshot res" where
  "snapshot e u pid w =
     and_then (assertAtLeast w u pid Viewer) (\<lambda>_. Inr (snapshotInternal e w pid))"

record status_names =
  sn_valid :: "string set"
  sn_initial :: "string option"
  sn_done :: "string set"

definition statusNames :: "world \<Rightarrow> string \<Rightarrow> status_names" where
  "statusNames w pid =
     (let sts = order_by (\<lambda>a b. s_position a \<le> s_position b)
                  (filter (\<lambda>s. s_projectId s = pid) (statuses w))
      in \<lparr>sn_valid = set (map s_name sts),
          sn_initial = (case List.find s_isInitialStatus sts of
             Some s \<Rightarrow> Some (s_name s)
           | None \<Rightarrow> (case sts of [] \<Rightarrow> None | s # _ \<Rightarrow> Some (s_name s))),
          sn_done = set (map s_name (filter s_isDoneStatus sts))\<rparr>)"

section \<open>Columns\<close>

text \<open>\<open>findFirst\<close> ordered by descending position: the greatest position in use.\<close>

definition tail_position :: "int list \<Rightarrow> int option" where
  "tail_position ps = greatest_by (\<le>) ps"

definition next_position :: "int option \<Rightarrow> int list \<Rightarrow> int" where
  "next_position wanted ps = (case wanted of
     Some p \<Rightarrow> p
   | None \<Rightarrow> (case tail_position ps of Some q \<Rightarrow> q + 1 | None \<Rightarrow> 0))"

definition createColumn :: "env \<Rightarrow> auth_user \<Rightarrow> string \<Rightarrow> string \<Rightarrow> string option option \<Rightarrow>
    int option \<Rightarrow> world \<Rightarrow> column_dto res \<times> world" where
  "createColumn e u pid nm color pos w =
     attempt (assertAtLeast w u pid Manager) w (\<lambda>_.
     attempt (sanitizeName nm) w (\<lambda>name.
       let position = next_position pos
             (map c_position (filter (\<lambda>c. c_projectId c = pid) (columns w)));
           c = \<lparr>c_id = uuid e 0, c_projectId = pid, c_name = name, c_position = position,
                c_color = Option.bind color id\<rparr>
       in in_transaction ''A column with this name already exists'' w
            (and_then (unique_rows column_key (columns w @ [c]))
              (\<lambda>cs. Inr (column_select c, w\<lparr>columns := cs\<rparr>)))))"

definition renameColumn :: "auth_user \<Rightarrow> string \<Rightarrow> string \<Rightarrow> string \<Rightarrow> world \<Rightarrow>
    column_dto res \<times> world" where
  "renameColumn u pid cid nm w =
     attempt (assertAtLeast w u pid Manager) w (\<lambda>_.
     attempt (sanitizeName nm) w (\<lambda>sanitized.
     attempt (found (NotFound ''Column not found'') (find_column w cid)) w (\<lambda>existing.
     attempt (require (c_projectId existing = pid) (NotFound ''Column not found'')) w (\<lambda>_.
       in_transaction ''Another column already uses this name'' w
         (and_then (unique_rows column_key
             (update_where (\<lambda>c. c_id c = cid) (\<lambda>c. c\<lparr>c_name := sanitized\<rparr>) (columns w)))
           (\<lambda>cs. Inr (column_select (existing\<lparr>c_name := sanitized\<rparr>), w\<lparr>columns := cs\<rparr>)))))))"

text \<open>The updates of the transaction run in the order of \<open>orderedIds\<close>.\<close>

definition set_position :: "string \<Rightarrow> int \<Rightarrow> column_row list \<Rightarrow> column_row list" where
  "set_position cid i = update_where (\<lambda>c. c_id c = cid) (\<lambda>c. c\<lparr>c_position := i\<rparr>)"

fun set_positions :: "string list \<Rightarrow> int \<Rightarrow> column_row list \<Rightarrow> column_row list" where
  "set_positions [] i cs = cs"
| "set_positions (cid # cids) i cs = set_positions cids (i + 1) (set_position cid i cs)"

definition reorderColumns :: "auth_user \<Rightarrow> string \<Rightarrow> string list \<Rightarrow> world \<Rightarrow>
    column_dto list res \<times> world" where
  "reorderColumns u pid orderedIds w =
     attempt (assertAtLeast w u pid Manager) w (\<lambda>_.
       let existing = map c_id (filter (\<lambda>c. c_projectId c = pid) (columns w))
       in attempt (require (\<not> (length orderedIds \<noteq> length existing \<or>
                              list_ex (\<lambda>cid. cid \<notin> set existing) orderedIds))
            (BadRequest ''orderedIds must contain every column id for this project exactly once'')) w (\<lambda>_.
          let cs = set_positions orderedIds 0 (columns w)
          in (Inr (map column_select (order_by (\<lambda>a b. c_position a \<le> c_position b)
                (filter (\<lambda>c. c_projectId c = pid) cs))), w\<lparr>columns := cs\<rparr>)))"

definition deleteColumn :: "auth_user \<Rightarrow> string \<Rightarrow> string \<Rightarrow> world \<Rightarrow> unit res \<times> world" where
  "deleteColumn u pid cid w =
     attempt (assertAtLeast w u pid Manager) w (\<lambda>_.
     attempt (found (NotFound ''Column not found'') (find_column w cid)) w (\<lambda>col.
     attempt (require (c_projectId col = pid) (NotFound ''Column not found'')) w (\<lambda>_.
       let inside = filter (\<lambda>s. s_columnId s = cid) (statuses w)
       in attempt (require (inside = [])
            (Conflict ''Move or delete the statuses inside this column first''
              [show_nat (length inside)])) w (\<lambda>_.
          (Inr (), w\<lparr>columns := delete_where (\<lambda>c. c_id c = cid) (columns w),
                     statuses := delete_where (\<lambda>s. s_columnId s = cid) (statuses w)\<rparr>)))))"

section \<open>Statuses\<close>

definition demote_initial :: "string \<Rightarrow> string option \<Rightarrow> status_row list \<Rightarrow> status_row list" where
  "demote_initial pid spared = update_where
     (\<lambda>s. s_projectId s = pid \<and> s_isInitialStatus s \<and> Some (s_id s) \<noteq> spared)
     (\<lambda>s. s\<lparr>s_isInitialStatus := False\<rparr>)"

definition column_of_project :: "world \<Rightarrow> string \<Rightarrow> string \<Rightarrow> unit res" where
  "column_of_project w pid cid =
     require (case find_column w cid of None \<Rightarrow> False | Some c \<Rightarrow> c_projectId c = pid)
       (BadRequest ''columnId does not belong to this project'')"

record create_status_input =
  cs_columnId :: string
  cs_name :: string
  cs_color :: "string option option"
  cs_isInitialStatus :: "bool option"
  cs_isDoneStatus :: "bool option"
  cs_position :: "int option"

definition createStatus :: "env \<Rightarrow> auth_user \<Rightarrow> string \<Rightarrow> create_status_input \<Rightarrow> world \<Rightarrow>
    status_dto res \<times> world" where
  "createStatus e u pid i w =
     attempt (assertAtLeast w u pid Manager) w (\<lambda>_.
     attempt (sanitizeName (cs_name i)) w (\<lambda>name.
     attempt (column_of_project w pid (cs_columnId i)) w (\<lambda>_.
       let position = next_position (cs_position i)
             (map s_position (filter (\<lambda>s. s_projectId s = pid \<and> s_columnId s = cs_columnId i) (statuses w)));
           demoted = (if cs_isInitialStatus i = Some True
                      then demote_initial pid None (statuses w) else statuses w);
           s = \<lparr>s_id = uuid e 0, s_projectId = pid, s_columnId = cs_columnId i, s_name = name,
                s_position = position, s_color = Option.bind (cs_color i) id,
                s_isInitialStatus = (cs_isInitialStatus i = Some True),
                s_isDoneStatus = (cs_isDoneStatus i = Some True)\<rparr>
       in in_transaction ''A status with this name already exists'' w
            (and_then (unique_rows status_key (demoted @ [s]))
              (\<lambda>ss. Inr (status_select s, w\<lparr>statuses := ss\<rparr>))))))"

record status_patch =
  pt_name :: "string option"
  pt_columnId :: "string option"
  pt_color :: "string option option"
  pt_isInitialStatus :: "bool option"
  pt_isDoneStatus :: "bool option"
  pt_position :: "int option"

definition patch_status :: "status_patch \<Rightarrow> string \<Rightarrow> status_row \<Rightarrow> status_row" where
  "patch_status p newName s = s\<lparr>
     s_name := (if pt_name p \<noteq> None then newName else s_name s),
     s_columnId := override (pt_columnId p) (s_columnId s),
     s_color := override (pt_color p) (s_color s),
     s_isInitialStatus := override (pt_isInitialStatus p) (s_isInitialStatus s),
     s_isDoneStatus := override (pt_isDoneStatus p) (s_isDoneStatus s),
     s_position := override (pt_position p) (s_position s)\<rparr>"

definition rename_in_tasks :: "string \<Rightarrow> string \<Rightarrow> string \<Rightarrow> task_row list \<Rightarrow> task_row list" where
  "rename_in_tasks pid old new =
     update_where (\<lambda>t. t_projectId t = pid \<and> t_status t = old) (\<lambda>t. t\<lparr>t_status := new\<rparr>)"

definition rename_in_transitions ::
  "string \<Rightarrow> string \<Rightarrow> string \<Rightarrow> transition_row list \<Rightarrow> transition_row list res" where
  "rename_in_transitions pid old new rows =
     and_then (unique_rows transition_key (update_where
         (\<lambda>t. wt_projectId t = pid \<and> wt_fromStatus t = old) (\<lambda>t. t\<lparr>wt_fromStatus := new\<rparr>) rows))
       (\<lambda>rows1. unique_rows transition_key (update_where
         (\<lambda>t. wt_projectId t = pid \<and> wt_toStatus t = old) (\<lambda>t. t\<lparr>wt_toStatus := new\<rparr>) rows1))"

definition update_status_tx :: "string \<Rightarrow> string \<Rightarrow> status_patch \<Rightarrow> status_row \<Rightarrow> string \<Rightarrow> bool \<Rightarrow>
    world \<Rightarrow> (status_dto \<times> world) res" where
  "update_status_tx pid sid patch existing newName renaming w =
     (let demoted = (if pt_isInitialStatus patch = Some True
                     then demote_initial pid (Some sid) (statuses w) else statuses w);
          ts = (if renaming then rename_in_tasks pid (s_name existing) newName (tasks w) else tasks w)
      in and_then (if renaming then rename_in_transitions pid (s_name existing) newName (transitions w)
                   else Inr (transitions w)) (\<lambda>trs.
         and_then (unique_rows status_key
             (update_where (\<lambda>s. s_id s = sid) (patch_status patch newName) demoted)) (\<lambda>ss.
         Inr (status_select (patch_status patch newName existing),
              w\<lparr>tasks := ts, transitions := trs, statuses := ss\<rparr>))))"

definition updateStatus :: "auth_user \<Rightarrow> string \<Rightarrow> string \<Rightarrow> status_patch \<Rightarrow> world \<Rightarrow>
    status_dto res \<times> world" where
  "updateStatus u pid sid patch w =
     attempt (assertAtLeast w u pid Manager) w (\<lambda>_.
     attempt (found (NotFound ''Status not found'') (find_status w sid)) w (\<lambda>existing.
     attempt (require (s_projectId existing = pid) (NotFound ''Status not found'')) w (\<lambda>_.
     attempt (case pt_name patch of None \<Rightarrow> Inr (s_name existing) | Some n \<Rightarrow> sanitizeName n) w (\<lambda>newName.
     attempt (case pt_columnId patch of
         None \<Rightarrow> Inr ()
       | Some cid \<Rightarrow> if cid \<noteq> s_columnId existing then column_of_project w pid cid else Inr ()) w (\<lambda>_.
       let renaming = (pt_name patch \<noteq> None \<and> newName \<noteq> s_name existing)
       in in_transaction ''Another status already uses this name'' w
            (update_status_tx pid sid patch existing newName renaming w))))))"

definition deleteStatus :: "auth_user \<Rightarrow> string \<Rightarrow> string \<Rightarrow> world \<Rightarrow> unit res \<times> world" where
  "deleteStatus u pid sid w =
     attempt (assertAtLeast w u pid Manager) w (\<lambda>_.
     attempt (found (NotFound ''Status not found'') (find_status w sid)) w (\<lambda>status.
     attempt (require (s_projectId status = pid) (NotFound ''Status not found'')) w (\<lambda>_.
     attempt (require (\<not> s_isInitialStatus status)
       (Conflict ''Cannot delete the initial status'' [])) w (\<lambda>_.
       let taskCount = count_where (\<lambda>t. t_projectId t = pid \<and> t_status t = s_name status) (tasks w)
       in attempt (require (taskCount = 0)
            (Conflict ''Cannot delete a status with tasks still in it'' [show_nat taskCount])) w (\<lambda>_.
          (Inr (), w\<lparr>transitions := delete_where (\<lambda>t. wt_projectId t = pid \<and>
                        (wt_fromStatus t = s_name status \<or> wt_toStatus t = s_name status)) (transitions w),
                     statuses := delete_where (\<lambda>s. s_id s = sid) (statuses w)\<rparr>))))))"

section \<open>Seed and reset\<close>

fun seed_columns :: "env \<Rightarrow> string \<Rightarrow> nat \<Rightarrow> (string \<times> bool) list \<Rightarrow> world \<Rightarrow> world res" where
  "seed_columns e pid i [] w = Inr w"
| "seed_columns e pid i ((nm, isDone) # defs) w =
     and_then (unique_rows column_key (columns w @
         [\<lparr>c_id = uuid e (2 * i), c_projectId = pid, c_name = nm, c_position = int i, c_color = None\<rparr>])) (\<lambda>cs.
     and_then (unique_rows status_key (statuses w @
         [\<lparr>s_id = uuid e (2 * i + 1), s_projectId = pid, s_columnId = uuid e (2 * i), s_name = nm,
           s_position = 0, s_color = None, s_isInitialStatus = (i = 0), s_isDoneStatus = isDone\<rparr>])) (\<lambda>ss.
     seed_columns e pid (Suc i) defs (w\<lparr>columns := cs, statuses := ss\<rparr>)))"

definition preset_transitions :: "string \<Rightarrow> workflow_preset \<Rightarrow> transition_row list" where
  "preset_transitions pid preset = map (\<lambda>(f, t). \<lparr>wt_projectId = pid, wt_fromStatus = f, wt_toStatus = t\<rparr>)
     (defaultTransitionsFor preset)"

definition seedDefaults :: "env \<Rightarrow> string \<Rightarrow> workflow_preset \<Rightarrow> world \<Rightarrow> world res" where
  "seedDefaults e pid preset w =
     and_then (seed_columns e pid 0 (PRESET_DEFAULTS preset) w) (\<lambda>w1.
     and_then (unique_rows transition_key (transitions w1 @ preset_transitions pid preset)) (\<lambda>trs.
     Inr (w1\<lparr>transitions := trs\<rparr>)))"

definition clear_workflow :: "string \<Rightarrow> world \<Rightarrow> world" where
  "clear_workflow pid w = w\<lparr>
     statuses := delete_where (\<lambda>s. s_projectId s = pid) (statuses w),
     columns := delete_where (\<lambda>c. c_projectId c = pid) (columns w),
     transitions := delete_where (\<lambda>t. wt_projectId t = pid) (transitions w)\<rparr>"

definition resetToDefaults :: "env \<Rightarrow> auth_user \<Rightarrow> string \<Rightarrow> world \<Rightarrow> workflow_snapshot res \<times> world" where
  "resetToDefaults e u pid w =
     attempt (assertAtLeast w u pid Manager) w (\<lambda>_.
     attempt (found (NotFound ''Project not found'') (find_project w pid)) w (\<lambda>project.
       let presetNames = map fst (PRESET_DEFAULTS (p_workflowPreset project));
           offending = take 5 (filter (\<lambda>t. t_projectId t = pid \<and> t_status t \<notin> set presetNames) (tasks w))
       in attempt (require (offending = [])
            (Conflict ''Reset would orphan tasks currently in non-default status(es)''
              (uniq (map t_status offending)))) w (\<lambda>_.
          attempt (seedDefaults e pid (p_workflowPreset project) (clear_workflow pid w)) w (\<lambda>w'.
          (snapshot e u pid w', w')))))"

lemmas workflow_handlers = createColumn_def renameColumn_def reorderColumns_def deleteColumn_def
  createStatus_def updateStatus_def deleteStatus_def resetToDefaults_def


section \<open>Lemmas of the helpers\<close>

lemma tx_inv:
  "P w \<Longrightarrow> (\<And>a w'. r = Inr (a, w') \<Longrightarrow> P w') \<Longrightarrow> P (snd (in_transaction msg w r))"
  by (cases r) (auto simp: in_transaction_def)

lemma tx_unique_inv:
  "P w \<Longrightarrow> (distinct (map key rows) \<Longrightarrow> P (w' rows)) \<Longrightarrow>
    P (snd (in_transaction msg w (and_then (unique_rows key rows) (\<lambda>r. Inr (a r, w' r)))))"
  by (simp add: in_transaction_def unique_rows_def)

lemma sanitizeName_Inr:
  "sanitizeName nm = Inr n \<longleftrightarrow> n = trim nm \<and> n \<noteq> [] \<and> length n \<le> MAX_NAME_LEN"
  by (auto simp: sanitizeName_def Let_def)

lemma column_of_project_Inr:
  "column_of_project w pid cid = Inr u \<longleftrightarrow> (\<exists>c. find_column w cid = Some c \<and> c_projectId c = pid)"
  by (auto simp: column_of_project_def split: option.splits)

interpretation position: row_update c_id "\<lambda>c. c\<lparr>c_position := i\<rparr>" for i
  by unfold_locales simp

interpretation position_key: row_update column_key "\<lambda>c. c\<lparr>c_position := i\<rparr>" for i
  by unfold_locales (simp add: column_key_def)

interpretation demotion: row_update s_id "\<lambda>s. s\<lparr>s_isInitialStatus := False\<rparr>"
  by unfold_locales simp

interpretation demotion_key: row_update status_key "\<lambda>s. s\<lparr>s_isInitialStatus := False\<rparr>"
  by unfold_locales (simp add: status_key_def)

interpretation patching: row_update s_id "patch_status p n" for p n
  by unfold_locales (simp add: patch_status_def)

interpretation renaming: row_update c_id "\<lambda>c. c\<lparr>c_name := n\<rparr>" for n
  by unfold_locales simp

lemma map_kept:
  assumes "\<And>c i. f (c\<lparr>c_position := i\<rparr>) = f c"
  shows "map f (set_positions cids i cs) = map f cs"
proof (induction cids arbitrary: i cs)
  case (Cons cid cids)
  have "map f (set_position cid i cs) = map f cs"
    unfolding set_position_def by (rule map_update_where) (rule assms)
  with Cons show ?case by simp
qed simp

section \<open>The invariant\<close>

text \<open>
  Identifiers and names are unique; a status lies in a column of its project; a task and
  both ends of a transition name a status of their project; a project has at most one
  initial status.
\<close>

definition ids_ok :: "world \<Rightarrow> bool" where
  "ids_ok w \<longleftrightarrow> distinct (map c_id (columns w)) \<and> distinct (map s_id (statuses w))"

definition names_ok :: "world \<Rightarrow> bool" where
  "names_ok w \<longleftrightarrow> distinct (map column_key (columns w)) \<and> distinct (map status_key (statuses w)) \<and>
     distinct (map transition_key (transitions w))"

definition column_ref :: "column_row \<Rightarrow> string \<times> string" where
  "column_ref c = (c_id c, c_projectId c)"

definition status_place :: "status_row \<Rightarrow> string \<times> string" where
  "status_place s = (s_columnId s, s_projectId s)"

definition placement_ok :: "world \<Rightarrow> bool" where
  "placement_ok w \<longleftrightarrow> status_place ` set (statuses w) \<subseteq> column_ref ` set (columns w)"

definition task_status :: "task_row \<Rightarrow> string \<times> string" where
  "task_status t = (t_projectId t, t_status t)"

definition edge_from :: "transition_row \<Rightarrow> string \<times> string" where
  "edge_from t = (wt_projectId t, wt_fromStatus t)"

definition edge_to :: "transition_row \<Rightarrow> string \<times> string" where
  "edge_to t = (wt_projectId t, wt_toStatus t)"

definition names_used :: "task_row list \<Rightarrow> transition_row list \<Rightarrow> (string \<times> string) set" where
  "names_used ts trs = task_status ` set ts \<union> edge_from ` set trs \<union> edge_to ` set trs"

definition names_defined :: "world \<Rightarrow> bool" where
  "names_defined w \<longleftrightarrow> names_used (tasks w) (transitions w) \<subseteq> status_key ` set (statuses w)"

definition initial_ok :: "status_row list \<Rightarrow> bool" where
  "initial_ok ss \<longleftrightarrow> (\<forall>s \<in> set ss. \<forall>s' \<in> set ss. s_isInitialStatus s \<longrightarrow> s_isInitialStatus s' \<longrightarrow>
     s_projectId s = s_projectId s' \<longrightarrow> s_id s = s_id s')"

definition workflow_inv :: "world \<Rightarrow> bool" where
  "workflow_inv w \<longleftrightarrow> ids_ok w \<and> names_ok w \<and> placement_ok w \<and> names_defined w \<and>
     initial_ok (statuses w)"

lemmas workflow_inv_defs = workflow_inv_def ids_ok_def names_ok_def placement_ok_def
  names_defined_def

lemmas wf_steps = attempt_inv [where P = workflow_inv] tx_unique_inv [where P = workflow_inv]

text \<open>Columns only: the statuses, tasks and transitions stay.\<close>

lemma workflow_inv_columns:
  assumes "workflow_inv w" and "distinct (map c_id cs)" and "distinct (map column_key cs)"
    and "status_place ` set (statuses w) \<subseteq> column_ref ` set cs"
  shows "workflow_inv (w\<lparr>columns := cs\<rparr>)"
  using assms by (simp add: workflow_inv_defs)

lemma createColumn_inv:
  assumes "workflow_inv w" and "uuid e 0 \<notin> c_id ` set (columns w)"
  shows "workflow_inv (snd (createColumn e u pid nm color pos w))"
proof -
  have "workflow_inv (w\<lparr>columns := columns w @ [c]\<rparr>)"
    if "distinct (map column_key (columns w @ [c]))" and "c_id c = uuid e 0" for c
  proof (rule workflow_inv_columns [OF assms(1) _ that(1)])
    show "distinct (map c_id (columns w @ [c]))"
      using assms that(2) by (auto simp: workflow_inv_defs)
    show "status_place ` set (statuses w) \<subseteq> column_ref ` set (columns w @ [c])"
      using assms(1) by (auto simp: workflow_inv_defs)
  qed
  then show ?thesis
    unfolding createColumn_def Let_def by (intro wf_steps assms) simp
qed

lemma renameColumn_inv:
  assumes "workflow_inv w"
  shows "workflow_inv (snd (renameColumn u pid cid nm w))"
proof -
  have "workflow_inv (w\<lparr>columns := cs\<rparr>)"
    if cs: "cs = update_where (\<lambda>c. c_id c = cid) (\<lambda>c. c\<lparr>c_name := n\<rparr>) (columns w)"
      and "distinct (map column_key cs)" for n cs
  proof (rule workflow_inv_columns [OF assms _ that(2)])
    show "distinct (map c_id cs)"
      using assms by (simp add: cs renaming.distinct_kept workflow_inv_defs)
    have "map column_ref cs = map column_ref (columns w)"
      unfolding cs by (rule map_update_where) (simp add: column_ref_def)
    then have "column_ref ` set cs = column_ref ` set (columns w)" by (metis list.set_map)
    then show "status_place ` set (statuses w) \<subseteq> column_ref ` set cs"
      using assms by (simp add: workflow_inv_defs)
  qed
  then show ?thesis
    unfolding renameColumn_def by (intro wf_steps assms) simp
qed

lemma reorderColumns_inv:
  assumes "workflow_inv w"
  shows "workflow_inv (snd (reorderColumns u pid cids w))"
proof -
  let ?cs = "set_positions cids 0 (columns w)"
  have "map c_id ?cs = map c_id (columns w)" and "map column_key ?cs = map column_key (columns w)"
    by (rule map_kept, simp add: column_key_def)+
  moreover have "map column_ref ?cs = map column_ref (columns w)"
    by (rule map_kept) (simp add: column_ref_def)
  then have "column_ref ` set ?cs = column_ref ` set (columns w)" by (metis list.set_map)
  ultimately have "workflow_inv (w\<lparr>columns := ?cs\<rparr>)"
    using assms by (intro workflow_inv_columns) (auto simp: workflow_inv_defs)
  with assms show ?thesis
    unfolding reorderColumns_def Let_def by (intro wf_steps) auto
qed

lemma deleteColumn_inv:
  assumes "workflow_inv w"
  shows "workflow_inv (snd (deleteColumn u pid cid w))"
proof -
  have "workflow_inv (w\<lparr>columns := delete_where (\<lambda>c. c_id c = cid) (columns w),
      statuses := delete_where (\<lambda>s. s_columnId s = cid) (statuses w)\<rparr>)"
    if "filter (\<lambda>s. s_columnId s = cid) (statuses w) = []"
  proof -
    from that have none: "s \<in> set (statuses w) \<Longrightarrow> s_columnId s \<noteq> cid" for s
      by (auto simp: filter_empty_conv)
    then have kept: "delete_where (\<lambda>s. s_columnId s = cid) (statuses w) = statuses w"
      by (simp add: delete_where_def)
    have "workflow_inv (w\<lparr>columns := delete_where (\<lambda>c. c_id c = cid) (columns w)\<rparr>)"
    proof (rule workflow_inv_columns [OF assms])
      show "status_place ` set (statuses w) \<subseteq> column_ref ` set (delete_where (\<lambda>c. c_id c = cid) (columns w))"
        using assms none
        by (fastforce simp: workflow_inv_defs status_place_def column_ref_def image_iff subset_iff)
    qed (use assms in \<open>auto simp: workflow_inv_defs intro: distinct_delete_where\<close>)
    then show ?thesis by (simp add: kept)
  qed
  with assms show ?thesis
    unfolding deleteColumn_def Let_def by (intro wf_steps) auto
qed

text \<open>Replacing the statuses.\<close>

lemma workflow_inv_statuses:
  assumes "workflow_inv w" and "distinct (map s_id ss)" and "distinct (map status_key ss)"
    and "status_place ` set ss \<subseteq> column_ref ` set (columns w)"
    and "status_key ` set (statuses w) \<subseteq> status_key ` set ss" and "initial_ok ss"
  shows "workflow_inv (w\<lparr>statuses := ss\<rparr>)"
proof -
  from assms(1) have "names_used (tasks w) (transitions w) \<subseteq> status_key ` set (statuses w)"
    by (simp add: workflow_inv_defs)
  with assms(5) have "names_used (tasks w) (transitions w) \<subseteq> status_key ` set ss"
    by (rule subset_trans [rotated])
  with assms show ?thesis by (simp add: workflow_inv_defs)
qed

lemma demote_maps:
  "map s_id (demote_initial pid sp ss) = map s_id ss"
  "map status_key (demote_initial pid sp ss) = map status_key ss"
  "map status_place (demote_initial pid sp ss) = map status_place ss"
  unfolding demote_initial_def
  by (rule map_update_where, simp add: status_key_def status_place_def)+

lemma demote_images:
  "s_id ` set (demote_initial pid sp ss) = s_id ` set ss"
  "status_key ` set (demote_initial pid sp ss) = status_key ` set ss"
  "status_place ` set (demote_initial pid sp ss) = status_place ` set ss"
  using demote_maps by (metis list.set_map)+

lemma demote_origin:
  assumes "s \<in> set (demote_initial pid sp ss)"
  obtains s0 where "s0 \<in> set ss" and "s_id s0 = s_id s" and "s_projectId s0 = s_projectId s"
    and "s_isInitialStatus s \<Longrightarrow> s_isInitialStatus s0"
    and "s_isInitialStatus s \<Longrightarrow> s_projectId s = pid \<Longrightarrow> Some (s_id s) = sp"
proof -
  from assms obtain s0 where s0: "s0 \<in> set ss"
    and s: "s = (if s_projectId s0 = pid \<and> s_isInitialStatus s0 \<and> Some (s_id s0) \<noteq> sp
              then s0\<lparr>s_isInitialStatus := False\<rparr> else s0)"
    unfolding demote_initial_def set_update_where by (rule imageE)
  show thesis
  proof (cases "s_projectId s0 = pid \<and> s_isInitialStatus s0 \<and> Some (s_id s0) \<noteq> sp")
    case True
    with s0 s show thesis by (intro that [of s0]) simp_all
  next
    case False
    with s have "s = s0" by simp
    with s0 False show thesis by (intro that [of s0]) auto
  qed
qed

lemma initial_okD:
  "initial_ok ss \<Longrightarrow> s \<in> set ss \<Longrightarrow> s' \<in> set ss \<Longrightarrow> s_isInitialStatus s \<Longrightarrow> s_isInitialStatus s' \<Longrightarrow>
    s_projectId s = s_projectId s' \<Longrightarrow> s_id s = s_id s'"
  unfolding initial_ok_def by blast

lemma initial_ok_snoc:
  assumes "initial_ok d"
    and "\<And>x. s_isInitialStatus s \<Longrightarrow> x \<in> set d \<Longrightarrow> s_projectId x = s_projectId s \<Longrightarrow> \<not> s_isInitialStatus x"
  shows "initial_ok (d @ [s])"
  unfolding initial_ok_def
proof (intro ballI impI)
  fix x y assume "x \<in> set (d @ [s])" "y \<in> set (d @ [s])" "s_isInitialStatus x" "s_isInitialStatus y"
    "s_projectId x = s_projectId y"
  then show "s_id x = s_id y"
    using assms(2) [of x] assms(2) [of y] initial_okD [OF assms(1), of x y] by auto
qed

lemma demote_initial_ok:
  assumes "initial_ok ss" shows "initial_ok (demote_initial pid sp ss)"
  unfolding initial_ok_def
proof (intro ballI impI)
  fix s s' assume s: "s \<in> set (demote_initial pid sp ss)" "s' \<in> set (demote_initial pid sp ss)"
    and i: "s_isInitialStatus s" "s_isInitialStatus s'" and p: "s_projectId s = s_projectId s'"
  obtain a where a: "a \<in> set ss" "s_id a = s_id s" "s_projectId a = s_projectId s"
    "s_isInitialStatus a" by (rule demote_origin [OF s(1)]) (use i(1) in auto)
  obtain b where b: "b \<in> set ss" "s_id b = s_id s'" "s_projectId b = s_projectId s'"
    "s_isInitialStatus b" by (rule demote_origin [OF s(2)]) (use i(2) in auto)
  from initial_okD [OF assms a(1) b(1) a(4) b(4)] a b p show "s_id s = s_id s'" by simp
qed

lemma demoted_project:
  "s \<in> set (demote_initial pid sp ss) \<Longrightarrow> s_projectId s = pid \<Longrightarrow> s_isInitialStatus s \<Longrightarrow> Some (s_id s) = sp"
  by (erule demote_origin) blast

lemma find_column_ref:
  "find_column w cid = Some c \<Longrightarrow> (cid, c_projectId c) \<in> column_ref ` set (columns w)"
  by (drule find_columnD) (auto simp: column_ref_def image_iff)

lemma createStatus_inv:
  assumes inv: "workflow_inv w" and fresh: "uuid e 0 \<notin> s_id ` set (statuses w)"
  shows "workflow_inv (snd (createStatus e u pid i w))"
proof -
  have main: "workflow_inv (w\<lparr>statuses := ss\<rparr>)"
    if ss: "ss = d @ [s]"
      and d: "d = (if b then demote_initial pid None (statuses w) else statuses w)"
      and s: "s_id s = uuid e 0" "s_projectId s = pid" "s_isInitialStatus s = b"
      and col: "\<exists>c. find_column w (s_columnId s) = Some c \<and> c_projectId c = pid"
      and dist: "distinct (map status_key ss)" for ss s b d
  proof (rule workflow_inv_statuses [OF inv _ dist])
    show "distinct (map s_id ss)"
      using inv fresh s by (simp add: ss d workflow_inv_defs demote_maps demote_images)
    have "status_place s \<in> column_ref ` set (columns w)"
      using col s find_column_ref by (fastforce simp: status_place_def)
    then show "status_place ` set ss \<subseteq> column_ref ` set (columns w)"
      using inv by (simp add: ss d workflow_inv_defs demote_images)
    have "status_key ` set d = status_key ` set (statuses w)"
      by (simp add: d demote_images)
    then show "status_key ` set (statuses w) \<subseteq> status_key ` set ss"
      by (auto simp: ss)
    have 1: "initial_ok d" using inv by (simp add: d workflow_inv_defs demote_initial_ok)
    have 2: "b \<Longrightarrow> x \<in> set d \<Longrightarrow> s_projectId x = pid \<Longrightarrow> \<not> s_isInitialStatus x" for x
      using demoted_project [of x pid None] by (auto simp: d)
    show "initial_ok ss"
      unfolding ss by (rule initial_ok_snoc [OF 1]) (use 2 s in auto)
  qed
  show ?thesis
    unfolding createStatus_def Let_def
    by (intro wf_steps inv)
       (rule main, rule refl, rule refl, simp_all only: status_row.simps column_of_project_Inr)
qed

text \<open>Renaming: the key of the one status that changes, and the rows that follow it.\<close>

lemma distinct_key_unique:
  "distinct (map key rows) \<Longrightarrow> x \<in> set rows \<Longrightarrow> y \<in> set rows \<Longrightarrow> key x = key y \<Longrightarrow> x = y"
  by (meson distinct_map inj_onD)

lemma image_update_one:
  assumes "distinct (map key rows)" and "x \<in> set rows"
  shows "g ` set (update_where (\<lambda>r. key r = key x) f rows) = insert (g (f x)) (g ` (set rows - {x}))"
proof -
  have "r = x" if "r \<in> set rows" and "key r = key x" for r
    using distinct_key_unique [OF assms(1) that(1) assms(2) that(2)] .
  with assms(2) show ?thesis by (auto simp: set_update_where image_iff)
qed

lemma rename_task_status:
  "task_status ` set (rename_in_tasks pid old new ts) =
    (\<lambda>k. if k = (pid, old) then (pid, new) else k) ` task_status ` set ts"
  unfolding rename_in_tasks_def set_update_where image_image
  by (rule image_cong) (auto simp: task_status_def)

lemma rename_edges:
  assumes "rename_in_transitions pid old new trs = Inr trs'"
  shows "edge_from ` set trs' = (\<lambda>k. if k = (pid, old) then (pid, new) else k) ` edge_from ` set trs"
    and "edge_to ` set trs' = (\<lambda>k. if k = (pid, old) then (pid, new) else k) ` edge_to ` set trs"
    and "distinct (map transition_key trs')"
proof -
  let ?r = "\<lambda>k. if k = (pid, old) then (pid, new) else k"
  define f where "f = (\<lambda>t :: transition_row. if wt_projectId t = pid \<and> wt_fromStatus t = old then t\<lparr>wt_fromStatus := new\<rparr> else t)"
  define g where "g = (\<lambda>t :: transition_row. if wt_projectId t = pid \<and> wt_toStatus t = old then t\<lparr>wt_toStatus := new\<rparr> else t)"
  from assms have trs': "trs' = map g (map f trs)" and d: "distinct (map transition_key trs')"
    by (auto simp: rename_in_transitions_def and_then_Inr update_where_def f_def g_def comp_assoc)
  have "edge_from (g (f t)) = ?r (edge_from t)" "edge_to (g (f t)) = ?r (edge_to t)" for t
    by (auto simp: f_def g_def edge_from_def edge_to_def)
  then show "edge_from ` set trs' = ?r ` edge_from ` set trs" "edge_to ` set trs' = ?r ` edge_to ` set trs"
    by (simp_all only: trs' set_map image_image)
  from d show "distinct (map transition_key trs')" .
qed

lemma renamed_subset:
  assumes "N \<subseteq> K" and "old_key \<in> K"
  shows "(\<lambda>k. if k = old_key then new_key else k) ` N \<subseteq> insert new_key (K - {old_key})"
  using assms by auto

text \<open>The transaction of \<open>updateStatus\<close>, for a status that exists in the project.\<close>

lemma demote_spares:
  "s \<in> set ss \<Longrightarrow> s_id s = sid \<Longrightarrow> s \<in> set (demote_initial pid (Some sid) ss)"
  by (force simp: demote_initial_def set_update_where)

lemma initial_ok_update:
  assumes "initial_ok d" and "distinct (map s_id d)" and "ex \<in> set d"
    and "s_id (f ex) = s_id ex" and "s_projectId (f ex) = s_projectId ex"
    and "\<And>x. s_isInitialStatus (f ex) \<Longrightarrow> x \<in> set d \<Longrightarrow> s_projectId x = s_projectId ex \<Longrightarrow>
          s_isInitialStatus x \<Longrightarrow> s_id x = s_id ex"
  shows "initial_ok (update_where (\<lambda>s. s_id s = s_id ex) f d)"
proof -
  have mem: "x \<in> set (update_where (\<lambda>s. s_id s = s_id ex) f d) \<Longrightarrow> x = f ex \<or> x \<in> set d" for x
    using image_update_one [OF assms(2,3), of "\<lambda>x. x" f] by auto
  show ?thesis
    unfolding initial_ok_def
  proof (intro ballI impI)
    fix x y
    assume "x \<in> set (update_where (\<lambda>s. s_id s = s_id ex) f d)"
      and "y \<in> set (update_where (\<lambda>s. s_id s = s_id ex) f d)"
      and i: "s_isInitialStatus x" "s_isInitialStatus y" and p: "s_projectId x = s_projectId y"
    then consider "x = f ex" "y = f ex" | "x = f ex" "y \<in> set d" | "x \<in> set d" "y = f ex"
      | "x \<in> set d" "y \<in> set d" using mem by blast
    then show "s_id x = s_id y"
    proof cases
      case 2
      then show ?thesis using assms(4,5) assms(6) [of y] i p by simp
    next
      case 3
      then show ?thesis using assms(4,5) assms(6) [of x] i p by simp
    next
      case 4
      then show ?thesis using initial_okD [OF assms(1)] i p by blast
    qed simp
  qed
qed

lemma update_status_tx_inv:
  assumes inv: "workflow_inv w" and ex: "find_status w sid = Some ex" "s_projectId ex = pid"
    and nm: "pt_name p = None \<Longrightarrow> newName = s_name ex"
    and ren: "renaming \<longleftrightarrow> pt_name p \<noteq> None \<and> newName \<noteq> s_name ex"
    and col: "\<And>cid. pt_columnId p = Some cid \<Longrightarrow> cid \<noteq> s_columnId ex \<Longrightarrow>
          (cid, pid) \<in> column_ref ` set (columns w)"
    and res: "update_status_tx pid sid p ex newName renaming w = Inr (dto, w')"
  shows "workflow_inv w'"
proof -
  define d where "d = (if pt_isInitialStatus p = Some True
    then demote_initial pid (Some sid) (statuses w) else statuses w)"
  define ts where "ts = (if renaming then rename_in_tasks pid (s_name ex) newName (tasks w) else tasks w)"
  define ss where "ss = update_where (\<lambda>s. s_id s = sid) (patch_status p newName) d"
  obtain trs where trs: "(if renaming then rename_in_transitions pid (s_name ex) newName (transitions w)
      else Inr (transitions w)) = Inr trs" and dist: "distinct (map status_key ss)"
    and w': "w' = w\<lparr>tasks := ts, transitions := trs, statuses := ss\<rparr>"
    using res unfolding update_status_tx_def Let_def and_then_Inr unique_rows_Inr d_def ts_def ss_def
    by blast
  have iused: "names_used (tasks w) (transitions w) \<subseteq> status_key ` set (statuses w)"
    and iplace: "status_place ` set (statuses w) \<subseteq> column_ref ` set (columns w)"
    and itrs: "distinct (map transition_key (transitions w))"
    using inv by (simp_all add: workflow_inv_defs)
  let ?K = "status_key ` set (statuses w)" and ?new = "status_key (patch_status p newName ex)"
  from ex(1) have mem: "ex \<in> set (statuses w)" and sid: "s_id ex = sid" by (simp_all add: find_statusD)
  then have exd: "ex \<in> set d" by (simp add: d_def demote_spares)
  have ids: "distinct (map s_id d)" and inid: "initial_ok d"
    using inv by (simp_all add: d_def workflow_inv_defs demote_maps demote_initial_ok)
  have keysd: "status_key ` set d = ?K" and placed: "status_place ` set d = status_place ` set (statuses w)"
    by (simp_all add: d_def demote_images)
  have keys: "status_key ` set ss = insert ?new (status_key ` (set d - {ex}))"
    unfolding ss_def using image_update_one [OF ids exd] by (simp add: sid)
  have new: "?new = (pid, newName)"
    using ex(2) nm by (cases "pt_name p") (auto simp: status_key_def patch_status_def)
  have old: "status_key ex = (pid, s_name ex)" by (simp add: status_key_def ex(2))
  have sub: "insert ?new (?K - {(pid, s_name ex)}) \<subseteq> status_key ` set ss"
    unfolding keys keysd [symmetric] old [symmetric] by blast
  have "names_used ts trs \<subseteq> status_key ` set ss"
  proof (cases renaming)
    case True
    with trs have r: "rename_in_transitions pid (s_name ex) newName (transitions w) = Inr trs" by simp
    have "names_used ts trs = (\<lambda>k. if k = (pid, s_name ex) then (pid, newName) else k) `
        names_used (tasks w) (transitions w)"
      using True by (simp only: names_used_def ts_def rename_task_status rename_edges [OF r] image_Un if_True)
    moreover have "(pid, s_name ex) \<in> ?K" using mem old by (metis imageI)
    ultimately have "names_used ts trs \<subseteq> insert (pid, newName) (?K - {(pid, s_name ex)})"
      using renamed_subset [OF iused] by simp
    with sub show ?thesis unfolding new by (rule subset_trans [rotated])
  next
    case False
    with trs have "trs = transitions w" "ts = tasks w" by (simp_all add: ts_def)
    moreover from False nm ren have "newName = s_name ex" by (cases "pt_name p") auto
    with new sub have "?K \<subseteq> status_key ` set ss" by auto
    ultimately show ?thesis using iused by simp
  qed
  moreover have "distinct (map transition_key trs)"
    using trs itrs rename_edges(3) by (cases renaming) auto
  moreover have "distinct (map s_id ss)"
    using ids by (simp add: ss_def patching.distinct_kept)
  moreover have "status_place ` set ss \<subseteq> column_ref ` set (columns w)"
  proof -
    have "status_place (patch_status p newName ex) \<in> column_ref ` set (columns w)"
    proof (cases "pt_columnId p = None \<or> pt_columnId p = Some (s_columnId ex)")
      case True
      then have "status_place (patch_status p newName ex) = status_place ex"
        by (auto simp: status_place_def patch_status_def override_def)
      then show ?thesis using iplace mem by auto
    next
      case False
      then show ?thesis using col ex(2) by (auto simp: status_place_def patch_status_def override_def)
    qed
    moreover have "status_place ` set ss = insert (status_place (patch_status p newName ex)) (status_place ` (set d - {ex}))"
      unfolding ss_def using image_update_one [OF ids exd] by (simp add: sid)
    moreover have "status_place ` (set d - {ex}) \<subseteq> column_ref ` set (columns w)"
      using iplace placed by (metis Diff_subset image_mono subset_trans)
    ultimately show ?thesis by simp
  qed
  moreover have "initial_ok ss"
    unfolding ss_def sid [symmetric]
  proof (rule initial_ok_update [OF inid ids exd])
    fix x assume i: "s_isInitialStatus (patch_status p newName ex)" and x: "x \<in> set d"
      "s_projectId x = s_projectId ex" "s_isInitialStatus x"
    show "s_id x = s_id ex"
    proof (cases "pt_isInitialStatus p = Some True")
      case True
      with x show ?thesis
        using demoted_project [of x pid "Some sid" "statuses w"] ex(2) sid by (simp add: d_def)
    next
      case False
      with i have "s_isInitialStatus ex"
        by (cases "pt_isInitialStatus p") (simp_all add: patch_status_def override_def)
      with x show ?thesis using initial_okD [OF inid x(1) exd x(3)] by simp
    qed
  qed (simp_all add: patch_status_def)
  ultimately show ?thesis
    using inv dist by (simp add: w' workflow_inv_defs)
qed

lemma updateStatus_inv:
  assumes inv: "workflow_inv w"
  shows "workflow_inv (snd (updateStatus u pid sid p w))"
proof -
  have tx: "workflow_inv (snd (in_transaction msg w (update_status_tx pid sid p ex newName renaming w)))"
    if "find_status w sid = Some ex" "s_projectId ex = pid"
      and "pt_name p = None \<Longrightarrow> newName = s_name ex"
      and "renaming \<longleftrightarrow> pt_name p \<noteq> None \<and> newName \<noteq> s_name ex"
      and "\<And>cid. pt_columnId p = Some cid \<Longrightarrow> cid \<noteq> s_columnId ex \<Longrightarrow> (cid, pid) \<in> column_ref ` set (columns w)"
    for msg ex newName renaming
    by (rule tx_inv [where P = workflow_inv, OF inv], rule update_status_tx_inv [OF inv that])
  show ?thesis
    unfolding updateStatus_def Let_def
    by (intro wf_steps(1) inv, rule tx)
       (auto simp: column_of_project_Inr split: option.splits if_splits dest: find_column_ref)
qed

lemma deleteStatus_inv:
  assumes inv: "workflow_inv w"
  shows "workflow_inv (snd (deleteStatus u pid sid w))"
proof -
  have main: "workflow_inv (w\<lparr>transitions := trs, statuses := delete_where (\<lambda>s. s_id s = sid) (statuses w)\<rparr>)"
    if ex: "find_status w sid = Some ex" "s_projectId ex = pid"
      and none: "count_where (\<lambda>t. t_projectId t = pid \<and> t_status t = s_name ex) (tasks w) = 0"
      and trs: "trs = delete_where (\<lambda>t. wt_projectId t = pid \<and>
            (wt_fromStatus t = s_name ex \<or> wt_toStatus t = s_name ex)) (transitions w)" for ex trs
  proof -
    let ?ss = "delete_where (\<lambda>s. s_id s = sid) (statuses w)"
    from ex(1) have mem: "ex \<in> set (statuses w)" "s_id ex = sid" by (simp_all add: find_statusD)
    have "status_key ` set (statuses w) - {(pid, s_name ex)} \<subseteq> status_key ` set ?ss"
    proof
      fix k assume k: "k \<in> status_key ` set (statuses w) - {(pid, s_name ex)}"
      then obtain s where s: "s \<in> set (statuses w)" "k = status_key s" by auto
      have "s_id s \<noteq> sid"
      proof
        assume "s_id s = sid"
        then have "s = ex"
          using inv mem s(1) distinct_key_unique [of s_id "statuses w" s ex] by (simp add: workflow_inv_defs)
        with s(2) k ex(2) show False by (simp add: status_key_def)
      qed
      with s show "k \<in> status_key ` set ?ss" by auto
    qed
    moreover have "names_used (tasks w) trs \<subseteq> names_used (tasks w) (transitions w) - {(pid, s_name ex)}"
      using none by (auto simp: names_used_def trs task_status_def edge_from_def edge_to_def)
    moreover have "names_used (tasks w) (transitions w) \<subseteq> status_key ` set (statuses w)"
      using inv by (simp add: workflow_inv_defs)
    ultimately have "names_used (tasks w) trs \<subseteq> status_key ` set ?ss" by blast
    moreover have "initial_ok ?ss" using inv by (auto simp: workflow_inv_defs initial_ok_def)
    moreover have "status_place ` set ?ss \<subseteq> column_ref ` set (columns w)"
      using inv by (auto simp: workflow_inv_defs)
    ultimately show ?thesis
      using inv by (simp add: workflow_inv_defs trs distinct_delete_where)
  qed
  show ?thesis
    unfolding deleteStatus_def Let_def
    by (intro wf_steps(1) inv) (simp only: snd_conv, rule main, simp_all)
qed

text \<open>What the seed adds.\<close>

definition seed_column :: "env \<Rightarrow> string \<Rightarrow> nat \<times> string \<times> bool \<Rightarrow> column_row" where
  "seed_column e pid d = \<lparr>c_id = uuid e (2 * fst d), c_projectId = pid, c_name = fst (snd d),
     c_position = int (fst d), c_color = None\<rparr>"

definition seed_status :: "env \<Rightarrow> string \<Rightarrow> nat \<times> string \<times> bool \<Rightarrow> status_row" where
  "seed_status e pid d = \<lparr>s_id = uuid e (2 * fst d + 1), s_projectId = pid, s_columnId = uuid e (2 * fst d),
     s_name = fst (snd d), s_position = 0, s_color = None, s_isInitialStatus = (fst d = 0),
     s_isDoneStatus = snd (snd d)\<rparr>"

lemma seed_columns_result:
  "seed_columns e pid i defs w = Inr w' \<Longrightarrow>
    w' = w\<lparr>columns := columns w @ map (seed_column e pid) (enumerate i defs),
           statuses := statuses w @ map (seed_status e pid) (enumerate i defs)\<rparr>"
proof (induction defs arbitrary: i w)
  case (Cons d defs)
  obtain nm isDone where d: "d = (nm, isDone)" by (cases d)
  from Cons.prems have rec: "seed_columns e pid (Suc i) defs
      (w\<lparr>columns := columns w @ [seed_column e pid (i, d)],
         statuses := statuses w @ [seed_status e pid (i, d)]\<rparr>) = Inr w'"
    by (auto simp: and_then_Inr d seed_column_def seed_status_def)
  from Cons.IH [OF rec] show ?case by simp
qed simp

lemma seed_columns_distinct:
  "seed_columns e pid i defs w = Inr w' \<Longrightarrow> distinct (map column_key (columns w)) \<Longrightarrow>
    distinct (map status_key (statuses w)) \<Longrightarrow>
    distinct (map column_key (columns w')) \<and> distinct (map status_key (statuses w'))"
proof (induction e pid i defs w arbitrary: w' rule: seed_columns.induct)
  case (2 e pid i nm isDone defs w)
  then show ?case by (clarsimp simp only: seed_columns.simps and_then_Inr unique_rows_Inr)
      (simp add: and_then_Inr)
qed auto

lemma PRESET_names: "map fst (PRESET_DEFAULTS p) = WORKFLOW_STATUSES p"
  by (cases p) simp_all

definition fresh_ids :: "env \<Rightarrow> world \<Rightarrow> bool" where
  "fresh_ids e w \<longleftrightarrow> inj (uuid e) \<and> range (uuid e) \<inter> (c_id ` set (columns w) \<union> s_id ` set (statuses w)) = {}"

lemma fresh_seed:
  assumes "fresh_ids e w"
  shows "distinct (map c_id (map (seed_column e pid) (enumerate i defs)))"
    and "distinct (map s_id (map (seed_status e pid) (enumerate i defs)))"
    and "c_id ` set (columns w) \<inter> c_id ` set (map (seed_column e pid) ds) = {}"
    and "s_id ` set (statuses w) \<inter> s_id ` set (map (seed_status e pid) ds) = {}"
proof -
  have inj: "uuid e a = uuid e b \<longleftrightarrow> a = b" for a b
    using assms by (auto simp: fresh_ids_def inj_eq)
  have no: "uuid e k \<notin> c_id ` set (columns w)" "uuid e k \<notin> s_id ` set (statuses w)" for k
    using assms by (auto simp: fresh_ids_def)
  have "inj_on (\<lambda>d. uuid e (2 * fst d)) (set (enumerate i defs))"
    and "inj_on (\<lambda>d. uuid e (2 * fst d + 1)) (set (enumerate i defs))"
    by (auto simp: inj_on_def inj in_set_enumerate_eq)
  then show "distinct (map c_id (map (seed_column e pid) (enumerate i defs)))"
    and "distinct (map s_id (map (seed_status e pid) (enumerate i defs)))"
    by (simp_all add: distinct_map seed_column_def seed_status_def comp_def)
  show "c_id ` set (columns w) \<inter> c_id ` set (map (seed_column e pid) ds) = {}"
    and "s_id ` set (statuses w) \<inter> s_id ` set (map (seed_status e pid) ds) = {}"
    using no by (simp_all add: seed_column_def seed_status_def disjoint_iff image_iff) blast+
qed

lemma seedDefaults_Inr:
  assumes "seedDefaults e pid preset w = Inr w'"
  shows "w' = w\<lparr>columns := columns w @ map (seed_column e pid) (enumerate 0 (PRESET_DEFAULTS preset)),
      statuses := statuses w @ map (seed_status e pid) (enumerate 0 (PRESET_DEFAULTS preset)),
      transitions := transitions w @ preset_transitions pid preset\<rparr>"
    and "distinct (map column_key (columns w)) \<Longrightarrow> distinct (map status_key (statuses w)) \<Longrightarrow> names_ok w'"
proof -
  from assms obtain w1 where w1: "seed_columns e pid 0 (PRESET_DEFAULTS preset) w = Inr w1"
    and d: "distinct (map transition_key (transitions w1 @ preset_transitions pid preset))"
    and w': "w' = w1\<lparr>transitions := transitions w1 @ preset_transitions pid preset\<rparr>"
    unfolding seedDefaults_def and_then_Inr unique_rows_Inr by blast
  show "w' = w\<lparr>columns := columns w @ map (seed_column e pid) (enumerate 0 (PRESET_DEFAULTS preset)),
      statuses := statuses w @ map (seed_status e pid) (enumerate 0 (PRESET_DEFAULTS preset)),
      transitions := transitions w @ preset_transitions pid preset\<rparr>"
    using seed_columns_result [OF w1] by (simp add: w')
  show "distinct (map column_key (columns w)) \<Longrightarrow> distinct (map status_key (statuses w)) \<Longrightarrow> names_ok w'"
    using seed_columns_distinct [OF w1] d by (simp add: names_ok_def w')
qed

lemma seed_status_keys:
  "status_key ` set (map (seed_status e pid) (enumerate i defs)) = (\<lambda>n. (pid, n)) ` fst ` set defs"
proof -
  have "status_key (seed_status e pid d) = (pid, fst (snd d))" for d
    by (simp add: status_key_def seed_status_def)
  then have "status_key ` set (map (seed_status e pid) (enumerate i defs)) =
      (\<lambda>n. (pid, n)) ` fst ` snd ` set (enumerate i defs)"
    by (simp add: image_image)
  also have "snd ` set (enumerate i defs) = set defs"
    by (metis list.set_map map_snd_enumerate)
  finally show ?thesis .
qed

text \<open>
  Seeding a project that has no column, no status and no transition, and whose tasks already
  carry names of the preset.
\<close>

lemma names_union:
  "A \<subseteq> A' \<union> N \<Longrightarrow> F' \<union> G' \<subseteq> N \<Longrightarrow> A \<union> (F \<union> F') \<union> (G \<union> G') \<subseteq> A' \<union> F \<union> G \<union> N"
  by blast

lemma seedDefaults_inv:
  assumes inv: "workflow_inv (w\<lparr>tasks := others\<rparr>)"
    and others: "set (tasks w) \<subseteq> set others \<union> {t. t_projectId t = pid \<and> isValidStatusFor preset (t_status t)}"
    and none: "\<And>s. s \<in> set (statuses w) \<Longrightarrow> s_projectId s \<noteq> pid"
    and fresh: "fresh_ids e w" and seed: "seedDefaults e pid preset w = Inr w'"
  shows "workflow_inv w'"
proof -
  let ?D = "enumerate 0 (PRESET_DEFAULTS preset)"
  let ?C = "map (seed_column e pid) ?D" and ?S = "map (seed_status e pid) ?D"
  note w' = seedDefaults_Inr(1) [OF seed]
  have base: "distinct (map c_id (columns w))" "distinct (map s_id (statuses w))"
    "distinct (map column_key (columns w))" "distinct (map status_key (statuses w))"
    "status_place ` set (statuses w) \<subseteq> column_ref ` set (columns w)"
    "names_used others (transitions w) \<subseteq> status_key ` set (statuses w)"
    "initial_ok (statuses w)"
    using inv by (simp_all add: workflow_inv_defs)
  have fields: "columns w' = columns w @ ?C" "statuses w' = statuses w @ ?S" "tasks w' = tasks w"
    "transitions w' = transitions w @ preset_transitions pid preset" by (simp_all add: w')
  have "ids_ok w'"
    unfolding ids_ok_def fields map_append [of c_id] map_append [of s_id] distinct_append
      set_map [of c_id] set_map [of s_id]
    by (intro conjI base fresh_seed [OF fresh])
  moreover have "names_ok w'"
    using seedDefaults_Inr(2) [OF seed] base by simp
  moreover have "placement_ok w'"
  proof -
    have "status_place (seed_status e pid d) = column_ref (seed_column e pid d)" for d
      by (simp add: status_place_def column_ref_def seed_status_def seed_column_def)
    then have "status_place ` set ?S = column_ref ` set ?C" by (simp add: image_image)
    then show ?thesis
      unfolding placement_ok_def fields set_append image_Un by (intro Un_mono base(5)) simp
  qed
  moreover have "names_defined w'"
  proof -
    have keys: "status_key ` set (statuses w') = status_key ` set (statuses w) \<union> {(pid, n) |n. isValidStatusFor preset n}"
    proof -
      have "fst ` set (PRESET_DEFAULTS preset) = set (WORKFLOW_STATUSES preset)"
        by (metis PRESET_names list.set_map)
      then show ?thesis
        unfolding fields set_append image_Un seed_status_keys by (auto simp: isValidStatusFor_def)
    qed
    have "edge_from ` set (preset_transitions pid preset) \<union> edge_to ` set (preset_transitions pid preset)
        \<subseteq> {(pid, n) |n. isValidStatusFor preset n}"
      by (auto simp: preset_transitions_def edge_from_def edge_to_def dest: default_transitions_valid)
    moreover have "task_status ` set (tasks w) \<subseteq> task_status ` set others \<union> {(pid, n) |n. isValidStatusFor preset n}"
      using others by (auto simp: task_status_def image_iff)
    ultimately have "names_used (tasks w') (transitions w') \<subseteq>
        names_used others (transitions w) \<union> {(pid, n) |n. isValidStatusFor preset n}"
      unfolding names_used_def fields set_append image_Un by (rule names_union [rotated])
    also have "\<dots> \<subseteq> status_key ` set (statuses w')"
      unfolding keys by (intro Un_mono base(6)) simp
    finally show ?thesis unfolding names_defined_def .
  qed
  moreover have "initial_ok (statuses w')"
    unfolding initial_ok_def
  proof (intro ballI impI)
    fix x y assume xy: "x \<in> set (statuses w')" "y \<in> set (statuses w')"
      "s_isInitialStatus x" "s_isInitialStatus y" "s_projectId x = s_projectId y"
    have seeded: "s_projectId s = pid \<and> (s_isInitialStatus s \<longrightarrow> s_id s = uuid e 1)" if "s \<in> set ?S" for s
      using that by (auto simp: seed_status_def)
    from xy(1,2) have "x \<in> set (statuses w) \<or> x \<in> set ?S" "y \<in> set (statuses w) \<or> y \<in> set ?S"
      unfolding fields by auto
    then consider "x \<in> set (statuses w)" "y \<in> set (statuses w)" | "x \<in> set (statuses w)" "y \<in> set ?S"
      | "x \<in> set ?S" "y \<in> set (statuses w)" | "x \<in> set ?S" "y \<in> set ?S" by blast
    then show "s_id x = s_id y"
    proof cases
      case 1
      then show ?thesis using initial_okD [OF base(7)] xy(3-5) by blast
    next
      case 2
      then show ?thesis using none [of x] seeded [of y] xy(5) by simp
    next
      case 3
      then show ?thesis using none [of y] seeded [of x] xy(5) by simp
    next
      case 4
      then show ?thesis using seeded [of x] seeded [of y] xy(3,4) by simp
    qed
  qed
  ultimately show ?thesis by (simp add: workflow_inv_def)
qed

lemma resetToDefaults_inv:
  assumes inv: "workflow_inv w" and fresh: "fresh_ids e w"
  shows "workflow_inv (snd (resetToDefaults e u pid w))"
proof -
  have main: "workflow_inv w'"
    if off: "take 5 (filter (\<lambda>t. t_projectId t = pid \<and>
          t_status t \<notin> set (map fst (PRESET_DEFAULTS preset))) (tasks w)) = []"
      and seed: "seedDefaults e pid preset (clear_workflow pid w) = Inr w'" for preset w'
  proof (rule seedDefaults_inv [OF _ _ _ _ seed, where others = "filter (\<lambda>t. t_projectId t \<noteq> pid) (tasks w)"])
    let ?w = "clear_workflow pid w"
    show "set (tasks ?w) \<subseteq> set (filter (\<lambda>t. t_projectId t \<noteq> pid) (tasks w)) \<union>
        {t. t_projectId t = pid \<and> isValidStatusFor preset (t_status t)}"
      using off by (auto simp: clear_workflow_def PRESET_names isValidStatusFor_def filter_empty_conv simp del: set_map)
    show "\<And>s. s \<in> set (statuses ?w) \<Longrightarrow> s_projectId s \<noteq> pid" by (auto simp: clear_workflow_def)
    show "fresh_ids e ?w" using fresh by (auto simp: fresh_ids_def clear_workflow_def)
    have kept: "k \<in> names_used (filter (\<lambda>t. t_projectId t \<noteq> pid) (tasks w)) (transitions ?w) \<Longrightarrow>
        k \<in> names_used (tasks w) (transitions w) \<and> fst k \<noteq> pid" for k
      by (auto simp: names_used_def clear_workflow_def task_status_def edge_from_def edge_to_def)
    moreover have "names_used (tasks w) (transitions w) \<subseteq> status_key ` set (statuses w)"
      using inv by (simp add: workflow_inv_defs)
    ultimately have used: "k \<in> names_used (filter (\<lambda>t. t_projectId t \<noteq> pid) (tasks w)) (transitions ?w) \<Longrightarrow>
        k \<in> status_key ` set (statuses w) \<and> fst k \<noteq> pid" for k by blast
    have "names_used (filter (\<lambda>t. t_projectId t \<noteq> pid) (tasks w)) (transitions ?w) \<subseteq> status_key ` set (statuses ?w)"
    proof
      fix k assume "k \<in> names_used (filter (\<lambda>t. t_projectId t \<noteq> pid) (tasks w)) (transitions ?w)"
      then have "k \<in> status_key ` set (statuses w)" and ne: "fst k \<noteq> pid" using used by blast+
      then obtain s where "s \<in> set (statuses w)" "k = status_key s" by (elim imageE)
      moreover from this ne have "s_projectId s \<noteq> pid" by (simp add: status_key_def)
      ultimately show "k \<in> status_key ` set (statuses ?w)" by (auto simp: clear_workflow_def)
    qed
    moreover have "status_place ` set (statuses ?w) \<subseteq> column_ref ` set (columns ?w)"
    proof
      fix k assume "k \<in> status_place ` set (statuses ?w)"
      then obtain s where s: "s \<in> set (statuses w)" "k = status_place s" "s_projectId s \<noteq> pid"
        by (auto simp: clear_workflow_def)
      with inv have "k \<in> column_ref ` set (columns w)" by (auto simp: workflow_inv_defs)
      then obtain c where c: "c \<in> set (columns w)" "k = column_ref c" by (elim imageE)
      with s have "c_projectId c \<noteq> pid" by (simp add: column_ref_def status_place_def)
      with c show "k \<in> column_ref ` set (columns ?w)" by (simp add: clear_workflow_def)
    qed
    moreover have "initial_ok (statuses ?w)"
      using inv by (simp add: clear_workflow_def workflow_inv_defs initial_ok_def)
    ultimately show "workflow_inv (?w\<lparr>tasks := filter (\<lambda>t. t_projectId t \<noteq> pid) (tasks w)\<rparr>)"
      using inv by (simp add: workflow_inv_defs clear_workflow_def distinct_delete_where)
  qed
  show ?thesis
    unfolding resetToDefaults_def Let_def
    using main by (intro wf_steps(1) inv) (auto simp only: require_Inr snd_conv)
qed

text \<open>Seeding succeeds when the project has no column, status or transition yet.\<close>

lemma seed_columns_succeeds:
  "distinct (map column_key (columns w)) \<Longrightarrow> distinct (map status_key (statuses w)) \<Longrightarrow>
    distinct (map fst defs) \<Longrightarrow>
    Pair pid ` fst ` set defs \<inter> (column_key ` set (columns w) \<union> status_key ` set (statuses w)) = {} \<Longrightarrow>
    \<exists>w'. seed_columns e pid i defs w = Inr w' \<and> transitions w' = transitions w"
proof (induction defs arbitrary: i w)
  case (Cons d defs)
  obtain nm isDone where d: "d = (nm, isDone)" by (cases d)
  define w1 where "w1 = w\<lparr>columns := columns w @ [seed_column e pid (i, d)],
      statuses := statuses w @ [seed_status e pid (i, d)]\<rparr>"
  have key: "column_key (seed_column e pid (i, d)) = (pid, nm)" "status_key (seed_status e pid (i, d)) = (pid, nm)"
    by (simp_all add: d column_key_def status_key_def seed_column_def seed_status_def)
  have keys: "column_key ` set (columns w1) = insert (pid, nm) (column_key ` set (columns w))"
    "status_key ` set (statuses w1) = insert (pid, nm) (status_key ` set (statuses w))"
    by (simp_all add: w1_def key)
  have new: "(pid, nm) \<notin> column_key ` set (columns w)" "(pid, nm) \<notin> status_key ` set (statuses w)"
    using Cons.prems(4) by (auto simp: d)
  have dist: "distinct (map column_key (columns w1))" "distinct (map status_key (statuses w1))"
    using Cons.prems(1,2) new by (simp_all add: w1_def key)
  then have step: "seed_columns e pid i (d # defs) w = seed_columns e pid (Suc i) defs w1"
    by (simp add: w1_def d unique_rows_def seed_column_def seed_status_def)
  have rest: "Pair pid ` fst ` set defs \<inter>
      (column_key ` set (columns w1) \<union> status_key ` set (statuses w1)) = {}"
    using Cons.prems(3,4) unfolding keys by (auto simp: d)
  have "distinct (map fst defs)" and "transitions w1 = transitions w"
    using Cons.prems(3) by (simp_all add: w1_def)
  with Cons.IH [OF dist _ rest, of "Suc i"] show ?case by (simp only: step)
qed simp

lemma seedDefaults_succeeds:
  assumes "names_ok w" and "pid \<notin> c_projectId ` set (columns w)"
    and "pid \<notin> s_projectId ` set (statuses w)" and "pid \<notin> wt_projectId ` set (transitions w)"
  shows "\<exists>w'. seedDefaults e pid preset w = Inr w'"
proof -
  have "\<exists>w'. seed_columns e pid 0 (PRESET_DEFAULTS preset) w = Inr w' \<and> transitions w' = transitions w"
    using assms by (intro seed_columns_succeeds)
      (auto simp: names_ok_def PRESET_names column_key_def status_key_def)
  then obtain w1 where w1: "seed_columns e pid 0 (PRESET_DEFAULTS preset) w = Inr w1"
    "transitions w1 = transitions w" by blast
  have "distinct (map transition_key (preset_transitions pid preset))"
    using transitions_distinct [of preset]
    by (auto simp: preset_transitions_def transition_key_def distinct_map inj_on_def)
  moreover have "transition_key ` set (transitions w) \<inter> transition_key ` set (preset_transitions pid preset) = {}"
    using assms(4) by (auto simp: preset_transitions_def transition_key_def)
  ultimately have "distinct (map transition_key (transitions w1 @ preset_transitions pid preset))"
    using assms(1) w1(2) by (simp add: names_ok_def)
  with w1(1) show ?thesis by (simp add: seedDefaults_def unique_rows_def)
qed

lemma statusNames_seeded:
  assumes "pid \<notin> s_projectId ` set ss"
    and "statuses w = ss @ map (seed_status e pid) (enumerate 0 (PRESET_DEFAULTS preset))"
  shows "statusNames w pid = \<lparr>sn_valid = set (WORKFLOW_STATUSES preset),
    sn_initial = Some (defaultStatusFor preset), sn_done = set (doneStatusesFor preset)\<rparr>"
proof -
  have "filter (\<lambda>s. s_projectId s = pid) ss = []" using assms(1) by (auto simp: filter_empty_conv)
  then have "filter (\<lambda>s. s_projectId s = pid) (statuses w) =
      map (seed_status e pid) (enumerate 0 (PRESET_DEFAULTS preset))"
    by (simp add: assms(2) filter_map comp_def seed_status_def)
  then show ?thesis
    by (cases preset) (simp_all add: statusNames_def seed_status_def defaultStatusFor_def
        doneStatusesFor_def enumerate_eq_zip upt_conv_Cons insert_commute del: set_filter)
qed

text \<open>Reordering: each column is at the position its identifier has in the request.\<close>

lemma set_positions_other:
  "c \<in> set (set_positions cids i cs) \<Longrightarrow> c_id c \<notin> set cids \<Longrightarrow> c \<in> set cs"
proof (induction cids arbitrary: i cs)
  case (Cons cid cids)
  then have "c \<in> set (set_position cid i cs)" using Cons.IH [of "i + 1" "set_position cid i cs"] by simp
  with Cons.prems(2) show ?case by (auto simp: set_position_def in_update_where)
qed simp

lemma set_position_at:
  assumes "c \<in> set (set_position cid i cs)" and "c_id c = cid"
  shows "c_position c = i"
proof -
  from assms(1) obtain r where "c = (if c_id r = cid then r\<lparr>c_position := i\<rparr> else r)"
    unfolding set_position_def set_update_where by (rule imageE)
  with assms(2) show ?thesis by (cases "c_id r = cid") simp_all
qed

lemma set_positions_at:
  "distinct cids \<Longrightarrow> k < length cids \<Longrightarrow> c \<in> set (set_positions cids i cs) \<Longrightarrow> c_id c = cids ! k \<Longrightarrow>
    c_position c = i + int k"
proof (induction cids arbitrary: i cs k)
  case (Cons cid cids)
  show ?case
  proof (cases k)
    case 0
    with Cons.prems(1,3,4) have "c \<in> set (set_position cid i cs)"
      using set_positions_other [of c cids "i + 1" "set_position cid i cs"] by simp
    then have "c_position c = i" by (rule set_position_at) (simp add: Cons.prems(4) 0)
    with 0 show ?thesis by simp
  next
    case (Suc j)
    with Cons.prems have "c_position c = (i + 1) + int j"
      using Cons.IH [of j "i + 1" "set_position cid i cs"] by simp
    with Suc show ?thesis by simp
  qed
qed simp

lemma position_order: "total_preorder (\<lambda>a b. c_position a \<le> c_position b)"
  by (auto simp: total_preorder_def)

lemma reordered_columns:
  assumes cids: "distinct cids" "set cids = c_id ` {c \<in> set cs. c_projectId c = pid}"
    and ids: "distinct (map c_id cs)"
  defines "rows \<equiv> order_by (\<lambda>a b. c_position a \<le> c_position b)
      (filter (\<lambda>c. c_projectId c = pid) (set_positions cids 0 cs))"
  shows "map c_id rows = cids \<and> map c_position rows = map int [0..<length cids]"
proof -
  let ?cs = "set_positions cids 0 cs"
  have ref: "map column_ref ?cs = map column_ref cs" by (rule map_kept) (simp add: column_ref_def)
  then have refs: "column_ref ` set ?cs = column_ref ` set cs" by (metis list.set_map)
  have "fst ` {k \<in> column_ref ` set ?cs. snd k = pid} = c_id ` {c \<in> set ?cs. c_projectId c = pid}"
    and "fst ` {k \<in> column_ref ` set cs. snd k = pid} = c_id ` {c \<in> set cs. c_projectId c = pid}"
    by (force simp: column_ref_def)+
  with refs cids(2) have idset: "c_id ` set rows = set cids" by (simp add: rows_def)
  have "map c_id ?cs = map c_id cs" using ref by (metis column_ref_def fst_conv list.map_comp map_eq_conv comp_apply)
  with ids have "distinct (map c_id ?cs)" by simp
  then have dist: "distinct (map c_id rows)"
    unfolding rows_def by (intro distinct_order_by) (simp add: distinct_map_filter)
  have at: "\<exists>k < length cids. c_id c = cids ! k \<and> c_position c = int k" if "c \<in> set rows" for c
  proof -
    from that idset have "c_id c \<in> set cids" by blast
    then obtain k where "k < length cids" "c_id c = cids ! k" by (metis in_set_conv_nth)
    moreover from this that have "c_position c = 0 + int k"
      by (intro set_positions_at [OF cids(1), where cs = cs]) (auto simp: rows_def)
    ultimately show ?thesis by auto
  qed
  have "inj_on c_position (set rows)"
  proof (rule inj_onI)
    fix a b assume "a \<in> set rows" "b \<in> set rows" "c_position a = c_position b"
    with at [of a] at [of b] have "c_id a = c_id b" by auto
    with dist \<open>a \<in> set rows\<close> \<open>b \<in> set rows\<close> show "a = b" by (simp add: distinct_map inj_on_def)
  qed
  moreover have "distinct rows" using dist by (simp add: distinct_map)
  ultimately have dpos: "distinct (map c_position rows)" by (simp add: distinct_map)
  have "sorted (map c_position rows)"
    using sorted_order_by [OF position_order] unfolding rows_def by (simp add: sorted_map)
  moreover have "length rows = length cids"
    using dist idset cids(1) by (metis distinct_card length_map list.set_map)
  moreover have "c_position ` set rows \<subseteq> int ` {0..<length cids}"
  proof
    fix p assume "p \<in> c_position ` set rows"
    then obtain c where "c \<in> set rows" "p = c_position c" by blast
    with at [of c] show "p \<in> int ` {0..<length cids}" by auto
  qed
  moreover have "card (c_position ` set rows) = length rows"
    using dpos by (metis distinct_card length_map list.set_map)
  ultimately have pos: "c_position ` set rows = int ` {0..<length cids}"
    by (intro card_subset_eq) (simp_all add: card_image)
  with dpos \<open>sorted (map c_position rows)\<close> have "map c_position rows = map int [0..<length cids]"
    by (intro sorted_distinct_set_unique) (simp_all add: distinct_map sorted_map sorted_wrt_iff_nth_less)
  moreover have "map c_id rows = map (\<lambda>p. cids ! nat p) (map c_position rows)"
    using at by fastforce
  ultimately show ?thesis by (simp add: comp_def map_nth)
qed

section \<open>Runs of the editor\<close>

datatype workflow_op =
    CreateColumn env auth_user string string "string option option" "int option"
  | RenameColumn auth_user string string string
  | ReorderColumns auth_user string "string list"
  | DeleteColumn auth_user string string
  | CreateStatus env auth_user string create_status_input
  | UpdateStatus auth_user string string status_patch
  | DeleteStatus auth_user string string
  | ResetToDefaults env auth_user string

fun exec_workflow :: "workflow_op \<Rightarrow> world \<Rightarrow> world" where
  "exec_workflow (CreateColumn e u pid nm color pos) w = snd (createColumn e u pid nm color pos w)"
| "exec_workflow (RenameColumn u pid cid nm) w = snd (renameColumn u pid cid nm w)"
| "exec_workflow (ReorderColumns u pid cids) w = snd (reorderColumns u pid cids w)"
| "exec_workflow (DeleteColumn u pid cid) w = snd (deleteColumn u pid cid w)"
| "exec_workflow (CreateStatus e u pid i) w = snd (createStatus e u pid i w)"
| "exec_workflow (UpdateStatus u pid sid p) w = snd (updateStatus u pid sid p w)"
| "exec_workflow (DeleteStatus u pid sid) w = snd (deleteStatus u pid sid w)"
| "exec_workflow (ResetToDefaults e u pid) w = snd (resetToDefaults e u pid w)"

text \<open>All an operation needs of its environment: the identifiers it draws are new.\<close>

fun draws_fresh :: "workflow_op \<Rightarrow> world \<Rightarrow> bool" where
  "draws_fresh (CreateColumn e u pid nm color pos) w = fresh_ids e w"
| "draws_fresh (CreateStatus e u pid i) w = fresh_ids e w"
| "draws_fresh (ResetToDefaults e u pid) w = fresh_ids e w"
| "draws_fresh _ w = True"

lemma fresh_ids_draw:
  "fresh_ids e w \<Longrightarrow> uuid e n \<notin> c_id ` set (columns w)"
  "fresh_ids e w \<Longrightarrow> uuid e n \<notin> s_id ` set (statuses w)"
  by (auto simp: fresh_ids_def)

interpretation editor: operation_system workflow_inv draws_fresh exec_workflow
proof
  fix w op assume "workflow_inv w" and "draws_fresh op w"
  then show "workflow_inv (exec_workflow op w)"
    by (cases op) (simp_all add: createColumn_inv renameColumn_inv reorderColumns_inv deleteColumn_inv
        createStatus_inv updateStatus_inv deleteStatus_inv resetToDefaults_inv fresh_ids_draw)
qed

text \<open>A concrete project seeded with the generic preset, for the witnesses.\<close>

definition unseeded :: world where
  "unseeded = empty_world\<lparr>projects := [sample_project]\<rparr>"

lemma sample_env_fresh: "columns w = [] \<Longrightarrow> statuses w = [] \<Longrightarrow> fresh_ids sample_env w"
proof -
  have "inj (\<lambda>n. replicate (Suc n) CHR ''x'')"
    by (rule injI) (metis length_replicate nat.inject)
  then show "columns w = [] \<Longrightarrow> statuses w = [] \<Longrightarrow> fresh_ids sample_env w"
    by (simp add: fresh_ids_def sample_env_def)
qed

lemma unseeded_inv: "workflow_inv unseeded"
  by (simp add: unseeded_def empty_world_def workflow_inv_defs names_used_def initial_ok_def)

lemma snapshot_ok:
  "assertAtLeast w u pid Manager = Inr r \<Longrightarrow> projects w = projects w' \<Longrightarrow> accessGrants w = accessGrants w' \<Longrightarrow>
    teamMembers w = teamMembers w' \<Longrightarrow> snapshot e u pid w' = Inr (snapshotInternal e w' pid)"
proof -
  assume "assertAtLeast w u pid Manager = Inr r" and "projects w = projects w'"
    "accessGrants w = accessGrants w'" "teamMembers w = teamMembers w'"
  then have "effectiveRole w' u pid = Inr (Some r)" and "Manager \<le> r"
    using effectiveRole_cong [of w w' u pid] by (simp_all add: assertAtLeast_Inr)
  then have "assertAtLeast w' u pid Viewer = Inr r"
    by (simp add: assertAtLeast_Inr) (metis Manager_top order_trans)
  then show ?thesis by (simp add: snapshot_def)
qed

section \<open>Properties\<close>

text \<open>
  C2: whatever sequence of workflow edits a project goes through, in any order and by any
  users, the invariant holds afterwards: names and identifiers stay unique, every status
  stays in a column of its project, every task and every transition names an existing
  status of its project, and no project gets a second initial status.
\<close>

theorem workflow_edits_keep_invariant:
  assumes "workflow_inv w" and "editor.run_ok ops w"
  shows "workflow_inv (fold exec_workflow ops w)"
  using assms by (rule editor.run_inv)

theorem workflow_edits_keep_invariant_witness:
  "workflow_inv (fold exec_workflow [ResetToDefaults sample_env sample_admin ''P'',
     RenameColumn sample_admin ''P'' ''x'' ''Backlog''] unseeded)"
  by (rule workflow_edits_keep_invariant [OF unseeded_inv])
     (simp add: sample_env_fresh unseeded_def empty_world_def)

text \<open>
  Renaming a status. When the update succeeds with a name that differs from the old one,
  every task of the project in the old status is in the new one, every other task is
  untouched, and the transition graph of the project is the old graph with the name
  replaced at both ends, all in one step; the other projects' tasks and edges stay.
\<close>

theorem rename_status_cascades:
  assumes "updateStatus u pid sid patch w = (Inr dto, w')"
    and "find_status w sid = Some ex" and "pt_name patch = Some n" and "trim n \<noteq> s_name ex"
  defines "ren \<equiv> (\<lambda>k. if k = (pid, s_name ex) then (pid, trim n) else k)"
  shows "tasks w' = map (\<lambda>t. if task_status t = (pid, s_name ex) then t\<lparr>t_status := trim n\<rparr> else t) (tasks w) \<and>
    map edge_from (transitions w') = map (ren \<circ> edge_from) (transitions w) \<and>
    map edge_to (transitions w') = map (ren \<circ> edge_to) (transitions w)"
proof -
  let ?old = "s_name ex"
  from assms(1-4) obtain trs where trs: "rename_in_transitions pid ?old (trim n) (transitions w) = Inr trs"
    and w': "tasks w' = rename_in_tasks pid ?old (trim n) (tasks w)" "transitions w' = trs"
    by (auto simp: updateStatus_def Let_def attempt_Inr sanitizeName_Inr in_transaction_def
        update_status_tx_def and_then_Inr split: sum.splits)
  have "tasks w' = map (\<lambda>t. if task_status t = (pid, ?old) then t\<lparr>t_status := trim n\<rparr> else t) (tasks w)"
    by (simp add: w' rename_in_tasks_def update_where_def task_status_def)
  moreover have "map edge_from (transitions w') = map (ren \<circ> edge_from) (transitions w)"
    and "map edge_to (transitions w') = map (ren \<circ> edge_to) (transitions w)"
    using trs unfolding w'(2) ren_def
    by (auto simp: rename_in_transitions_def and_then_Inr update_where_def edge_from_def edge_to_def)
  ultimately show ?thesis by blast
qed

definition two_status_world :: world where
  "two_status_world = empty_world\<lparr>projects := [sample_project],
     columns := [sample_column ''C'' ''Main'' 0, sample_column ''D'' ''Other'' 1],
     statuses := [sample_status ''s1'' ''Todo'' True False, sample_status ''s2'' ''Done'' False True],
     transitions := [\<lparr>wt_projectId = ''P'', wt_fromStatus = ''Todo'', wt_toStatus = ''Done''\<rparr>],
     tasks := [sample_task ''t1'' ''Todo'']\<rparr>"

definition empty_patch :: status_patch where
  "empty_patch = \<lparr>pt_name = None, pt_columnId = None, pt_color = None, pt_isInitialStatus = None,
     pt_isDoneStatus = None, pt_position = None\<rparr>"

lemmas workflow_samples = sample_defs sample_status_def sample_column_def two_status_world_def
  empty_patch_def

lemma sample_rename:
  "fst (updateStatus sample_admin ''P'' ''s1'' (empty_patch\<lparr>pt_name := Some '' Next ''\<rparr>) two_status_world) =
    Inr (status_select (sample_status ''s1'' ''Next'' True False))"
  by (simp add: updateStatus_def Let_def sanitizeName_def trim_def is_space_def MAX_NAME_LEN_def
      in_transaction_def update_status_tx_def rename_in_transitions_def rename_in_tasks_def
      unique_rows_def status_key_def transition_key_def patch_status_def override_def find_status_def
      status_select_def two_status_world_def empty_world_def sample_project_def sample_task_def
      sample_status_def sample_column_def empty_patch_def)

theorem rename_status_cascades_witness:
  "map t_status (tasks (snd (updateStatus sample_admin ''P'' ''s1''
      (empty_patch\<lparr>pt_name := Some '' Next ''\<rparr>) two_status_world))) = [''Next'']"
proof -
  let ?r = "updateStatus sample_admin ''P'' ''s1'' (empty_patch\<lparr>pt_name := Some '' Next ''\<rparr>) two_status_world"
  have r: "?r = (Inr (status_select (sample_status ''s1'' ''Next'' True False)), snd ?r)"
    using sample_rename by (metis prod.collapse)
  have ex: "find_status two_status_world ''s1'' = Some (sample_status ''s1'' ''Todo'' True False)"
    by (simp add: find_status_def two_status_world_def sample_status_def)
  have nm: "pt_name (empty_patch\<lparr>pt_name := Some '' Next ''\<rparr>) = Some '' Next ''" by simp
  have ne: "trim '' Next '' \<noteq> s_name (sample_status ''s1'' ''Todo'' True False)"
    by (simp add: trim_def is_space_def sample_status_def)
  show ?thesis
    using rename_status_cascades [OF r ex nm ne]
    by (simp add: two_status_world_def sample_task_def sample_status_def task_status_def trim_def is_space_def)
qed

text \<open>
  When a status can be deleted. The request succeeds exactly when the user is a Manager,
  the status exists in the project, is not the initial one, and no task of the project is in
  it; otherwise the state does not change.
\<close>

theorem delete_status_iff:
  "(fst (deleteStatus u pid sid w) = Inr () \<longleftrightarrow> has_role w u pid Manager \<and>
     (\<exists>s. find_status w sid = Some s \<and> s_projectId s = pid \<and> \<not> s_isInitialStatus s \<and>
       (pid, s_name s) \<notin> task_status ` set (tasks w))) \<and>
   (fst (deleteStatus u pid sid w) \<noteq> Inr () \<longrightarrow> snd (deleteStatus u pid sid w) = w)"
proof -
  have none: "count_where (\<lambda>t. t_projectId t = pid \<and> t_status t = nm) (tasks w) = 0 \<longleftrightarrow>
      (pid, nm) \<notin> task_status ` set (tasks w)" for nm
    by (auto simp: task_status_def)
  show ?thesis
    by (cases "assertAtLeast w u pid Manager"; cases "find_status w sid")
       (auto simp: deleteStatus_def Let_def none attempt_def require_def simp del: count_where_0
          simp flip: assertAtLeast_ok)
qed

theorem delete_status_iff_witness:
  "fst (deleteStatus sample_admin ''P'' ''s2'' two_status_world) = Inr () \<and>
   snd (deleteStatus sample_admin ''P'' ''s1'' two_status_world) = two_status_world"
proof -
  have "has_role two_status_world sample_admin ''P'' Manager" by (simp add: has_role_admin)
  then show ?thesis
    using delete_status_iff [of sample_admin "''P''" "''s2''" two_status_world]
      delete_status_iff [of sample_admin "''P''" "''s1''" two_status_world]
    by (simp add: find_status_def two_status_world_def sample_status_def empty_world_def
        sample_task_def task_status_def)
qed

text \<open>
  The rows a new project starts from agree with the constants of its preset: seeding a
  project that has no workflow rows yet succeeds, and the valid, initial and done statuses
  read back from the rows are those \<open>tasks/workflow.ts\<close> gives for the preset.
\<close>

theorem seeded_rows_agree_with_preset:
  assumes "names_ok w" and "pid \<notin> c_projectId ` set (columns w)"
    and "pid \<notin> s_projectId ` set (statuses w)" and "pid \<notin> wt_projectId ` set (transitions w)"
  shows "\<exists>w'. seedDefaults e pid preset w = Inr w' \<and>
    statusNames w' pid = \<lparr>sn_valid = set (WORKFLOW_STATUSES preset),
      sn_initial = Some (defaultStatusFor preset), sn_done = set (doneStatusesFor preset)\<rparr>"
proof -
  obtain w' where w': "seedDefaults e pid preset w = Inr w'"
    using seedDefaults_succeeds [OF assms] by blast
  have "statuses w' = statuses w @ map (seed_status e pid) (enumerate 0 (PRESET_DEFAULTS preset))"
    using seedDefaults_Inr(1) [OF w'] by simp
  with w' statusNames_seeded [OF assms(3)] show ?thesis by blast
qed

theorem seeded_rows_agree_with_preset_witness:
  "\<exists>w'. seedDefaults sample_env ''P'' Design unseeded = Inr w' \<and>
    sn_done (statusNames w' ''P'') = {''Approved'', ''Done''}"
  using seeded_rows_agree_with_preset [of unseeded "''P''" sample_env Design]
  by (auto simp: unseeded_def empty_world_def names_ok_def doneStatusesFor_def)

text \<open>
  Reordering the columns. When a manager sends every column identifier of the project
  exactly once, the request succeeds and answers the columns in that order, numbered from 0
  without gaps, whatever the positions were before.
\<close>

theorem reorder_columns_order:
  assumes "has_role w u pid Manager" and "distinct cids"
    and "set cids = c_id ` {c \<in> set (columns w). c_projectId c = pid}"
    and "distinct (map c_id (columns w))"
  shows "\<exists>dtos. fst (reorderColumns u pid cids w) = Inr dtos \<and> map cd_id dtos = cids \<and>
    map cd_position dtos = map int [0..<length cids]"
proof -
  from assms(1) obtain r where r: "assertAtLeast w u pid Manager = Inr r"
    by (auto simp flip: assertAtLeast_ok)
  let ?ex = "map c_id (filter (\<lambda>c. c_projectId c = pid) (columns w))"
  have "distinct ?ex" using assms(4) by (simp add: distinct_map_filter)
  then have "length cids = length ?ex"
    using assms(2,3) by (metis distinct_card list.set_map set_filter)
  moreover have "\<not> list_ex (\<lambda>cid. cid \<notin> set ?ex) cids" using assms(3) by (auto simp: list_ex_iff)
  ultimately have "require (\<not> (length cids \<noteq> length ?ex \<or> list_ex (\<lambda>cid. cid \<notin> set ?ex) cids)) err = Inr ()" for err
    by simp
  then show ?thesis
    using reordered_columns [OF assms(2,3,4)] r
    by (simp add: reorderColumns_def Let_def column_select_def comp_def del: length_map)
qed

theorem reorder_columns_order_witness:
  "\<exists>dtos. fst (reorderColumns sample_admin ''P'' [''D'', ''C''] two_status_world) = Inr dtos \<and>
    map cd_id dtos = [''D'', ''C''] \<and> map cd_position dtos = map int [0..<length [''D'', ''C'']]"
proof (rule reorder_columns_order)
  show "has_role two_status_world sample_admin ''P'' Manager" by (simp add: has_role_admin)
  have "set [''D'', ''C''] =
      set (map c_id (filter (\<lambda>c. c_projectId c = ''P'') (columns two_status_world)))"
    by (simp add: two_status_world_def sample_column_def insert_commute del: set_filter)
  then show "set [''D'', ''C''] = c_id ` {c \<in> set (columns two_status_world). c_projectId c = ''P''}"
    by (simp only: set_map set_filter)
  show "distinct (map c_id (columns two_status_world))"
    by (simp add: two_status_world_def sample_column_def)
qed simp

section \<open>Behaviour worth knowing\<close>

text \<open>
  A list that repeats one identifier and leaves another out passes the check that every
  column is named exactly once.
\<close>

lemma reorder_accepts_repetition:
  "\<exists>dtos. fst (reorderColumns sample_admin ''P'' [''C'', ''C''] two_status_world) = Inr dtos \<and>
    map cd_position dtos = [1, 1]"
  by (simp add: reorderColumns_def Let_def set_position_def column_select_def two_status_world_def
      sample_column_def)

text \<open>
  A patch can take the initial flag from the only initial status of a project, although a
  delete of that status is refused so that the project keeps one.
\<close>

lemma update_can_drop_initial:
  "\<forall>s \<in> set (statuses (snd (updateStatus sample_admin ''P'' ''s1''
      (empty_patch\<lparr>pt_isInitialStatus := Some False\<rparr>) two_status_world))). \<not> s_isInitialStatus s"
  by (simp add: updateStatus_def Let_def in_transaction_def update_status_tx_def unique_rows_def
      status_key_def patch_status_def override_def find_status_def empty_patch_def
      two_status_world_def sample_status_def)

end
