(* ===== verification/Tasks.thy ===== *)
theory Tasks
  imports Permissions Workflow
begin

text \<open>
  \<^verbatim>\<open>apps/api/src/modules/tasks/tasks.service.ts\<close>: creating, listing, reading, updating and
  moving tasks, their watchers, mutes, co-reporters and links. One definition per method; the
  dependency graph is in TaskGraph. A write whose foreign key names no row fails with P2003.
\<close>

section \<open>Helpers\<close>

definition assertTypeHierarchy :: "task_type \<Rightarrow> task_type option \<Rightarrow> unit res" where
  "assertTypeHierarchy type parent =
     (if type = Subtask \<and> parent = None then Inl (BadRequest ''Subtasks must have a parent task'')
      else if type = Epic \<and> parent \<noteq> None then Inl (BadRequest ''Epics cannot have a parent task'')
      else if parent = Some Subtask then Inl (BadRequest ''Cannot nest under a Subtask'')
      else Inr ())"

definition LIST_HARD_CAP :: nat where
  "LIST_HARD_CAP = 5000"

definition hydrateKey :: "('t \<Rightarrow> int) \<Rightarrow> 't \<Rightarrow> string \<Rightarrow> 't \<times> string" where
  "hydrateKey keyNumber task projectKey = (task, projectKey @ ''-'' @ show_int (keyNumber task))"

text \<open>The first task of a status from the bottom of its column, and the position below it.\<close>

definition last_position :: "env \<Rightarrow> world \<Rightarrow> string \<Rightarrow> string \<Rightarrow> string option" where
  "last_position e w pid st = map_option t_boardPosition
     (greatest_by (\<lambda>a b. coll e (t_boardPosition a) (t_boardPosition b))
        (filter (\<lambda>t. t_projectId t = pid \<and> t_status t = st) (tasks w)))"

definition generateKeyBetween :: "env \<Rightarrow> string option \<Rightarrow> string option \<Rightarrow> string res" where
  "generateKeyBetween e a b = found (LibraryError ''generateKeyBetween'') (keyBetween e a b)"

definition watcher_key :: "watcher_row \<Rightarrow> string \<times> string" where
  "watcher_key r = (w_userId r, w_taskId r)"

definition reporter_key :: "reporter_row \<Rightarrow> string \<times> string" where
  "reporter_key r = (r_taskId r, r_userId r)"

definition mute_key :: "mute_row \<Rightarrow> string \<times> string" where
  "mute_key r = (m_userId r, m_taskId r)"

text \<open>Both references of a row that joins a user and a task.\<close>

definition user_task_fk :: "world \<Rightarrow> string \<Rightarrow> string \<Rightarrow> bool" where
  "user_task_fk w uid tid \<longleftrightarrow> uid \<in> u_id ` set (users w) \<and> tid \<in> t_id ` set (tasks w)"

section \<open>Creating\<close>

definition number_key :: "task_row \<Rightarrow> string \<times> int" where
  "number_key t = (t_projectId t, t_keyNumber t)"

text \<open>The parent must be a task of the same project.\<close>

definition parent_in_project :: "world \<Rightarrow> string \<Rightarrow> string \<Rightarrow> task_row res" where
  "parent_in_project w pid tid = (case find_task w tid of
     None \<Rightarrow> Inl (BadRequest ''Parent task must be in the same project'')
   | Some parent \<Rightarrow> if t_projectId parent = pid then Inr parent
       else Inl (BadRequest ''Parent task must be in the same project''))"

definition initial_status :: "world \<Rightarrow> project_row \<Rightarrow> string" where
  "initial_status w p = (case List.find (\<lambda>s. s_projectId s = p_id p \<and> s_isInitialStatus s) (statuses w) of
     Some s \<Rightarrow> s_name s
   | None \<Rightarrow> defaultStatusFor (p_workflowPreset p))"

definition keep_truthy :: "string option \<Rightarrow> string option" where
  "keep_truthy x = (if truthy x then x else None)"

definition new_task :: "env \<Rightarrow> auth_user \<Rightarrow> create_task_input \<Rightarrow> bool \<Rightarrow> task_type \<Rightarrow> string \<Rightarrow>
    string \<Rightarrow> int \<Rightarrow> task_row" where
  "new_task e u i isClientBug type st pos n = \<lparr>t_id = uuid e 0, t_projectId = ci_projectId i,
     t_keyNumber = n, t_type = type, t_title = ci_title i, t_description = ci_description i,
     t_status = st, t_priority = override (ci_priority i) Medium, t_isBlocked = False,
     t_blockedReason = None,
     t_visibility = (if isClientBug then VClientVisible else override (ci_visibility i) VInternal),
     t_reportedByClient = isClientBug, t_parentTaskId = keep_truthy (ci_parentTaskId i),
     t_sprintId = keep_truthy (ci_sprintId i), t_assigneeUserId = keep_truthy (ci_assigneeUserId i),
     t_reporterUserId = au_id u, t_createdById = au_id u, t_startDate = None,
     t_dueDate = ci_dueDate i, t_estimate = ci_estimate i, t_boardPosition = pos,
     t_completedAt = None, t_createdAt = clk e 0\<rparr>"

text \<open>The foreign keys of a task row.\<close>

definition task_fk :: "world \<Rightarrow> task_row \<Rightarrow> bool" where
  "task_fk w t \<longleftrightarrow> fk_ok t_id (tasks w) (t_parentTaskId t) \<and> fk_ok sp_id (sprints w) (t_sprintId t) \<and>
     fk_ok u_id (users w) (t_assigneeUserId t) \<and> fk_ok u_id (users w) (Some (t_reporterUserId t))"

text \<open>The transaction: draw the number, then insert the task and its first watcher.\<close>

definition insert_task :: "env \<Rightarrow> auth_user \<Rightarrow> create_task_input \<Rightarrow> bool \<Rightarrow> task_type \<Rightarrow> string \<Rightarrow>
    string \<Rightarrow> project_row \<Rightarrow> world \<Rightarrow> (task_row \<times> world) res" where
  "insert_task e u i isClientBug type st pos project w =
     (let t = new_task e u i isClientBug type st pos (p_nextTaskNumber project)
      in and_then (require (task_fk w t) (DbError P2003)) (\<lambda>_.
         and_then (require (number_key t \<notin> number_key ` set (tasks w)) (DbError P2002)) (\<lambda>_.
         Inr (t, w\<lparr>projects := update_where (\<lambda>p. p_id p = p_id project)
                      (\<lambda>p. p\<lparr>p_nextTaskNumber := p_nextTaskNumber p + 1\<rparr>) (projects w),
                   tasks := tasks w @ [t],
                   watchers := watchers w @ [\<lparr>w_userId = au_id u, w_taskId = t_id t\<rparr>]\<rparr>))))"

definition createTask :: "env \<Rightarrow> auth_user \<Rightarrow> create_task_input \<Rightarrow> world \<Rightarrow>
    (task_row \<times> string) res \<times> world" where
  "createTask e u i w =
     attempt (effectiveRole w u (ci_projectId i)) w (\<lambda>role.
     attempt (require (role \<noteq> None \<and> role \<noteq> Some Viewer)
       (Forbidden ''Requires Contributor or higher to create tasks'')) w (\<lambda>_.
     let isClientBug = (role = Some Client) in
     attempt (found (NotFound ''Project not found'') (find_project w (ci_projectId i))) w (\<lambda>project.
     attempt (require (p_archivedAt project = None) (BadRequest ''Project is archived'')) w (\<lambda>_.
     attempt (require (truthy (ci_sprintId i) \<longrightarrow> p_sprintsEnabled project)
       (BadRequest ''Project does not have sprints enabled'')) w (\<lambda>_.
     attempt (if truthy (ci_parentTaskId i)
              then and_then (parent_in_project w (ci_projectId i) (the (ci_parentTaskId i))) (\<lambda>p. Inr (Some p))
              else Inr None) w (\<lambda>parent.
     let type = (if isClientBug then Bug else override (ci_type i) Task) in
     attempt (assertTypeHierarchy type (map_option t_type parent)) w (\<lambda>_.
     let initialStatus = initial_status w project in
     attempt (generateKeyBetween e (last_position e w (ci_projectId i) initialStatus) None) w (\<lambda>boardPosition.
     attempt (insert_task e u i isClientBug type initialStatus boardPosition project w) w (\<lambda>(task, w1).
     let created = hydrateKey t_keyNumber task (p_key project);
         w2 = emit (TaskCreated (t_id task) (t_projectId task) (snd created) (au_id u)
                (t_assigneeUserId task) None) w1
     in (Inr created, if isClientBug
           then emit (ClientReportedBug (t_id task) (t_projectId task) (t_title task) (au_id u)) w2
           else w2))))))))))"

section \<open>Reading\<close>

record list_filters =
  lf_status :: "string option"
  lf_assigneeUserId :: "string option"
  lf_sprintId :: "string option"
  lf_isBlocked :: "bool option"
  lf_parentTaskId :: "string option option"
  lf_type :: "task_type option"

text \<open>A task with the relations the list query includes.\<close>

record task_list_item =
  ti_task :: task_row
  ti_assignee :: "(string \<times> string \<times> string option) option"
  ti_labels :: "(task_label_row \<times> string \<times> string \<times> string) list"
  ti_customFieldValues :: "(custom_value_row \<times> custom_field_row) list"
  ti_fromLinks :: "link_row list"

definition list_item :: "world \<Rightarrow> task_row \<Rightarrow> task_list_item" where
  "list_item w t = \<lparr>ti_task = t,
     ti_assignee = Option.bind (t_assigneeUserId t) (\<lambda>uid.
        map_option (\<lambda>r. (u_id r, u_name r, u_avatarUrl r)) (find_row u_id uid (users w))),
     ti_labels = [(x, lb_id l, lb_name l, lb_color l).
        x \<leftarrow> taskLabels w, tl_taskId x = t_id t, l \<leftarrow> labels w, lb_id l = tl_labelId x],
     ti_customFieldValues = [(v, f).
        v \<leftarrow> customValues w, cv_taskId v = t_id t, f \<leftarrow> customFields w, cf_id f = cv_fieldId v],
     ti_fromLinks = filter (\<lambda>l. l_fromTaskId l = t_id t \<and> l_type l = Blocks) (links w)\<rparr>"

definition list_where :: "project_role \<Rightarrow> project_row \<Rightarrow> list_filters \<Rightarrow> task_row \<Rightarrow> bool" where
  "list_where role project f t \<longleftrightarrow> t_projectId t = p_id project \<and>
     (role = Client \<and> p_defaultTaskVisibility project = VInternal \<longrightarrow> t_visibility t = VClientVisible) \<and>
     (truthy (lf_status f) \<longrightarrow> lf_status f = Some (t_status t)) \<and>
     (truthy (lf_assigneeUserId f) \<longrightarrow> lf_assigneeUserId f = t_assigneeUserId t) \<and>
     (truthy (lf_sprintId f) \<longrightarrow> lf_sprintId f = t_sprintId t) \<and>
     (lf_isBlocked f \<noteq> None \<longrightarrow> lf_isBlocked f = Some (t_isBlocked t)) \<and>
     (lf_parentTaskId f \<noteq> None \<longrightarrow> lf_parentTaskId f = Some (t_parentTaskId t)) \<and>
     (lf_type f \<noteq> None \<longrightarrow> lf_type f = Some (t_type t))"

definition board_order :: "env \<Rightarrow> task_row \<Rightarrow> task_row \<Rightarrow> bool" where
  "board_order e a b \<longleftrightarrow> (if t_status a = t_status b then coll e (t_boardPosition a) (t_boardPosition b)
     else coll e (t_status a) (t_status b))"

definition listByProject :: "env \<Rightarrow> auth_user \<Rightarrow> string \<Rightarrow> list_filters \<Rightarrow> world \<Rightarrow>
    (task_list_item \<times> string) list res" where
  "listByProject e u pid f w =
     and_then (assertAtLeast w u pid Client) (\<lambda>role.
     and_then (project_or_throw w pid) (\<lambda>project.
     let found_tasks = take (LIST_HARD_CAP + 1)
           (order_by (board_order e) (filter (list_where role project f) (tasks w)));
         kept = (if length found_tasks > LIST_HARD_CAP then take LIST_HARD_CAP found_tasks else found_tasks)
     in Inr (map (\<lambda>t. hydrateKey (t_keyNumber \<circ> ti_task) (list_item w t) (p_key project)) kept)))"

record task_view =
  tv_task :: task_row
  tv_project :: "string \<times> string \<times> workflow_preset"
  tv_parent :: "(string \<times> string \<times> task_type \<times> int) option"
  tv_subtasks :: "(string \<times> string \<times> string \<times> task_type \<times> int) list"
  tv_fromLinks :: "link_row list"
  tv_toLinks :: "link_row list"

definition task_view_of :: "world \<Rightarrow> task_row \<Rightarrow> project_row \<Rightarrow> task_view" where
  "task_view_of w t p = \<lparr>tv_task = t, tv_project = (p_id p, p_key p, p_workflowPreset p),
     tv_parent = Option.bind (t_parentTaskId t) (\<lambda>tid.
        map_option (\<lambda>q. (t_id q, t_title q, t_type q, t_keyNumber q)) (find_task w tid)),
     tv_subtasks = map (\<lambda>s. (t_id s, t_title s, t_status s, t_type s, t_keyNumber s))
        (filter (\<lambda>s. t_parentTaskId s = Some (t_id t)) (tasks w)),
     tv_fromLinks = filter (\<lambda>l. l_fromTaskId l = t_id t) (links w),
     tv_toLinks = filter (\<lambda>l. l_toTaskId l = t_id t) (links w)\<rparr>"

definition getTask :: "auth_user \<Rightarrow> string \<Rightarrow> world \<Rightarrow> (task_view \<times> string) res" where
  "getTask u tid w =
     and_then (found (NotFound ''Task not found'') (find_task w tid)) (\<lambda>task.
     and_then (canSeeTask w u (t_projectId task) (t_visibility task)) (\<lambda>canSee.
     and_then (require canSee (Forbidden ''No access to task'')) (\<lambda>_.
     and_then (project_or_throw w (t_projectId task)) (\<lambda>project.
     Inr (hydrateKey (t_keyNumber \<circ> tv_task) (task_view_of w task project) (p_key project))))))"

section \<open>Updating\<close>

text \<open>The walk up from the proposed parent, at most \<open>n\<close> hops (the code's bound is 50).\<close>

fun walk_ancestors :: "nat \<Rightarrow> world \<Rightarrow> string \<Rightarrow> string option \<Rightarrow> unit res" where
  "walk_ancestors 0 w tid cursor = Inr ()"
| "walk_ancestors (Suc n) w tid cursor =
     (if \<not> truthy cursor then Inr ()
      else case find_task w (the cursor) of
        None \<Rightarrow> Inr ()
      | Some ancestor \<Rightarrow>
          if t_id ancestor = tid
          then Inl (BadRequest ''Re-parenting would create a cycle (this task appears as an ancestor)'')
          else if t_type ancestor = Subtask
          then Inl (BadRequest ''Cannot nest under a chain that contains a Subtask'')
          else walk_ancestors n w tid (t_parentTaskId ancestor))"

definition MAX_HOPS :: nat where
  "MAX_HOPS = 50"

definition children :: "world \<Rightarrow> string \<Rightarrow> task_row list" where
  "children w tid = filter (\<lambda>t. t_parentTaskId t = Some tid) (tasks w)"

definition check_hierarchy :: "world \<Rightarrow> task_row \<Rightarrow> update_task_input \<Rightarrow> unit res" where
  "check_hierarchy w task i =
     (let nextType = override (ui_type i) (t_type task);
          nextParentId = override (ui_parentTaskId i) (t_parentTaskId task)
      in if ui_type i = None \<and> ui_parentTaskId i = None then Inr () else
       and_then (if truthy nextParentId then
           and_then (parent_in_project w (t_projectId task) (the nextParentId)) (\<lambda>parent.
           and_then (require (nextParentId \<noteq> Some (t_id task))
             (BadRequest ''Task cannot be its own parent'')) (\<lambda>_.
           and_then (walk_ancestors MAX_HOPS w (t_id task) nextParentId) (\<lambda>_. Inr (Some parent))))
         else Inr None) (\<lambda>parent.
       and_then (if nextType = Subtask \<and> t_type task \<noteq> Subtask
         then require (children w (t_id task) = [])
           (BadRequest (''Cannot demote to Subtask while '' @ show_nat (length (children w (t_id task))) @
              '' child task(s) reference this task. Re-parent them first.''))
         else Inr ()) (\<lambda>_.
       assertTypeHierarchy nextType (map_option t_type parent))))"

definition patch_task :: "update_task_input \<Rightarrow> task_row \<Rightarrow> task_row" where
  "patch_task i t = t\<lparr>
     t_type := override (ui_type i) (t_type t),
     t_title := override (ui_title i) (t_title t),
     t_description := (case ui_description i of None \<Rightarrow> t_description t | Some d \<Rightarrow> Some d),
     t_priority := override (ui_priority i) (t_priority t),
     t_visibility := override (ui_visibility i) (t_visibility t),
     t_parentTaskId := override (ui_parentTaskId i) (t_parentTaskId t),
     t_sprintId := override (ui_sprintId i) (t_sprintId t),
     t_assigneeUserId := override (ui_assigneeUserId i) (t_assigneeUserId t),
     t_reporterUserId := override (ui_reporterUserId i) (t_reporterUserId t),
     t_startDate := override (ui_startDate i) (t_startDate t),
     t_dueDate := override (ui_dueDate i) (t_dueDate t),
     t_estimate := override (ui_estimate i) (t_estimate t),
     t_blockedReason := override (ui_blockedReason i) (t_blockedReason t)\<rparr>"

text \<open>\<open>task.update\<close> on one row: the new row and the state, when its foreign keys hold.\<close>

definition write_task :: "string \<Rightarrow> (task_row \<Rightarrow> task_row) \<Rightarrow> task_row \<Rightarrow> world \<Rightarrow> (task_row \<times> world) res" where
  "write_task tid f task w =
     and_then (require (task_fk w (f task)) (DbError P2003)) (\<lambda>_.
     Inr (f task, w\<lparr>tasks := update_where (\<lambda>t. t_id t = tid) f (tasks w)\<rparr>))"

text \<open>The upsert of a watcher: a row that is there already is left alone.\<close>

definition addWatcher :: "string \<Rightarrow> string \<Rightarrow> world \<Rightarrow> world res" where
  "addWatcher tid uid w =
     and_then (require ((uid, tid) \<in> watcher_key ` set (watchers w) \<or> user_task_fk w uid tid) (DbError P2003))
       (\<lambda>_. Inr (w\<lparr>watchers := insert_absent watcher_key \<lparr>w_userId = uid, w_taskId = tid\<rparr> (watchers w)\<rparr>))"

definition drop_watcher :: "string \<Rightarrow> string \<Rightarrow> world \<Rightarrow> world" where
  "drop_watcher tid uid w = w\<lparr>watchers := delete_where (\<lambda>r. watcher_key r = (uid, tid)) (watchers w)\<rparr>"

definition reassigned :: "update_task_input \<Rightarrow> task_row \<Rightarrow> bool" where
  "reassigned i task \<longleftrightarrow> ui_assigneeUserId i \<noteq> None \<and> ui_assigneeUserId i \<noteq> Some (t_assigneeUserId task)"

definition leaves_watchers :: "task_row \<Rightarrow> string option \<Rightarrow> bool" where
  "leaves_watchers task new \<longleftrightarrow> (case t_assigneeUserId task of
     None \<Rightarrow> False
   | Some prev \<Rightarrow> prev \<noteq> [] \<and> prev \<noteq> t_createdById task \<and> prev \<noteq> t_reporterUserId task \<and>
       Some prev \<noteq> new)"

definition updateTask :: "auth_user \<Rightarrow> string \<Rightarrow> update_task_input \<Rightarrow> world \<Rightarrow> task_row res \<times> world" where
  "updateTask u tid i w =
     attempt (task_or_throw w tid) w (\<lambda>task.
     attempt (assertAtLeast w u (t_projectId task) Contributor) w (\<lambda>_.
     attempt (check_hierarchy w task i) w (\<lambda>_.
     attempt (write_task tid (patch_task i) task w) w (\<lambda>(updated, w1).
     let new = override (ui_assigneeUserId i) None
     in attempt (if reassigned i task \<and> truthy new then addWatcher tid (the new) w1 else Inr w1) w1 (\<lambda>w2.
        let w3 = (if reassigned i task \<and> leaves_watchers task new
                  then drop_watcher tid (the (t_assigneeUserId task)) w2 else w2)
        in (Inr updated, emit (TaskUpdated tid (au_id u) i) w3))))))"

section \<open>Changing the status\<close>

definition project_statuses :: "world \<Rightarrow> string \<Rightarrow> status_row list" where
  "project_statuses w pid = filter (\<lambda>s. s_projectId s = pid) (statuses w)"

text \<open>The status rows decide, and the preset where the project has none.\<close>

definition valid_status :: "world \<Rightarrow> project_row \<Rightarrow> string \<Rightarrow> bool" where
  "valid_status w p st = (let names = set (map s_name (project_statuses w (p_id p)))
     in if names \<noteq> {} then st \<in> names else isValidStatusFor (p_workflowPreset p) st)"

definition done_status :: "world \<Rightarrow> project_row \<Rightarrow> string \<Rightarrow> bool" where
  "done_status w p st = (let names = set (map s_name (filter s_isDoneStatus (project_statuses w (p_id p))))
     in if names \<noteq> {} then st \<in> names else st \<in> set (doneStatusesFor (p_workflowPreset p)))"

definition allowed_transition :: "world \<Rightarrow> string \<Rightarrow> string \<Rightarrow> string \<Rightarrow> bool" where
  "allowed_transition w pid from to \<longleftrightarrow> transitionKey from to \<in>
     set (map (\<lambda>t. transitionKey (wt_fromStatus t) (wt_toStatus t))
        (filter (\<lambda>t. wt_projectId t = pid) (transitions w)))"

definition quoted :: "string \<Rightarrow> string" where
  "quoted s = [CHR 0x22] @ s @ [CHR 0x22]"

definition unknown_status :: "string \<Rightarrow> api_error" where
  "unknown_status st = BadRequest (''Status '' @ quoted st @ '' doesn'' @ [CHR 0x27] @
     ''t exist in this project. Admins can add statuses from Project Settings '' @ arrow @ '' Workflow.'')"

definition refused_transition :: "string \<Rightarrow> string \<Rightarrow> api_error" where
  "refused_transition from to = BadRequest (''Transition '' @ quoted from @ '' '' @ arrow @ '' '' @ quoted to @
     '' is not allowed by this project'' @ [CHR 0x27] @ ''s workflow. '' @
     ''An admin can edit allowed transitions in Project Settings '' @ arrow @ '' Workflow.'')"

definition completed_at :: "env \<Rightarrow> bool \<Rightarrow> bool \<Rightarrow> int option \<Rightarrow> int option" where
  "completed_at e wasDone willBeDone old =
     (if \<not> wasDone \<and> willBeDone then Some (clk e 0)
      else if wasDone \<and> \<not> willBeDone then None
      else old)"

definition incomplete_subtasks :: "world \<Rightarrow> project_row \<Rightarrow> string \<Rightarrow> task_row list" where
  "incomplete_subtasks w p tid = filter (\<lambda>s. \<not> done_status w p (t_status s)) (children w tid)"

definition changeStatus :: "env \<Rightarrow> auth_user \<Rightarrow> string \<Rightarrow> string \<Rightarrow> trigger_source \<Rightarrow> world \<Rightarrow>
    task_row res \<times> world" where
  "changeStatus e u tid newStatus triggeredBy w =
     attempt (task_or_throw w tid) w (\<lambda>task.
     attempt (project_or_throw w (t_projectId task)) w (\<lambda>project.
     attempt (assertAtLeast w u (t_projectId task) Contributor) w (\<lambda>_.
     let isDone = done_status w project; previous = t_status task in
     attempt (require (valid_status w project newStatus)
       (unknown_status newStatus)) w (\<lambda>_.
     let incomplete = incomplete_subtasks w project tid in
     attempt (require (isDone newStatus \<longrightarrow> incomplete = [])
       (Conflict ''Cannot complete parent while subtasks are incomplete'' (map t_id incomplete))) w (\<lambda>_.
     if previous = newStatus then (Inr task, w) else
     attempt (require (triggeredBy = ByUser \<longrightarrow> allowed_transition w (t_projectId task) previous newStatus)
       (refused_transition previous newStatus)) w (\<lambda>_.
     attempt (generateKeyBetween e (last_position e w (t_projectId task) newStatus) None) w (\<lambda>boardPosition.
     let upd = (\<lambda>t. t\<lparr>t_status := newStatus, t_boardPosition := boardPosition,
           t_completedAt := completed_at e (isDone previous) (isDone newStatus) (t_completedAt t)\<rparr>);
         w1 = w\<lparr>tasks := update_where (\<lambda>t. t_id t = tid) upd (tasks w)\<rparr>
     in (Inr (upd task),
         emit (TaskStatusChanged tid previous newStatus triggeredBy (Some (au_id u)) (t_projectId task)) w1))))))))"

section \<open>Removing, blocking and reordering\<close>

definition removeTask :: "auth_user \<Rightarrow> string \<Rightarrow> world \<Rightarrow> unit res \<times> world" where
  "removeTask u tid w =
     attempt (task_or_throw w tid) w (\<lambda>task.
     attempt (assertAtLeast w u (t_projectId task) Manager) w (\<lambda>_.
     (Inr (), emit (TaskDeleted tid (t_projectId task) (au_id u)) (cascade_task tid w))))"

definition setBlocked :: "auth_user \<Rightarrow> string \<Rightarrow> bool \<Rightarrow> string option \<Rightarrow> world \<Rightarrow> task_row res \<times> world" where
  "setBlocked u tid isBlocked reason w =
     attempt (task_or_throw w tid) w (\<lambda>task.
     attempt (assertAtLeast w u (t_projectId task) Contributor) w (\<lambda>_.
     let upd = (\<lambda>t. t\<lparr>t_isBlocked := isBlocked, t_blockedReason := (if isBlocked then reason else None)\<rparr>)
     in (Inr (upd task),
         emit (if isBlocked then TaskBlocked tid (au_id u) reason else TaskUnblocked tid (au_id u) reason)
           (w\<lparr>tasks := update_where (\<lambda>t. t_id t = tid) upd (tasks w)\<rparr>))))"

definition reorderOnBoard :: "env \<Rightarrow> auth_user \<Rightarrow> string \<Rightarrow> string option \<Rightarrow> string option \<Rightarrow> world \<Rightarrow>
    task_row res \<times> world" where
  "reorderOnBoard e u tid before after w =
     attempt (task_or_throw w tid) w (\<lambda>task.
     attempt (assertAtLeast w u (t_projectId task) Contributor) w (\<lambda>_.
     attempt (generateKeyBetween e before after) w (\<lambda>newPos.
     let upd = (\<lambda>t. t\<lparr>t_boardPosition := newPos\<rparr>)
     in (Inr (upd task), w\<lparr>tasks := update_where (\<lambda>t. t_id t = tid) upd (tasks w)\<rparr>))))"

section \<open>Watchers, mutes and co-reporters\<close>

definition watch :: "auth_user \<Rightarrow> string \<Rightarrow> world \<Rightarrow> unit res \<times> world" where
  "watch u tid w =
     attempt (task_or_throw w tid) w (\<lambda>task.
     attempt (canSeeTask w u (t_projectId task) (t_visibility task)) w (\<lambda>canSee.
     attempt (require canSee (Forbidden ''Cannot watch a task you cannot see'')) w (\<lambda>_.
     attempt (addWatcher tid (au_id u) w) w (\<lambda>w1. (Inr (), w1)))))"

definition unwatch :: "auth_user \<Rightarrow> string \<Rightarrow> world \<Rightarrow> unit res \<times> world" where
  "unwatch u tid w = (Inr (), drop_watcher tid (au_id u) w)"

definition mute :: "auth_user \<Rightarrow> string \<Rightarrow> world \<Rightarrow> unit res \<times> world" where
  "mute u tid w =
     attempt (require ((au_id u, tid) \<in> mute_key ` set (mutes w) \<or> user_task_fk w (au_id u) tid)
       (DbError P2003)) w (\<lambda>_.
     (Inr (), w\<lparr>mutes := insert_absent mute_key \<lparr>m_userId = au_id u, m_taskId = tid\<rparr> (mutes w)\<rparr>))"

definition unmute :: "auth_user \<Rightarrow> string \<Rightarrow> world \<Rightarrow> unit res \<times> world" where
  "unmute u tid w = (Inr (), w\<lparr>mutes := delete_where (\<lambda>r. mute_key r = (au_id u, tid)) (mutes w)\<rparr>)"

definition listReporters :: "auth_user \<Rightarrow> string \<Rightarrow> world \<Rightarrow> (reporter_row \<times> user_row option) list res" where
  "listReporters u tid w =
     and_then (task_or_throw w tid) (\<lambda>task.
     and_then (canSeeTask w u (t_projectId task) (t_visibility task)) (\<lambda>canSee.
     and_then (require canSee (Forbidden ''No access to task'')) (\<lambda>_.
     Inr (map (\<lambda>r. (r, find_row u_id (r_userId r) (users w)))
        (order_by (\<lambda>a b. r_addedAt a \<le> r_addedAt b) (filter (\<lambda>r. r_taskId r = tid) (reporters w)))))))"

definition addReporter :: "env \<Rightarrow> auth_user \<Rightarrow> string \<Rightarrow> string \<Rightarrow> world \<Rightarrow> unit res \<times> world" where
  "addReporter e u tid uid w =
     attempt (task_or_throw w tid) w (\<lambda>task.
     attempt (assertAtLeast w u (t_projectId task) Contributor) w (\<lambda>_.
     if t_reporterUserId task = uid then (Inr (), w) else
     attempt (require ((tid, uid) \<in> reporter_key ` set (reporters w) \<or>
         user_task_fk w uid tid \<and> au_id u \<in> u_id ` set (users w)) (DbError P2003)) w (\<lambda>_.
     (Inr (), emit (TaskReporterAdded tid (t_projectId task) uid (au_id u))
        (w\<lparr>reporters := insert_absent reporter_key
             \<lparr>r_taskId = tid, r_userId = uid, r_addedById = au_id u, r_addedAt = clk e 0\<rparr> (reporters w)\<rparr>)))))"

definition removeReporter :: "auth_user \<Rightarrow> string \<Rightarrow> string \<Rightarrow> world \<Rightarrow> unit res \<times> world" where
  "removeReporter u tid uid w =
     attempt (task_or_throw w tid) w (\<lambda>task.
     attempt (assertAtLeast w u (t_projectId task) Contributor) w (\<lambda>_.
     (Inr (), emit (TaskReporterRemoved tid (t_projectId task) uid (au_id u))
        (w\<lparr>reporters := delete_where (\<lambda>r. reporter_key r = (tid, uid)) (reporters w)\<rparr>))))"

section \<open>Links\<close>

definition link_key :: "link_row \<Rightarrow> string \<times> string \<times> link_type" where
  "link_key l = (l_fromTaskId l, l_toTaskId l, l_type l)"

definition createLink :: "env \<Rightarrow> auth_user \<Rightarrow> string \<Rightarrow> string \<Rightarrow> link_type \<Rightarrow> world \<Rightarrow>
    link_row res \<times> world" where
  "createLink e u fromId toId type w =
     attempt (require (fromId \<noteq> toId) (BadRequest ''Task cannot link to itself'')) w (\<lambda>_.
     attempt (task_or_throw w fromId) w (\<lambda>from.
     attempt (task_or_throw w toId) w (\<lambda>to.
     attempt (assertAtLeast w u (t_projectId from) Contributor) w (\<lambda>_.
     attempt (effectiveRole w u (t_projectId to)) w (\<lambda>_.
     let l = \<lparr>l_id = uuid e 0, l_fromTaskId = fromId, l_toTaskId = toId, l_type = type,
              l_createdById = au_id u\<rparr>
     in attempt (require (link_key l \<notin> link_key ` set (links w)) (DbError P2002)) w (\<lambda>_.
        attempt (require (au_id u \<in> u_id ` set (users w)) (DbError P2003)) w (\<lambda>_.
        (Inr l, w\<lparr>links := links w @ [l]\<rparr>))))))))"

definition deleteLink :: "auth_user \<Rightarrow> string \<Rightarrow> world \<Rightarrow> unit res \<times> world" where
  "deleteLink u lid w =
     attempt (found (DbError P2025) (find_row l_id lid (links w))) w (\<lambda>l.
     attempt (task_or_throw w (l_fromTaskId l)) w (\<lambda>from.
     attempt (assertAtLeast w u (t_projectId from) Contributor) w (\<lambda>_.
     (Inr (), w\<lparr>links := delete_where (\<lambda>l. l_id l = lid) (links w)\<rparr>))))"

end
