(* ===== verification/TaskLaws.thy ===== *)
theory TaskLaws
  imports Tasks
begin

text \<open>
  The laws of the task service: what every operation keeps (numbers, identifiers, hierarchy),
  who may change what, and the behaviour of the operations of Tasks one by one.
\<close>

section \<open>The invariant\<close>

text \<open>
  What an update never changes of a row, and the place of a row in the hierarchy.
\<close>

definition ident :: "task_row \<Rightarrow> string \<times> string \<times> int" where
  "ident t = (t_id t, t_projectId t, t_keyNumber t)"

definition numbers_ok :: "world \<Rightarrow> bool" where
  "numbers_ok w \<longleftrightarrow> distinct (map p_id (projects w)) \<and> distinct (map t_id (tasks w)) \<and>
     distinct (map number_key (tasks w)) \<and>
     (\<forall>t \<in> set (tasks w). \<exists>p \<in> set (projects w). p_id p = t_projectId t \<and> t_keyNumber t < p_nextTaskNumber p)"

text \<open>A parent is in the same project and not a Subtask, and an Epic has none.\<close>

definition parent_ok :: "task_row set \<Rightarrow> task_row \<Rightarrow> bool" where
  "parent_ok ts t \<longleftrightarrow> (\<forall>p. t_parentTaskId t = Some p \<longrightarrow> t_type t \<noteq> Epic \<and>
     (\<exists>q \<in> ts. t_id q = p \<and> t_projectId q = t_projectId t \<and> t_type q \<noteq> Subtask))"

definition hierarchy_ok :: "world \<Rightarrow> bool" where
  "hierarchy_ok w \<longleftrightarrow> [] \<notin> t_id ` set (tasks w) \<and> (\<forall>t \<in> set (tasks w). parent_ok (set (tasks w)) t)"

definition tasks_inv :: "world \<Rightarrow> bool" where
  "tasks_inv w \<longleftrightarrow> numbers_ok w \<and> hierarchy_ok w"

lemmas task_inv_steps = attempt_inv [where P = tasks_inv]

lemma numbers_ok_ident:
  assumes "numbers_ok w" and p: "projects w' = projects w" and t: "map ident (tasks w') = map ident (tasks w)"
  shows "numbers_ok w'"
proof -
  have map_of: "map (\<lambda>t. f (ident t)) (tasks w') = map (\<lambda>t. f (ident t)) (tasks w)" for f :: "_ \<Rightarrow> 'b"
    using arg_cong [OF t, of "map f"] by (simp add: comp_def)
  have ids: "map t_id (tasks w') = map t_id (tasks w)" using map_of [of fst] by (simp add: ident_def)
  have keys: "map number_key (tasks w') = map number_key (tasks w)"
    using map_of [of snd] unfolding ident_def number_key_def [abs_def] by simp
  have img: "number_key ` set (tasks w') = number_key ` set (tasks w)" using keys by (metis list.set_map)
  have eq: "(\<forall>t \<in> set ts. \<exists>p \<in> set (projects w). p_id p = t_projectId t \<and> t_keyNumber t < p_nextTaskNumber p) \<longleftrightarrow>
      (\<forall>k \<in> number_key ` set ts. \<exists>p \<in> set (projects w). p_id p = fst k \<and> snd k < p_nextTaskNumber p)" for ts
    by (simp add: number_key_def)
  show ?thesis
    using assms(1) unfolding numbers_ok_def p ids keys eq img .
qed

text \<open>An operation that leaves the projects, and of every task the identity and the place.\<close>

definition place :: "task_row \<Rightarrow> (string \<times> string \<times> int) \<times> task_type \<times> string option" where
  "place t = (ident t, t_type t, t_parentTaskId t)"

lemma hierarchy_ok_place:
  assumes "hierarchy_ok w" and t: "map place (tasks w') = map place (tasks w)"
  shows "hierarchy_ok w'"
proof -
  have set_eq: "place ` set (tasks w') = place ` set (tasks w)" using t by (metis list.set_map)
  have id: "t_id t = fst (fst (place t))" for t by (simp add: place_def ident_def)
  have "t_id ` set (tasks w') = t_id ` set (tasks w)"
    using set_eq by (simp add: id image_image [symmetric, of "\<lambda>p. fst (fst p)" place])
  moreover have "parent_ok (set (tasks w')) t'" if "t' \<in> set (tasks w')" for t'
  proof -
    from that set_eq obtain t where t: "t \<in> set (tasks w)" "place t = place t'" by (metis image_iff)
    then have "parent_ok (set (tasks w)) t" using assms(1) by (simp add: hierarchy_ok_def)
    show ?thesis unfolding parent_ok_def
    proof (intro allI impI)
      fix p assume "t_parentTaskId t' = Some p"
      with t(2) have "t_parentTaskId t = Some p" by (simp add: place_def)
      with \<open>parent_ok (set (tasks w)) t\<close> obtain q where q: "q \<in> set (tasks w)" "t_id q = p"
        "t_projectId q = t_projectId t" "t_type q \<noteq> Subtask" "t_type t \<noteq> Epic"
        by (auto simp: parent_ok_def)
      from q(1) set_eq obtain q' where "q' \<in> set (tasks w')" "place q' = place q" by (metis image_iff)
      with q t(2) show "t_type t' \<noteq> Epic \<and>
          (\<exists>q \<in> set (tasks w'). t_id q = p \<and> t_projectId q = t_projectId t' \<and> t_type q \<noteq> Subtask)"
        by (auto simp: place_def ident_def)
    qed
  qed
  ultimately show ?thesis using assms(1) by (simp add: hierarchy_ok_def)
qed

lemma tasks_inv_kept:
  assumes "tasks_inv w" and "projects w' = projects w" and t: "map place (tasks w') = map place (tasks w)"
  shows "tasks_inv w'"
proof -
  have "map ident (tasks w') = map (fst \<circ> place) (tasks w')" by (simp add: place_def comp_def)
  also have "\<dots> = map (fst \<circ> place) (tasks w)" using arg_cong [OF t, of "map fst"] by simp
  also have "\<dots> = map ident (tasks w)" by (simp add: place_def comp_def)
  finally show ?thesis
    using assms numbers_ok_ident [of w w'] hierarchy_ok_place [of w w'] by (simp add: tasks_inv_def)
qed

lemma tasks_inv_emit [simp]: "tasks_inv (emit ev w) = tasks_inv w"
  by (rule iffI; erule tasks_inv_kept) simp_all

lemma tasks_inv_events: "tasks_inv (if c then emit a (emit b w) else emit b w) = tasks_inv w"
  by simp

lemma tasks_inv_others [simp]:
  "tasks_inv (w\<lparr>watchers := ws\<rparr>) = tasks_inv w" "tasks_inv (w\<lparr>mutes := ms\<rparr>) = tasks_inv w"
  "tasks_inv (w\<lparr>reporters := rs\<rparr>) = tasks_inv w" "tasks_inv (w\<lparr>links := ls\<rparr>) = tasks_inv w"
  by (simp_all add: tasks_inv_def numbers_ok_def hierarchy_ok_def)

lemma tasks_inv_update:
  assumes "tasks_inv w" and "\<And>t. place (f t) = place t"
  shows "tasks_inv (w\<lparr>tasks := update_where p f (tasks w)\<rparr>)"
  using assms(1) by (rule tasks_inv_kept) (simp_all add: map_update_where assms(2))

lemma find_task_unique:
  assumes "tasks_inv w" and "t \<in> set (tasks w)"
  shows "find_task w (t_id t) = Some t"
  using assms by (simp add: tasks_inv_def numbers_ok_def find_task_def find_row_distinct)

section \<open>Every operation keeps the invariant\<close>

lemma changeStatus_inv: "tasks_inv w \<Longrightarrow> tasks_inv (snd (changeStatus e u tid st src w))"
  unfolding changeStatus_def Let_def
  by (intro task_inv_steps) (auto intro!: task_inv_steps tasks_inv_update simp: place_def ident_def)

lemma setBlocked_inv: "tasks_inv w \<Longrightarrow> tasks_inv (snd (setBlocked u tid b r w))"
  unfolding setBlocked_def Let_def
  by (intro task_inv_steps) (auto intro!: tasks_inv_update simp: place_def ident_def)

lemma reorderOnBoard_inv: "tasks_inv w \<Longrightarrow> tasks_inv (snd (reorderOnBoard e u tid a b w))"
  unfolding reorderOnBoard_def Let_def
  by (intro task_inv_steps) (auto intro!: tasks_inv_update simp: place_def ident_def)

lemma addWatcher_Inr:
  "addWatcher tid uid w = Inr w' \<Longrightarrow>
    w' = w\<lparr>watchers := insert_absent watcher_key \<lparr>w_userId = uid, w_taskId = tid\<rparr> (watchers w)\<rparr>"
  by (simp add: addWatcher_def and_then_Inr)

lemma watch_inv: "tasks_inv w \<Longrightarrow> tasks_inv (snd (watch u tid w))"
  unfolding watch_def by (intro task_inv_steps) (auto dest: addWatcher_Inr)

lemma unwatch_inv: "tasks_inv w \<Longrightarrow> tasks_inv (snd (unwatch u tid w))"
  by (simp add: unwatch_def drop_watcher_def)

lemma mute_inv: "tasks_inv w \<Longrightarrow> tasks_inv (snd (mute u tid w))"
  unfolding mute_def by (intro task_inv_steps) simp_all

lemma unmute_inv: "tasks_inv w \<Longrightarrow> tasks_inv (snd (unmute u tid w))"
  by (simp add: unmute_def)

lemma addReporter_inv: "tasks_inv w \<Longrightarrow> tasks_inv (snd (addReporter e u tid uid w))"
  unfolding addReporter_def by (intro task_inv_steps) (auto intro!: task_inv_steps)

lemma removeReporter_inv: "tasks_inv w \<Longrightarrow> tasks_inv (snd (removeReporter u tid uid w))"
  unfolding removeReporter_def by (intro task_inv_steps) simp_all

lemma createLink_inv: "tasks_inv w \<Longrightarrow> tasks_inv (snd (createLink e u a b ty w))"
  unfolding createLink_def Let_def by (intro task_inv_steps) simp_all

lemma deleteLink_inv: "tasks_inv w \<Longrightarrow> tasks_inv (snd (deleteLink u lid w))"
  unfolding deleteLink_def by (intro task_inv_steps) simp_all

text \<open>Deleting a task clears the parent of its children.\<close>

definition orphan :: "string \<Rightarrow> task_row \<Rightarrow> task_row" where
  "orphan tid t = (if t_parentTaskId t = Some tid then t\<lparr>t_parentTaskId := None\<rparr> else t)"

lemma orphan_fields [simp]:
  "t_id (orphan tid t) = t_id t" "t_projectId (orphan tid t) = t_projectId t"
  "t_keyNumber (orphan tid t) = t_keyNumber t" "t_type (orphan tid t) = t_type t"
  by (simp_all add: orphan_def)

lemma cascade_tasks: "tasks (cascade_task tid w) = map (orphan tid) (delete_where (\<lambda>t. t_id t = tid) (tasks w))"
  by (simp add: cascade_task_def orphan_def)

lemma cascade_task_inv:
  assumes "tasks_inv w"
  shows "tasks_inv (cascade_task tid w)"
proof -
  let ?rest = "delete_where (\<lambda>t. t_id t = tid) (tasks w)"
  have num: "number_key (orphan tid t) = number_key t" for t by (simp add: number_key_def)
  have "numbers_ok (cascade_task tid w)"
    using assms unfolding tasks_inv_def numbers_ok_def cascade_tasks
    by (simp add: comp_def num distinct_delete_where) (simp add: cascade_task_def)
  moreover have "hierarchy_ok (cascade_task tid w)"
    unfolding hierarchy_ok_def
  proof (intro conjI ballI)
    show "[] \<notin> t_id ` set (tasks (cascade_task tid w))"
      using assms by (auto simp: cascade_tasks tasks_inv_def hierarchy_ok_def)
    fix t assume "t \<in> set (tasks (cascade_task tid w))"
    then obtain t0 where t0: "t0 \<in> set (tasks w)" "t = orphan tid t0"
      by (auto simp: cascade_tasks)
    show "parent_ok (set (tasks (cascade_task tid w))) t"
      unfolding parent_ok_def
    proof (intro allI impI)
      fix p assume "t_parentTaskId t = Some p"
      with t0(2) have p: "t_parentTaskId t0 = Some p" "p \<noteq> tid" by (auto simp: orphan_def split: if_splits)
      from assms t0(1) have "parent_ok (set (tasks w)) t0" by (simp add: tasks_inv_def hierarchy_ok_def)
      with p(1) obtain q where "q \<in> set (tasks w)" "t_id q = p" "t_projectId q = t_projectId t0"
        "t_type q \<noteq> Subtask" and ty: "t_type t0 \<noteq> Epic"
        unfolding parent_ok_def by blast
      with p(2) have "orphan tid q \<in> set (tasks (cascade_task tid w)) \<and> t_id (orphan tid q) = p \<and>
          t_projectId (orphan tid q) = t_projectId t \<and> t_type (orphan tid q) \<noteq> Subtask"
        by (simp add: cascade_tasks t0(2))
      with ty show "t_type t \<noteq> Epic \<and> (\<exists>q \<in> set (tasks (cascade_task tid w)).
          t_id q = p \<and> t_projectId q = t_projectId t \<and> t_type q \<noteq> Subtask)"
        by (intro conjI bexI [of _ "orphan tid q"]) (simp_all add: t0(2))
    qed
  qed
  ultimately show ?thesis by (simp add: tasks_inv_def)
qed

lemma removeTask_inv: "tasks_inv w \<Longrightarrow> tasks_inv (snd (removeTask u tid w))"
  unfolding removeTask_def by (intro task_inv_steps) (simp_all add: cascade_task_inv)

text \<open>Inserting a task: the number drawn is new in its project, the parent is acceptable.\<close>

lemma insert_task_Inr:
  "insert_task e u i b ty st pos p w = Inr (t, w') \<Longrightarrow>
    t = new_task e u i b ty st pos (p_nextTaskNumber p) \<and>
    number_key t \<notin> number_key ` set (tasks w) \<and>
    w' = w\<lparr>projects := update_where (\<lambda>q. p_id q = p_id p) (\<lambda>q. q\<lparr>p_nextTaskNumber := p_nextTaskNumber q + 1\<rparr>) (projects w),
           tasks := tasks w @ [t], watchers := watchers w @ [\<lparr>w_userId = au_id u, w_taskId = t_id t\<rparr>]\<rparr>"
  by (auto simp: insert_task_def Let_def and_then_Inr)

lemma parent_in_project_Inr:
  "parent_in_project w pid tid = Inr q \<longleftrightarrow> find_task w tid = Some q \<and> t_projectId q = pid"
  by (auto simp: parent_in_project_def split: option.splits)

lemma assertTypeHierarchy_Inr:
  "assertTypeHierarchy ty par = Inr x \<longleftrightarrow>
    (ty = Subtask \<longrightarrow> par \<noteq> None) \<and> (ty = Epic \<longrightarrow> par = None) \<and> par \<noteq> Some Subtask"
  by (auto simp: assertTypeHierarchy_def)

lemma insert_numbers:
  assumes inv: "numbers_ok w" and p: "find_project w (t_projectId t) = Some p"
    and n: "t_keyNumber t = p_nextTaskNumber p" and fresh: "t_id t \<notin> t_id ` set (tasks w)"
    and key: "number_key t \<notin> number_key ` set (tasks w)"
  shows "numbers_ok (w\<lparr>projects := update_where (\<lambda>q. p_id q = p_id p)
      (\<lambda>q. q\<lparr>p_nextTaskNumber := p_nextTaskNumber q + 1\<rparr>) (projects w), tasks := tasks w @ [t]\<rparr>)"
    (is "numbers_ok ?w")
proof -
  let ?bump = "\<lambda>q. if p_id q = p_id p then q\<lparr>p_nextTaskNumber := p_nextTaskNumber q + 1\<rparr> else q"
  have ps: "projects ?w = map ?bump (projects w)" by (simp add: update_where_def)
  have pids: "map p_id (projects ?w) = map p_id (projects w)" by (simp add: map_update_where)
  have bumped: "?bump q \<in> set (projects ?w)" if "q \<in> set (projects w)" for q
    using that unfolding ps set_map by (rule imageI)
  have above: "\<exists>q \<in> set (projects ?w). p_id q = pid \<and> k < p_nextTaskNumber q"
    if "q0 \<in> set (projects w)" "p_id q0 = pid" "k < p_nextTaskNumber q0" for q0 pid k
    using that(2,3) by (intro bexI [OF _ bumped [OF that(1)]]) auto
  have "\<exists>q \<in> set (projects ?w). p_id q = t_projectId t \<and> t_keyNumber t < p_nextTaskNumber q"
    using find_projectD [OF p] n by (intro bexI [OF _ bumped]) auto
  moreover have "\<exists>q \<in> set (projects ?w). p_id q = t_projectId s \<and> t_keyNumber s < p_nextTaskNumber q"
    if "s \<in> set (tasks w)" for s
    using inv that above by (auto simp: numbers_ok_def simp del: world.select_convs)
  ultimately show ?thesis
    using inv fresh key pids by (simp add: numbers_ok_def)
qed

lemma insert_hierarchy:
  assumes inv: "hierarchy_ok w" and "t_id t \<noteq> []" and "parent_ok (set (tasks w)) t"
  shows "hierarchy_ok (w\<lparr>projects := ps, tasks := tasks w @ [t]\<rparr>)"
proof -
  have "parent_ok (insert t (set (tasks w))) s" if "parent_ok (set (tasks w)) s" for s
    using that by (auto simp: parent_ok_def)
  with assms show ?thesis by (simp add: hierarchy_ok_def)
qed

lemma createTask_inv:
  assumes inv: "tasks_inv w" and fresh: "uuid e 0 \<notin> t_id ` set (tasks w)" "uuid e 0 \<noteq> []"
  shows "tasks_inv (snd (createTask e u i w))"
proof -
  have main: "tasks_inv w1"
    if p: "find_project w (ci_projectId i) = Some p"
      and par: "(if truthy (ci_parentTaskId i)
              then and_then (parent_in_project w (ci_projectId i) (the (ci_parentTaskId i))) (\<lambda>p. Inr (Some p))
              else Inr None) = Inr par"
      and ty: "assertTypeHierarchy ty (map_option t_type par) = Inr ()"
      and ins: "insert_task e u i b ty st pos p w = Inr (t, w1)" for p par ty b st pos t w1
  proof -
    note ins' = insert_task_Inr [OF ins]
    then have t: "t = new_task e u i b ty st pos (p_nextTaskNumber p)" by blast
    have "numbers_ok (w\<lparr>projects := update_where (\<lambda>q. p_id q = p_id p)
        (\<lambda>q. q\<lparr>p_nextTaskNumber := p_nextTaskNumber q + 1\<rparr>) (projects w), tasks := tasks w @ [t]\<rparr>)"
      using inv p fresh ins' by (intro insert_numbers) (auto simp: tasks_inv_def new_task_def)
    moreover have "hierarchy_ok (w\<lparr>projects := update_where (\<lambda>q. p_id q = p_id p)
        (\<lambda>q. q\<lparr>p_nextTaskNumber := p_nextTaskNumber q + 1\<rparr>) (projects w), tasks := tasks w @ [t]\<rparr>)"
    proof (rule insert_hierarchy)
      show "hierarchy_ok w" using inv by (simp add: tasks_inv_def)
      show "t_id t \<noteq> []" by (simp add: t new_task_def fresh)
      show "parent_ok (set (tasks w)) t"
        using par ty
        by (cases "ci_parentTaskId i")
           (auto simp: t new_task_def parent_ok_def keep_truthy_def and_then_Inr parent_in_project_Inr
             assertTypeHierarchy_Inr dest: find_taskD split: if_splits)
    qed
    moreover have "w1 = (w\<lparr>projects := update_where (\<lambda>q. p_id q = p_id p)
        (\<lambda>q. q\<lparr>p_nextTaskNumber := p_nextTaskNumber q + 1\<rparr>) (projects w), tasks := tasks w @ [t]\<rparr>)
        \<lparr>watchers := watchers w @ [\<lparr>w_userId = au_id u, w_taskId = t_id t\<rparr>]\<rparr>"
      using ins' by simp
    ultimately show ?thesis
      unfolding tasks_inv_def numbers_ok_def hierarchy_ok_def by simp
  qed
  show ?thesis
    unfolding createTask_def Let_def
    by (intro task_inv_steps inv)
      (auto simp: tasks_inv_events split del: if_split dest: main)
qed

text \<open>Updating a task: what the hierarchy check guarantees of the row it lets through.\<close>

lemma patch_task_fields [simp]:
  "t_id (patch_task i t) = t_id t" "t_projectId (patch_task i t) = t_projectId t"
  "t_keyNumber (patch_task i t) = t_keyNumber t" "t_status (patch_task i t) = t_status t"
  "t_type (patch_task i t) = override (ui_type i) (t_type t)"
  "t_parentTaskId (patch_task i t) = override (ui_parentTaskId i) (t_parentTaskId t)"
  "t_sprintId (patch_task i t) = override (ui_sprintId i) (t_sprintId t)"
  "t_assigneeUserId (patch_task i t) = override (ui_assigneeUserId i) (t_assigneeUserId t)"
  "t_reporterUserId (patch_task i t) = override (ui_reporterUserId i) (t_reporterUserId t)"
  by (simp_all add: patch_task_def)

lemma write_task_Inr:
  "write_task tid f task w = Inr (t', w') \<longleftrightarrow> task_fk w (f task) \<and> t' = f task \<and>
    w' = w\<lparr>tasks := update_where (\<lambda>t. t_id t = tid) f (tasks w)\<rparr>"
  by (auto simp: write_task_def and_then_Inr)

lemma no_empty_id: "tasks_inv w \<Longrightarrow> \<not> fk_ok t_id (tasks w) (Some [])"
  by (simp add: tasks_inv_def hierarchy_ok_def fk_ok_def)

lemma check_hierarchy_parent:
  assumes inv: "tasks_inv w" and task: "task \<in> set (tasks w)"
    and ok: "check_hierarchy w task i = Inr x" and fk: "task_fk w (patch_task i task)"
  shows "parent_ok (set (tasks w)) (patch_task i task)"
proof (cases "ui_type i = None \<and> ui_parentTaskId i = None")
  case True
  moreover have "parent_ok (set (tasks w)) task" using inv task by (simp add: tasks_inv_def hierarchy_ok_def)
  ultimately show ?thesis by (simp add: parent_ok_def)
next
  case False
  let ?next = "override (ui_parentTaskId i) (t_parentTaskId task)"
  show ?thesis
    unfolding parent_ok_def
  proof (intro allI impI)
    fix p assume "t_parentTaskId (patch_task i task) = Some p"
    then have p: "?next = Some p" by simp
    with fk no_empty_id [OF inv] have "p \<noteq> []" by (auto simp: task_fk_def)
    with ok False p obtain q where "find_task w p = Some q" "t_projectId q = t_projectId task"
      and "assertTypeHierarchy (override (ui_type i) (t_type task)) (Some (t_type q)) = Inr x"
      by (auto simp: check_hierarchy_def Let_def and_then_Inr parent_in_project_Inr)
    then show "t_type (patch_task i task) \<noteq> Epic \<and>
        (\<exists>q \<in> set (tasks w). t_id q = p \<and> t_projectId q = t_projectId (patch_task i task) \<and> t_type q \<noteq> Subtask)"
      using find_taskD by (auto simp: assertTypeHierarchy_Inr)
  qed
qed

lemma check_hierarchy_demote:
  assumes "tasks_inv w" and "check_hierarchy w task i = Inr x" and "task_fk w (patch_task i task)"
    and "t_type (patch_task i task) = Subtask" and "t_type task \<noteq> Subtask"
  shows "children w (t_id task) = [] \<and> t_parentTaskId (patch_task i task) \<noteq> Some (t_id task)"
proof -
  have changed: "ui_type i \<noteq> None" using assms(4,5) by (cases "ui_type i") auto
  have "override (ui_parentTaskId i) (t_parentTaskId task) \<noteq> Some []"
    using assms(1,3) no_empty_id by (auto simp: task_fk_def)
  with assms(2,4,5) changed show ?thesis
    by (auto simp: check_hierarchy_def Let_def and_then_Inr truthy_def split: if_splits)
qed

lemma updated_hierarchy:
  assumes inv: "tasks_inv w" and task: "find_task w tid = Some task"
    and ok: "check_hierarchy w task i = Inr x" and fk: "task_fk w (patch_task i task)"
  shows "tasks_inv (w\<lparr>tasks := update_where (\<lambda>t. t_id t = tid) (patch_task i) (tasks w)\<rparr>)"
proof -
  let ?g = "\<lambda>t. if t_id t = tid then patch_task i t else t"
  let ?w = "w\<lparr>tasks := update_where (\<lambda>t. t_id t = tid) (patch_task i) (tasks w)\<rparr>"
  have ts: "set (tasks ?w) = ?g ` set (tasks w)" by (simp add: set_update_where)
  from task have tid: "task \<in> set (tasks w)" "t_id task = tid" by (auto dest: find_taskD)
  have only: "t = task" if "t \<in> set (tasks w)" "t_id t = tid" for t
    using find_task_unique [OF inv that(1)] that(2) task by simp
  have "map ident (tasks ?w) = map ident (tasks w)" by (simp add: map_update_where ident_def)
  then have "numbers_ok ?w" using inv numbers_ok_ident [of w ?w] by (simp add: tasks_inv_def)
  moreover have "hierarchy_ok ?w"
    unfolding hierarchy_ok_def
  proof (intro conjI ballI)
    have "map t_id (tasks ?w) = map t_id (tasks w)" by (simp add: map_update_where)
    then have "t_id ` set (tasks ?w) = t_id ` set (tasks w)" by (metis list.set_map)
    then show "[] \<notin> t_id ` set (tasks ?w)" using inv by (simp add: tasks_inv_def hierarchy_ok_def)
    fix s' assume "s' \<in> set (tasks ?w)"
    then obtain s where s: "s \<in> set (tasks w)" "s' = ?g s" unfolding ts by (rule imageE)
    have old: "parent_ok (set (tasks w)) s'"
      using check_hierarchy_parent [OF inv tid(1) ok fk] only [OF s(1)] s inv
      by (auto simp: tasks_inv_def hierarchy_ok_def)
    have safe: "t_type (?g q) \<noteq> Subtask"
      if q: "q \<in> set (tasks w)" "t_type q \<noteq> Subtask" "t_parentTaskId s' = Some (t_id q)" for q
    proof
      assume sub: "t_type (?g q) = Subtask"
      with q(2) have "t_id q = tid" by (auto split: if_splits)
      with only q(1) have "q = task" by blast
      with sub q(2) tid(2) have "children w tid = []" "t_parentTaskId (patch_task i task) \<noteq> Some tid"
        using check_hierarchy_demote [OF inv ok fk] by simp_all
      with q(3) \<open>q = task\<close> tid(2) s only show False
        by (auto simp: children_def filter_empty_conv split: if_splits)
    qed
    show "parent_ok (set (tasks ?w)) s'"
      unfolding parent_ok_def
    proof (intro allI impI conjI)
      fix p assume p: "t_parentTaskId s' = Some p"
      with old obtain q where q: "q \<in> set (tasks w)" "t_id q = p" "t_projectId q = t_projectId s'" "t_type q \<noteq> Subtask"
        unfolding parent_ok_def by blast
      from old p show "t_type s' \<noteq> Epic" by (simp add: parent_ok_def)
      have "?g q \<in> set (tasks ?w)" unfolding ts using q(1) by (rule imageI)
      moreover have "t_parentTaskId s' = Some (t_id q)" using p q(2) by simp
      then have "t_type (?g q) \<noteq> Subtask" by (rule safe [OF q(1,4)])
      moreover have "t_id (?g q) = p" "t_projectId (?g q) = t_projectId s'" using q(2,3) by simp_all
      ultimately show "\<exists>q \<in> set (tasks ?w). t_id q = p \<and> t_projectId q = t_projectId s' \<and> t_type q \<noteq> Subtask"
        by blast
    qed
  qed
  ultimately show ?thesis by (simp add: tasks_inv_def)
qed

lemma tasks_inv_drop [simp]: "tasks_inv (drop_watcher tid uid w) = tasks_inv w"
  by (simp add: drop_watcher_def)

lemma swap_watchers_inv:
  assumes "tasks_inv w"
  shows "tasks_inv (snd (attempt (if c then addWatcher tid x w else Inr w) w
    (\<lambda>w2. (Inr t', emit ev (if d then drop_watcher tid y w2 else w2)))))"
  using assms by (auto simp: attempt_def dest!: addWatcher_Inr split: sum.splits)

lemma updateTask_inv:
  assumes inv: "tasks_inv w"
  shows "tasks_inv (snd (updateTask u tid i w))"
proof -
  have main: "tasks_inv w1" if "find_task w tid = Some task" "check_hierarchy w task i = Inr x"
    "write_task tid (patch_task i) task w = Inr (t', w1)" for task x t' w1
    using that updated_hierarchy [OF inv] by (auto simp: write_task_Inr)
  show ?thesis
    unfolding updateTask_def Let_def
    by (intro task_inv_steps inv) (auto simp only: task_or_throw_def found_Inr split_paired_all prod.case
        intro: swap_watchers_inv main)
qed

section \<open>Runs of the service\<close>

datatype task_op =
    CreateTask env auth_user create_task_input
  | UpdateTask auth_user string update_task_input
  | ChangeStatus env auth_user string string trigger_source
  | RemoveTask auth_user string
  | SetBlocked auth_user string bool "string option"
  | ReorderOnBoard env auth_user string "string option" "string option"
  | Watch auth_user string
  | Unwatch auth_user string
  | Mute auth_user string
  | Unmute auth_user string
  | AddReporter env auth_user string string
  | RemoveReporter auth_user string string
  | CreateLink env auth_user string string link_type
  | DeleteLink auth_user string

fun exec_task :: "task_op \<Rightarrow> world \<Rightarrow> world" where
  "exec_task (CreateTask e u i) w = snd (createTask e u i w)"
| "exec_task (UpdateTask u tid i) w = snd (updateTask u tid i w)"
| "exec_task (ChangeStatus e u tid st src) w = snd (changeStatus e u tid st src w)"
| "exec_task (RemoveTask u tid) w = snd (removeTask u tid w)"
| "exec_task (SetBlocked u tid b r) w = snd (setBlocked u tid b r w)"
| "exec_task (ReorderOnBoard e u tid a b) w = snd (reorderOnBoard e u tid a b w)"
| "exec_task (Watch u tid) w = snd (watch u tid w)"
| "exec_task (Unwatch u tid) w = snd (unwatch u tid w)"
| "exec_task (Mute u tid) w = snd (mute u tid w)"
| "exec_task (Unmute u tid) w = snd (unmute u tid w)"
| "exec_task (AddReporter e u tid uid) w = snd (addReporter e u tid uid w)"
| "exec_task (RemoveReporter u tid uid) w = snd (removeReporter u tid uid w)"
| "exec_task (CreateLink e u a b ty) w = snd (createLink e u a b ty w)"
| "exec_task (DeleteLink u lid) w = snd (deleteLink u lid w)"

text \<open>The identifier drawn for a new task is new and not empty.\<close>

fun new_task_id :: "task_op \<Rightarrow> world \<Rightarrow> bool" where
  "new_task_id (CreateTask e u i) w \<longleftrightarrow> uuid e 0 \<notin> t_id ` set (tasks w) \<and> uuid e 0 \<noteq> []"
| "new_task_id _ w \<longleftrightarrow> True"

interpretation task_runs: operation_system tasks_inv new_task_id exec_task
proof
  fix w op assume "tasks_inv w" and "new_task_id op w"
  then show "tasks_inv (exec_task op w)"
    by (cases op) (simp_all add: createTask_inv updateTask_inv changeStatus_inv removeTask_inv
        setBlocked_inv reorderOnBoard_inv watch_inv unwatch_inv mute_inv unmute_inv addReporter_inv
        removeReporter_inv createLink_inv deleteLink_inv)
qed

section \<open>Who may change what\<close>

definition task_role :: "world \<Rightarrow> auth_user \<Rightarrow> string \<Rightarrow> project_role \<Rightarrow> bool" where
  "task_role w u tid m \<longleftrightarrow> (\<exists>t. find_task w tid = Some t \<and> has_role w u (t_projectId t) m)"

definition may_create :: "world \<Rightarrow> auth_user \<Rightarrow> string \<Rightarrow> bool" where
  "may_create w u pid \<longleftrightarrow> (\<exists>r. effectiveRole w u pid = Inr (Some r) \<and> r \<noteq> Viewer)"

definition sees_task :: "world \<Rightarrow> auth_user \<Rightarrow> string \<Rightarrow> bool" where
  "sees_task w u tid \<longleftrightarrow>
     (\<exists>t. find_task w tid = Some t \<and> canSeeTask w u (t_projectId t) (t_visibility t) = Inr True)"

lemma task_guard_denied:
  "\<not> task_role w u tid m \<Longrightarrow>
    \<exists>e. attempt (task_or_throw w tid) w (\<lambda>t. attempt (assertAtLeast w u (t_projectId t) m) w (k t)) = (Inl e, w)"
  by (cases "find_task w tid") (auto simp: task_or_throw_def task_role_def dest!: assertAtLeast_denied)

interpretation update: guarded_handler "updateTask u tid i" "\<lambda>w. task_role w u tid Contributor" for u tid i
  by unfold_locales (unfold updateTask_def, rule task_guard_denied)

interpretation block: guarded_handler "setBlocked u tid b r" "\<lambda>w. task_role w u tid Contributor" for u tid b r
  by unfold_locales (unfold setBlocked_def, rule task_guard_denied)

interpretation reorder: guarded_handler "reorderOnBoard e u tid a b" "\<lambda>w. task_role w u tid Contributor" for e u tid a b
  by unfold_locales (unfold reorderOnBoard_def, rule task_guard_denied)

interpretation remove: guarded_handler "removeTask u tid" "\<lambda>w. task_role w u tid Manager" for u tid
  by unfold_locales (unfold removeTask_def, rule task_guard_denied)

interpretation add_reporter: guarded_handler "addReporter e u tid uid" "\<lambda>w. task_role w u tid Contributor" for e u tid uid
  by unfold_locales (unfold addReporter_def, rule task_guard_denied)

interpretation remove_reporter: guarded_handler "removeReporter u tid uid" "\<lambda>w. task_role w u tid Contributor" for u tid uid
  by unfold_locales (unfold removeReporter_def, rule task_guard_denied)

interpretation status: atomic_handler "changeStatus e u tid st src" "\<lambda>w. task_role w u tid Contributor" for e u tid st src
proof
  fix w assume "\<not> task_role w u tid Contributor"
  then show "\<exists>err. changeStatus e u tid st src w = (Inl err, w)"
    by (cases "find_task w tid")
       (auto simp: changeStatus_def task_or_throw_def task_role_def attempt_def
         split: sum.splits dest!: assertAtLeast_denied)
next
  show "fails_clean w (changeStatus e u tid st src w)" for w
    unfolding changeStatus_def Let_def by (intro fails_clean_attempt fails_clean_if) simp_all
qed

interpretation create: atomic_handler "createTask e u i" "\<lambda>w. may_create w u (ci_projectId i)" for e u i
proof
  fix w assume "\<not> may_create w u (ci_projectId i)"
  then show "\<exists>err. createTask e u i w = (Inl err, w)"
    by (cases "effectiveRole w u (ci_projectId i)")
       (auto simp: createTask_def may_create_def Let_def require_def)
next
  show "fails_clean w (createTask e u i w)" for w
    unfolding createTask_def Let_def
    by (intro fails_clean_attempt) (auto split: prod.split)
qed

interpretation watching: guarded_handler "watch u tid" "\<lambda>w. sees_task w u tid" for u tid
proof
  fix w assume "\<not> sees_task w u tid"
  then show "\<exists>err. watch u tid w = (Inl err, w)"
    by (cases "find_task w tid")
       (auto simp: watch_def task_or_throw_def sees_task_def attempt_def require_def split: sum.splits if_splits)
qed

interpretation linking: guarded_handler "createLink e u a b ty" "\<lambda>w. task_role w u a Contributor" for e u a b ty
proof
  fix w assume "\<not> task_role w u a Contributor"
  then show "\<exists>err. createLink e u a b ty w = (Inl err, w)"
    by (cases "find_task w a")
       (auto simp: createLink_def task_or_throw_def task_role_def attempt_def require_def
         split: sum.splits if_splits dest!: assertAtLeast_denied)
qed

definition link_source :: "world \<Rightarrow> string \<Rightarrow> string option" where
  "link_source w lid = map_option l_fromTaskId (find_row l_id lid (links w))"

interpretation unlinking: guarded_handler "deleteLink u lid"
  "\<lambda>w. \<exists>tid. link_source w lid = Some tid \<and> task_role w u tid Contributor" for u lid
proof
  fix w assume "\<not> (\<exists>tid. link_source w lid = Some tid \<and> task_role w u tid Contributor)"
  then show "\<exists>err. deleteLink u lid w = (Inl err, w)"
    by (cases "find_row l_id lid (links w)")
       (auto simp: deleteLink_def link_source_def intro: task_guard_denied)
qed

text \<open>What each operation requires before it may change anything.\<close>

fun authorised :: "task_op \<Rightarrow> world \<Rightarrow> bool" where
  "authorised (CreateTask e u i) w = may_create w u (ci_projectId i)"
| "authorised (UpdateTask u tid i) w = task_role w u tid Contributor"
| "authorised (ChangeStatus e u tid st src) w = task_role w u tid Contributor"
| "authorised (RemoveTask u tid) w = task_role w u tid Manager"
| "authorised (SetBlocked u tid b r) w = task_role w u tid Contributor"
| "authorised (ReorderOnBoard e u tid a b) w = task_role w u tid Contributor"
| "authorised (Watch u tid) w = sees_task w u tid"
| "authorised (AddReporter e u tid uid) w = task_role w u tid Contributor"
| "authorised (RemoveReporter u tid uid) w = task_role w u tid Contributor"
| "authorised (CreateLink e u a b ty) w = task_role w u a Contributor"
| "authorised (DeleteLink u lid) w = (\<exists>tid. link_source w lid = Some tid \<and> task_role w u tid Contributor)"
| "authorised (Unwatch u tid) w = True"
| "authorised (Mute u tid) w = True"
| "authorised (Unmute u tid) w = True"

section \<open>Re-parenting\<close>

definition parent_rel :: "world \<Rightarrow> (string \<times> string) set" where
  "parent_rel w = {(c, p). \<exists>t \<in> set (tasks w). t_id t = c \<and> t_parentTaskId t = Some p}"

text \<open>The chain of parents from a task ends within \<open>n\<close> tasks.\<close>

fun roots_within :: "nat \<Rightarrow> world \<Rightarrow> string \<Rightarrow> bool" where
  "roots_within 0 w tid = False"
| "roots_within (Suc n) w tid = (case find_task w tid of
     None \<Rightarrow> True
   | Some t \<Rightarrow> (case t_parentTaskId t of None \<Rightarrow> True | Some p \<Rightarrow> roots_within n w p))"

lemma walk_no_ancestor:
  assumes inv: "tasks_inv w" and tid: "tid \<in> t_id ` set (tasks w)"
  shows "roots_within n w c \<Longrightarrow> walk_ancestors n w tid (Some c) = Inr x \<Longrightarrow> (c, tid) \<notin> (parent_rel w)\<^sup>*"
proof (induction n arbitrary: c)
  case (Suc n)
  have ne: "[] \<notin> t_id ` set (tasks w)" using inv by (simp add: tasks_inv_def hierarchy_ok_def)
  show ?case
  proof
    assume "(c, tid) \<in> (parent_rel w)\<^sup>*"
    then show False
    proof (cases rule: converse_rtranclE)
      case base
      with tid obtain t where "t \<in> set (tasks w)" "t_id t = c" by auto
      with inv have "find_task w c = Some t" "t_id t = tid" using find_task_unique base by auto
      with Suc.prems(2) ne tid base show False by (auto split: if_splits)
    next
      case (step d)
      then obtain t where t: "t \<in> set (tasks w)" "t_id t = c" "t_parentTaskId t = Some d"
        by (auto simp: parent_rel_def)
      with inv have f: "find_task w c = Some t" using find_task_unique by auto
      from t(1,2) ne have "c \<noteq> []" by (metis imageI)
      with Suc.prems f t(3) have "roots_within n w d" "walk_ancestors n w tid (Some d) = Inr x"
        by (auto split: if_splits)
      with Suc.IH step(2) show False by blast
    qed
  qed
qed simp

lemma parent_rel_update:
  assumes "tasks_inv w" and "find_task w tid = Some task" and "\<And>t. t_id (f t) = t_id t"
  shows "parent_rel (w\<lparr>tasks := update_where (\<lambda>t. t_id t = tid) f (tasks w)\<rparr>) \<subseteq>
    {(c, p) \<in> parent_rel w. c \<noteq> tid} \<union> (case t_parentTaskId (f task) of None \<Rightarrow> {} | Some p \<Rightarrow> {(tid, p)})"
proof
  fix e assume "e \<in> parent_rel (w\<lparr>tasks := update_where (\<lambda>t. t_id t = tid) f (tasks w)\<rparr>)"
  then obtain t where t: "t \<in> set (tasks w)"
    "t_id (if t_id t = tid then f t else t) = fst e" "t_parentTaskId (if t_id t = tid then f t else t) = Some (snd e)"
    by (auto simp: parent_rel_def set_update_where)
  show "e \<in> {(c, p) \<in> parent_rel w. c \<noteq> tid} \<union> (case t_parentTaskId (f task) of None \<Rightarrow> {} | Some p \<Rightarrow> {(tid, p)})"
  proof (cases "t_id t = tid")
    case True
    with t(1) assms(1,2) have "t = task" using find_task_unique by fastforce
    with t True assms(3) show ?thesis by (cases e) simp
  next
    case False
    with t show ?thesis by (cases e) (auto simp: parent_rel_def)
  qed
qed

lemma updateTask_Inr:
  assumes "updateTask u tid i w = (Inr t', w')"
  obtains task r x w1 w2 where "find_task w tid = Some task"
    "assertAtLeast w u (t_projectId task) Contributor = Inr r"
    "check_hierarchy w task i = Inr x" "write_task tid (patch_task i) task w = Inr (t', w1)"
    "(if reassigned i task \<and> truthy (override (ui_assigneeUserId i) None)
      then addWatcher tid (the (override (ui_assigneeUserId i) None)) w1 else Inr w1) = Inr w2"
    "w' = emit (TaskUpdated tid (au_id u) i) (if reassigned i task \<and>
         leaves_watchers task (override (ui_assigneeUserId i) None)
      then drop_watcher tid (the (t_assigneeUserId task)) w2 else w2)"
  using assms unfolding updateTask_def Let_def
  by (auto simp only: attempt_Inr task_or_throw_def found_Inr split_paired_all prod.case prod.inject sum.inject)

section \<open>Creation, status changes and deletion\<close>

lemma createTask_Inr:
  assumes "createTask e u i w = (Inr (t, key), w')"
  obtains role p par pos w1 where "effectiveRole w u (ci_projectId i) = Inr (Some role)" "role \<noteq> Viewer"
    "find_project w (ci_projectId i) = Some p" "p_archivedAt p = None"
    "insert_task e u i (role = Client) (if role = Client then Bug else override (ci_type i) Task)
       (initial_status w p) pos p w = Inr (t, w1)"
    "key = snd (hydrateKey t_keyNumber t (p_key p))"
    "emitted w' = emitted w1 @ TaskCreated (t_id t) (t_projectId t) key (au_id u) (t_assigneeUserId t) None #
       (if role = Client then [ClientReportedBug (t_id t) (t_projectId t) (t_title t) (au_id u)] else [])"
    "tasks w' = tasks w1" "watchers w' = watchers w1"
proof -
  have events: "tasks (if c then emit a (emit b v) else emit b v) = tasks v"
    "watchers (if c then emit a (emit b v) else emit b v) = watchers v"
    "emitted (if c then emit a (emit b v) else emit b v) = emitted v @ b # (if c then [a] else [])" for c a b v
    by simp_all
  from assms show thesis
    unfolding createTask_def Let_def attempt_Inr
  proof (elim exE conjE)
    fix role u1 p u2 u3 par u4 pos tw
    assume r: "effectiveRole w u (ci_projectId i) = Inr role"
      "require (role \<noteq> None \<and> role \<noteq> Some Viewer)
         (Forbidden ''Requires Contributor or higher to create tasks'') = Inr u1"
      "found (NotFound ''Project not found'') (find_project w (ci_projectId i)) = Inr p"
      "require (p_archivedAt p = None) (BadRequest ''Project is archived'') = Inr u2"
      "insert_task e u i (role = Some Client) (if role = Some Client then Bug else override (ci_type i) Task)
         (initial_status w p) pos p w = Inr tw"
      "(case tw of (task, w1) \<Rightarrow> (Inr (hydrateKey t_keyNumber task (p_key p)),
         if role = Some Client
         then emit (ClientReportedBug (t_id task) (t_projectId task) (t_title task) (au_id u))
           (emit (TaskCreated (t_id task) (t_projectId task) (snd (hydrateKey t_keyNumber task (p_key p)))
              (au_id u) (t_assigneeUserId task) None) w1)
         else emit (TaskCreated (t_id task) (t_projectId task) (snd (hydrateKey t_keyNumber task (p_key p)))
              (au_id u) (t_assigneeUserId task) None) w1)) = (Inr (t, key), w')"
    obtain t0 w1 where tw: "tw = (t0, w1)" by (cases tw)
    obtain r0 where role: "role = Some r0" "r0 \<noteq> Viewer" using r(2) by auto
    have key: "hydrateKey t_keyNumber t0 (p_key p) = (t, key)"
      using r(6) by (simp only: tw prod.case prod.inject sum.inject)
    then have t: "t0 = t" by (simp add: hydrateKey_def)
    show thesis
      by (rule that [of r0 p pos w1])
        (use r key in \<open>auto simp: role tw t events split del: if_split\<close>)
  qed
qed

lemma done_status_tasks [simp]: "done_status (w\<lparr>tasks := ts\<rparr>) p st = done_status w p st"
  by (simp add: done_status_def project_statuses_def)

lemma done_status_emit [simp]: "done_status (emit ev w) p st = done_status w p st"
  by (simp add: done_status_def project_statuses_def)

text \<open>A status change that succeeds: what held before, and what it did.\<close>

lemma changeStatus_Inr:
  assumes "changeStatus e u tid st src w = (Inr t', w')"
  obtains t p where "find_task w tid = Some t" "find_project w (t_projectId t) = Some p"
    "valid_status w p st" "done_status w p st \<Longrightarrow> incomplete_subtasks w p tid = []"
    "t_status t = st \<Longrightarrow> t' = t \<and> w' = w"
    "t_status t \<noteq> st \<Longrightarrow> src = ByUser \<Longrightarrow> allowed_transition w (t_projectId t) (t_status t) st"
    "t_status t \<noteq> st \<Longrightarrow> \<exists>pos. let upd = (\<lambda>s. s\<lparr>t_status := st, t_boardPosition := pos,
         t_completedAt := completed_at e (done_status w p (t_status t)) (done_status w p st) (t_completedAt s)\<rparr>)
       in t' = upd t \<and> w' = emit (TaskStatusChanged tid (t_status t) st src (Some (au_id u)) (t_projectId t))
            (w\<lparr>tasks := update_where (\<lambda>s. t_id s = tid) upd (tasks w)\<rparr>)"
  using assms unfolding changeStatus_def Let_def attempt_Inr
proof (elim exE conjE)
  fix t p r u1 u2
  assume r: "task_or_throw w tid = Inr t" "project_or_throw w (t_projectId t) = Inr p"
    "require (valid_status w p st) (unknown_status st) = Inr u1"
    "require (done_status w p st \<longrightarrow> incomplete_subtasks w p tid = [])
       (Conflict ''Cannot complete parent while subtasks are incomplete''
         (map t_id (incomplete_subtasks w p tid))) = Inr u2"
  assume eff: "(if t_status t = st then (Inr t, w)
     else attempt (require (src = ByUser \<longrightarrow> allowed_transition w (t_projectId t) (t_status t) st)
       (refused_transition (t_status t) st)) w (\<lambda>_.
     attempt (generateKeyBetween e (last_position e w (t_projectId t) st) None) w (\<lambda>pos.
     (Inr (t\<lparr>t_status := st, t_boardPosition := pos,
         t_completedAt := completed_at e (done_status w p (t_status t)) (done_status w p st) (t_completedAt t)\<rparr>),
      emit (TaskStatusChanged tid (t_status t) st src (Some (au_id u)) (t_projectId t))
        (w\<lparr>tasks := update_where (\<lambda>t. t_id t = tid) (\<lambda>s. s\<lparr>t_status := st, t_boardPosition := pos,
         t_completedAt := completed_at e (done_status w p (t_status t)) (done_status w p st) (t_completedAt s)\<rparr>)
         (tasks w)\<rparr>))))) = (Inr t', w')"
  have "find_task w tid = Some t" "find_project w (t_projectId t) = Some p" "valid_status w p st"
    "done_status w p st \<Longrightarrow> incomplete_subtasks w p tid = []"
    using r by (simp_all add: task_or_throw_def project_or_throw_def)
  then show thesis
    by (rule that) (use eff in \<open>auto simp: attempt_Inr Let_def\<close>)
qed

text \<open>The completion stamp is there exactly on the done tasks.\<close>

definition stamps_ok :: "world \<Rightarrow> bool" where
  "stamps_ok w \<longleftrightarrow> (\<forall>t \<in> set (tasks w). \<forall>p. find_project w (t_projectId t) = Some p \<longrightarrow>
     (t_completedAt t \<noteq> None) = done_status w p (t_status t))"

text \<open>The foreign keys to tasks, of every table of the model that has one.\<close>

definition task_refs :: "world \<Rightarrow> string set" where
  "task_refs w = l_fromTaskId ` set (links w) \<union> l_toTaskId ` set (links w) \<union> w_taskId ` set (watchers w) \<union>
     r_taskId ` set (reporters w) \<union> m_taskId ` set (mutes w) \<union> tl_taskId ` set (taskLabels w) \<union>
     sm_taskId ` set (memberships w) \<union> wl_taskId ` set (worklogs w) \<union> gt_taskId ` set (goalTasks w) \<union>
     rc_taskId ` set (recurrences w) \<union> cv_taskId ` set (customValues w) \<union> cm_taskId ` set (comments w) \<union>
     dt_taskId ` set (docTasks w) \<union> gl_taskId ` set (githubLinks w) \<union> td_taskId ` set (taskDeployments w) \<union>
     {p. \<exists>t \<in> set (tasks w). t_parentTaskId t = Some p}"

lemma cascade_refs: "task_refs (cascade_task tid w) \<subseteq> task_refs w - {tid}"
  by (auto simp: task_refs_def cascade_task_def split: if_splits)

lemma cascade_ids: "t_id ` set (tasks (cascade_task tid w)) = t_id ` set (tasks w) - {tid}"
  by (auto simp: cascade_tasks image_image)

section \<open>A concrete state\<close>

definition sample_user :: "string \<Rightarrow> user_row" where
  "sample_user uid = \<lparr>u_id = uid, u_name = uid, u_email = uid, u_kind = UInternal, u_companyRole = Some Member,
     u_avatarUrl = None, u_googleId = None, u_archivedAt = None, u_createdAt = 0, u_lastSeenAt = 0,
     u_weeklyHoursTarget = None, u_pomodoroEnabled = False, u_digestEnabled = False, u_digestChannel = ''email''\<rparr>"

definition task_world :: world where
  "task_world = empty_world\<lparr>users := [sample_user ''A'', sample_user ''U'', sample_user ''V''],
     projects := [sample_project\<lparr>p_nextTaskNumber := 4\<rparr>],
     statuses := [sample_status ''s1'' ''Todo'' True False, sample_status ''s2'' ''Done'' False True],
     transitions := [\<lparr>wt_projectId = ''P'', wt_fromStatus = ''Todo'', wt_toStatus = ''Done''\<rparr>],
     watchers := [\<lparr>w_userId = ''U'', w_taskId = ''t1''\<rparr>],
     tasks := [sample_task ''t1'' ''Todo'',
       (sample_task ''t2'' ''Done'')\<lparr>t_keyNumber := 2, t_parentTaskId := Some ''t1'', t_completedAt := Some 7\<rparr>,
       (sample_task ''t3'' ''Todo'')\<lparr>t_keyNumber := 3\<rparr>]\<rparr>"

definition no_changes :: update_task_input where
  "no_changes = \<lparr>ui_type = None, ui_title = None, ui_description = None, ui_priority = None,
     ui_visibility = None, ui_parentTaskId = None, ui_sprintId = None, ui_assigneeUserId = None,
     ui_reporterUserId = None, ui_startDate = None, ui_dueDate = None, ui_estimate = None,
     ui_blockedReason = None\<rparr>"

lemmas task_samples = task_world_def sample_user_def no_changes_def sample_status_def empty_world_def
  sample_project_def sample_task_def

lemma task_world_inv: "tasks_inv task_world"
  by (simp add: tasks_inv_def numbers_ok_def hierarchy_ok_def parent_ok_def number_key_def task_samples)

lemma task_world_find [simp]:
  "find_task task_world ''t1'' = Some (sample_task ''t1'' ''Todo'')"
  "find_project task_world ''P'' = Some (sample_project\<lparr>p_nextTaskNumber := 4\<rparr>)"
  by (simp_all add: find_task_def find_project_def task_samples)

lemma task_world_done [simp]:
  "done_status task_world (sample_project\<lparr>p_nextTaskNumber := n\<rparr>) st \<longleftrightarrow> st = ''Done''"
  by (simp add: done_status_def project_statuses_def task_samples Let_def del: set_filter)

lemma task_world_t3 [simp]:
  "find_task task_world ''t3'' = Some ((sample_task ''t3'' ''Todo'')\<lparr>t_keyNumber := 3\<rparr>)"
  by (simp add: find_task_def task_samples)

lemma key_split:
  assumes "k @ c # r = k' @ c # r'" and "c \<notin> set k" and "c \<notin> set k'"
  shows "k = k' \<and> r = r'"
proof -
  have "takeWhile (\<lambda>x. x \<noteq> c) (k @ c # r) = k" "takeWhile (\<lambda>x. x \<noteq> c) (k' @ c # r') = k'"
    using assms(2,3) by (subst takeWhile_append2; auto)+
  with assms(1) have "k = k'" by metis
  with assms(1) show ?thesis by simp
qed

section \<open>Properties\<close>

text \<open>
  C3: whatever sequence of task operations runs, by any users, the task identifiers and the
  numbers inside a project stay unique and below the counter of the project, every parent
  exists in the project of its child and is no Subtask, and no Epic has a parent.
\<close>

theorem task_operations_keep_invariant:
  assumes "tasks_inv w" and "task_runs.run_ok ops w"
  shows "tasks_inv (fold exec_task ops w)"
  using assms by (rule task_runs.run_inv)

theorem task_operations_keep_invariant_witness:
  "tasks_inv (fold exec_task [UpdateTask sample_admin ''t3'' (no_changes\<lparr>ui_parentTaskId := Some (Some ''t1'')\<rparr>),
     RemoveTask sample_admin ''t1''] task_world)"
  by (rule task_operations_keep_invariant [OF task_world_inv]) simp

text \<open>
  The displayed key identifies a task. Where the invariant of C9 holds and project keys
  are unique and contain no dash, two tasks that are shown with the same key are the same.
\<close>

theorem task_keys_identify:
  assumes "tasks_inv w" and "inj_on p_key (set (projects w))"
    and "\<And>p. p \<in> set (projects w) \<Longrightarrow> CHR ''-'' \<notin> set (p_key p)"
    and "t \<in> set (tasks w)" and "find_project w (t_projectId t) = Some p"
    and "t' \<in> set (tasks w)" and "find_project w (t_projectId t') = Some p'"
    and "snd (hydrateKey t_keyNumber t (p_key p)) = snd (hydrateKey t_keyNumber t' (p_key p'))"
  shows "t = t'"
proof -
  note p = find_projectD [OF assms(5)] and p' = find_projectD [OF assms(7)]
  from assms(8) have eq: "p_key p @ CHR ''-'' # show_int (t_keyNumber t) = p_key p' @ CHR ''-'' # show_int (t_keyNumber t')"
    by (simp add: hydrateKey_def)
  have dash: "CHR ''-'' \<notin> set (p_key p)" "CHR ''-'' \<notin> set (p_key p')"
    using assms(3) p p' by simp_all
  have keys: "p_key p = p_key p'" and "show_int (t_keyNumber t) = show_int (t_keyNumber t')"
    using key_split [OF eq dash] by simp_all
  have "p = p'" by (rule inj_onD [OF assms(2) keys]) (simp_all add: p p')
  have n: "t_keyNumber t = t_keyNumber t'" by (rule show_int_inject) fact
  with \<open>p = p'\<close> p p' have "number_key t = number_key t'" by (simp add: number_key_def)
  moreover have "inj_on number_key (set (tasks w))"
    using assms(1) by (simp add: tasks_inv_def numbers_ok_def distinct_map)
  ultimately show ?thesis using inj_onD [OF _ _ assms(4,6)] by blast
qed

theorem task_keys_identify_witness:
  "snd (hydrateKey t_keyNumber (sample_task ''t1'' ''Todo'') ''PRJ'') \<noteq>
   snd (hydrateKey t_keyNumber ((sample_task ''t3'' ''Todo'')\<lparr>t_keyNumber := 3\<rparr>) ''PRJ'')"
proof
  let ?t3 = "(sample_task ''t3'' ''Todo'')\<lparr>t_keyNumber := 3\<rparr>"
  assume same: "snd (hydrateKey t_keyNumber (sample_task ''t1'' ''Todo'') ''PRJ'') = snd (hydrateKey t_keyNumber ?t3 ''PRJ'')"
  have "sample_task ''t1'' ''Todo'' = ?t3"
  proof (rule task_keys_identify [OF task_world_inv])
    show "snd (hydrateKey t_keyNumber (sample_task ''t1'' ''Todo'') (p_key (sample_project\<lparr>p_nextTaskNumber := 4\<rparr>))) =
        snd (hydrateKey t_keyNumber ?t3 (p_key (sample_project\<lparr>p_nextTaskNumber := 4\<rparr>)))"
      using same by (simp add: sample_project_def)
  qed (simp_all add: task_samples find_project_def)
  then show False by (simp add: sample_task_def)
qed

text \<open>
  C4: no operation changes the state for a user who lacks the role it asks for: creating needs
  a role above Viewer or the Client role, editing, moving, blocking, linking and reporters need
  Contributor in the project of the task, deleting needs Manager, watching needs sight of it.
\<close>

theorem task_changes_are_authorised:
  assumes "exec_task op w \<noteq> w"
  shows "authorised op w"
  using assms
  by (cases op) (auto dest: update.effect_authorised block.effect_authorised reorder.effect_authorised
      remove.effect_authorised add_reporter.effect_authorised remove_reporter.effect_authorised
      status.effect_authorised create.effect_authorised watching.effect_authorised
      linking.effect_authorised unlinking.effect_authorised)

theorem task_changes_are_authorised_witness:
  "authorised (RemoveTask sample_admin ''t1'') task_world"
proof (rule task_changes_are_authorised)
  have "tasks (exec_task (RemoveTask sample_admin ''t1'') task_world) \<noteq> tasks task_world"
    by (simp add: removeTask_def task_or_throw_def cascade_tasks) (simp add: task_samples)
  then show "exec_task (RemoveTask sample_admin ''t1'') task_world \<noteq> task_world" by metis
qed

text \<open>
  C5: re-parenting never makes a cycle. When the tasks form a forest and an update succeeds,
  they still do, provided the chain above the new parent ends within the 50 tasks the code
  walks.
\<close>

theorem reparenting_keeps_forest:
  assumes "tasks_inv w" and "acyclic (parent_rel w)"
    and "\<And>p. ui_parentTaskId i = Some (Some p) \<Longrightarrow> roots_within MAX_HOPS w p"
    and "updateTask u tid i w = (Inr t', w')"
  shows "acyclic (parent_rel w')"
proof -
  from assms(4) obtain task x w1 where task: "find_task w tid = Some task"
    and ok: "check_hierarchy w task i = Inr x" and wr: "write_task tid (patch_task i) task w = Inr (t', w1)"
    and ts: "tasks w' = tasks w1"
    by (auto elim!: updateTask_Inr simp: drop_watcher_def dest!: addWatcher_Inr split: if_splits)
  let ?w1 = "w\<lparr>tasks := update_where (\<lambda>t. t_id t = tid) (patch_task i) (tasks w)\<rparr>"
  from wr have w1: "w1 = ?w1" and fk: "task_fk w (patch_task i task)" by (simp_all add: write_task_Inr)
  have tid: "tid \<in> t_id ` set (tasks w)" "t_id task = tid" using find_taskD [OF task] by auto
  have "acyclic (parent_rel ?w1)"
  proof (cases "override (ui_parentTaskId i) (t_parentTaskId task)")
    case None
    then have "parent_rel ?w1 \<subseteq> parent_rel w"
      using parent_rel_update [OF assms(1) task, of "patch_task i"] by auto
    with assms(2) show ?thesis by (rule acyclic_subset)
  next
    case (Some p)
    have "acyclic (insert (tid, p) (parent_rel w))"
    proof (cases "ui_parentTaskId i")
      case None
      with Some find_taskD [OF task] have "(tid, p) \<in> parent_rel w" by (auto simp: parent_rel_def)
      with assms(2) show ?thesis by (simp add: insert_absorb)
    next
      case new: (Some q)
      with Some have q: "ui_parentTaskId i = Some (Some p)" by simp
      then have "p \<noteq> []" using fk no_empty_id [OF assms(1)] by (auto simp: task_fk_def)
      with ok q tid(2) have "walk_ancestors MAX_HOPS w tid (Some p) = Inr ()"
        by (auto simp: check_hierarchy_def Let_def and_then_Inr)
      with assms(3) [OF q] have "(p, tid) \<notin> (parent_rel w)\<^sup>*"
        by (rule walk_no_ancestor [OF assms(1) tid(1)])
      with assms(2) show ?thesis by (simp add: acyclic_insert)
    qed
    moreover have "parent_rel ?w1 \<subseteq> insert (tid, p) (parent_rel w)"
      using parent_rel_update [OF assms(1) task, of "patch_task i"] Some by auto
    ultimately show ?thesis by (rule acyclic_subset)
  qed
  then show ?thesis by (simp add: parent_rel_def ts w1)
qed

theorem reparenting_keeps_forest_witness:
  "acyclic (parent_rel (snd (updateTask sample_admin ''t3''
     (no_changes\<lparr>ui_parentTaskId := Some (Some ''t2'')\<rparr>) task_world)))"
proof -
  let ?i = "no_changes\<lparr>ui_parentTaskId := Some (Some ''t2'')\<rparr>"
  let ?r = "updateTask sample_admin ''t3'' ?i task_world"
  have "parent_rel task_world = {(''t2'', ''t1'')}" by (auto simp: parent_rel_def task_samples)
  then have "acyclic (parent_rel task_world)" by (simp add: acyclic_def trancl_insert2 [of _ _ "{}", simplified])
  moreover have "roots_within MAX_HOPS task_world p" if "ui_parentTaskId ?i = Some (Some p)" for p
    using that by (simp add: MAX_HOPS_def numeral_nat find_task_def task_samples)
  moreover have "?r = (Inr (the (case fst ?r of Inl e \<Rightarrow> None | Inr t \<Rightarrow> Some t)), snd ?r)"
  proof -
    have "\<exists>t. fst ?r = Inr t"
      by (simp add: updateTask_def task_or_throw_def check_hierarchy_def parent_in_project_def MAX_HOPS_def
          numeral_nat write_task_def task_fk_def fk_ok_def assertTypeHierarchy_def find_task_def
          leaves_watchers_def patch_task_def task_samples)
    then show ?thesis by (cases ?r) auto
  qed
  ultimately show ?thesis by (rule reparenting_keeps_forest [OF task_world_inv])
qed

text \<open>
  C6: what a creation stores and announces. The task gets the next number of its project and the initial
  status, its author watches it, and the event carries its key. A user whose role is Client
  always files a bug report that clients can see, flagged as such and announced as one,
  whatever type and visibility the request asks for; for other roles the type and the visibility the request names are stored.
\<close>

theorem created_task:
  assumes "createTask e u i w = (Inr (t, key), w')" and "find_project w (ci_projectId i) = Some p"
  defines "client \<equiv> effectiveRole w u (ci_projectId i) = Inr (Some Client)"
  shows "tasks w' = tasks w @ [t] \<and> t_keyNumber t = p_nextTaskNumber p \<and> t_status t = initial_status w p \<and>
    \<lparr>w_userId = au_id u, w_taskId = t_id t\<rparr> \<in> set (watchers w') \<and>
    t_type t = (if client then Bug else override (ci_type i) Task) \<and>
    (client \<longrightarrow> t_visibility t = VClientVisible) \<and>
    (\<forall>v. \<not> client \<longrightarrow> ci_visibility i = Some v \<longrightarrow> t_visibility t = v) \<and>
    t_reportedByClient t = client \<and>
    key = p_key p @ ''-'' @ show_int (p_nextTaskNumber p) \<and>
    emitted w' = emitted w @ TaskCreated (t_id t) (t_projectId t) key (au_id u) (t_assigneeUserId t) None #
      (if client then [ClientReportedBug (t_id t) (t_projectId t) (t_title t) (au_id u)] else [])"
  using assms(1)
proof (rule createTask_Inr)
  fix role p' pos w1
  assume a: "effectiveRole w u (ci_projectId i) = Inr (Some role)" "find_project w (ci_projectId i) = Some p'"
    and ins: "insert_task e u i (role = Client) (if role = Client then Bug else override (ci_type i) Task)
       (initial_status w p') pos p' w = Inr (t, w1)"
    and key: "key = snd (hydrateKey t_keyNumber t (p_key p'))"
    and w': "emitted w' = emitted w1 @ TaskCreated (t_id t) (t_projectId t) key (au_id u) (t_assigneeUserId t) None #
       (if role = Client then [ClientReportedBug (t_id t) (t_projectId t) (t_title t) (au_id u)] else [])"
      "tasks w' = tasks w1" "watchers w' = watchers w1"
  have "p' = p" and c: "client \<longleftrightarrow> role = Client" using a assms(2) by (auto simp: client_def)
  with insert_task_Inr [OF ins] w' key show ?thesis by (auto simp: new_task_def hydrateKey_def)
qed

definition bug_input :: create_task_input where
  "bug_input = \<lparr>ci_projectId = ''P'', ci_type = Some Epic, ci_title = ''crash'', ci_description = None,
     ci_priority = None, ci_visibility = Some VInternal, ci_parentTaskId = None, ci_sprintId = None,
     ci_assigneeUserId = None, ci_dueDate = None, ci_estimate = None\<rparr>"

definition guest_world :: world where
  "guest_world = task_world\<lparr>users := [sample_user ''G''],
     accessGrants := [\<lparr>a_id = ''a1'', a_projectId = ''P'', a_subjectKind = SubjUser, a_userId = Some ''G'', a_teamId = None, a_role = Client, a_grantedById = ''A''\<rparr>]\<rparr>"

lemma guest_role: "effectiveRole guest_world sample_guest ''P'' = Inr (Some Client)"
  by (simp add: effectiveRole_def guest_world_def sample_guest_def grant_matches_def find_project_def task_samples)

theorem created_task_witness:
  "\<exists>t key w'. createTask sample_env sample_guest bug_input guest_world = (Inr (t, key), w') \<and>
     t_type t = Bug \<and> t_visibility t = VClientVisible \<and> t_reportedByClient t"
proof -
  let ?r = "createTask sample_env sample_guest bug_input guest_world"
  have "\<exists>x. fst ?r = Inr x"
    using guest_role
    by (simp add: createTask_def bug_input_def find_project_def Let_def initial_status_def
        generateKeyBetween_def sample_env_def insert_task_def new_task_def task_fk_def fk_ok_def keep_truthy_def
        number_key_def assertTypeHierarchy_def guest_world_def task_samples sample_guest_def)
  then obtain t key w' where r: "?r = (Inr (t, key), w')" by (metis prod.collapse)
  have "find_project guest_world (ci_projectId bug_input) = Some (sample_project\<lparr>p_nextTaskNumber := 4\<rparr>)"
    by (simp add: find_project_def guest_world_def bug_input_def task_samples)
  moreover have "ci_projectId bug_input = ''P''" by (simp add: bug_input_def)
  ultimately have "t_type t = Bug \<and> t_visibility t = VClientVisible \<and> t_reportedByClient t"
    using created_task [OF r] guest_role by simp
  with r show ?thesis by blast
qed

text \<open>
  C7: the gates of a status change. It succeeds only for a status of the project; into a done
  status only when every child of the task is done; from a different status and by a person
  only along a transition of the project; and every other task stays as it was.
\<close>

theorem status_change_gates:
  assumes "changeStatus e u tid st src w = (Inr t', w')" and "find_task w tid = Some t"
    and "find_project w (t_projectId t) = Some p"
  shows "t_status t' = st \<and> has_role w u (t_projectId t) Contributor \<and> valid_status w p st \<and>
    (done_status w p st \<longrightarrow> (\<forall>c \<in> set (tasks w). t_parentTaskId c = Some tid \<longrightarrow> done_status w p (t_status c))) \<and>
    (src = ByUser \<and> t_status t \<noteq> st \<longrightarrow> allowed_transition w (t_projectId t) (t_status t) st) \<and>
    filter (\<lambda>s. t_id s \<noteq> tid) (tasks w') = filter (\<lambda>s. t_id s \<noteq> tid) (tasks w)"
proof -
  have "task_role w u tid Contributor" using assms(1) by (rule status.success_authorised)
  then have role: "has_role w u (t_projectId t) Contributor" using assms(2) by (simp add: task_role_def)
  have others: "filter (\<lambda>s. t_id s \<noteq> tid) (update_where (\<lambda>s. t_id s = tid) f ts) = filter (\<lambda>s. t_id s \<noteq> tid) ts"
    if "\<And>s. t_id (f s) = t_id s" for f ts
    using that by (induction ts) auto
  from assms(1) show ?thesis
  proof (rule changeStatus_Inr)
    fix t0 p0 assume "find_task w tid = Some t0" "find_project w (t_projectId t0) = Some p0"
    with assms(2,3) have eq: "t0 = t" "p0 = p" by auto
    assume r: "valid_status w p0 st" "done_status w p0 st \<Longrightarrow> incomplete_subtasks w p0 tid = []"
      "t_status t0 = st \<Longrightarrow> t' = t0 \<and> w' = w"
      "t_status t0 \<noteq> st \<Longrightarrow> src = ByUser \<Longrightarrow> allowed_transition w (t_projectId t0) (t_status t0) st"
      "t_status t0 \<noteq> st \<Longrightarrow> \<exists>pos. let upd = (\<lambda>s. s\<lparr>t_status := st, t_boardPosition := pos,
         t_completedAt := completed_at e (done_status w p0 (t_status t0)) (done_status w p0 st) (t_completedAt s)\<rparr>)
       in t' = upd t0 \<and> w' = emit (TaskStatusChanged tid (t_status t0) st src (Some (au_id u)) (t_projectId t0))
            (w\<lparr>tasks := update_where (\<lambda>s. t_id s = tid) upd (tasks w)\<rparr>)"
    have "t_status t' = st \<and> filter (\<lambda>s. t_id s \<noteq> tid) (tasks w') = filter (\<lambda>s. t_id s \<noteq> tid) (tasks w)"
    proof (cases "t_status t = st")
      case True
      with r(3) show ?thesis by (simp add: eq)
    next
      case False
      with r(5) show ?thesis by (auto simp: eq Let_def others)
    qed
    moreover have "\<forall>c \<in> set (tasks w). t_parentTaskId c = Some tid \<longrightarrow> done_status w p (t_status c)"
      if "done_status w p st"
      using r(2) that by (auto simp: eq incomplete_subtasks_def children_def filter_empty_conv)
    ultimately show ?thesis using role r(1,4) by (simp add: eq)
  qed
qed

theorem status_change_gates_witness:
  "\<exists>t'. fst (changeStatus sample_env sample_admin ''t1'' ''Done'' ByUser task_world) = Inr t' \<and> t_status t' = ''Done''"
proof -
  let ?r = "changeStatus sample_env sample_admin ''t1'' ''Done'' ByUser task_world"
  have "\<exists>t'. fst ?r = Inr t'"
    by (simp add: changeStatus_def task_or_throw_def project_or_throw_def find_task_def find_project_def
        valid_status_def done_status_def incomplete_subtasks_def children_def project_statuses_def
        allowed_transition_def generateKeyBetween_def sample_env_def task_samples Let_def
        del: set_filter)
  then obtain t' where r: "?r = (Inr t', snd ?r)" by (metis prod.collapse)
  have p: "find_project task_world (t_projectId (sample_task ''t1'' ''Todo'')) = Some (sample_project\<lparr>p_nextTaskNumber := 4\<rparr>)"
    by (simp add: find_project_def task_samples)
  have "t_status t' = ''Done''" using status_change_gates [OF r task_world_find(1) p] by blast
  with r show ?thesis by (metis fst_conv)
qed

text \<open>
  C8: the completion stamp. If before a status change exactly the tasks in a done status carry
  a completion time, the same holds after it, so reports that count tasks by that time see
  re-opened tasks leave and completed ones enter.
\<close>

theorem status_change_keeps_stamps:
  assumes "tasks_inv w" and "stamps_ok w"
  shows "stamps_ok (snd (changeStatus e u tid st src w))"
proof (cases "fst (changeStatus e u tid st src w)")
  case (Inl err)
  then have "snd (changeStatus e u tid st src w) = w"
    using status.clean by (simp add: fails_clean_def)
  with assms(2) show ?thesis by simp
next
  case (Inr t')
  let ?w' = "snd (changeStatus e u tid st src w)"
  from Inr have r: "changeStatus e u tid st src w = (Inr t', ?w')" by (metis prod.collapse)
  from r show ?thesis
  proof (rule changeStatus_Inr)
    fix t p assume t: "find_task w tid = Some t" and p: "find_project w (t_projectId t) = Some p"
      and same: "t_status t = st \<Longrightarrow> t' = t \<and> ?w' = w"
      and moved: "t_status t \<noteq> st \<Longrightarrow> \<exists>pos. let upd = (\<lambda>s. s\<lparr>t_status := st, t_boardPosition := pos,
         t_completedAt := completed_at e (done_status w p (t_status t)) (done_status w p st) (t_completedAt s)\<rparr>)
       in t' = upd t \<and> ?w' = emit (TaskStatusChanged tid (t_status t) st src (Some (au_id u)) (t_projectId t))
            (w\<lparr>tasks := update_where (\<lambda>s. t_id s = tid) upd (tasks w)\<rparr>)"
    show ?thesis
    proof (cases "t_status t = st")
      case True
      with same assms(2) show ?thesis by simp
    next
      case False
      with moved obtain pos where w': "?w' = emit (TaskStatusChanged tid (t_status t) st src (Some (au_id u)) (t_projectId t))
            (w\<lparr>tasks := update_where (\<lambda>s. t_id s = tid) (\<lambda>s. s\<lparr>t_status := st, t_boardPosition := pos,
         t_completedAt := completed_at e (done_status w p (t_status t)) (done_status w p st) (t_completedAt s)\<rparr>) (tasks w)\<rparr>)"
        by (auto simp: Let_def)
      have stamp: "(t_completedAt t \<noteq> None) = done_status w p (t_status t)"
        using assms(2) find_taskD [OF t] p by (auto simp: stamps_ok_def)
      have only: "s = t" if "s \<in> set (tasks w)" "t_id s = tid" for s
        using find_task_unique [OF assms(1) that(1)] that(2) t by simp
      have proj: "find_project ?w' x = find_project w x" for x by (simp add: w' find_project_def)
      have dn: "done_status ?w' q x = done_status w q x" for q x by (simp add: w')
      show ?thesis
        unfolding stamps_ok_def proj dn
      proof (intro ballI allI impI)
        fix s q assume s: "s \<in> set (tasks ?w')" and q: "find_project w (t_projectId s) = Some q"
        then obtain s0 where s0: "s0 \<in> set (tasks w)" "s = (if t_id s0 = tid then s0\<lparr>t_status := st, t_boardPosition := pos,
            t_completedAt := completed_at e (done_status w p (t_status t)) (done_status w p st) (t_completedAt s0)\<rparr> else s0)"
          by (auto simp: w' set_update_where)
        show "(t_completedAt s \<noteq> None) = done_status w q (t_status s)"
        proof (cases "t_id s0 = tid")
          case True
          with only s0(1) have "s0 = t" by blast
          with True s0(2) q p stamp show ?thesis by (auto simp: completed_at_def)
        next
          case False
          with s0 q assms(2) show ?thesis by (auto simp: stamps_ok_def)
        qed
      qed
    qed
  qed
qed

theorem status_change_keeps_stamps_witness:
  "stamps_ok (snd (changeStatus sample_env sample_admin ''t1'' ''Done'' ByUser task_world))"
  by (rule status_change_keeps_stamps [OF task_world_inv])
     (auto simp: stamps_ok_def find_project_def done_status_def project_statuses_def task_samples simp del: set_filter)

lemma addWatcher_keys:
  assumes "addWatcher tid uid w = Inr w'"
  shows "watcher_key ` set (watchers w') = insert (uid, tid) (watcher_key ` set (watchers w))"
  unfolding addWatcher_Inr [OF assms] by (simp add: keys_insert_absent) (simp add: watcher_key_def)

text \<open>
  Reassigning a task. The new assignee starts watching it; the previous one stops, unless
  they created or reported the task; every other watcher stays.
\<close>

theorem reassignment_moves_watch:
  assumes "updateTask u tid i w = (Inr t', w')" and "find_task w tid = Some t"
    and "ui_assigneeUserId i = Some new" and "new \<noteq> t_assigneeUserId t"
    and "t_assigneeUserId t \<noteq> Some []" and "[] \<notin> u_id ` set (users w)"
  shows "watcher_key ` set (watchers w') =
    watcher_key ` set (watchers w) \<union> {(uid, tid) | uid. new = Some uid} -
    {(prev, tid) | prev. t_assigneeUserId t = Some prev \<and> prev \<notin> {t_createdById t, t_reporterUserId t}}"
  using assms(1)
proof (rule updateTask_Inr)
  fix task r x w1 w2
  assume "find_task w tid = Some task"
  with assms(2) have task: "task = t" by simp
  assume "write_task tid (patch_task i) task w = (Inr (t', w1))"
  then have fk: "task_fk w (patch_task i task)" and w1: "watchers w1 = watchers w"
    by (auto simp: write_task_Inr)
  have "new \<noteq> Some []" using fk assms(3,6) by (auto simp: task_fk_def fk_ok_def task)
  then have tr: "truthy new \<longleftrightarrow> new \<noteq> None" by (simp add: truthy_def)
  have re: "reassigned i task" using assms(3,4) by (simp add: reassigned_def task)
  assume add: "(if reassigned i task \<and> truthy (override (ui_assigneeUserId i) None)
      then addWatcher tid (the (override (ui_assigneeUserId i) None)) w1 else Inr w1) = Inr w2"
  have w2: "watcher_key ` set (watchers w2) = watcher_key ` set (watchers w) \<union> {(uid, tid) | uid. new = Some uid}"
    using add re tr w1 assms(3)
    by (cases new) (simp_all add: addWatcher_keys)
  have dropped: "watcher_key ` set (watchers (drop_watcher tid uid v)) = watcher_key ` set (watchers v) - {(uid, tid)}" for uid v
    by (auto simp: drop_watcher_def)
  assume w': "w' = emit (TaskUpdated tid (au_id u) i) (if reassigned i task \<and>
         leaves_watchers task (override (ui_assigneeUserId i) None)
      then drop_watcher tid (the (t_assigneeUserId task)) w2 else w2)"
  show ?thesis
    using assms(3,4,5) re w' dropped [of _ w2]
    by (cases "t_assigneeUserId t") (auto simp: w2 task leaves_watchers_def)
qed

theorem reassignment_moves_watch_witness:
  "\<exists>w'. watcher_key ` set (watchers w') = {(''U'', ''t1''), (''V'', ''t1'')} \<and>
    w' = snd (updateTask sample_admin ''t1'' (no_changes\<lparr>ui_assigneeUserId := Some (Some ''V'')\<rparr>) task_world)"
proof -
  let ?i = "no_changes\<lparr>ui_assigneeUserId := Some (Some ''V'')\<rparr>"
  let ?r = "updateTask sample_admin ''t1'' ?i task_world"
  have "\<exists>t. fst ?r = Inr t"
    by (simp add: updateTask_def task_or_throw_def check_hierarchy_def write_task_def task_fk_def fk_ok_def
        leaves_watchers_def reassigned_def addWatcher_def user_task_fk_def task_samples find_task_def)
  then obtain t' where r: "?r = (Inr t', snd ?r)" by (metis prod.collapse)
  have "watcher_key ` set (watchers (snd ?r)) =
    watcher_key ` set (watchers task_world) \<union> {(uid, ''t1'') | uid. Some ''V'' = Some uid} -
    {(prev, ''t1'') | prev. t_assigneeUserId (sample_task ''t1'' ''Todo'') = Some prev \<and>
       prev \<notin> {t_createdById (sample_task ''t1'' ''Todo''), t_reporterUserId (sample_task ''t1'' ''Todo'')}}"
    by (rule reassignment_moves_watch [OF r task_world_find(1)]) (simp_all add: task_samples)
  then show ?thesis by (auto simp: task_samples watcher_key_def)
qed

text \<open>
  What the task list of a project shows. Only tasks of that project appear, in board order
  and at most 5000; a user whose role is Client sees only the tasks marked visible to clients,
  unless the project shares all of them; and when no more than 5000 tasks match, all are there.
\<close>

theorem task_list_contents:
  assumes "listByProject e u pid f w = Inr items" and "effectiveRole w u pid = Inr (Some r)"
    and "find_project w pid = Some p"
  defines "shown \<equiv> map (ti_task \<circ> fst) items"
  shows "length shown \<le> LIST_HARD_CAP \<and>
    (\<forall>t \<in> set shown. t \<in> set (tasks w) \<and> t_projectId t = pid \<and>
      (r = Client \<and> p_defaultTaskVisibility p = VInternal \<longrightarrow> t_visibility t = VClientVisible)) \<and>
    (total_preorder (board_order e) \<longrightarrow> sorted_wrt (board_order e) shown) \<and>
    (length (filter (list_where r p f) (tasks w)) \<le> LIST_HARD_CAP \<longrightarrow>
      set shown = {t \<in> set (tasks w). list_where r p f t})"
proof -
  let ?ordered = "order_by (board_order e) (filter (list_where r p f) (tasks w))"
  have "p_id p = pid" using find_projectD [OF assms(3)] by simp
  have "shown = take LIST_HARD_CAP ?ordered"
    using assms(1,2,3) unfolding shown_def listByProject_def
    by (auto simp: and_then_Inr assertAtLeast_Inr project_or_throw_def Let_def hydrateKey_def list_item_def
        comp_def min_def take_all)
  moreover have "set (take LIST_HARD_CAP ?ordered) \<subseteq> {t \<in> set (tasks w). list_where r p f t}"
    by (rule subset_trans [OF set_take_subset]) simp
  moreover have "take LIST_HARD_CAP ?ordered = ?ordered"
    if "length (filter (list_where r p f) (tasks w)) \<le> LIST_HARD_CAP" using that by simp
  moreover have "sorted_wrt (board_order e) (take LIST_HARD_CAP ?ordered)" if "total_preorder (board_order e)"
    using sorted_order_by [OF that] by (rule sorted_wrt_take)
  ultimately show ?thesis
    using \<open>p_id p = pid\<close> by (auto simp: list_where_def simp del: length_filter_le)
qed

definition no_filters :: list_filters where
  "no_filters = \<lparr>lf_status = None, lf_assigneeUserId = None, lf_sprintId = None, lf_isBlocked = None,
     lf_parentTaskId = None, lf_type = None\<rparr>"

theorem task_list_contents_witness:
  "\<exists>items. listByProject sample_env sample_guest ''P'' no_filters guest_world = Inr items \<and>
    (\<forall>t \<in> set (map (ti_task \<circ> fst) items). t_visibility t = VClientVisible)"
proof -
  have p: "find_project guest_world ''P'' = Some (sample_project\<lparr>p_nextTaskNumber := 4\<rparr>)"
    by (simp add: find_project_def guest_world_def task_samples)
  have "\<exists>items. listByProject sample_env sample_guest ''P'' no_filters guest_world = Inr items"
    using guest_role p by (simp add: listByProject_def assertAtLeast_def project_or_throw_def Let_def)
  then obtain items where r: "listByProject sample_env sample_guest ''P'' no_filters guest_world = Inr items" by blast
  have "p_defaultTaskVisibility (sample_project\<lparr>p_nextTaskNumber := 4\<rparr>) = VInternal" by (simp add: sample_project_def)
  with r task_list_contents [OF r guest_role p] show ?thesis by blast
qed



end
