(* ===== verification/TaskGraph.thy ===== *)
theory TaskGraph
  imports TaskLaws
begin

text \<open>
  \<open>getDependencyGraph\<close> of \<^verbatim>\<open>apps/api/src/modules/tasks/tasks.service.ts\<close>: the breadth-first
  closure of a task over its links, filtered by what the caller may see. The map \<open>visited\<close> of
  the code is read only through its keys; it is the list of its keys in insertion order here.
  Depths are integers (the code floors its argument).
\<close>

section \<open>The traversal\<close>

definition safeDepth :: "int \<Rightarrow> nat" where
  "safeDepth depth = nat (max 0 (min 4 depth))"

text \<open>One endpoint: visited for the first time, it joins the next frontier.\<close>

fun visit :: "string \<Rightarrow> string list \<times> string list \<Rightarrow> string list \<times> string list" where
  "visit tid (visited, next_frontier) =
     (if tid \<in> set visited then (visited, next_frontier) else (visited @ [tid], next_frontier @ [tid]))"

definition visit_link :: "link_row \<Rightarrow> string list \<times> string list \<Rightarrow> string list \<times> string list" where
  "visit_link l s = visit (l_toTaskId l) (visit (l_fromTaskId l) s)"

definition frontier_links :: "world \<Rightarrow> string list \<Rightarrow> link_row list" where
  "frontier_links w frontier = filter
     (\<lambda>l. l_fromTaskId l \<in> set frontier \<or> l_toTaskId l \<in> set frontier) (links w)"

text \<open>The loop, at most \<open>n\<close> hops: the visited tasks and the collected links.\<close>

fun bfs :: "nat \<Rightarrow> world \<Rightarrow> string list \<Rightarrow> string list \<Rightarrow> link_row list \<Rightarrow> string list \<times> link_row list" where
  "bfs 0 w visited frontier collected = (visited, collected)"
| "bfs (Suc n) w visited frontier collected =
     (if frontier = [] then (visited, collected)
      else let ls = frontier_links w frontier;
               (visited', next_frontier) = fold visit_link ls (visited, [])
           in bfs n w visited' next_frontier (collected @ ls))"

section \<open>The answer\<close>

record graph_node =
  gn_id :: string
  gn_key :: string
  gn_title :: string
  gn_status :: string
  gn_projectId :: string

record graph_edge =
  ge_from :: string
  ge_to :: string
  ge_kind :: link_type

record dependency_graph =
  dg_focalId :: string
  dg_nodes :: "graph_node list"
  dg_edges :: "graph_edge list"

text \<open>The permission filter: tasks of the focal project pass without a check of their own.\<close>

fun visible_nodes :: "world \<Rightarrow> auth_user \<Rightarrow> string \<Rightarrow> task_row list \<Rightarrow> task_row list res" where
  "visible_nodes w u focalProject [] = Inr []"
| "visible_nodes w u focalProject (n # ns) =
     and_then (if t_projectId n = focalProject then Inr True
               else canSeeTask w u (t_projectId n) (t_visibility n)) (\<lambda>ok.
     and_then (visible_nodes w u focalProject ns) (\<lambda>rest. Inr (if ok then n # rest else rest)))"

text \<open>The keys of edges seen so far are strings \<open>from|to|type\<close>.\<close>

fun link_type_name :: "link_type \<Rightarrow> string" where
  "link_type_name Blocks = ''blocks''"
| "link_type_name Related = ''related''"
| "link_type_name Duplicate = ''duplicate''"

definition edge_key :: "link_row \<Rightarrow> string" where
  "edge_key l = l_fromTaskId l @ ''|'' @ l_toTaskId l @ ''|'' @ link_type_name (l_type l)"

fun graph_edges :: "string set \<Rightarrow> string set \<Rightarrow> link_row list \<Rightarrow> graph_edge list" where
  "graph_edges visible seen [] = []"
| "graph_edges visible seen (l # ls) =
     (if l_fromTaskId l \<notin> visible \<or> l_toTaskId l \<notin> visible then graph_edges visible seen ls
      else if edge_key l \<in> seen then graph_edges visible seen ls
      else \<lparr>ge_from = l_fromTaskId l, ge_to = l_toTaskId l, ge_kind = l_type l\<rparr> #
           graph_edges visible (insert (edge_key l) seen) ls)"

definition project_key_of :: "world \<Rightarrow> string \<Rightarrow> string" where
  "project_key_of w pid = (case find_project w pid of None \<Rightarrow> [] | Some p \<Rightarrow> p_key p)"

definition graph_node_of :: "world \<Rightarrow> task_row \<Rightarrow> graph_node" where
  "graph_node_of w n = \<lparr>gn_id = t_id n,
     gn_key = project_key_of w (t_projectId n) @ ''-'' @ show_int (t_keyNumber n),
     gn_title = t_title n, gn_status = t_status n, gn_projectId = t_projectId n\<rparr>"

definition getDependencyGraph :: "auth_user \<Rightarrow> string \<Rightarrow> int \<Rightarrow> world \<Rightarrow> dependency_graph res" where
  "getDependencyGraph u tid depth w =
     and_then (found (NotFound ''Task not found'') (find_task w tid)) (\<lambda>focal.
     and_then (canSeeTask w u (t_projectId focal) (t_visibility focal)) (\<lambda>canSee.
     and_then (require canSee (Forbidden ''No access to task'')) (\<lambda>_.
     let (visited, collected) = bfs (safeDepth depth) w [t_id focal] [t_id focal] [];
         nodeRows = filter (\<lambda>t. t_id t \<in> set visited) (tasks w)
     in and_then (visible_nodes w u (t_projectId focal) nodeRows) (\<lambda>visible.
        Inr \<lparr>dg_focalId = t_id focal, dg_nodes = map (graph_node_of w) visible,
             dg_edges = graph_edges (set (map t_id visible)) {} collected\<rparr>))))"

section \<open>Lemmas of the traversal\<close>

text \<open>One step along a link, in either direction.\<close>

definition linked :: "world \<Rightarrow> (string \<times> string) set" where
  "linked w = {(a, b). \<exists>l \<in> set (links w). (l_fromTaskId l = a \<and> l_toTaskId l = b) \<or>
     (l_toTaskId l = a \<and> l_fromTaskId l = b)}"

text \<open>What is within \<open>n\<close> links of a set of tasks.\<close>

definition nearby :: "nat \<Rightarrow> world \<Rightarrow> string set \<Rightarrow> string set" where
  "nearby n w S = (\<Union>k \<le> n. (linked w ^^ k) `` S)"

definition ends :: "link_row list \<Rightarrow> string set" where
  "ends ls = l_fromTaskId ` set ls \<union> l_toTaskId ` set ls"

lemma fold_visit_link:
  "fold visit_link ls (visited, nf) = (visited', nf') \<Longrightarrow>
    set visited' = set visited \<union> ends ls \<and> set nf' = set nf \<union> (ends ls - set visited)"
proof (induction ls arbitrary: visited nf)
  case (Cons l ls)
  obtain v1 n1 where v1: "visit_link l (visited, nf) = (v1, n1)" by fastforce
  then have "set v1 = set visited \<union> {l_fromTaskId l, l_toTaskId l}"
    and "set n1 = set nf \<union> ({l_fromTaskId l, l_toTaskId l} - set visited)"
    by (auto simp: visit_link_def split: if_splits)
  with Cons v1 show ?case by (auto simp: ends_def)
qed (simp add: ends_def)

lemma ends_frontier: "ends (frontier_links w F) \<union> set F = linked w `` set F \<union> set F"
  by (auto simp: ends_def frontier_links_def linked_def)

lemma nearby_0 [simp]: "nearby 0 w S = S"
  by (simp add: nearby_def)

lemma nearby_Suc: "nearby (Suc n) w S = S \<union> nearby n w (linked w `` S)"
proof (intro equalityI subsetI)
  fix x assume "x \<in> nearby (Suc n) w S"
  then obtain k s where k: "k \<le> Suc n" "s \<in> S" "(s, x) \<in> linked w ^^ k" by (auto simp: nearby_def)
  show "x \<in> S \<union> nearby n w (linked w `` S)"
  proof (cases k)
    case (Suc j)
    with k(3) obtain z where "(s, z) \<in> linked w" "(z, x) \<in> linked w ^^ j" by (blast dest: relpow_Suc_D2)
    with k(1,2) Suc show ?thesis by (auto simp: nearby_def)
  qed (use k in auto)
next
  fix x assume "x \<in> S \<union> nearby n w (linked w `` S)"
  then show "x \<in> nearby (Suc n) w S"
  proof
    assume "x \<in> S"
    then show ?thesis by (auto simp: nearby_def intro!: bexI [of _ "0 :: nat"])
  next
    assume "x \<in> nearby n w (linked w `` S)"
    then obtain k s z where "k \<le> n" "s \<in> S" "(s, z) \<in> linked w" "(z, x) \<in> linked w ^^ k"
      by (auto simp: nearby_def)
    then show ?thesis
      unfolding nearby_def by (intro UN_I [of "Suc k"] ImageI [of s]) (auto simp del: relpow.simps intro: relpow_Suc_I2)
  qed
qed

lemma nearby_Un: "nearby n w (A \<union> B) = nearby n w A \<union> nearby n w B"
  by (auto simp: nearby_def)

lemma nearby_mono: "A \<subseteq> B \<Longrightarrow> nearby n w A \<subseteq> nearby n w B"
  by (auto simp: nearby_def)

lemma nearby_self: "S \<subseteq> nearby n w S"
  by (induction n arbitrary: S) (auto simp: nearby_Suc)

lemma nearby_closed: "linked w `` S \<subseteq> S \<Longrightarrow> nearby n w S = S"
proof (induction n)
  case (Suc n)
  with nearby_mono [of "linked w `` S" S n w] show ?case by (auto simp: nearby_Suc)
qed simp

lemma nearby_Suc_subset: "nearby n w S \<subseteq> nearby (Suc n) w S"
  unfolding nearby_def by (rule UN_mono) auto

text \<open>The loop visits exactly what is within its number of hops.\<close>

lemma bfs_visits:
  "set F \<subseteq> set visited \<Longrightarrow> linked w `` (set visited - set F) \<subseteq> set visited \<Longrightarrow>
    set (fst (bfs n w visited F acc)) = nearby n w (set visited)"
proof (induction n arbitrary: visited F acc)
  case (Suc n)
  show ?case
  proof (cases "F = []")
    case True
    with Suc.prems show ?thesis by (simp add: nearby_closed)
  next
    case False
    let ?ls = "frontier_links w F"
    obtain v' F' where step: "fold visit_link ?ls (visited, []) = (v', F')" by fastforce
    from fold_visit_link [OF step] have v': "set v' = set visited \<union> ends ?ls"
      and F': "set F' = ends ?ls - set visited" by auto
    have exp: "set v' = set visited \<union> linked w `` set F"
      using ends_frontier [of w F] Suc.prems(1) v' by blast
    have closed: "linked w `` set visited \<subseteq> set v'"
      using Suc.prems exp by blast
    have "set (fst (bfs (Suc n) w visited F acc)) = set (fst (bfs n w v' F' (acc @ ?ls)))"
      using False step by simp
    also have "\<dots> = nearby n w (set v')"
      using closed v' F' by (intro Suc.IH) auto
    also have "\<dots> = nearby (Suc n) w (set visited)"
    proof
      show "nearby n w (set v') \<subseteq> nearby (Suc n) w (set visited)"
        unfolding exp nearby_Un using Suc.prems(1) nearby_Suc_subset [of n w "set visited"]
          nearby_mono [of "linked w `` set F" "linked w `` set visited" n w]
        by (auto simp: nearby_Suc)
      show "nearby (Suc n) w (set visited) \<subseteq> nearby n w (set v')"
        using nearby_mono [OF closed, of n] nearby_self [of "set v'" n w] exp
        by (auto simp: nearby_Suc)
    qed
    finally show ?thesis .
  qed
qed simp

lemma bfs_collects: "set acc \<subseteq> set (links w) \<Longrightarrow> set (snd (bfs n w visited F acc)) \<subseteq> set (links w)"
proof (induction n arbitrary: visited F acc)
  case (Suc n)
  then show ?case by (auto simp: frontier_links_def Let_def split: prod.split)
qed simp

lemma visible_nodes_Inr:
  "visible_nodes w u pid ns = Inr vs \<Longrightarrow>
    vs = filter (\<lambda>n. t_projectId n = pid \<or> canSeeTask w u (t_projectId n) (t_visibility n) = Inr True) ns"
proof (induction ns arbitrary: vs)
  case (Cons n ns)
  then show ?case by (auto simp: and_then_Inr split: if_splits)
qed simp

definition edge_of :: "link_row \<Rightarrow> graph_edge" where
  "edge_of l = \<lparr>ge_from = l_fromTaskId l, ge_to = l_toTaskId l, ge_kind = l_type l\<rparr>"

lemma graph_edges_sound:
  "e \<in> set (graph_edges V seen ls) \<Longrightarrow> ge_from e \<in> V \<and> ge_to e \<in> V \<and> e \<in> edge_of ` set ls"
  by (induction V seen ls rule: graph_edges.induct) (auto simp: edge_of_def split: if_splits)

definition edge_string :: "graph_edge \<Rightarrow> string" where
  "edge_string e = ge_from e @ ''|'' @ ge_to e @ ''|'' @ link_type_name (ge_kind e)"

lemma graph_edges_unseen: "e \<in> set (graph_edges V seen ls) \<Longrightarrow> edge_string e \<notin> seen"
  by (induction V seen ls rule: graph_edges.induct) (auto simp: edge_key_def edge_string_def split: if_splits)

lemma edge_string_of: "edge_string \<lparr>ge_from = l_fromTaskId l, ge_to = l_toTaskId l, ge_kind = l_type l\<rparr> = edge_key l"
  by (simp add: edge_key_def edge_string_def)

lemma graph_edges_distinct: "distinct (map edge_string (graph_edges V seen ls))"
proof (induction V seen ls rule: graph_edges.induct)
  case (2 V seen l ls)
  have "edge_key l \<notin> edge_string ` set (graph_edges V (insert (edge_key l) seen) ls)"
    using graph_edges_unseen by fastforce
  with 2 show ?case by (simp add: edge_string_of)
qed simp

section \<open>Properties\<close>

lemma dependency_graph_nodes:
  assumes "getDependencyGraph u tid depth w = Inr g" and "find_task w tid = Some focal"
  shows "gn_id ` set (dg_nodes g) = t_id ` {t \<in> set (tasks w). t_id t \<in> nearby (nat (max 0 (min 4 depth))) w {tid} \<and>
      (t_projectId t = t_projectId focal \<or> canSeeTask w u (t_projectId t) (t_visibility t) = Inr True)} \<and>
    (\<forall>e \<in> set (dg_edges g). ge_from e \<in> gn_id ` set (dg_nodes g) \<and> ge_to e \<in> gn_id ` set (dg_nodes g) \<and>
      e \<in> edge_of ` set (links w)) \<and>
    distinct (dg_edges g)"
proof -
  let ?b = "bfs (safeDepth depth) w [t_id focal] [t_id focal] []"
  have fid: "t_id focal = tid" using find_taskD [OF assms(2)] by simp
  from assms obtain vs where
    vs: "visible_nodes w u (t_projectId focal) (filter (\<lambda>t. t_id t \<in> set (fst ?b)) (tasks w)) = Inr vs"
    and g: "g = \<lparr>dg_focalId = t_id focal, dg_nodes = map (graph_node_of w) vs,
      dg_edges = graph_edges (set (map t_id vs)) {} (snd ?b)\<rparr>"
    by (auto simp: getDependencyGraph_def and_then_Inr Let_def split: prod.splits)
  have visited: "set (fst ?b) = nearby (safeDepth depth) w {tid}"
    by (subst bfs_visits) (simp_all add: fid)
  have ids: "gn_id ` set (dg_nodes g) = t_id ` set vs"
    by (simp add: g image_image graph_node_of_def)
  have coll: "set (snd ?b) \<subseteq> set (links w)" by (rule bfs_collects) simp
  have "t_id ` set vs = t_id ` {t \<in> set (tasks w). t_id t \<in> nearby (safeDepth depth) w {tid} \<and>
      (t_projectId t = t_projectId focal \<or> canSeeTask w u (t_projectId t) (t_visibility t) = Inr True)}"
    unfolding visible_nodes_Inr [OF vs] visited by (rule arg_cong) auto
  moreover have "ge_from e \<in> t_id ` set vs \<and> ge_to e \<in> t_id ` set vs \<and> e \<in> edge_of ` set (links w)"
    if "e \<in> set (dg_edges g)" for e
  proof -
    from that have "e \<in> set (graph_edges (set (map t_id vs)) {} (snd ?b))" by (simp add: g)
    from graph_edges_sound [OF this] coll show ?thesis by auto
  qed
  moreover have "distinct (dg_edges g)"
    using graph_edges_distinct by (auto simp: g distinct_map)
  ultimately show ?thesis unfolding ids safeDepth_def by blast
qed

definition graph_world :: world where
  "graph_world = guest_world\<lparr>
     tasks := [(sample_task ''t1'' ''Todo'')\<lparr>t_visibility := VClientVisible\<rparr>, (sample_task ''t2'' ''Todo'')\<lparr>t_keyNumber := 2\<rparr>],
     links := [\<lparr>l_id = ''l'', l_fromTaskId = ''t1'', l_toTaskId = ''t2'', l_type = Blocks, l_createdById = ''U''\<rparr>]\<rparr>"

lemma graph_world_guest: "effectiveRole graph_world sample_guest ''P'' = Inr (Some Client)"
  using guest_role effectiveRole_cong [of graph_world guest_world] by (simp add: graph_world_def)

lemma graph_world_answer:
  "\<exists>g. getDependencyGraph sample_guest ''t1'' 2 graph_world = Inr g"
  using graph_world_guest
  by (simp add: getDependencyGraph_def find_task_def canSeeTask_def graph_world_def guest_world_def task_samples
      Let_def split_beta find_project_def)

text \<open>A caller who is not a guest of the project sees all its tasks.\<close>

lemma member_sees_project:
  assumes "canSeeTask w u pid vis = Inr True" and "effectiveRole w u pid \<noteq> Inr (Some Client)"
  shows "canSeeTask w u pid vis' = Inr True"
  using assms by (auto simp: canSeeTask_def and_then_Inr split: option.splits if_splits)

text \<open>
  C10: what the dependency graph shows a caller who is not a guest of the project of the focal task. Its nodes are
  exactly the tasks within the clamped number of links of the focal task that the caller may see, in whatever project
  they lie; every edge is a link between two of the nodes, and no edge appears twice.
\<close>

theorem dependency_graph_contents:
  assumes "getDependencyGraph u tid depth w = Inr g" and "find_task w tid = Some focal"
    and "effectiveRole w u (t_projectId focal) \<noteq> Inr (Some Client)"
  shows "gn_id ` set (dg_nodes g) = t_id ` {t \<in> set (tasks w). t_id t \<in> nearby (nat (max 0 (min 4 depth))) w {tid} \<and>
      canSeeTask w u (t_projectId t) (t_visibility t) = Inr True} \<and>
    (\<forall>e \<in> set (dg_edges g). ge_from e \<in> gn_id ` set (dg_nodes g) \<and> ge_to e \<in> gn_id ` set (dg_nodes g) \<and>
      e \<in> edge_of ` set (links w)) \<and>
    distinct (dg_edges g)"
proof -
  have "canSeeTask w u (t_projectId focal) (t_visibility focal) = Inr True"
    using assms(1,2) by (auto simp: getDependencyGraph_def and_then_Inr)
  from member_sees_project [OF this assms(3)]
  have same: "t_projectId t = t_projectId focal \<or> canSeeTask w u (t_projectId t) (t_visibility t) = Inr True \<longleftrightarrow>
      canSeeTask w u (t_projectId t) (t_visibility t) = Inr True" for t by metis
  show ?thesis using dependency_graph_nodes [OF assms(1,2)] unfolding same .
qed

theorem dependency_graph_contents_witness:
  "\<exists>g. getDependencyGraph sample_admin ''t1'' 2 graph_world = Inr g \<and> ''t1'' \<in> gn_id ` set (dg_nodes g) \<and> distinct (dg_edges g)"
proof -
  have role: "effectiveRole graph_world sample_admin ''P'' = Inr (Some Manager)" by (simp add: effectiveRole_def sample_admin_def)
  have t1: "find_task graph_world ''t1'' = Some ((sample_task ''t1'' ''Todo'')\<lparr>t_visibility := VClientVisible\<rparr>)"
    by (simp add: find_task_def graph_world_def sample_task_def)
  have "\<exists>vs. visible_nodes graph_world sample_admin ''P'' ns = Inr vs" for ns
  proof (induction ns)
    case (Cons n ns)
    then show ?case by (auto simp: canSeeTask_def effectiveRole_def sample_admin_def)
  qed simp
  then obtain vs where "visible_nodes graph_world sample_admin ''P''
      (filter (\<lambda>t. t_id t \<in> set (fst (bfs (safeDepth 2) graph_world [''t1''] [''t1''] []))) (tasks graph_world)) = Inr vs" by blast
  then obtain g where g: "getDependencyGraph sample_admin ''t1'' 2 graph_world = Inr g"
    unfolding getDependencyGraph_def t1 by (auto simp: role canSeeTask_def sample_task_def split_beta Let_def)
  have "canSeeTask graph_world sample_admin ''P'' VClientVisible = Inr True" by (simp add: canSeeTask_def role)
  then have "''t1'' \<in> t_id ` {t \<in> set (tasks graph_world). t_id t \<in> nearby 2 graph_world {''t1''} \<and>
      canSeeTask graph_world sample_admin (t_projectId t) (t_visibility t) = Inr True}"
    by (force simp: graph_world_def sample_task_def nearby_def)
  with dependency_graph_contents [OF g t1] role g show ?thesis by (simp add: sample_task_def)
qed

text \<open>
  The graph shows a guest what the rest of the service hides. There is a state, and a user
  with only the Client role, for whom the graph of a visible task has a node for an internal
  task of the same project, which \<open>canSeeTask\<close> refuses to that user.
\<close>

theorem graph_reveals_hidden_task:
  "\<exists>g. getDependencyGraph sample_guest ''t1'' 2 graph_world = Inr g \<and> ''t2'' \<in> gn_id ` set (dg_nodes g) \<and>
    canSeeTask graph_world sample_guest ''P'' VInternal = Inr False"
  using graph_world_guest
  by (simp add: getDependencyGraph_def find_task_def canSeeTask_def graph_world_def guest_world_def task_samples
      Let_def safeDepth_def numeral_nat frontier_links_def visit_link_def graph_node_of_def find_project_def)

end
