(* ===== verification/Labels.thy ===== *)
theory Labels
  imports TaskLaws
begin

text \<open>
  \<^verbatim>\<open>apps/api/src/modules/labels/labels.service.ts\<close>: the labels of a project and their use on
  tasks, with the invariant that every operation keeps.
\<close>

section \<open>Names and colours\<close>

text \<open>
  \<open>color.replace(/^#/, '').toUpperCase()\<close> followed by the test against \<open>/^[0-9A-F]{6}$/\<close>.
  Only ASCII letters are changed: a letter outside ASCII fails the test either way.
\<close>

definition upper_char :: "char \<Rightarrow> char" where
  "upper_char c = (if 97 \<le> (of_char c :: nat) \<and> (of_char c :: nat) \<le> 122 then char_of ((of_char c :: nat) - 32) else c)"

definition clean_color :: "string \<Rightarrow> string" where
  "clean_color c = map upper_char (case c of x # xs \<Rightarrow> if x = CHR 0x23 then xs else c | [] \<Rightarrow> c)"

definition is_hex :: "char \<Rightarrow> bool" where
  "is_hex c \<longleftrightarrow> (let n = (of_char c :: nat) in 48 \<le> n \<and> n \<le> 57 \<or> 65 \<le> n \<and> n \<le> 70)"

definition hex6 :: "string \<Rightarrow> bool" where
  "hex6 c \<longleftrightarrow> length c = 6 \<and> list_all is_hex c"

definition label_key :: "label_row \<Rightarrow> string \<times> string" where
  "label_key l = (lb_projectId l, lb_name l)"

definition task_label_key :: "task_label_row \<Rightarrow> string \<times> string" where
  "task_label_key r = (tl_taskId r, tl_labelId r)"

section \<open>Operations\<close>

definition listLabels :: "env \<Rightarrow> auth_user \<Rightarrow> string \<Rightarrow> world \<Rightarrow> label_row list res" where
  "listLabels e u pid w =
     and_then (assertAtLeast w u pid Client) (\<lambda>_.
     Inr (order_by (\<lambda>a b. coll e (lb_name a) (lb_name b)) (filter (\<lambda>l. lb_projectId l = pid) (labels w))))"

definition createLabel :: "env \<Rightarrow> auth_user \<Rightarrow> string \<Rightarrow> string \<Rightarrow> string option \<Rightarrow> world \<Rightarrow> label_row res \<times> world" where
  "createLabel e u pid name_in color_in w =
     attempt (assertAtLeast w u pid Contributor) w (\<lambda>_.
     let nm = trim name_in; color = clean_color (override color_in ''A78BFA'')
     in attempt (require (nm \<noteq> []) (BadRequest ''Name is required'')) w (\<lambda>_.
        attempt (require (hex6 color) (BadRequest ''Color must be a 6-character hex (e.g. A78BFA)'')) w (\<lambda>_.
        let l = \<lparr>lb_id = uuid e 0, lb_projectId = pid, lb_name = nm, lb_color = color\<rparr>
        in attempt (require (label_key l \<notin> label_key ` set (labels w))
             (BadRequest (''Label '' @ quoted nm @ '' already exists''))) w (\<lambda>_.
           attempt (require (pid \<in> p_id ` set (projects w)) (DbError P2003)) w (\<lambda>_.
           (Inr l, emit (LabelCreated (lb_id l) pid (au_id u)) (w\<lparr>labels := labels w @ [l]\<rparr>)))))))"

definition updateLabel :: "auth_user \<Rightarrow> string \<Rightarrow> string option \<Rightarrow> string option \<Rightarrow> world \<Rightarrow> label_row res \<times> world" where
  "updateLabel u lid name_in color_in w =
     attempt (found (NotFound ''Label not found'') (find_label w lid)) w (\<lambda>label.
     attempt (assertAtLeast w u (lb_projectId label) Contributor) w (\<lambda>_.
     attempt (require (map_option trim name_in \<noteq> Some []) (BadRequest ''Name cannot be empty'')) w (\<lambda>_.
     attempt (require (case color_in of None \<Rightarrow> True | Some c \<Rightarrow> hex6 (clean_color c))
       (BadRequest ''Color must be a 6-character hex'')) w (\<lambda>_.
     let upd = (\<lambda>l. l\<lparr>lb_name := override (map_option trim name_in) (lb_name l),
                      lb_color := override (map_option clean_color color_in) (lb_color l)\<rparr>)
     in attempt (unique_rows label_key (update_where (\<lambda>l. lb_id l = lid) upd (labels w))) w (\<lambda>ls.
        (Inr (upd label), w\<lparr>labels := ls\<rparr>))))))"

definition cascade_label :: "string \<Rightarrow> world \<Rightarrow> world" where
  "cascade_label lid w = w\<lparr>labels := delete_where (\<lambda>l. lb_id l = lid) (labels w),
     taskLabels := delete_where (\<lambda>r. tl_labelId r = lid) (taskLabels w)\<rparr>"

definition removeLabel :: "auth_user \<Rightarrow> string \<Rightarrow> world \<Rightarrow> unit res \<times> world" where
  "removeLabel u lid w =
     attempt (found (NotFound ''Label not found'') (find_label w lid)) w (\<lambda>label.
     attempt (assertAtLeast w u (lb_projectId label) Manager) w (\<lambda>_.
     (Inr (), emit (LabelDeleted lid (lb_projectId label) (au_id u)) (cascade_label lid w))))"

definition attachLabel :: "env \<Rightarrow> auth_user \<Rightarrow> string \<Rightarrow> string \<Rightarrow> world \<Rightarrow> unit res \<times> world" where
  "attachLabel e u tid lid w =
     attempt (found (NotFound ''Task not found'') (find_task w tid)) w (\<lambda>task.
     attempt (found (NotFound ''Label not found'') (find_label w lid)) w (\<lambda>label.
     attempt (require (lb_projectId label = t_projectId task) (BadRequest ''Label belongs to a different project'')) w (\<lambda>_.
     attempt (assertAtLeast w u (t_projectId task) Contributor) w (\<lambda>_.
     attempt (require ((tid, lid) \<in> task_label_key ` set (taskLabels w) \<or> au_id u \<in> u_id ` set (users w)) (DbError P2003)) w (\<lambda>_.
     (Inr (), emit (TaskLabeled tid lid (t_projectId task) (au_id u))
        (w\<lparr>taskLabels := insert_absent task_label_key
             \<lparr>tl_taskId = tid, tl_labelId = lid, tl_addedById = au_id u, tl_addedAt = clk e 0\<rparr> (taskLabels w)\<rparr>)))))))"

definition detachLabel :: "auth_user \<Rightarrow> string \<Rightarrow> string \<Rightarrow> world \<Rightarrow> unit res \<times> world" where
  "detachLabel u tid lid w =
     attempt (found (NotFound ''Task not found'') (find_task w tid)) w (\<lambda>task.
     attempt (assertAtLeast w u (t_projectId task) Contributor) w (\<lambda>_.
     (Inr (), emit (TaskUnlabeled tid lid (t_projectId task) (au_id u))
        (w\<lparr>taskLabels := delete_where (\<lambda>r. task_label_key r = (tid, lid)) (taskLabels w)\<rparr>))))"

definition listForTask :: "auth_user \<Rightarrow> string \<Rightarrow> world \<Rightarrow> label_row list res" where
  "listForTask u tid w =
     and_then (found (NotFound ''Task not found'') (find_task w tid)) (\<lambda>task.
     and_then (canSeeTask w u (t_projectId task) (t_visibility task)) (\<lambda>canSee.
     and_then (require canSee (Forbidden ''No access'')) (\<lambda>_.
     Inr [l. r \<leftarrow> order_by (\<lambda>a b. tl_addedAt a \<le> tl_addedAt b) (filter (\<lambda>r. tl_taskId r = tid) (taskLabels w)),
             l \<leftarrow> labels w, lb_id l = tl_labelId r])))"

section \<open>The invariant\<close>

text \<open>
  Identifiers and names are unique, colours are six hexadecimal digits, and a label is only on
  tasks of its own project.
\<close>

definition label_ref :: "label_row \<Rightarrow> string \<times> string" where
  "label_ref l = (lb_id l, lb_projectId l)"

definition task_ref :: "task_row \<Rightarrow> string \<times> string" where
  "task_ref t = (t_id t, t_projectId t)"

definition same_project :: "(string \<times> string) set \<Rightarrow> (string \<times> string) set \<Rightarrow> string \<times> string \<Rightarrow> bool" where
  "same_project tasks_in labels_in r \<longleftrightarrow> (\<exists>pid. (fst r, pid) \<in> tasks_in \<and> (snd r, pid) \<in> labels_in)"

definition labels_inv :: "world \<Rightarrow> bool" where
  "labels_inv w \<longleftrightarrow> distinct (map lb_id (labels w)) \<and> distinct (map label_key (labels w)) \<and>
     (\<forall>l \<in> set (labels w). lb_name l \<noteq> [] \<and> hex6 (lb_color l)) \<and>
     distinct (map task_label_key (taskLabels w)) \<and>
     (\<forall>r \<in> task_label_key ` set (taskLabels w). same_project (task_ref ` set (tasks w)) (label_ref ` set (labels w)) r)"

lemmas label_steps = attempt_inv [where P = labels_inv]

lemma labels_inv_emit [simp]: "labels_inv (emit ev w) = labels_inv w"
  by (simp add: labels_inv_def)

lemma same_project_mono: "same_project T L r \<Longrightarrow> T \<subseteq> T' \<Longrightarrow> L \<subseteq> L' \<Longrightarrow> same_project T' L' r"
  by (auto simp: same_project_def)

lemma labels_inv_add:
  assumes "labels_inv w" and "lb_id l \<notin> lb_id ` set (labels w)" and "label_key l \<notin> label_key ` set (labels w)"
    and "lb_name l \<noteq> []" and "hex6 (lb_color l)"
  shows "labels_inv (w\<lparr>labels := labels w @ [l]\<rparr>)"
  using assms by (auto simp: labels_inv_def intro: same_project_mono)

lemma createLabel_inv:
  assumes "labels_inv w" and "uuid e 0 \<notin> lb_id ` set (labels w)"
  shows "labels_inv (snd (createLabel e u pid nm c w))"
  unfolding createLabel_def Let_def
  by (intro label_steps assms(1)) (simp, rule labels_inv_add, use assms in simp_all)

lemma labels_inv_update:
  assumes "labels_inv w" and "distinct (map label_key (update_where p f (labels w)))"
    and ref: "\<And>l. label_ref (f l) = label_ref l"
    and ok: "\<And>l. lb_name l \<noteq> [] \<Longrightarrow> hex6 (lb_color l) \<Longrightarrow> lb_name (f l) \<noteq> [] \<and> hex6 (lb_color (f l))"
  shows "labels_inv (w\<lparr>labels := update_where p f (labels w)\<rparr>)"
proof -
  have "map label_ref (update_where p f (labels w)) = map label_ref (labels w)"
    by (rule map_update_where) (rule ref)
  then have "label_ref ` set (update_where p f (labels w)) = label_ref ` set (labels w)" by (metis list.set_map)
  moreover have "map lb_id (update_where p f (labels w)) = map lb_id (labels w)"
    by (rule map_update_where) (use ref in \<open>simp add: label_ref_def\<close>)
  moreover have "\<forall>l \<in> set (update_where p f (labels w)). lb_name l \<noteq> [] \<and> hex6 (lb_color l)"
    using assms(1) ok by (auto simp: labels_inv_def set_update_where)
  ultimately show ?thesis using assms(1,2) by (simp add: labels_inv_def)
qed

lemma updateLabel_inv:
  assumes "labels_inv w"
  shows "labels_inv (snd (updateLabel u lid nm c w))"
  unfolding updateLabel_def Let_def
proof (intro label_steps assms)
  let ?f = "\<lambda>l. l\<lparr>lb_name := override (map_option trim nm) (lb_name l), lb_color := override (map_option clean_color c) (lb_color l)\<rparr>"
  fix label ls x y
  assume ok: "require (map_option trim nm \<noteq> Some []) (BadRequest ''Name cannot be empty'') = Inr x"
    "require (case c of None \<Rightarrow> True | Some c \<Rightarrow> hex6 (clean_color c)) (BadRequest ''Color must be a 6-character hex'') = Inr y"
    "unique_rows label_key (update_where (\<lambda>l. lb_id l = lid) ?f (labels w)) = Inr ls"
  have "labels_inv (w\<lparr>labels := update_where (\<lambda>l. lb_id l = lid) ?f (labels w)\<rparr>)"
    by (rule labels_inv_update [OF assms]) (use ok in \<open>cases nm; cases c; simp add: label_ref_def\<close>)+
  with ok(3) show "labels_inv (snd (Inr (?f label), w\<lparr>labels := ls\<rparr>))" by simp
qed

lemma removeLabel_inv:
  assumes "labels_inv w"
  shows "labels_inv (snd (removeLabel u lid w))"
proof -
  have "same_project T (label_ref ` set (delete_where (\<lambda>l. lb_id l = lid) (labels w))) r"
    if "same_project T (label_ref ` set (labels w)) r" "snd r \<noteq> lid" for T r
    using that by (force simp: same_project_def label_ref_def)
  with assms have "labels_inv (cascade_label lid w)"
    unfolding labels_inv_def cascade_label_def by (auto simp: task_label_key_def distinct_delete_where)
  with assms show ?thesis unfolding removeLabel_def by (intro label_steps) simp_all
qed

lemma attachLabel_inv:
  assumes "labels_inv w"
  shows "labels_inv (snd (attachLabel e u tid lid w))"
proof -
  have "labels_inv (w\<lparr>taskLabels := insert_absent task_label_key r (taskLabels w)\<rparr>)"
    if "find_task w (tl_taskId r) = Some t" "find_label w (tl_labelId r) = Some l" "lb_projectId l = t_projectId t" for r t l
  proof -
    have "(tl_taskId r, t_projectId t) \<in> task_ref ` set (tasks w)"
      using find_taskD [OF that(1)] by (force simp: task_ref_def)
    moreover have "(tl_labelId r, t_projectId t) \<in> label_ref ` set (labels w)"
      using find_labelD [OF that(2)] that(3) by (force simp: label_ref_def)
    ultimately have "same_project (task_ref ` set (tasks w)) (label_ref ` set (labels w)) (task_label_key r)"
      by (auto simp: same_project_def task_label_key_def)
    with assms show ?thesis
      unfolding labels_inv_def by (simp add: keys_insert_absent distinct_insert_absent del: image_iff)
  qed
  with assms show ?thesis unfolding attachLabel_def by (intro label_steps) auto
qed

lemma detachLabel_inv:
  assumes "labels_inv w"
  shows "labels_inv (snd (detachLabel u tid lid w))"
proof -
  have "labels_inv (w\<lparr>taskLabels := delete_where p (taskLabels w)\<rparr>)" for p
    using assms by (auto simp: labels_inv_def distinct_delete_where)
  with assms show ?thesis unfolding detachLabel_def by (intro label_steps) simp_all
qed

datatype label_op =
    CreateLabel env auth_user string string "string option"
  | UpdateLabel auth_user string "string option" "string option"
  | RemoveLabel auth_user string
  | AttachLabel env auth_user string string
  | DetachLabel auth_user string string

fun exec_label :: "label_op \<Rightarrow> world \<Rightarrow> world" where
  "exec_label (CreateLabel e u pid nm c) w = snd (createLabel e u pid nm c w)"
| "exec_label (UpdateLabel u lid nm c) w = snd (updateLabel u lid nm c w)"
| "exec_label (RemoveLabel u lid) w = snd (removeLabel u lid w)"
| "exec_label (AttachLabel e u tid lid) w = snd (attachLabel e u tid lid w)"
| "exec_label (DetachLabel u tid lid) w = snd (detachLabel u tid lid w)"

fun new_label_id :: "label_op \<Rightarrow> world \<Rightarrow> bool" where
  "new_label_id (CreateLabel e u pid nm c) w = (uuid e 0 \<notin> lb_id ` set (labels w))"
| "new_label_id _ w = True"

interpretation label_runs: operation_system labels_inv new_label_id exec_label
proof
  fix w op assume "labels_inv w" and "new_label_id op w"
  then show "labels_inv (exec_label op w)"
    by (cases op) (simp_all add: createLabel_inv updateLabel_inv removeLabel_inv attachLabel_inv detachLabel_inv)
qed

section \<open>Properties\<close>

text \<open>
  Whatever label operations run, labels have unique identifiers, unique non-empty names
  inside their project and six-digit colours, no label is on a task twice, and a label is only
  on tasks of its own project.
\<close>

theorem label_operations_keep_invariant:
  assumes "labels_inv w" and "label_runs.run_ok ops w"
  shows "labels_inv (fold exec_label ops w)"
  using assms by (rule label_runs.run_inv)

theorem label_operations_keep_invariant_witness:
  "labels_inv (fold exec_label [CreateLabel sample_env sample_admin ''P'' '' ui '' (Some ''#ff0000''),
     AttachLabel sample_env sample_admin ''t1'' ''x''] task_world)"
  by (rule label_operations_keep_invariant) (simp_all add: labels_inv_def task_samples)

end
