(* ===== verification/Projects.thy ===== *)
theory Projects
  imports ProjectWorkflow Labels
begin

text \<open>
  \<^verbatim>\<open>apps/api/src/modules/projects/projects.service.ts\<close>: creating projects from scratch and
  from templates, listing, updating, archiving and restoring them, their allowed transitions
  and their access grants. \<open>inviteGuest\<close> is not modelled.
\<close>

section \<open>Inputs\<close>

record create_project_input =
  cp_key :: string
  cp_name :: string
  cp_description :: "string option"
  cp_visibility :: project_visibility
  cp_workflowPreset :: workflow_preset
  cp_sprintsEnabled :: "bool option"

record project_patch =
  pp_name :: "string option"
  pp_description :: "string option"
  pp_visibility :: "project_visibility option"
  pp_sprintsEnabled :: "bool option"
  pp_githubAutoStatus :: "bool option"
  pp_chatSpaceId :: "string option option"
  pp_chatBroadcastEvents :: "string list option"
  pp_maxAttachmentMb :: "int option"
  pp_defaultTaskVisibility :: "visibility option"

record grant_input =
  gi_subjectKind :: subject_kind
  gi_userId :: "string option"
  gi_teamId :: "string option"
  gi_role :: project_role

record template_input =
  ti_name :: string
  ti_description :: "string option"
  ti_workflowPreset :: workflow_preset
  ti_sprintsEnabled :: "bool option"
  ti_visibility :: "project_visibility option"
  ti_labels_in :: "(string \<times> string) list option"
  ti_sampleTasks :: "template_task list option"

section \<open>Helpers\<close>

text \<open>\<open>KEY_REGEX\<close>: two to ten upper-case letters.\<close>

definition is_upper :: "char \<Rightarrow> bool" where
  "is_upper c \<longleftrightarrow> 65 \<le> (of_char c :: nat) \<and> (of_char c :: nat) \<le> 90"

definition KEY_REGEX :: "string \<Rightarrow> bool" where
  "KEY_REGEX k \<longleftrightarrow> 2 \<le> length k \<and> length k \<le> 10 \<and> list_all is_upper k"

definition assertAdmin :: "auth_user \<Rightarrow> unit res" where
  "assertAdmin u = require (au_kind u = UInternal \<and> au_companyRole u = Some Admin)
     (Forbidden ''Only Admins can perform this action'')"

text \<open>The identifiers that are left after \<open>k\<close> draws.\<close>

definition after_draws :: "nat \<Rightarrow> env \<Rightarrow> env" where
  "after_draws k e = e\<lparr>uuid := (\<lambda>n. uuid e (n + k))\<rparr>"

text \<open>The event that follows a success.\<close>

definition then_emit :: "('a \<Rightarrow> event) \<Rightarrow> 'a res \<times> world \<Rightarrow> 'a res \<times> world" where
  "then_emit ev r = (case r of (Inl err, w) \<Rightarrow> (Inl err, w) | (Inr a, w) \<Rightarrow> (Inr a, emit (ev a) w))"

section \<open>Creating a project\<close>

definition new_project :: "env \<Rightarrow> auth_user \<Rightarrow> string \<Rightarrow> string \<Rightarrow> string option \<Rightarrow> project_visibility \<Rightarrow>
    workflow_preset \<Rightarrow> bool \<Rightarrow> project_row" where
  "new_project e u key nm descr vis preset sprintsOn = \<lparr>p_id = uuid e 0, p_key = key, p_name = nm,
     p_description = descr, p_visibility = vis, p_workflowPreset = preset, p_sprintsEnabled = sprintsOn,
     p_githubAutoStatus = True, p_defaultTaskVisibility = VInternal, p_archivedAt = None,
     p_nextTaskNumber = 1, p_maxAttachmentMb = 100, p_chatSpaceId = None, p_chatBroadcastEvents = [],
     p_createdById = au_id u, p_createdAt = clk e 0\<rparr>"

definition insert_project :: "project_row \<Rightarrow> world \<Rightarrow> world res" where
  "insert_project p w =
     and_then (require (p_createdById p \<in> u_id ` set (users w)) (DbError P2003)) (\<lambda>_.
     and_then (unique_rows p_key (projects w @ [p])) (\<lambda>ps. Inr (w\<lparr>projects := ps\<rparr>)))"

definition create_seeded :: "env \<Rightarrow> project_row \<Rightarrow> world \<Rightarrow> (project_row \<times> world) res" where
  "create_seeded e p w =
     and_then (insert_project p w) (\<lambda>w1.
     and_then (seedDefaults (after_draws 1 e) (p_id p) (p_workflowPreset p) w1) (\<lambda>w2. Inr (p, w2)))"

definition createProject :: "env \<Rightarrow> auth_user \<Rightarrow> create_project_input \<Rightarrow> world \<Rightarrow> project_row res \<times> world" where
  "createProject e u i w =
     attempt (assertAdmin u) w (\<lambda>_.
     attempt (require (KEY_REGEX (cp_key i)) (BadRequest ''Project key must be 2-10 uppercase letters'')) w (\<lambda>_.
     let p = new_project e u (cp_key i) (cp_name i) (cp_description i) (cp_visibility i)
               (cp_workflowPreset i) (override (cp_sprintsEnabled i) False)
     in then_emit (\<lambda>p. ProjectCreated (p_id p) (au_id u) None)
          (in_transaction (''Project key '' @ cp_key i @ '' is already in use'') w (create_seeded e p w))))"

section \<open>Reading\<close>

definition newest_first :: "project_row list \<Rightarrow> project_row list" where
  "newest_first = order_by (\<lambda>a b. p_createdAt b \<le> p_createdAt a)"

definition listForUser :: "auth_user \<Rightarrow> world \<Rightarrow> project_row list" where
  "listForUser u w =
     (let granted = (\<lambda>p. \<exists>g \<in> set (accessGrants w). a_projectId g = p_id p \<and> a_userId g = Some (au_id u) \<and>
            a_subjectKind g = SubjUser);
          teamIds = map tm_teamId (filter (\<lambda>m. tm_userId m = au_id u) (teamMembers w));
          through_team = (\<lambda>p. \<exists>g \<in> set (accessGrants w). a_projectId g = p_id p \<and> a_subjectKind g = SubjTeam \<and>
            (\<exists>tid \<in> set teamIds. a_teamId g = Some tid))
      in newest_first (filter (\<lambda>p. p_archivedAt p = None \<and>
           (if au_kind u = UInternal \<and> au_companyRole u = Some Admin then True
            else if au_kind u = UInternal then p_visibility p = PPublic \<or> granted p \<or> through_team p
            else granted p)) (projects w)))"

definition getProject :: "auth_user \<Rightarrow> string \<Rightarrow> world \<Rightarrow> (project_row \<times> project_role) res" where
  "getProject u pid w =
     and_then (found (NotFound ''Project not found'') (find_project w pid)) (\<lambda>project.
     and_then (effectiveRole w u pid) (\<lambda>role.
     and_then (found (Forbidden ''No access to project'') role) (\<lambda>r. Inr (project, r))))"

definition listArchived :: "auth_user \<Rightarrow> world \<Rightarrow> project_row list res" where
  "listArchived u w = and_then (assertAdmin u) (\<lambda>_.
     Inr (order_by (\<lambda>a b. p_archivedAt b \<noteq> None \<and> the (p_archivedAt b) \<le> the (p_archivedAt a))
       (filter (\<lambda>p. p_archivedAt p \<noteq> None) (projects w))))"

section \<open>Updating, archiving and restoring\<close>

definition patch_project :: "project_patch \<Rightarrow> project_row \<Rightarrow> project_row" where
  "patch_project d p = p\<lparr>
     p_name := override (pp_name d) (p_name p),
     p_description := (case pp_description d of None \<Rightarrow> p_description p | Some x \<Rightarrow> Some x),
     p_visibility := override (pp_visibility d) (p_visibility p),
     p_sprintsEnabled := override (pp_sprintsEnabled d) (p_sprintsEnabled p),
     p_githubAutoStatus := override (pp_githubAutoStatus d) (p_githubAutoStatus p),
     p_chatSpaceId := override (pp_chatSpaceId d) (p_chatSpaceId p),
     p_chatBroadcastEvents := override (pp_chatBroadcastEvents d) (p_chatBroadcastEvents p),
     p_maxAttachmentMb := override (pp_maxAttachmentMb d) (p_maxAttachmentMb p),
     p_defaultTaskVisibility := override (pp_defaultTaskVisibility d) (p_defaultTaskVisibility p)\<rparr>"

definition write_project :: "string \<Rightarrow> (project_row \<Rightarrow> project_row) \<Rightarrow> world \<Rightarrow> world" where
  "write_project pid f w = w\<lparr>projects := update_where (\<lambda>p. p_id p = pid) f (projects w)\<rparr>"

definition updateProject :: "auth_user \<Rightarrow> string \<Rightarrow> project_patch \<Rightarrow> world \<Rightarrow> project_row res \<times> world" where
  "updateProject u pid d w =
     attempt (assertAtLeast w u pid Manager) w (\<lambda>_.
     attempt (project_or_throw w pid) w (\<lambda>project.
     (Inr (patch_project d project),
      emit (ProjectUpdated pid (au_id u)) (write_project pid (patch_project d) w))))"

definition archive :: "env \<Rightarrow> auth_user \<Rightarrow> string \<Rightarrow> world \<Rightarrow> unit res \<times> world" where
  "archive e u pid w =
     attempt (assertAdmin u) w (\<lambda>_.
     attempt (found (NotFound ''Project not found'') (find_project w pid)) w (\<lambda>existing.
     if p_archivedAt existing \<noteq> None then (Inr (), w)
     else (Inr (), emit (ProjectArchived pid (au_id u))
            (write_project pid (\<lambda>p. p\<lparr>p_archivedAt := Some (clk e 0)\<rparr>) w))))"

definition restore :: "auth_user \<Rightarrow> string \<Rightarrow> world \<Rightarrow> unit res \<times> world" where
  "restore u pid w =
     attempt (assertAdmin u) w (\<lambda>_.
     attempt (found (NotFound ''Project not found (possibly purged after 7-day grace window)'') (find_project w pid)) w (\<lambda>existing.
     if p_archivedAt existing = None then (Inr (), w)
     else (Inr (), emit (ProjectRestored pid (au_id u))
            (write_project pid (\<lambda>p. p\<lparr>p_archivedAt := None\<rparr>) w))))"

section \<open>Allowed transitions\<close>

definition edge_order :: "env \<Rightarrow> transition_row \<Rightarrow> transition_row \<Rightarrow> bool" where
  "edge_order e a b \<longleftrightarrow> (if wt_fromStatus a = wt_fromStatus b then coll e (wt_toStatus a) (wt_toStatus b)
     else coll e (wt_fromStatus a) (wt_fromStatus b))"

definition listWorkflowTransitions :: "env \<Rightarrow> auth_user \<Rightarrow> string \<Rightarrow> world \<Rightarrow> (string \<times> string) list res" where
  "listWorkflowTransitions e u pid w =
     and_then (assertAtLeast w u pid Viewer) (\<lambda>_.
     Inr (map (\<lambda>t. (wt_fromStatus t, wt_toStatus t))
       (order_by (edge_order e) (filter (\<lambda>t. wt_projectId t = pid) (transitions w)))))"

text \<open>The loop over the requested edges: the first bad one decides the error.\<close>

fun validate_edges :: "string set \<Rightarrow> (string \<times> string) list \<Rightarrow> unit res" where
  "validate_edges valid [] = Inr ()"
| "validate_edges valid ((f, t) # rest) =
     (if f \<notin> valid \<or> t \<notin> valid
      then Inl (BadRequest (''Transition '' @ quoted f @ '' '' @ arrow @ '' '' @ quoted t @
             '' references a status that doesn'' @ [CHR 0x27] @ ''t exist in this project.''))
      else if f = t
      then Inl (BadRequest (''Self-edges ('' @ quoted f @ '' '' @ arrow @ '' '' @ quoted f @ '') aren'' @ [CHR 0x27] @
             ''t meaningful; same-status transitions are handled as no-ops.''))
      else validate_edges valid rest)"

text \<open>\<open>Map.set\<close>: the place of the first insertion, the value of the last.\<close>

fun map_set :: "'k \<Rightarrow> 'v \<Rightarrow> ('k \<times> 'v) list \<Rightarrow> ('k \<times> 'v) list" where
  "map_set k v [] = [(k, v)]"
| "map_set k v ((k', v') # xs) = (if k = k' then (k, v) # xs else (k', v') # map_set k v xs)"

definition dedup_edges :: "(string \<times> string) list \<Rightarrow> (string \<times> string) list" where
  "dedup_edges ts = map snd (fold (\<lambda>(f, t). map_set (transitionKey f t) (f, t)) ts [])"

definition edge_rows :: "string \<Rightarrow> (string \<times> string) list \<Rightarrow> transition_row list" where
  "edge_rows pid es = map (\<lambda>(f, t). \<lparr>wt_projectId = pid, wt_fromStatus = f, wt_toStatus = t\<rparr>) es"

definition replace_edges :: "string \<Rightarrow> (string \<times> string) list \<Rightarrow> world \<Rightarrow> world res" where
  "replace_edges pid es w =
     and_then (unique_rows transition_key (delete_where (\<lambda>t. wt_projectId t = pid) (transitions w) @ edge_rows pid es))
       (\<lambda>trs. Inr (w\<lparr>transitions := trs\<rparr>))"

definition replaceWorkflowTransitions :: "auth_user \<Rightarrow> string \<Rightarrow> (string \<times> string) list \<Rightarrow> world \<Rightarrow>
    (string \<times> string) list res \<times> world" where
  "replaceWorkflowTransitions u pid ts w =
     attempt (assertAtLeast w u pid Manager) w (\<lambda>_.
     attempt (found (NotFound ''Project not found'') (find_project w pid)) w (\<lambda>_.
     attempt (validate_edges (set (map s_name (filter (\<lambda>s. s_projectId s = pid) (statuses w)))) ts) w (\<lambda>_.
     let next_edges = dedup_edges ts
     in attempt (replace_edges pid next_edges w) w (\<lambda>w1.
        (Inr next_edges, emit (ProjectWorkflowUpdated pid (au_id u) (length next_edges) False) w1)))))"

definition resetWorkflowTransitions :: "auth_user \<Rightarrow> string \<Rightarrow> world \<Rightarrow> (string \<times> string) list res \<times> world" where
  "resetWorkflowTransitions u pid w =
     attempt (assertAtLeast w u pid Manager) w (\<lambda>_.
     attempt (found (NotFound ''Project not found'') (find_project w pid)) w (\<lambda>project.
     let edges = defaultTransitionsFor (p_workflowPreset project)
     in attempt (replace_edges pid edges w) w (\<lambda>w1.
        (Inr edges, emit (ProjectWorkflowUpdated pid (au_id u) (length edges) True) w1))))"

section \<open>Access grants\<close>

definition listAccess :: "auth_user \<Rightarrow> string \<Rightarrow> world \<Rightarrow> (access_row \<times> user_row option \<times> team_row option) list res" where
  "listAccess u pid w =
     and_then (assertAtLeast w u pid Client) (\<lambda>_.
     Inr (map (\<lambda>g. (g, Option.bind (a_userId g) (\<lambda>k. find_row u_id k (users w)),
                      Option.bind (a_teamId g) (\<lambda>k. find_row te_id k (teams w))))
       (filter (\<lambda>g. a_projectId g = pid) (accessGrants w))))"

text \<open>The unique keys of a grant: a project and a user, a project and a team; nulls never clash.\<close>

definition grant_clash :: "access_row \<Rightarrow> access_row \<Rightarrow> bool" where
  "grant_clash g h \<longleftrightarrow> a_projectId g = a_projectId h \<and>
     (a_userId g \<noteq> None \<and> a_userId g = a_userId h \<or> a_teamId g \<noteq> None \<and> a_teamId g = a_teamId h)"

definition grantAccess :: "env \<Rightarrow> auth_user \<Rightarrow> string \<Rightarrow> grant_input \<Rightarrow> world \<Rightarrow> access_row res \<times> world" where
  "grantAccess e u pid i w =
     attempt (assertAtLeast w u pid Manager) w (\<lambda>_.
     attempt (require (\<not> (gi_subjectKind i = SubjUser \<and> \<not> truthy (gi_userId i)))
       (BadRequest ''userId required for user grant'')) w (\<lambda>_.
     attempt (require (\<not> (gi_subjectKind i = SubjTeam \<and> \<not> truthy (gi_teamId i)))
       (BadRequest ''teamId required for team grant'')) w (\<lambda>_.
     let g = \<lparr>a_id = uuid e 0, a_projectId = pid, a_subjectKind = gi_subjectKind i,
              a_userId = (if gi_subjectKind i = SubjUser then gi_userId i else None),
              a_teamId = (if gi_subjectKind i = SubjTeam then gi_teamId i else None),
              a_role = gi_role i, a_grantedById = au_id u\<rparr>
     in attempt (require (\<not> list_ex (grant_clash g) (accessGrants w)) (DbError P2002)) w (\<lambda>_.
        attempt (require (pid \<in> p_id ` set (projects w) \<and> fk_ok u_id (users w) (a_userId g) \<and>
            fk_ok te_id (teams w) (a_teamId g) \<and> au_id u \<in> u_id ` set (users w)) (DbError P2003)) w (\<lambda>_.
        (Inr g, emit (AccessGranted pid (a_id g) (au_id u)) (w\<lparr>accessGrants := accessGrants w @ [g]\<rparr>)))))))"

definition revokeAccess :: "auth_user \<Rightarrow> string \<Rightarrow> string \<Rightarrow> world \<Rightarrow> unit res \<times> world" where
  "revokeAccess u pid grantId w =
     attempt (assertAtLeast w u pid Manager) w (\<lambda>_.
     attempt (found (DbError P2025) (find_row a_id grantId (accessGrants w))) w (\<lambda>_.
     (Inr (), emit (AccessRevoked pid grantId (au_id u))
        (w\<lparr>accessGrants := delete_where (\<lambda>g. a_id g = grantId) (accessGrants w)\<rparr>))))"

section \<open>Templates\<close>

definition listTemplates :: "env \<Rightarrow> world \<Rightarrow> (template_row \<times> user_row option) list" where
  "listTemplates e w = map (\<lambda>t. (t, find_row u_id (tpl_createdById t) (users w)))
     (order_by (\<lambda>a b. coll e (tpl_name a) (tpl_name b)) (templates w))"

definition createTemplate :: "env \<Rightarrow> auth_user \<Rightarrow> template_input \<Rightarrow> world \<Rightarrow> template_row res \<times> world" where
  "createTemplate e u i w =
     attempt (assertAdmin u) w (\<lambda>_.
     let t = \<lparr>tpl_id = uuid e 0, tpl_name = trim (ti_name i), tpl_description = ti_description i,
              tpl_workflowPreset = ti_workflowPreset i,
              tpl_sprintsEnabled = override (ti_sprintsEnabled i) False,
              tpl_visibility = override (ti_visibility i) PTeams,
              tpl_labels = override (ti_labels_in i) [],
              tpl_sampleTasks = override (ti_sampleTasks i) [], tpl_createdById = au_id u\<rparr>
     in attempt (unique_rows tpl_name (templates w @ [t])) w (\<lambda>ts.
        attempt (require (au_id u \<in> u_id ` set (users w)) (DbError P2003)) w (\<lambda>_.
        (Inr t, w\<lparr>templates := ts\<rparr>))))"

definition deleteTemplate :: "auth_user \<Rightarrow> string \<Rightarrow> world \<Rightarrow> unit res \<times> world" where
  "deleteTemplate u tid w =
     attempt (assertAdmin u) w (\<lambda>_.
     attempt (found (DbError P2025) (find_row tpl_id tid (templates w))) w (\<lambda>_.
     (Inr (), w\<lparr>templates := delete_where (\<lambda>t. tpl_id t = tid) (templates w)\<rparr>)))"

text \<open>\<open>i.toString(36)\<close>.\<close>

definition digit36 :: "nat \<Rightarrow> char" where
  "digit36 d = (if d < 10 then char_of (48 + d) else char_of (87 + d))"

fun show_base36 :: "nat \<Rightarrow> string" where
  "show_base36 n = (if n < 36 then [digit36 n] else show_base36 (n div 36) @ [digit36 (n mod 36)])"

declare show_base36.simps [simp del]

text \<open>\<open>createMany\<close> with \<open>skipDuplicates\<close>: a row whose key is taken is left out.\<close>

definition clone_labels :: "env \<Rightarrow> string \<Rightarrow> (string \<times> string) list \<Rightarrow> world \<Rightarrow> world" where
  "clone_labels e pid ls w = w\<lparr>labels := fold (insert_absent label_key)
     (map (\<lambda>(i, nm, color). \<lparr>lb_id = uuid e i, lb_projectId = pid, lb_name = nm, lb_color = color\<rparr>)
       (enumerate 0 ls)) (labels w)\<rparr>"

definition sample_row :: "env \<Rightarrow> auth_user \<Rightarrow> string \<Rightarrow> int \<Rightarrow> nat \<times> template_task \<Rightarrow> task_row" where
  "sample_row e u pid firstKey x = (case x of (i, s) \<Rightarrow>
     \<lparr>t_id = uuid e i, t_projectId = pid, t_keyNumber = firstKey + int i,
      t_type = override (tt_type s) Task, t_title = tt_title s, t_description = tt_description s,
      t_status = override (tt_status s) ''Todo'', t_priority = override (tt_priority s) Medium,
      t_isBlocked = False, t_blockedReason = None, t_visibility = VInternal, t_reportedByClient = False,
      t_parentTaskId = None, t_sprintId = None, t_assigneeUserId = None, t_reporterUserId = au_id u,
      t_createdById = au_id u, t_startDate = None, t_dueDate = None, t_estimate = None,
      t_boardPosition = ''a'' @ show_base36 i, t_completedAt = None, t_createdAt = clk e 0\<rparr>)"

definition clone_tasks :: "env \<Rightarrow> auth_user \<Rightarrow> project_row \<Rightarrow> template_task list \<Rightarrow> world \<Rightarrow> world res" where
  "clone_tasks e u p samples w =
     (if samples = [] then Inr w
      else let firstKey = p_nextTaskNumber p;
               rows = map (sample_row e u (p_id p) firstKey) (enumerate 0 samples);
               w1 = write_project (p_id p) (\<lambda>q. q\<lparr>p_nextTaskNumber := p_nextTaskNumber q + int (length samples)\<rparr>) w
           in and_then (unique_rows number_key (tasks w1 @ rows)) (\<lambda>ts.
              let created = filter (\<lambda>t. t_projectId t = p_id p) ts
              in Inr (w1\<lparr>tasks := ts, watchers := fold (insert_absent watcher_key)
                   (map (\<lambda>t. \<lparr>w_userId = au_id u, w_taskId = t_id t\<rparr>) created) (watchers w1)\<rparr>)))"

definition createFromTemplate :: "env \<Rightarrow> auth_user \<Rightarrow> string \<Rightarrow> string \<Rightarrow> string \<Rightarrow> string option \<Rightarrow>
    world \<Rightarrow> project_row res \<times> world" where
  "createFromTemplate e u templateId key nm descr w =
     attempt (assertAdmin u) w (\<lambda>_.
     attempt (require (KEY_REGEX key) (BadRequest ''Project key must be 2-10 uppercase letters'')) w (\<lambda>_.
     attempt (found (NotFound ''Template not found'') (find_row tpl_id templateId (templates w))) w (\<lambda>tpl.
     let p = new_project e u key nm descr (tpl_visibility tpl) (tpl_workflowPreset tpl) (tpl_sprintsEnabled tpl);
         seeded = 2 * length (PRESET_DEFAULTS (tpl_workflowPreset tpl)) + 1
     in attempt (and_then (create_seeded e p w) (\<lambda>(created, w1).
            and_then (clone_tasks (after_draws (seeded + length (tpl_labels tpl)) e) u created (tpl_sampleTasks tpl)
                (clone_labels (after_draws seeded e) (p_id created) (tpl_labels tpl) w1)) (\<lambda>w2.
            Inr (created, w2)))) w (\<lambda>(project, w3).
        (Inr project, emit (ProjectCreated (p_id project) (au_id u) (Some templateId)) w3)))))"

section \<open>Lemmas\<close>

lemma assertAdmin_Inr [simp]: "assertAdmin u = Inr x \<longleftrightarrow> is_admin u"
  by (auto simp: assertAdmin_def is_admin_def require_def)

lemma create_seeded_Inr:
  "create_seeded e p w = Inr (q, w') \<Longrightarrow> q = p \<and> distinct (map p_key (projects w @ [p])) \<and>
    seedDefaults (after_draws 1 e) (p_id p) (p_workflowPreset p) (w\<lparr>projects := projects w @ [p]\<rparr>) = Inr w'"
  by (auto simp: create_seeded_def insert_project_def and_then_Inr)

text \<open>A project whose identifier is new has no workflow rows and no tasks yet.\<close>

definition fresh_project :: "string \<Rightarrow> world \<Rightarrow> bool" where
  "fresh_project pid w \<longleftrightarrow> pid \<notin> p_id ` set (projects w) \<and> pid \<notin> s_projectId ` set (statuses w) \<and>
     pid \<notin> t_projectId ` set (tasks w)"

lemma workflow_inv_projects [simp]: "workflow_inv (w\<lparr>projects := ps\<rparr>) = workflow_inv w"
  by (simp add: workflow_inv_defs)

lemma fresh_ids_draws:
  assumes "fresh_ids e w"
  shows "fresh_ids (after_draws k e) (w\<lparr>projects := ps\<rparr>)"
proof -
  have "range (\<lambda>n. uuid e (n + k)) \<subseteq> range (uuid e)" by blast
  moreover have "inj (\<lambda>n. uuid e (n + k))" using assms by (auto simp: fresh_ids_def inj_eq intro: injI)
  ultimately show ?thesis using assms by (auto simp: fresh_ids_def after_draws_def)
qed

lemma create_seeded_inv:
  assumes "workflow_inv w" and "fresh_ids e w" and "fresh_project (p_id p) w"
    and "create_seeded e p w = Inr (q, w')"
  shows "workflow_inv w' \<and> statusNames w' (p_id p) = \<lparr>sn_valid = set (WORKFLOW_STATUSES (p_workflowPreset p)),
    sn_initial = Some (defaultStatusFor (p_workflowPreset p)), sn_done = set (doneStatusesFor (p_workflowPreset p))\<rparr>"
proof -
  let ?w = "w\<lparr>projects := projects w @ [p]\<rparr>"
  have seed: "seedDefaults (after_draws 1 e) (p_id p) (p_workflowPreset p) ?w = Inr w'"
    using create_seeded_Inr [OF assms(4)] by blast
  have "workflow_inv w'"
  proof (rule seedDefaults_inv [OF _ _ _ _ seed, where others = "tasks w"])
    show "workflow_inv (?w\<lparr>tasks := tasks w\<rparr>)" using assms(1) by (simp add: workflow_inv_defs)
    show "fresh_ids (after_draws 1 e) ?w" using assms(2) by (rule fresh_ids_draws)
    show "\<And>s. s \<in> set (statuses ?w) \<Longrightarrow> s_projectId s \<noteq> p_id p"
      using assms(3) by (auto simp: fresh_project_def simp del: image_iff) (metis imageI)
  qed simp
  moreover have "p_id p \<notin> s_projectId ` set (statuses ?w)" using assms(3) by (simp add: fresh_project_def)
  ultimately show ?thesis
    using statusNames_seeded seedDefaults_Inr(1) [OF seed] by simp
qed

lemma map_set_keys: "fst ` set (map_set k v xs) = insert k (fst ` set xs)"
  by (induction k v xs rule: map_set.induct) auto

lemma map_set_distinct: "distinct (map fst xs) \<Longrightarrow> distinct (map fst (map_set k v xs))"
  by (induction k v xs rule: map_set.induct) (auto simp: map_set_keys)

lemma map_set_values: "set (map_set k v xs) \<subseteq> insert (k, v) (set xs)"
  by (induction k v xs rule: map_set.induct) auto

text \<open>Deduplicating edges: distinct keys, and no edge that was not asked for.\<close>

definition edge_text :: "string \<times> string \<Rightarrow> string" where
  "edge_text e = transitionKey (fst e) (snd e)"

definition keyed :: "(string \<times> string \<times> string) list \<Rightarrow> bool" where
  "keyed xs \<longleftrightarrow> distinct (map fst xs) \<and> (\<forall>x \<in> set xs. fst x = edge_text (snd x))"

lemma keyed_Nil: "keyed []"
  by (simp add: keyed_def)

lemma keyed_map_set: "keyed xs \<Longrightarrow> keyed (map_set (edge_text e) e xs)"
  using map_set_values [of "edge_text e" e xs] by (auto simp: keyed_def map_set_distinct)

lemma dedup_fold:
  "keyed xs \<Longrightarrow> keyed (fold (\<lambda>e. map_set (edge_text e) e) ts xs) \<and>
    snd ` set (fold (\<lambda>e. map_set (edge_text e) e) ts xs) \<subseteq> set ts \<union> snd ` set xs \<and>
    fst ` set (fold (\<lambda>e. map_set (edge_text e) e) ts xs) = edge_text ` set ts \<union> fst ` set xs"
proof (induction ts arbitrary: xs)
  case (Cons e ts)
  let ?xs = "map_set (edge_text e) e xs"
  have sub: "snd ` set ?xs \<subseteq> insert e (snd ` set xs)"
    using map_set_values [of "edge_text e" e xs] by force
  from Cons.IH [OF keyed_map_set [OF Cons.prems], of e] have
    "keyed (fold (\<lambda>e. map_set (edge_text e) e) ts ?xs)"
    "snd ` set (fold (\<lambda>e. map_set (edge_text e) e) ts ?xs) \<subseteq> set ts \<union> snd ` set ?xs"
    "fst ` set (fold (\<lambda>e. map_set (edge_text e) e) ts ?xs) = edge_text ` set ts \<union> fst ` set ?xs"
    by blast+
  with sub show ?case by (simp add: map_set_keys) blast
qed simp

lemma dedup_edges_fold: "dedup_edges ts = map snd (fold (\<lambda>e. map_set (edge_text e) e) ts [])"
proof -
  have "(\<lambda>(f, t). map_set (transitionKey f t) (f, t)) = (\<lambda>e. map_set (edge_text e) e)"
    by (auto simp: fun_eq_iff edge_text_def)
  then show ?thesis by (simp add: dedup_edges_def)
qed

lemma dedup_edges_set:
  "set (dedup_edges ts) \<subseteq> set ts" "edge_text ` set (dedup_edges ts) = edge_text ` set ts"
  "distinct (dedup_edges ts)"
proof -
  let ?xs = "fold (\<lambda>e. map_set (edge_text e) e) ts []"
  have r: "keyed ?xs \<and> snd ` set ?xs \<subseteq> set ts \<and> fst ` set ?xs = edge_text ` set ts"
    using dedup_fold [of "[]" ts, OF keyed_Nil] by simp
  show "set (dedup_edges ts) \<subseteq> set ts" using r by (simp add: dedup_edges_fold)
  have key: "map fst ?xs = map edge_text (dedup_edges ts)" using r by (simp add: dedup_edges_fold keyed_def)
  have "distinct (map edge_text (dedup_edges ts))" using r unfolding keyed_def key by blast
  then show "distinct (dedup_edges ts)" by (simp add: distinct_map)
  have "set (map fst ?xs) = edge_text ` set ts" using r by simp
  then show "edge_text ` set (dedup_edges ts) = edge_text ` set ts" unfolding key by simp
qed

text \<open>The check of the requested edges.\<close>

lemma validate_edges_Inr:
  "validate_edges V ts = Inr () \<longleftrightarrow> (\<forall>e \<in> set ts. fst e \<in> V \<and> snd e \<in> V \<and> fst e \<noteq> snd e)"
  by (induction V ts rule: validate_edges.induct) auto

lemma edge_rows_keys: "transition_key ` set (edge_rows pid es) = Pair pid ` set es"
  by (force simp: edge_rows_def transition_key_def image_image)

lemma edge_rows_ends:
  "edge_from ` set (edge_rows pid es) = (\<lambda>e. (pid, fst e)) ` set es"
  "edge_to ` set (edge_rows pid es) = (\<lambda>e. (pid, snd e)) ` set es"
  by (simp_all add: edge_rows_def edge_from_def edge_to_def image_image case_prod_beta)

lemma replace_edges_inv:
  assumes "workflow_inv w" and "replace_edges pid es w = Inr w'"
    and "(\<lambda>e. (pid, fst e)) ` set es \<union> (\<lambda>e. (pid, snd e)) ` set es \<subseteq> status_key ` set (statuses w)"
  shows "workflow_inv w'"
proof -
  let ?kept = "delete_where (\<lambda>t. wt_projectId t = pid) (transitions w)"
  have w': "w' = w\<lparr>transitions := ?kept @ edge_rows pid es\<rparr>"
    and d: "distinct (map transition_key (?kept @ edge_rows pid es))"
    using assms(2) by (auto simp: replace_edges_def and_then_Inr)
  have used: "names_used (tasks w) (transitions w) \<subseteq> status_key ` set (statuses w)"
    using assms(1) by (simp add: workflow_inv_defs)
  have "names_used (tasks w) (?kept @ edge_rows pid es) \<subseteq> names_used (tasks w) (transitions w) \<union>
      ((\<lambda>e. (pid, fst e)) ` set es \<union> (\<lambda>e. (pid, snd e)) ` set es)"
    unfolding names_used_def set_append image_Un edge_rows_ends by auto
  with used assms(3) have "names_used (tasks w) (?kept @ edge_rows pid es) \<subseteq> status_key ` set (statuses w)"
    by (meson Un_least subset_trans)
  with assms(1) d show ?thesis by (simp add: w' workflow_inv_defs)
qed

section \<open>Properties\<close>

text \<open>
  C11: a new project is complete. When an administrator's creation succeeds, the key has the
  form the code demands and no other project has it, task numbers start at 1, the workflow
  read back from the rows is that of the preset, and the invariant of the workflow tables
  still holds.
\<close>

theorem created_project_is_complete:
  assumes "createProject e u i w = (Inr p, w')"
    and "workflow_inv w" and "fresh_ids e w" and "fresh_project (uuid e 0) w"
  shows "is_admin u \<and> KEY_REGEX (p_key p) \<and> p_key p \<notin> p_key ` set (projects w) \<and>
    projects w' = projects w @ [p] \<and> p_nextTaskNumber p = 1 \<and> workflow_inv w' \<and>
    statusNames w' (p_id p) = \<lparr>sn_valid = set (WORKFLOW_STATUSES (cp_workflowPreset i)),
      sn_initial = Some (defaultStatusFor (cp_workflowPreset i)), sn_done = set (doneStatusesFor (cp_workflowPreset i))\<rparr>"
proof -
  let ?p = "new_project e u (cp_key i) (cp_name i) (cp_description i) (cp_visibility i) (cp_workflowPreset i)
      (override (cp_sprintsEnabled i) False)"
  from assms(1) obtain w1 where c: "create_seeded e ?p w = Inr (p, w1)"
    and w': "w' = emit (ProjectCreated (p_id p) (au_id u) None) w1"
    and ok: "is_admin u" "KEY_REGEX (cp_key i)"
    by (auto simp: createProject_def attempt_Inr Let_def then_emit_def in_transaction_def split: sum.splits prod.splits)
  have p: "p = ?p" and keys: "distinct (map p_key (projects w @ [?p]))"
    and seed: "seedDefaults (after_draws 1 e) (p_id ?p) (p_workflowPreset ?p) (w\<lparr>projects := projects w @ [?p]\<rparr>) = Inr w1"
    using create_seeded_Inr [OF c] by auto
  have fields: "p_id ?p = uuid e 0" "p_key ?p = cp_key i" "p_workflowPreset ?p = cp_workflowPreset i"
    "p_nextTaskNumber ?p = 1" by (simp_all add: new_project_def)
  have inv: "workflow_inv w1 \<and> statusNames w1 (p_id ?p) = \<lparr>sn_valid = set (WORKFLOW_STATUSES (p_workflowPreset ?p)),
      sn_initial = Some (defaultStatusFor (p_workflowPreset ?p)), sn_done = set (doneStatusesFor (p_workflowPreset ?p))\<rparr>"
    using assms(2-4) c by (intro create_seeded_inv) (simp_all add: fields)
  moreover have "projects w1 = projects w @ [?p]" using seedDefaults_Inr(1) [OF seed] by simp
  moreover have "workflow_inv w' = workflow_inv w1" "statusNames w' = statusNames w1"
    by (simp_all add: w' workflow_inv_defs statusNames_def fun_eq_iff)
  ultimately show ?thesis using ok keys fields by (simp add: p w')
qed

definition sample_creation :: create_project_input where
  "sample_creation = \<lparr>cp_key = ''NEW'', cp_name = ''new'', cp_description = None, cp_visibility = PTeams,
     cp_workflowPreset = Generic, cp_sprintsEnabled = None\<rparr>"

definition admin_world :: world where
  "admin_world = empty_world\<lparr>users := [sample_user ''A'']\<rparr>"

lemma admin_world_inv: "workflow_inv admin_world"
  by (simp add: admin_world_def empty_world_def workflow_inv_defs names_used_def initial_ok_def)

lemma sample_creation_initial: "defaultStatusFor (cp_workflowPreset sample_creation) = ''Todo''"
  by (simp add: sample_creation_def defaultStatusFor_def)

theorem created_project_is_complete_witness:
  "\<exists>p w'. createProject sample_env sample_admin sample_creation admin_world = (Inr p, w') \<and>
    sn_initial (statusNames w' (p_id p)) = Some ''Todo''"
proof -
  let ?r = "createProject sample_env sample_admin sample_creation admin_world"
  have "\<exists>p. fst ?r = Inr p"
    by (simp add: createProject_def Let_def assertAdmin_def then_emit_def in_transaction_def create_seeded_def
        insert_project_def new_project_def sample_creation_def KEY_REGEX_def is_upper_def admin_world_def empty_world_def
        sample_user_def sample_admin_def seedDefaults_def unique_rows_def column_key_def status_key_def
        transition_key_def preset_transitions_def)
  then obtain p where r: "?r = (Inr p, snd ?r)" by (metis prod.collapse)
  have "fresh_ids sample_env admin_world" by (rule sample_env_fresh) (simp_all add: admin_world_def empty_world_def)
  moreover have "fresh_project (uuid sample_env 0) admin_world"
    by (simp add: fresh_project_def admin_world_def empty_world_def)
  ultimately have "sn_initial (statusNames (snd ?r) (p_id p)) = Some (defaultStatusFor (cp_workflowPreset sample_creation))"
    using created_project_is_complete [OF r admin_world_inv] by simp
  then show ?thesis using r by (metis sample_creation_initial)
qed


text \<open>Two requested edges have the same text only when they are the same, while names avoid the arrow.\<close>

definition plain_name :: "string \<Rightarrow> bool" where
  "plain_name s \<longleftrightarrow> hd arrow \<notin> set s"

lemma dedup_edges_plain:
  assumes "\<forall>x \<in> set ts. plain_name (fst x)"
  shows "set (dedup_edges ts) = set ts"
proof
  show "set (dedup_edges ts) \<subseteq> set ts" by (rule dedup_edges_set)
  show "set ts \<subseteq> set (dedup_edges ts)"
  proof
    fix x assume x: "x \<in> set ts"
    then have "edge_text x \<in> edge_text ` set (dedup_edges ts)" unfolding dedup_edges_set(2) by (rule imageI)
    then obtain y where y: "y \<in> set (dedup_edges ts)" "edge_text x = edge_text y" by blast
    have "y \<in> set ts" using y(1) dedup_edges_set(1) by blast
    with x assms have "plain_name (fst x)" "plain_name (fst y)" by blast+
    then have "fst x = fst y \<and> snd x = snd y"
      using y(2) transitionKey_inject unfolding plain_name_def edge_text_def by blast
    then have "x = y" by (simp add: prod_eq_iff)
    with y(1) show "x \<in> set (dedup_edges ts)" by simp
  qed
qed

definition project_edges :: "world \<Rightarrow> string \<Rightarrow> (string \<times> string) list" where
  "project_edges w pid = map (\<lambda>t. (wt_fromStatus t, wt_toStatus t)) (filter (\<lambda>t. wt_projectId t = pid) (transitions w))"

lemma replaced_edges:
  assumes "replace_edges pid es w = Inr w'"
  shows "project_edges w' pid = es" and "q \<noteq> pid \<Longrightarrow> project_edges w' q = project_edges w q"
    and "w' = w\<lparr>transitions := transitions w'\<rparr>"
proof -
  have t: "w' = w\<lparr>transitions := delete_where (\<lambda>t. wt_projectId t = pid) (transitions w) @ edge_rows pid es\<rparr>"
    using assms by (auto simp: replace_edges_def and_then_Inr)
  have "filter (\<lambda>t. wt_projectId t = pid) (edge_rows pid es) = edge_rows pid es"
    by (auto simp: edge_rows_def filter_id_conv)
  moreover have "filter (\<lambda>t. wt_projectId t = q) (edge_rows pid es) = []" if "q \<noteq> pid" for q
    using that by (auto simp: edge_rows_def filter_empty_conv)
  moreover have "filter (\<lambda>t. wt_projectId t = pid) (delete_where (\<lambda>t. wt_projectId t = pid) (transitions w)) = []"
    by (simp add: filter_empty_conv)
  moreover have "filter (\<lambda>t. wt_projectId t = q) (delete_where (\<lambda>t. wt_projectId t = pid) rows) =
      filter (\<lambda>t. wt_projectId t = q) rows" if "q \<noteq> pid" for q and rows :: "transition_row list"
    using that by (induction rows) auto
  ultimately show "project_edges w' pid = es" "q \<noteq> pid \<Longrightarrow> project_edges w' q = project_edges w q"
    "w' = w\<lparr>transitions := transitions w'\<rparr>"
    by (simp_all add: t project_edges_def edge_rows_def comp_def case_prod_beta)
qed

text \<open>
  Replacing the allowed transitions. When the request succeeds the caller is a Manager and
  the project has exactly the requested edges (those whose text was requested, should a name
  contain the arrow), without repetition, each between two different statuses of the project;
  other projects keep theirs and the workflow invariant still holds.
\<close>

theorem transitions_replaced:
  assumes "replaceWorkflowTransitions u pid ts w = (Inr es, w')" and "workflow_inv w"
  shows "has_role w u pid Manager \<and> project_edges w' pid = es \<and> distinct es \<and> set es \<subseteq> set ts \<and>
    ((\<forall>x \<in> set ts. plain_name (fst x)) \<longrightarrow> set es = set ts) \<and>
    (\<forall>x \<in> set es. (pid, fst x) \<in> status_key ` set (statuses w) \<and> (pid, snd x) \<in> status_key ` set (statuses w) \<and> fst x \<noteq> snd x) \<and>
    (\<forall>q. q \<noteq> pid \<longrightarrow> project_edges w' q = project_edges w q) \<and> workflow_inv w'"
proof -
  let ?valid = "set (map s_name (filter (\<lambda>s. s_projectId s = pid) (statuses w)))"
  obtain w1 r where ok: "assertAtLeast w u pid Manager = Inr r" "validate_edges ?valid ts = Inr ()"
    and es: "es = dedup_edges ts" and w1: "replace_edges pid es w = Inr w1"
    and w': "w' = emit (ProjectWorkflowUpdated pid (au_id u) (length es) False) w1"
    using assms(1) by (auto simp: replaceWorkflowTransitions_def attempt_Inr Let_def)
  have role: "has_role w u pid Manager" using ok(1) assertAtLeast_ok by blast
  have keys: "n \<in> ?valid \<Longrightarrow> (pid, n) \<in> status_key ` set (statuses w)" for n by (force simp: status_key_def)
  have sub: "set es \<subseteq> set ts" unfolding es by (rule dedup_edges_set)
  have ends: "\<forall>x \<in> set es. (pid, fst x) \<in> status_key ` set (statuses w) \<and> (pid, snd x) \<in> status_key ` set (statuses w) \<and> fst x \<noteq> snd x"
    using ok(2) sub keys unfolding validate_edges_Inr by blast
  then have "workflow_inv w1" by (intro replace_edges_inv [OF assms(2) w1]) blast
  then have "workflow_inv w'" by (simp add: w' workflow_inv_defs)
  moreover have "project_edges w' = project_edges w1" by (simp add: w' project_edges_def fun_eq_iff)
  ultimately show ?thesis
    using role sub ends replaced_edges [OF w1] dedup_edges_set(3) dedup_edges_plain by (simp add: es)
qed

theorem transitions_replaced_witness:
  "project_edges (snd (replaceWorkflowTransitions sample_admin ''P'' [(''Done'', ''Todo''), (''Done'', ''Todo'')] two_status_world)) ''P'' =
    [(''Done'', ''Todo'')]"
proof -
  let ?r = "replaceWorkflowTransitions sample_admin ''P'' [(''Done'', ''Todo''), (''Done'', ''Todo'')] two_status_world"
  have e: "fst ?r = Inr [(''Done'', ''Todo'')]"
    by (simp add: replaceWorkflowTransitions_def find_project_def dedup_edges_def replace_edges_def two_status_world_def
        empty_world_def sample_project_def sample_status_def unique_rows_def transition_key_def edge_rows_def)
  then have r: "?r = (Inr [(''Done'', ''Todo'')], snd ?r)" by (metis prod.collapse)
  have "workflow_inv two_status_world"
    by (simp add: workflow_inv_defs names_used_def initial_ok_def workflow_samples column_key_def status_key_def column_ref_def
        status_place_def task_status_def edge_from_def edge_to_def)
  from transitions_replaced [OF r this] show ?thesis by blast
qed


lemma updated_twice:
  "(\<And>p. k (f p) = k p) \<Longrightarrow> update_where (\<lambda>p. k p = x) g (update_where (\<lambda>p. k p = x) f rows) =
    update_where (\<lambda>p. k p = x) (g \<circ> f) rows"
  by (induction rows) auto

lemma find_updated_row:
  "(\<And>r. k (f r) = k r) \<Longrightarrow> find_row k x (update_where (\<lambda>r. k r = x) f rows) = map_option f (find_row k x rows)"
  by (induction rows) auto

lemma find_project_written:
  "(\<And>p. p_id (f p) = p_id p) \<Longrightarrow> find_project (write_project pid f w) pid = map_option f (find_project w pid)"
  by (simp add: find_project_def write_project_def find_updated_row)

lemma listed_live: "set (listForUser v w) \<subseteq> {q \<in> set (projects w). p_archivedAt q = None}"
  unfolding listForUser_def Let_def newest_first_def set_order_by set_filter by blast

text \<open>
  Archiving is undone by restoring. Archiving a live project and restoring it leaves every
  table as it was, with the two events emitted; while it is archived nobody is listed it, and
  archiving it again changes nothing.
\<close>

theorem archive_restore_roundtrip:
  assumes "is_admin u" and "distinct (map p_id (projects w))"
    and "find_project w pid = Some p" and "p_archivedAt p = None"
  shows "\<exists>w1. archive e u pid w = (Inr (), w1) \<and> pid \<notin> p_id ` set (listForUser v w1) \<and>
    archive e' u pid w1 = (Inr (), w1) \<and>
    restore u pid w1 = (Inr (), w\<lparr>emitted := emitted w @ [ProjectArchived pid (au_id u), ProjectRestored pid (au_id u)]\<rparr>)"
proof -
  let ?f = "\<lambda>p. p\<lparr>p_archivedAt := Some (clk e 0)\<rparr>" and ?g = "\<lambda>p. p\<lparr>p_archivedAt := None :: int option\<rparr>"
  let ?w1 = "emit (ProjectArchived pid (au_id u)) (write_project pid ?f w)"
  have adm: "assertAdmin u = Inr ()" using assms(1) by simp
  have a: "archive e u pid w = (Inr (), ?w1)" using assms(3,4) by (simp add: archive_def adm)
  have f1: "find_project ?w1 pid = Some (?f p)"
    using find_project_written [of ?f pid w] assms(3) by (simp add: find_project_def)
  then have again: "archive e' u pid ?w1 = (Inr (), ?w1)" by (simp add: archive_def adm)
  have "p_archivedAt q \<noteq> None" if "q \<in> set (projects ?w1)" "p_id q = pid" for q
  proof -
    have "q \<in> (\<lambda>r. if p_id r = pid then ?f r else r) ` set (projects w)"
      using that(1) by (simp add: write_project_def set_update_where)
    then obtain r where "q = (if p_id r = pid then ?f r else r)" by (rule imageE)
    with that(2) show ?thesis by (cases "p_id r = pid") simp_all
  qed
  moreover have "set (listForUser v ?w1) \<subseteq> {q \<in> set (projects ?w1). p_archivedAt q = None}"
    by (rule listed_live)
  ultimately have hidden: "pid \<notin> p_id ` set (listForUser v ?w1)" by blast
  have live: "p_archivedAt q = None" if "q \<in> set (projects w)" "p_id q = pid" for q
    using find_row_distinct [OF assms(2) that(1)] that(2) assms(3,4) by (simp add: find_project_def)
  have "update_where (\<lambda>p. p_id p = pid) (?g \<circ> ?f) (projects w) = projects w"
    by (rule update_where_id) (simp add: live)
  then have "write_project pid ?g ?w1 = w\<lparr>emitted := emitted w @ [ProjectArchived pid (au_id u)]\<rparr>"
    by (simp add: write_project_def updated_twice emit_def)
  then have "restore u pid ?w1 =
      (Inr (), w\<lparr>emitted := emitted w @ [ProjectArchived pid (au_id u), ProjectRestored pid (au_id u)]\<rparr>)"
    using f1 by (simp add: restore_def adm emit_def)
  with a again hidden show ?thesis by blast
qed

theorem archive_restore_roundtrip_witness:
  "\<exists>w1. archive sample_env sample_admin ''P'' task_world = (Inr (), w1) \<and>
    ''P'' \<notin> p_id ` set (listForUser sample_admin w1) \<and> projects (snd (restore sample_admin ''P'' w1)) = projects task_world"
proof -
  have "distinct (map p_id (projects task_world))" by (simp add: task_samples)
  moreover have "p_archivedAt (sample_project\<lparr>p_nextTaskNumber := 4\<rparr>) = None" by (simp add: sample_project_def)
  ultimately obtain w1 where "archive sample_env sample_admin ''P'' task_world = (Inr (), w1)"
    and "''P'' \<notin> p_id ` set (listForUser sample_admin w1)"
    and r: "restore sample_admin ''P'' w1 = (Inr (), task_world\<lparr>emitted := emitted task_world @
      [ProjectArchived ''P'' (au_id sample_admin), ProjectRestored ''P'' (au_id sample_admin)]\<rparr>)"
    using archive_restore_roundtrip [OF sample_admin_is_admin _ task_world_find(2), of sample_env sample_admin sample_env] by blast
  moreover have "projects (snd (restore sample_admin ''P'' w1)) = projects task_world" unfolding r by simp
  ultimately show ?thesis by blast
qed

text \<open>
  Revoking does not look at the project of the grant. A Manager of any project who names a
  grant deletes it, also when it belongs to a project on which they have no role.
\<close>

theorem revoke_ignores_project:
  assumes "has_role w u pid Manager" and "g \<in> set (accessGrants w)"
  shows "\<exists>w'. revokeAccess u pid (a_id g) w = (Inr (), w') \<and>
    accessGrants w' = filter (\<lambda>h. a_id h \<noteq> a_id g) (accessGrants w)"
proof -
  obtain r where "assertAtLeast w u pid Manager = Inr r" using assms(1) assertAtLeast_ok by blast
  moreover obtain h where "find_row a_id (a_id g) (accessGrants w) = Some h"
    using assms(2) by (metis find_row_None imageI option.exhaust)
  ultimately show ?thesis by (simp add: revokeAccess_def delete_where_def)
qed

definition two_projects :: world where
  "two_projects = empty_world\<lparr>users := [sample_user ''U''],
     projects := [sample_project, sample_project\<lparr>p_id := ''Q'', p_key := ''OTHER''\<rparr>],
     accessGrants := [\<lparr>a_id = ''g1'', a_projectId = ''P'', a_subjectKind = SubjUser, a_userId = Some ''U'',
         a_teamId = None, a_role = Manager, a_grantedById = ''A''\<rparr>,
       \<lparr>a_id = ''g2'', a_projectId = ''Q'', a_subjectKind = SubjUser, a_userId = Some ''V'',
         a_teamId = None, a_role = Viewer, a_grantedById = ''A''\<rparr>]\<rparr>"

theorem revoke_ignores_project_witness:
  "effectiveRole two_projects sample_member ''Q'' = Inr None \<and>
    filter (\<lambda>g. a_projectId g = ''Q'') (accessGrants two_projects) \<noteq> [] \<and>
    filter (\<lambda>g. a_projectId g = ''Q'') (accessGrants (snd (revokeAccess sample_member ''P'' ''g2'' two_projects))) = []"
proof -
  have P: "effectiveRole two_projects sample_member ''P'' = Inr (Some Manager)"
    and Q: "effectiveRole two_projects sample_member ''Q'' = Inr None"
    by (simp_all add: effectiveRole_def two_projects_def sample_member_def grant_matches_def find_project_def
        empty_world_def sample_project_def sample_user_def)
  have "has_role two_projects sample_member ''P'' Manager" using P by (simp add: has_role_def)
  from revoke_ignores_project [OF this, of "accessGrants two_projects ! 1"]
  obtain w' where "revokeAccess sample_member ''P'' ''g2'' two_projects = (Inr (), w')"
    and "accessGrants w' = filter (\<lambda>h. a_id h \<noteq> ''g2'') (accessGrants two_projects)"
    by (auto simp: two_projects_def)
  with Q show ?thesis by (simp add: two_projects_def)
qed


section \<open>Projects from templates\<close>

lemma fold_insert_absent_keys: "key ` set (fold (insert_absent key) rs rows) = key ` set rs \<union> key ` set rows"
  by (induction rs arbitrary: rows) (auto simp: keys_insert_absent)

lemma clone_tasks_Inr:
  assumes "clone_tasks e u p samples w = Inr w'" and "p_id p \<notin> t_projectId ` set (tasks w)"
    and "find_project w (p_id p) = Some p"
  shows "tasks w' = tasks w @ map (sample_row e u (p_id p) (p_nextTaskNumber p)) (enumerate 0 samples)"
    and "(\<lambda>t. (au_id u, t_id t)) ` set (map (sample_row e u (p_id p) (p_nextTaskNumber p)) (enumerate 0 samples)) \<subseteq>
      watcher_key ` set (watchers w')"
    and "find_project w' (p_id p) = Some (p\<lparr>p_nextTaskNumber := p_nextTaskNumber p + int (length samples)\<rparr>)"
proof -
  let ?rows = "map (sample_row e u (p_id p) (p_nextTaskNumber p)) (enumerate 0 samples)"
  let ?bump = "\<lambda>q. q\<lparr>p_nextTaskNumber := p_nextTaskNumber q + int (length samples)\<rparr>"
  let ?w1 = "write_project (p_id p) ?bump w"
  have other: "filter (\<lambda>t. t_projectId t = p_id p) (tasks w) = []"
    using assms(2) unfolding filter_empty_conv by (metis imageI)
  have own: "filter (\<lambda>t. t_projectId t = p_id p) ?rows = ?rows"
    by (auto simp: filter_id_conv sample_row_def)
  have c: "w' = ?w1\<lparr>tasks := tasks w @ ?rows, watchers := fold (insert_absent watcher_key)
      (map (\<lambda>t. \<lparr>w_userId = au_id u, w_taskId = t_id t\<rparr>) ?rows) (watchers w)\<rparr>" if "samples \<noteq> []"
    using assms(1) that other own
    by (simp add: clone_tasks_def Let_def and_then_Inr write_project_def)
  show "tasks w' = tasks w @ ?rows" using c assms(1) by (cases "samples = []") (simp_all add: clone_tasks_def)
  have "(\<lambda>t. (au_id u, t_id t)) ` set ?rows \<subseteq> watcher_key ` set (watchers w')" if "samples \<noteq> []"
    unfolding c [OF that] 
    by (simp add: fold_insert_absent_keys del: set_map map_map) (auto simp: watcher_key_def image_image)
  then show "(\<lambda>t. (au_id u, t_id t)) ` set ?rows \<subseteq> watcher_key ` set (watchers w')"
    by (cases "samples = []") simp_all
  have "find_project ?w1 (p_id p) = Some (?bump p)" using assms(3) by (simp add: find_project_written)
  moreover have "find_project w' = find_project ?w1" if "samples \<noteq> []"
    unfolding c [OF that] by (simp add: find_project_def fun_eq_iff)
  ultimately show "find_project w' (p_id p) = Some (?bump p)"
    using assms(1,3) by (cases "samples = []") (simp_all add: clone_tasks_def)
qed

text \<open>
  A project from a template holds the sample tasks of the template, in their order, numbered
  from 1, in the status each one names (\<open>Todo\<close> when it names none, whatever statuses the preset
  has), watched by the administrator; the next number follows them and other projects keep
  their tasks.
\<close>

theorem template_tasks_cloned:
  assumes "createFromTemplate e u tid key nm descr w = (Inr p, w')" and "fresh_project (uuid e 0) w"
  shows "\<exists>tpl mine. find_row tpl_id tid (templates w) = Some tpl \<and> tasks w' = tasks w @ mine \<and>
    (\<forall>t \<in> set mine. t_projectId t = p_id p \<and> (au_id u, t_id t) \<in> watcher_key ` set (watchers w')) \<and>
    map t_title mine = map tt_title (tpl_sampleTasks tpl) \<and>
    map t_keyNumber mine = map (\<lambda>i. 1 + int i) [0..<length (tpl_sampleTasks tpl)] \<and>
    map t_status mine = map (\<lambda>s. override (tt_status s) ''Todo'') (tpl_sampleTasks tpl) \<and>
    map_option p_nextTaskNumber (find_project w' (p_id p)) = Some (1 + int (length mine))"
proof -
  let ?new = "\<lambda>tpl. new_project e u key nm descr (tpl_visibility tpl) (tpl_workflowPreset tpl) (tpl_sprintsEnabled tpl)"
  obtain tpl k d w1 w3 where tpl: "find_row tpl_id tid (templates w) = Some tpl"
    and seeded: "create_seeded e (?new tpl) w = Inr (p, w1)"
    and cloned: "clone_tasks (after_draws k e) u p (tpl_sampleTasks tpl) (clone_labels (after_draws d e) (p_id p) (tpl_labels tpl) w1) = Inr w3"
    and w': "w' = emit (ProjectCreated (p_id p) (au_id u) (Some tid)) w3"
    using assms(1)
    by (auto simp: createFromTemplate_def attempt_Inr and_then_Inr Let_def split: prod.splits)
  let ?w2 = "clone_labels (after_draws d e) (p_id p) (tpl_labels tpl) w1"
  have p: "p = ?new tpl" and seed: "seedDefaults (after_draws 1 e) (p_id (?new tpl)) (p_workflowPreset (?new tpl))
      (w\<lparr>projects := projects w @ [?new tpl]\<rparr>) = Inr w1"
    using create_seeded_Inr [OF seeded] by auto
  have same: "tasks ?w2 = tasks w" "projects ?w2 = projects w @ [p]"
    using seedDefaults_Inr(1) [OF seed] by (simp_all add: clone_labels_def p)
  have pid: "p_id p = uuid e 0" and one: "p_nextTaskNumber p = 1" by (simp_all add: p new_project_def)
  have "p_id p \<notin> p_id ` set (projects w)" using assms(2) by (simp add: fresh_project_def pid)
  then have "find_row p_id (p_id p) (projects w) = None" by (simp add: find_row_None)
  then have fp: "find_project ?w2 (p_id p) = Some p" by (simp add: find_project_def same find_row_append)
  have "p_id p \<notin> t_projectId ` set (tasks ?w2)" using assms(2) unfolding same by (simp add: fresh_project_def pid)
  note c = clone_tasks_Inr [OF cloned this fp]
  let ?mine = "map (sample_row (after_draws k e) u (p_id p) 1) (enumerate 0 (tpl_sampleTasks tpl))"
  have "tasks w' = tasks w @ ?mine" using c(1) by (simp add: w' same one)
  moreover have "t_projectId t = p_id p \<and> (au_id u, t_id t) \<in> watcher_key ` set (watchers w')" if "t \<in> set ?mine" for t
  proof -
    have "(au_id u, t_id t) \<in> (\<lambda>t. (au_id u, t_id t)) ` set ?mine" using that by (rule imageI)
    then have "(au_id u, t_id t) \<in> watcher_key ` set (watchers w')" using c(2) by (auto simp: w' one)
    moreover have "t_projectId t = p_id p" using that by (auto simp: sample_row_def)
    ultimately show ?thesis by blast
  qed
  moreover have "map t_title ?mine = map tt_title (tpl_sampleTasks tpl)"
    "map t_status ?mine = map (\<lambda>s. override (tt_status s) ''Todo'') (tpl_sampleTasks tpl)"
    "map t_keyNumber ?mine = map (\<lambda>i. 1 + int i) [0..<length (tpl_sampleTasks tpl)]"
    by (rule nth_equalityI; simp add: sample_row_def nth_enumerate_eq)+
  moreover have "map_option p_nextTaskNumber (find_project w' (p_id p)) = Some (1 + int (length ?mine))"
    using c(3) by (simp add: w' one find_project_def)
  ultimately show ?thesis using tpl by blast
qed

definition template_world :: world where
  "template_world = admin_world\<lparr>templates := [\<lparr>tpl_id = ''T'', tpl_name = ''start'', tpl_description = None,
     tpl_workflowPreset = Generic, tpl_sprintsEnabled = False, tpl_visibility = PTeams,
     tpl_labels = [(''ui'', ''red'')], tpl_sampleTasks = [\<lparr>tt_title = ''first'', tt_description = None,
       tt_type = None, tt_priority = None, tt_status = Some ''Nowhere''\<rparr>], tpl_createdById = ''A''\<rparr>]\<rparr>"

theorem template_tasks_cloned_witness:
  "map t_status (tasks (snd (createFromTemplate sample_env sample_admin ''T'' ''NEW'' ''new'' None template_world))) = [''Nowhere''] \<and>
    ''Nowhere'' \<notin> set (WORKFLOW_STATUSES Generic)"
proof -
  let ?r = "createFromTemplate sample_env sample_admin ''T'' ''NEW'' ''new'' None template_world"
  have "\<exists>p. fst ?r = Inr p"
    by (simp add: createFromTemplate_def Let_def assertAdmin_def create_seeded_def insert_project_def new_project_def
        KEY_REGEX_def is_upper_def template_world_def admin_world_def empty_world_def sample_user_def sample_admin_def
        seedDefaults_def unique_rows_def column_key_def status_key_def transition_key_def preset_transitions_def
        clone_tasks_def clone_labels_def write_project_def number_key_def sample_row_def)
  then obtain p where r: "?r = (Inr p, snd ?r)" by (metis prod.collapse)
  have "fresh_project (uuid sample_env 0) template_world"
    by (simp add: fresh_project_def template_world_def admin_world_def empty_world_def)
  from template_tasks_cloned [OF r this] show ?thesis
    by (auto simp: template_world_def admin_world_def empty_world_def)
qed

end
