(* ===== verification/Sprints.thy ===== *)
theory Sprints
  imports TaskLaws
begin

text \<open>
  \<^verbatim>\<open>apps/api/src/modules/sprints/sprints.service.ts\<close>: planning, starting and completing sprints,
  moving tasks in and out of them, and the history of memberships. The unique index of
  \<^verbatim>\<open>companion.sql\<close> that allows one active sprint per project is part of the model of
  \<open>sprint.update\<close>.
\<close>

section \<open>Creating and editing\<close>

record create_sprint_input =
  cs_name :: string
  cs_startDate :: "int option"
  cs_endDate :: "int option"
  cs_goal :: "string option option"

text \<open>\<open>None\<close> is \<open>undefined\<close>, \<open>Some None\<close> is \<open>null\<close>.\<close>

definition MAX_GOAL :: nat where
  "MAX_GOAL = 200"

definition normaliseGoal :: "string option option \<Rightarrow> string option option res" where
  "normaliseGoal goal = (case goal of
     None \<Rightarrow> Inr None
   | Some None \<Rightarrow> Inr (Some None)
   | Some (Some g) \<Rightarrow>
       (let trimmed = trim g
        in if length trimmed = 0 then Inr (Some None)
           else if length trimmed > MAX_GOAL
           then Inl (BadRequest ''Sprint goal must be 200 characters or fewer'')
           else Inr (Some (Some trimmed))))"

definition createSprint :: "env \<Rightarrow> auth_user \<Rightarrow> string \<Rightarrow> create_sprint_input \<Rightarrow> world \<Rightarrow> sprint_row res \<times> world" where
  "createSprint e u pid i w =
     attempt (assertAtLeast w u pid Manager) w (\<lambda>_.
     attempt (project_or_throw w pid) w (\<lambda>project.
     attempt (require (p_sprintsEnabled project) (BadRequest ''Project does not have sprints enabled'')) w (\<lambda>_.
     attempt (normaliseGoal (cs_goal i)) w (\<lambda>goal.
     let s = \<lparr>sp_id = uuid e 0, sp_projectId = pid, sp_name = cs_name i, sp_goal = override goal None,
              sp_startDate = cs_startDate i, sp_endDate = cs_endDate i, sp_state = Planned,
              sp_createdById = au_id u, sp_createdAt = clk e 0\<rparr>
     in attempt (require (au_id u \<in> u_id ` set (users w)) (DbError P2003)) w (\<lambda>_.
        (Inr s, emit (SprintCreated (sp_id s) pid (au_id u)) (w\<lparr>sprints := sprints w @ [s]\<rparr>)))))))"

definition write_sprint :: "string \<Rightarrow> (sprint_row \<Rightarrow> sprint_row) \<Rightarrow> world \<Rightarrow> world" where
  "write_sprint sid f w = w\<lparr>sprints := update_where (\<lambda>s. sp_id s = sid) f (sprints w)\<rparr>"

definition updateMetadata :: "auth_user \<Rightarrow> string \<Rightarrow> string option option \<Rightarrow> world \<Rightarrow> sprint_row res \<times> world" where
  "updateMetadata u sid goal w =
     attempt (found (NotFound ''Sprint not found'') (find_sprint w sid)) w (\<lambda>sprint.
     attempt (assertAtLeast w u (sp_projectId sprint) Manager) w (\<lambda>_.
     if goal = None then attempt (sprint_or_throw w sid) w (\<lambda>s. (Inr s, w))
     else attempt (normaliseGoal goal) w (\<lambda>normalised.
       let g = override normalised None; upd = (\<lambda>s. s\<lparr>sp_goal := g\<rparr>)
       in (Inr (upd sprint), emit (SprintUpdated sid (sp_projectId sprint) (au_id u) g) (write_sprint sid upd w)))))"

section \<open>Reading\<close>

fun state_rank :: "sprint_state \<Rightarrow> nat" where
  "state_rank Planned = 0"
| "state_rank Active = 1"
| "state_rank Completed = 2"

definition sprint_order :: "sprint_row \<Rightarrow> sprint_row \<Rightarrow> bool" where
  "sprint_order a b \<longleftrightarrow> (if sp_state a = sp_state b then sp_createdAt b \<le> sp_createdAt a
     else state_rank (sp_state a) < state_rank (sp_state b))"

definition listSprints :: "auth_user \<Rightarrow> string \<Rightarrow> world \<Rightarrow> (sprint_row \<times> nat) list res" where
  "listSprints u pid w =
     and_then (assertAtLeast w u pid Viewer) (\<lambda>_.
     Inr (map (\<lambda>s. (s, count_where (\<lambda>t. t_sprintId t = Some (sp_id s)) (tasks w)))
       (order_by sprint_order (filter (\<lambda>s. sp_projectId s = pid) (sprints w)))))"

definition getSprint :: "auth_user \<Rightarrow> string \<Rightarrow> world \<Rightarrow> (sprint_row \<times> task_row list) res" where
  "getSprint u sid w =
     and_then (found (NotFound ''Sprint not found'') (find_sprint w sid)) (\<lambda>sprint.
     and_then (assertAtLeast w u (sp_projectId sprint) Viewer) (\<lambda>_.
     Inr (sprint, filter (\<lambda>t. t_sprintId t = Some sid) (tasks w))))"

fun priority_rank :: "priority \<Rightarrow> nat" where
  "priority_rank Low = 0"
| "priority_rank Medium = 1"
| "priority_rank High = 2"
| "priority_rank Critical = 3"

record planning_item =
  pi_task :: task_row
  pi_assignee :: "(string \<times> string \<times> string option) option"
  pi_subtasks :: nat
  pi_key :: string
  pi_labels :: "label_row list"

definition planning_item_of :: "world \<Rightarrow> string \<Rightarrow> task_row \<Rightarrow> planning_item" where
  "planning_item_of w key t = \<lparr>pi_task = t,
     pi_assignee = Option.bind (t_assigneeUserId t) (\<lambda>uid.
        map_option (\<lambda>r. (u_id r, u_name r, u_avatarUrl r)) (find_row u_id uid (users w))),
     pi_subtasks = length (children w (t_id t)),
     pi_key = key @ CHR ''-'' # show_int (t_keyNumber t),
     pi_labels = [l. x \<leftarrow> taskLabels w, tl_taskId x = t_id t, l \<leftarrow> labels w, lb_id l = tl_labelId x]\<rparr>"

text \<open>The statuses sprints count as done.\<close>

definition sprint_done :: "workflow_preset \<Rightarrow> string set" where
  "sprint_done preset = (if preset = Design then {''Approved'', ''Done''} else {''Done''})"

definition backlog_order :: "task_row \<Rightarrow> task_row \<Rightarrow> bool" where
  "backlog_order a b \<longleftrightarrow> (if t_priority a = t_priority b then t_createdAt b \<le> t_createdAt a
     else priority_rank (t_priority b) < priority_rank (t_priority a))"

definition listBacklog :: "auth_user \<Rightarrow> string \<Rightarrow> world \<Rightarrow> planning_item list res" where
  "listBacklog u pid w =
     and_then (assertAtLeast w u pid Viewer) (\<lambda>_.
     and_then (project_or_throw w pid) (\<lambda>project.
     Inr (map (planning_item_of w (p_key project))
       (order_by backlog_order (filter (\<lambda>t. t_projectId t = pid \<and> t_sprintId t = None \<and>
          t_parentTaskId t = None \<and> t_status t \<notin> sprint_done (p_workflowPreset project)) (tasks w))))))"

definition planning_order :: "env \<Rightarrow> task_row \<Rightarrow> task_row \<Rightarrow> bool" where
  "planning_order e a b \<longleftrightarrow> (if t_priority a = t_priority b then coll e (t_boardPosition a) (t_boardPosition b)
     else priority_rank (t_priority b) < priority_rank (t_priority a))"

definition listTasksInSprint :: "env \<Rightarrow> auth_user \<Rightarrow> string \<Rightarrow> world \<Rightarrow> planning_item list res" where
  "listTasksInSprint e u sid w =
     and_then (found (NotFound ''Sprint not found'') (find_sprint w sid)) (\<lambda>sprint.
     and_then (project_or_throw w (sp_projectId sprint)) (\<lambda>project.
     and_then (assertAtLeast w u (sp_projectId sprint) Viewer) (\<lambda>_.
     Inr (map (planning_item_of w (p_key project))
       (order_by (planning_order e) (filter (\<lambda>t. t_sprintId t = Some sid \<and> t_parentTaskId t = None) (tasks w)))))))"

section \<open>Starting and completing\<close>

fun state_text :: "sprint_state \<Rightarrow> string" where
  "state_text Planned = ''planned''"
| "state_text Active = ''active''"
| "state_text Completed = ''completed''"

text \<open>The unique index: the project of every active sprint, without repetition.\<close>

definition active_projects :: "sprint_row list \<Rightarrow> string list" where
  "active_projects ss = map sp_projectId (filter (\<lambda>s. sp_state s = Active) ss)"

definition startSprint :: "env \<Rightarrow> auth_user \<Rightarrow> string \<Rightarrow> world \<Rightarrow> sprint_row res \<times> world" where
  "startSprint e u sid w =
     attempt (sprint_or_throw w sid) w (\<lambda>sprint.
     attempt (assertAtLeast w u (sp_projectId sprint) Manager) w (\<lambda>_.
     attempt (require (sp_state sprint = Planned)
       (BadRequest (''Sprint is '' @ state_text (sp_state sprint) @ '', can only start planned''))) w (\<lambda>_.
     let upd = (\<lambda>s. s\<lparr>sp_state := Active,
           sp_startDate := (case sp_startDate sprint of None \<Rightarrow> Some (clk e 0) | Some d \<Rightarrow> Some d)\<rparr>);
         w1 = write_sprint sid upd w
     in attempt (require (distinct (active_projects (sprints w1)))
          (Conflict ''Another sprint is already active in this project'' [])) w (\<lambda>_.
        (Inr (upd sprint), emit (SprintStarted sid (sp_projectId sprint) (au_id u)) w1)))))"

datatype incomplete_destination = ToBacklog | ToNextPlanned

definition move_tasks :: "(task_row \<Rightarrow> bool) \<Rightarrow> string option \<Rightarrow> world \<Rightarrow> world" where
  "move_tasks p sid w = w\<lparr>tasks := update_where p (\<lambda>t. t\<lparr>t_sprintId := sid\<rparr>) (tasks w)\<rparr>"

definition open_membership :: "string \<Rightarrow> int \<Rightarrow> string \<Rightarrow> membership_row" where
  "open_membership sid now tid = \<lparr>sm_sprintId = sid, sm_taskId = tid, sm_addedAt = now, sm_removedAt = None\<rparr>"

definition open_memberships :: "string \<Rightarrow> int \<Rightarrow> string list \<Rightarrow> world \<Rightarrow> world" where
  "open_memberships sid now tids w = w\<lparr>memberships := memberships w @ map (open_membership sid now) tids\<rparr>"

definition close_memberships :: "string \<Rightarrow> string list \<Rightarrow> int \<Rightarrow> world \<Rightarrow> world" where
  "close_memberships sid tids now w = w\<lparr>memberships :=
     update_where (\<lambda>m. sm_sprintId m = sid \<and> sm_taskId m \<in> set tids \<and> sm_removedAt m = None)
       (\<lambda>m. m\<lparr>sm_removedAt := Some now\<rparr>) (memberships w)\<rparr>"

definition next_planned :: "string \<Rightarrow> world \<Rightarrow> sprint_row option" where
  "next_planned pid w = (case order_by (\<lambda>a b. sp_createdAt a \<le> sp_createdAt b)
       (filter (\<lambda>s. sp_projectId s = pid \<and> sp_state s = Planned) (sprints w)) of
     [] \<Rightarrow> None | s # _ \<Rightarrow> Some s)"

text \<open>The destination of the tasks that leave, with the number of clock reads.\<close>

definition move_incomplete :: "env \<Rightarrow> incomplete_destination \<Rightarrow> sprint_row \<Rightarrow> string set \<Rightarrow> string list \<Rightarrow>
    world \<Rightarrow> world \<times> nat" where
  "move_incomplete e dest sprint doneFilter movingIds w =
     (let leaving = (\<lambda>done t. t_sprintId t = Some (sp_id sprint) \<and> t_status t \<notin> done)
      in case dest of
        ToBacklog \<Rightarrow> (move_tasks (leaving doneFilter) None w, 0)
      | ToNextPlanned \<Rightarrow>
         (case next_planned (sp_projectId sprint) w of
            Some next_sprint \<Rightarrow>
              (open_memberships (sp_id next_sprint) (clk e 0) movingIds
                 (move_tasks (leaving {''Done'', ''Approved''}) (Some (sp_id next_sprint)) w), 1)
          | None \<Rightarrow> (move_tasks (leaving {''Done'', ''Approved''}) None w, 0)))"

definition complete_tx :: "env \<Rightarrow> incomplete_destination \<Rightarrow> sprint_row \<Rightarrow> workflow_preset \<Rightarrow> world \<Rightarrow> world" where
  "complete_tx e dest sprint preset w =
     (let doneFilter = sprint_done preset;
          movingIds = map t_id (filter (\<lambda>t. t_sprintId t = Some (sp_id sprint) \<and> t_status t \<notin> doneFilter) (tasks w));
          (w1, n) = move_incomplete e dest sprint doneFilter movingIds w;
          (w2, k) = (if movingIds = [] then (w1, n)
                     else (close_memberships (sp_id sprint) movingIds (clk e n) w1, Suc n))
      in write_sprint (sp_id sprint) (\<lambda>s. s\<lparr>sp_state := Completed, sp_endDate := Some (clk e k)\<rparr>) w2)"

definition completeSprint :: "env \<Rightarrow> auth_user \<Rightarrow> string \<Rightarrow> incomplete_destination option \<Rightarrow> world \<Rightarrow>
    sprint_row res \<times> world" where
  "completeSprint e u sid moveIncompleteTo w =
     attempt (sprint_or_throw w sid) w (\<lambda>sprint.
     attempt (project_or_throw w (sp_projectId sprint)) w (\<lambda>project.
     attempt (assertAtLeast w u (sp_projectId sprint) Manager) w (\<lambda>_.
     attempt (require (sp_state sprint = Active)
       (BadRequest (''Sprint is '' @ state_text (sp_state sprint) @ '', can only complete active''))) w (\<lambda>_.
     let w1 = complete_tx e (override moveIncompleteTo ToBacklog) sprint (p_workflowPreset project) w
     in attempt (sprint_or_throw w1 sid) w (\<lambda>completed.
        (Inr completed, emit (SprintCompleted sid (sp_projectId sprint) (au_id u)) w1))))))"

text \<open>Deleting: the tasks lose the sprint, the memberships go with it.\<close>

definition cascade_sprint :: "string \<Rightarrow> world \<Rightarrow> world" where
  "cascade_sprint sid w = w\<lparr>sprints := delete_where (\<lambda>s. sp_id s = sid) (sprints w),
     tasks := update_where (\<lambda>t. t_sprintId t = Some sid) (\<lambda>t. t\<lparr>t_sprintId := None\<rparr>) (tasks w),
     memberships := delete_where (\<lambda>m. sm_sprintId m = sid) (memberships w),
     retros := delete_where (\<lambda>r. sr_sprintId r = sid) (retros w),
     goalEvaluations := delete_where (\<lambda>g. sg_sprintId g = sid) (goalEvaluations w)\<rparr>"

definition deleteSprint :: "auth_user \<Rightarrow> string \<Rightarrow> world \<Rightarrow> unit res \<times> world" where
  "deleteSprint u sid w =
     attempt (sprint_or_throw w sid) w (\<lambda>sprint.
     attempt (assertAtLeast w u (sp_projectId sprint) Manager) w (\<lambda>_.
     (Inr (), emit (SprintDeleted sid (sp_projectId sprint) (au_id u)) (cascade_sprint sid w))))"

section \<open>Moving tasks\<close>

definition addTasks :: "env \<Rightarrow> auth_user \<Rightarrow> string \<Rightarrow> string list \<Rightarrow> world \<Rightarrow> nat res \<times> world" where
  "addTasks e u sid taskIds w =
     attempt (found (NotFound ''Sprint not found'') (find_sprint w sid)) w (\<lambda>sprint.
     attempt (assertAtLeast w u (sp_projectId sprint) Contributor) w (\<lambda>_.
     attempt (require (sp_state sprint \<noteq> Completed) (BadRequest ''Cannot modify a completed sprint'')) w (\<lambda>_.
     let ids = filter (\<lambda>x. x \<noteq> []) (uniq taskIds) in
     if ids = [] then (Inr 0, w) else
     let rows = filter (\<lambda>t. t_id t \<in> set ids) (tasks w);
         missingIds = filter (\<lambda>x. x \<notin> set (map t_id rows)) ids;
         crossProject = map t_id (filter (\<lambda>t. t_projectId t \<noteq> sp_projectId sprint) rows)
     in attempt (require (missingIds = [] \<and> crossProject = [])
          (BadRequestIds (''Some task IDs are not in this sprint'' @ [CHR 0x27] @ ''s project'')
             missingIds crossProject)) w (\<lambda>_.
        let moved = (\<lambda>t. t_id t \<in> set ids \<and> t_projectId t = sp_projectId sprint)
        in (Inr (count_where moved (tasks w)),
            emit (SprintTasksAdded sid (sp_projectId sprint) ids (au_id u))
              (open_memberships sid (clk e 0) ids (move_tasks moved (Some sid) w)))))))"

definition removeFromSprint :: "env \<Rightarrow> auth_user \<Rightarrow> string \<Rightarrow> string \<Rightarrow> world \<Rightarrow> unit res \<times> world" where
  "removeFromSprint e u sid tid w =
     attempt (found (NotFound ''Sprint not found'') (find_sprint w sid)) w (\<lambda>sprint.
     attempt (found (NotFound ''Task not found'') (find_task w tid)) w (\<lambda>task.
     attempt (require (t_projectId task = sp_projectId sprint)
       (BadRequest ''Task is not in the same project as the sprint'')) w (\<lambda>_.
     if t_sprintId task \<noteq> Some sid then (Inr (), w) else
     attempt (assertAtLeast w u (sp_projectId sprint) Contributor) w (\<lambda>_.
     attempt (require (sp_state sprint \<noteq> Completed) (BadRequest ''Cannot modify a completed sprint'')) w (\<lambda>_.
     (Inr (), emit (SprintTaskRemoved sid (sp_projectId sprint) tid (au_id u))
        (close_memberships sid [tid] (clk e 0) (move_tasks (\<lambda>t. t_id t = tid) None w))))))))"

end
