(* ===== verification/SprintLaws.thy ===== *)
theory SprintLaws
  imports Sprints
begin

text \<open>
  The laws of the sprint service: the invariant of its tables, the life cycle of sprints as an
  abstract machine that every operation follows, and what completing a sprint and adding tasks
  to it do to tasks and memberships.
\<close>

section \<open>The life cycle\<close>

text \<open>What the service promises of its sprints: for each one its project and state.\<close>

type_synonym sprint_view = "string \<Rightarrow> (string \<times> sprint_state) option"

definition lifecycle :: "world \<Rightarrow> sprint_view" where
  "lifecycle w sid = map_option (\<lambda>s. (sp_projectId s, sp_state s)) (find_sprint w sid)"

text \<open>The names of the steps: what an operation may do to one sprint, and nothing else.\<close>

datatype sprint_event = Plans string | Starts string | Finishes string | Drops string | Stays

inductive lifecycle_step :: "sprint_event \<Rightarrow> sprint_view \<Rightarrow> sprint_view \<Rightarrow> bool" where
  plan: "f sid = None \<Longrightarrow> lifecycle_step (Plans pid) f (f(sid \<mapsto> (pid, Planned)))"
| start: "f sid = Some (pid, Planned) \<Longrightarrow> \<forall>k. f k \<noteq> Some (pid, Active) \<Longrightarrow>
    lifecycle_step (Starts sid) f (f(sid \<mapsto> (pid, Active)))"
| finish: "f sid = Some (pid, Active) \<Longrightarrow> lifecycle_step (Finishes sid) f (f(sid \<mapsto> (pid, Completed)))"
| drop: "f sid \<noteq> None \<Longrightarrow> lifecycle_step (Drops sid) f (f(sid := None))"

inductive_cases lifecycle_stepE: "lifecycle_step l f g"

text \<open>How far a sprint has come.\<close>

fun stage_of :: "sprint_state \<Rightarrow> nat" where
  "stage_of Planned = 0"
| "stage_of Active = 1"
| "stage_of Completed = 2"

definition reached :: "string \<Rightarrow> string \<Rightarrow> nat \<Rightarrow> sprint_view \<Rightarrow> bool" where
  "reached sid pid n f \<longleftrightarrow> (\<exists>st. f sid = Some (pid, st) \<and> n \<le> stage_of st)"

lemma lifecycle_step_reached:
  "lifecycle_step l f g \<Longrightarrow> l \<noteq> Drops sid \<Longrightarrow> reached sid pid n f \<Longrightarrow> reached sid pid n g"
  by (auto simp: reached_def elim!: lifecycle_stepE)

definition one_active :: "sprint_view \<Rightarrow> bool" where
  "one_active f \<longleftrightarrow> (\<forall>j k pid. f j = Some (pid, Active) \<longrightarrow> f k = Some (pid, Active) \<longrightarrow> j = k)"

lemma lifecycle_step_active: "lifecycle_step l f g \<Longrightarrow> one_active f \<Longrightarrow> one_active g"
  by (induction rule: lifecycle_step.induct) (auto simp: one_active_def)

section \<open>The invariant\<close>

definition sprint_ref :: "sprint_row \<Rightarrow> string \<times> string" where
  "sprint_ref s = (sp_id s, sp_projectId s)"

definition task_sprints :: "task_row list \<Rightarrow> (string \<times> string) set" where
  "task_sprints ts = {(sid, pid). \<exists>t \<in> set ts. t_sprintId t = Some sid \<and> t_projectId t = pid}"

definition sprints_inv :: "world \<Rightarrow> bool" where
  "sprints_inv w \<longleftrightarrow> distinct (map sp_id (sprints w)) \<and> distinct (active_projects (sprints w)) \<and>
     task_sprints (tasks w) \<subseteq> sprint_ref ` set (sprints w)"

lemmas sprint_steps = attempt_inv [where P = sprints_inv]

lemma sprints_inv_emit [simp]: "sprints_inv (emit ev w) = sprints_inv w"
  by (simp add: sprints_inv_def)

lemma sprints_inv_memberships [simp]: "sprints_inv (w\<lparr>memberships := ms\<rparr>) = sprints_inv w"
  by (simp add: sprints_inv_def)

lemma lifecycle_others [simp]:
  "lifecycle (emit ev w) = lifecycle w" "lifecycle (w\<lparr>memberships := ms\<rparr>) = lifecycle w"
  "lifecycle (move_tasks p x w) = lifecycle w" "lifecycle (open_memberships sid now tids w) = lifecycle w"
  "lifecycle (close_memberships sid tids now w) = lifecycle w"
  by (simp_all add: lifecycle_def fun_eq_iff find_sprint_def move_tasks_def open_memberships_def close_memberships_def)

lemma membership_fields [simp]:
  "tasks (open_memberships sid now tids w) = tasks w" "sprints (open_memberships sid now tids w) = sprints w"
  "tasks (close_memberships sid tids now w) = tasks w" "sprints (close_memberships sid tids now w) = sprints w"
  "sprints (move_tasks p x w) = sprints w" "memberships (move_tasks p x w) = memberships w"
  "sprints_inv (open_memberships sid now tids w) = sprints_inv w"
  "sprints_inv (close_memberships sid tids now w) = sprints_inv w"
  by (simp_all add: open_memberships_def close_memberships_def move_tasks_def)

lemma write_sprint_fields [simp]:
  "tasks (write_sprint sid f w) = tasks w" "memberships (write_sprint sid f w) = memberships w"
  "sprints (write_sprint sid f w) = update_where (\<lambda>s. sp_id s = sid) f (sprints w)"
  by (simp_all add: write_sprint_def)

lemma task_sprints_moved:
  "task_sprints (tasks (move_tasks p None w)) \<subseteq> task_sprints (tasks w)"
  "task_sprints (tasks (move_tasks p (Some k) w)) \<subseteq>
     task_sprints (tasks w) \<union> {(k, t_projectId t) | t. t \<in> set (tasks w) \<and> p t}"
  by (auto simp: move_tasks_def task_sprints_def set_update_where split: if_splits)

lemma moved_out_inv: "sprints_inv w \<Longrightarrow> sprints_inv (move_tasks p None w)"
  using task_sprints_moved(1) [of p w] by (auto simp: sprints_inv_def)

lemma moved_in_inv:
  assumes "sprints_inv w" and "\<And>t. t \<in> set (tasks w) \<Longrightarrow> p t \<Longrightarrow> (k, t_projectId t) \<in> sprint_ref ` set (sprints w)"
  shows "sprints_inv (move_tasks p (Some k) w)"
proof -
  have "{(k, t_projectId t) | t. t \<in> set (tasks w) \<and> p t} \<subseteq> sprint_ref ` set (sprints w)" using assms(2) by blast
  with assms(1) task_sprints_moved(2) [of p k w] show ?thesis
    unfolding sprints_inv_def membership_fields by blast
qed

lemma find_sprint_ref: "find_sprint w sid = Some s \<Longrightarrow> (sid, sp_projectId s) \<in> sprint_ref ` set (sprints w)"
  using find_sprintD by (force simp: sprint_ref_def)

lemma sprint_task_project:
  assumes "sprints_inv w" and "find_sprint w sid = Some s" and "t \<in> set (tasks w)" and "t_sprintId t = Some sid"
  shows "t_projectId t = sp_projectId s"
proof -
  have "(sid, t_projectId t) \<in> task_sprints (tasks w)" using assms(3,4) by (auto simp: task_sprints_def)
  then have "(sid, t_projectId t) \<in> sprint_ref ` set (sprints w)" using assms(1) by (auto simp: sprints_inv_def)
  then obtain s' where "s' \<in> set (sprints w)" "sp_id s' = sid" "sp_projectId s' = t_projectId t"
    by (auto simp: sprint_ref_def)
  moreover from this have "find_sprint w sid = Some s'"
    using assms(1) find_row_distinct [of sp_id "sprints w" s'] by (simp add: sprints_inv_def find_sprint_def)
  ultimately show ?thesis using assms(2) by simp
qed

text \<open>An update of one sprint: its identity stays, only its state may change.\<close>

lemma find_sprint_written:
  assumes "\<And>s. sp_id (f s) = sp_id s"
  shows "find_sprint (write_sprint sid f w) k = map_option (\<lambda>s. if sp_id s = sid then f s else s) (find_sprint w k)"
proof -
  have "find_row sp_id k (update_where p f rows) = map_option (\<lambda>s. if p s then f s else s) (find_row sp_id k rows)"
    for p rows by (induction rows) (auto simp: assms)
  then show ?thesis by (simp add: find_sprint_def)
qed

lemma lifecycle_written:
  assumes "\<And>s. sp_id (f s) = sp_id s" and "find_sprint w sid = Some s"
  shows "lifecycle (write_sprint sid f w) = (lifecycle w)(sid \<mapsto> (sp_projectId (f s), sp_state (f s)))"
proof
  fix k
  show "lifecycle (write_sprint sid f w) k = ((lifecycle w)(sid \<mapsto> (sp_projectId (f s), sp_state (f s)))) k"
  proof (cases "k = sid")
    case True
    with assms find_sprintD [OF assms(2)] show ?thesis by (simp add: lifecycle_def find_sprint_written)
  next
    case False
    then show ?thesis using assms(1) find_sprintD [of w k]
      by (cases "find_sprint w k") (auto simp: lifecycle_def find_sprint_written)
  qed
qed

lemma sprint_refs_written:
  assumes "\<And>s. sprint_ref (f s) = sprint_ref s"
  shows "sprint_ref ` set (update_where p f rows) = sprint_ref ` set rows"
    and "map sp_id (update_where p f rows) = map sp_id rows"
proof -
  have "map sprint_ref (update_where p f rows) = map sprint_ref rows" by (rule map_update_where) (rule assms)
  then show "sprint_ref ` set (update_where p f rows) = sprint_ref ` set rows" by (metis list.set_map)
  show "map sp_id (update_where p f rows) = map sp_id rows"
    by (rule map_update_where) (use assms in \<open>simp add: sprint_ref_def\<close>)
qed

lemma written_inv:
  assumes "sprints_inv w" and "\<And>s. sprint_ref (f s) = sprint_ref s"
    and "distinct (active_projects (update_where (\<lambda>s. sp_id s = sid) f (sprints w)))"
  shows "sprints_inv (write_sprint sid f w)"
  using assms(1,3) sprint_refs_written [of f, OF assms(2)] by (simp add: sprints_inv_def)

text \<open>Sprints that do not become active cannot break the index.\<close>

lemma active_fewer:
  assumes "\<And>s. s \<in> set ss \<Longrightarrow> p s \<Longrightarrow> sp_state (f s) = Active \<Longrightarrow> sp_state s = Active"
    and "\<And>s. sp_projectId (f s) = sp_projectId s" and "distinct (active_projects ss)"
  shows "distinct (active_projects (update_where p f ss))"
  using assms(1,3)
proof (induction ss)
  case (Cons s ss)
  have sub: "set (active_projects (update_where p f ss)) \<subseteq> set (active_projects ss)" if "\<And>s. s \<in> set ss \<Longrightarrow> p s \<Longrightarrow> sp_state (f s) = Active \<Longrightarrow> sp_state s = Active"
    using that assms(2) by (auto simp: active_projects_def set_update_where split: if_splits)
  have "distinct (active_projects (update_where p f ss))"
    using Cons by (simp add: active_projects_def split: if_splits)
  moreover have "set (active_projects (update_where p f ss)) \<subseteq> set (active_projects ss)" using sub Cons.prems(1) by simp
  ultimately show ?case
    using Cons.prems assms(2) by (auto simp: active_projects_def split: if_splits)
qed simp


section \<open>Every operation keeps the invariant and follows the life cycle\<close>

datatype sprint_op =
    CreateSprint env auth_user string create_sprint_input
  | UpdateMetadata auth_user string "string option option"
  | StartSprint env auth_user string
  | CompleteSprint env auth_user string "incomplete_destination option"
  | DeleteSprint auth_user string
  | AddTasks env auth_user string "string list"
  | RemoveFromSprint env auth_user string string

fun exec_sprint :: "sprint_op \<Rightarrow> world \<Rightarrow> world" where
  "exec_sprint (CreateSprint e u pid i) w = snd (createSprint e u pid i w)"
| "exec_sprint (UpdateMetadata u sid g) w = snd (updateMetadata u sid g w)"
| "exec_sprint (StartSprint e u sid) w = snd (startSprint e u sid w)"
| "exec_sprint (CompleteSprint e u sid d) w = snd (completeSprint e u sid d w)"
| "exec_sprint (DeleteSprint u sid) w = snd (deleteSprint u sid w)"
| "exec_sprint (AddTasks e u sid ids) w = snd (addTasks e u sid ids w)"
| "exec_sprint (RemoveFromSprint e u sid tid) w = snd (removeFromSprint e u sid tid w)"

text \<open>The only demand on the environment: a new sprint gets an unused identifier.\<close>

fun new_sprint_id :: "sprint_op \<Rightarrow> world \<Rightarrow> bool" where
  "new_sprint_id (CreateSprint e u pid i) w = (uuid e 0 \<notin> sp_id ` set (sprints w))"
| "new_sprint_id _ w = True"

fun sprint_label :: "sprint_op \<Rightarrow> sprint_event" where
  "sprint_label (CreateSprint e u pid i) = Plans pid"
| "sprint_label (StartSprint e u sid) = Starts sid"
| "sprint_label (CompleteSprint e u sid d) = Finishes sid"
| "sprint_label (DeleteSprint u sid) = Drops sid"
| "sprint_label _ = Stays"

text \<open>Both claims about one operation, as one predicate on its end state.\<close>

definition follows :: "sprint_event \<Rightarrow> world \<Rightarrow> world \<Rightarrow> bool" where
  "follows l w w' \<longleftrightarrow> sprints_inv w' \<and> (lifecycle w' = lifecycle w \<or> lifecycle_step l (lifecycle w) (lifecycle w'))"

lemmas follow_steps = attempt_inv [where P = "follows l w" for l w]

lemma follows_refl: "sprints_inv w \<Longrightarrow> follows l w w"
  by (simp add: follows_def)

lemma follows_emit [simp]: "follows l w (emit ev w') = follows l w w'"
  by (simp add: follows_def)

lemma follows_same: "sprints_inv w' \<Longrightarrow> lifecycle w' = lifecycle w \<Longrightarrow> follows l w w'"
  by (simp add: follows_def)

lemma follows_step: "sprints_inv w' \<Longrightarrow> lifecycle_step l (lifecycle w) (lifecycle w') \<Longrightarrow> follows l w w'"
  by (simp add: follows_def)

lemma lifecycle_found: "find_sprint w sid = Some s \<Longrightarrow> lifecycle w sid = Some (sp_projectId s, sp_state s)"
  by (simp add: lifecycle_def)

lemma createSprint_follows:
  assumes "sprints_inv w" and "uuid e 0 \<notin> sp_id ` set (sprints w)"
  shows "follows (Plans pid) w (snd (createSprint e u pid i w))"
proof -
  have "follows (Plans pid) w (w\<lparr>sprints := sprints w @ [s]\<rparr>)" if s: "sp_id s = uuid e 0" "sp_projectId s = pid" "sp_state s = Planned" for s
  proof (rule follows_step)
    have none: "find_row sp_id (uuid e 0) (sprints w) = None" using assms(2) by (simp add: find_row_None)
    have "lifecycle (w\<lparr>sprints := sprints w @ [s]\<rparr>) = (lifecycle w)(uuid e 0 \<mapsto> (pid, Planned))"
      using none s by (auto simp: lifecycle_def fun_eq_iff find_sprint_def find_row_append split: option.splits)
    moreover have "lifecycle w (uuid e 0) = None" using none by (simp add: lifecycle_def find_sprint_def)
    ultimately show "lifecycle_step (Plans pid) (lifecycle w) (lifecycle (w\<lparr>sprints := sprints w @ [s]\<rparr>))"
      by (simp add: lifecycle_step.plan)
    show "sprints_inv (w\<lparr>sprints := sprints w @ [s]\<rparr>)"
      using assms s by (auto simp: sprints_inv_def active_projects_def)
  qed
  then show ?thesis
    unfolding createSprint_def Let_def
    by (intro follow_steps follows_refl [OF assms(1)]) simp
qed

lemma updateMetadata_follows:
  assumes "sprints_inv w"
  shows "follows l w (snd (updateMetadata u sid g w))"
proof -
  have "follows l w (write_sprint sid (\<lambda>s. s\<lparr>sp_goal := x\<rparr>) w)" if "find_sprint w sid = Some s" for x s
  proof (rule follows_same)
    show "sprints_inv (write_sprint sid (\<lambda>s. s\<lparr>sp_goal := x\<rparr>) w)"
      using assms by (intro written_inv active_fewer) (auto simp: sprint_ref_def sprints_inv_def)
    show "lifecycle (write_sprint sid (\<lambda>s. s\<lparr>sp_goal := x\<rparr>) w) = lifecycle w"
      by (rule ext, simp add: lifecycle_def find_sprint_written option.map_comp comp_def cong: option.map_cong)
        (simp add: map_option_case split: option.split)
  qed
  with assms show ?thesis
    unfolding updateMetadata_def Let_def
    by (intro follow_steps follows_refl) (auto intro!: follow_steps follows_refl)
qed

lemma active_unique:
  assumes "distinct (active_projects ss)" and "s \<in> set ss" and "s' \<in> set ss"
    and "sp_state s = Active" and "sp_state s' = Active" and "sp_projectId s = sp_projectId s'"
  shows "s = s'"
proof -
  have "inj_on sp_projectId (set (filter (\<lambda>s. sp_state s = Active) ss))"
    using assms(1) unfolding active_projects_def distinct_map by blast
  then show ?thesis using assms(2-6) by (auto dest: inj_onD)
qed

lemma inv_one_active: "sprints_inv w \<Longrightarrow> one_active (lifecycle w)"
  unfolding one_active_def
proof (intro allI impI)
  fix j k pid
  assume inv: "sprints_inv w" and j: "lifecycle w j = Some (pid, Active)" and k: "lifecycle w k = Some (pid, Active)"
  obtain s where s: "s \<in> set (sprints w)" "sp_id s = j" "sp_projectId s = pid" "sp_state s = Active"
    using j find_sprintD by (auto simp: lifecycle_def)
  obtain t where t: "t \<in> set (sprints w)" "sp_id t = k" "sp_projectId t = pid" "sp_state t = Active"
    using k find_sprintD by (auto simp: lifecycle_def)
  have "s = t" using s t inv active_unique [of "sprints w" s t] by (simp add: sprints_inv_def)
  with s t show "j = k" by simp
qed

lemma startSprint_follows:
  assumes "sprints_inv w"
  shows "follows (Starts sid) w (snd (startSprint e u sid w))"
proof -
  have "follows (Starts sid) w (write_sprint sid f w)"
    if s: "find_sprint w sid = Some s" "sp_state s = Planned" and f: "f = (\<lambda>s. s\<lparr>sp_state := Active, sp_startDate := x\<rparr>)"
      and idx: "distinct (active_projects (update_where (\<lambda>s. sp_id s = sid) f (sprints w)))" for s f x
  proof (rule follows_step)
    show "sprints_inv (write_sprint sid f w)" using assms idx by (intro written_inv) (simp_all add: f sprint_ref_def)
    have "lifecycle w k \<noteq> Some (sp_projectId s, Active)" for k
    proof
      assume "lifecycle w k = Some (sp_projectId s, Active)"
      then obtain t where t: "t \<in> set (sprints w)" "sp_id t = k" "sp_projectId t = sp_projectId s" "sp_state t = Active"
        using find_sprintD by (auto simp: lifecycle_def)
      have "k \<noteq> sid" using s lifecycle_found \<open>lifecycle w k = _\<close> by force
      then have "t \<in> set (update_where (\<lambda>s. sp_id s = sid) f (sprints w))" using t by (force simp: set_update_where)
      moreover have "f s \<in> set (update_where (\<lambda>s. sp_id s = sid) f (sprints w))"
        using find_sprintD [OF s(1)] by (force simp: set_update_where)
      ultimately have "t = f s" using active_unique [OF idx] t by (simp add: f)
      then show False using t(2) \<open>k \<noteq> sid\<close> find_sprintD [OF s(1)] by (simp add: f)
    qed
    then show "lifecycle_step (Starts sid) (lifecycle w) (lifecycle (write_sprint sid f w))"
      using s by (auto simp: lifecycle_written f lifecycle_found intro!: lifecycle_step.start)
  qed
  then show ?thesis
    unfolding startSprint_def Let_def
    by (intro follow_steps follows_refl [OF assms]) (simp add: sprint_or_throw_def)
qed

lemma next_plannedD:
  "next_planned pid w = Some s \<Longrightarrow> s \<in> set (sprints w) \<and> sp_projectId s = pid \<and> sp_state s = Planned"
proof -
  assume a: "next_planned pid w = Some s"
  let ?xs = "order_by (\<lambda>a b. sp_createdAt a \<le> sp_createdAt b) (filter (\<lambda>s. sp_projectId s = pid \<and> sp_state s = Planned) (sprints w))"
  have "s \<in> set ?xs" using a unfolding next_planned_def by (cases ?xs) simp_all
  then show ?thesis by simp
qed

lemma move_incomplete_keeps:
  assumes "sprints_inv w" and "find_sprint w (sp_id s) = Some s" and "move_incomplete e dest s done ids w = (w1, n)"
  shows "sprints_inv w1 \<and> lifecycle w1 = lifecycle w \<and> sprints w1 = sprints w"
proof -
  have "sprints_inv (move_tasks (\<lambda>t. t_sprintId t = Some (sp_id s) \<and> q t) (Some (sp_id nx)) w)"
    if "next_planned (sp_projectId s) w = Some nx" for nx q
  proof (rule moved_in_inv [OF assms(1)])
    fix t assume t: "t \<in> set (tasks w)" "t_sprintId t = Some (sp_id s) \<and> q t"
    then have "t_projectId t = sp_projectId s" using sprint_task_project [OF assms(1,2)] by blast
    with next_plannedD [OF that] show "(sp_id nx, t_projectId t) \<in> sprint_ref ` set (sprints w)"
      by (force simp: sprint_ref_def)
  qed
  then show ?thesis
    using assms(3) moved_out_inv [OF assms(1)]
    by (auto simp: move_incomplete_def Let_def split: incomplete_destination.splits option.splits)
qed

lemma completed_row: "sprint_ref (s\<lparr>sp_state := x, sp_endDate := d\<rparr>) = sprint_ref s"
  by (simp add: sprint_ref_def)

lemma complete_tx_follows:
  assumes "sprints_inv w" and "find_sprint w (sp_id s) = Some s" and "sp_state s = Active"
  shows "follows (Finishes (sp_id s)) w (complete_tx e dest s preset w)"
proof -
  let ?ids = "map t_id (filter (\<lambda>t. t_sprintId t = Some (sp_id s) \<and> t_status t \<notin> sprint_done preset) (tasks w))"
  obtain w1 n where m: "move_incomplete e dest s (sprint_done preset) ?ids w = (w1, n)" by fastforce
  note k = move_incomplete_keeps [OF assms(1,2) m]
  define w2 where "w2 = (if ?ids = [] then w1 else close_memberships (sp_id s) ?ids (clk e n) w1)"
  have k2: "sprints_inv w2" "lifecycle w2 = lifecycle w" "sprints w2 = sprints w" using k by (auto simp: w2_def)
  have fs: "find_sprint w2 (sp_id s) = Some s" using assms(2) by (simp add: find_sprint_def k2)
  define d where "d = Some (clk e (if ?ids = [] then n else Suc n))"
  have c: "complete_tx e dest s preset w = write_sprint (sp_id s) (\<lambda>s. s\<lparr>sp_state := Completed, sp_endDate := d\<rparr>) w2"
    unfolding complete_tx_def Let_def m w2_def d_def by simp
  show ?thesis
  proof (rule follows_step)
    show "sprints_inv (complete_tx e dest s preset w)"
      unfolding c using k2(1) by (intro written_inv active_fewer) (auto simp: completed_row sprints_inv_def)
    have "lifecycle w (sp_id s) = Some (sp_projectId s, Active)" using lifecycle_found [OF assms(2)] assms(3) by simp
    then show "lifecycle_step (Finishes (sp_id s)) (lifecycle w) (lifecycle (complete_tx e dest s preset w))"
      unfolding c using fs by (simp add: lifecycle_written k2 lifecycle_step.finish)
  qed
qed

lemma completeSprint_follows:
  assumes "sprints_inv w"
  shows "follows (Finishes sid) w (snd (completeSprint e u sid d w))"
proof -
  have "follows (Finishes sid) w (complete_tx e d s p w)" if "find_sprint w sid = Some s" "sp_state s = Active" for d s p
    using complete_tx_follows [OF assms, of s e d p] find_sprintD [OF that(1)] that by simp
  then show ?thesis
    unfolding completeSprint_def Let_def
    by (intro follow_steps follows_refl [OF assms]) (simp add: sprint_or_throw_def)
qed


lemma cascade_sprint_lifecycle: "lifecycle (cascade_sprint sid w) = (lifecycle w)(sid := None)"
proof
  fix k
  have "find_row sp_id k (delete_where (\<lambda>s. sp_id s = sid) rows) = (if k = sid then None else find_row sp_id k rows)" for rows :: "sprint_row list"
    by (induction rows) auto
  then show "lifecycle (cascade_sprint sid w) k = ((lifecycle w)(sid := None)) k"
    by (simp add: lifecycle_def find_sprint_def cascade_sprint_def)
qed

lemma cascade_sprint_inv: "sprints_inv w \<Longrightarrow> sprints_inv (cascade_sprint sid w)"
proof -
  assume inv: "sprints_inv w"
  have "task_sprints (tasks (cascade_sprint sid w)) \<subseteq> task_sprints (tasks w) - {x. fst x = sid}"
    by (auto simp: cascade_sprint_def task_sprints_def set_update_where split: if_splits)
  moreover have "sprint_ref ` set (sprints w) - {x. fst x = sid} \<subseteq> sprint_ref ` set (sprints (cascade_sprint sid w))"
  proof
    fix x assume x: "x \<in> sprint_ref ` set (sprints w) - {x. fst x = sid}"
    then obtain s where "x = sprint_ref s" "s \<in> set (sprints w)" by blast
    with x show "x \<in> sprint_ref ` set (sprints (cascade_sprint sid w))" by (simp add: cascade_sprint_def sprint_ref_def)
  qed
  ultimately have "task_sprints (tasks (cascade_sprint sid w)) \<subseteq> sprint_ref ` set (sprints (cascade_sprint sid w))"
    using inv unfolding sprints_inv_def by blast
  moreover have "distinct (active_projects (delete_where p (sprints w)))" for p
    using inv distinct_map_filter [of sp_projectId "filter (\<lambda>s. sp_state s = Active) (sprints w)"]
    by (simp add: sprints_inv_def active_projects_def delete_where_def filter_filter conj_commute del: distinct_map_filter)
  ultimately show ?thesis
    using inv by (simp add: sprints_inv_def cascade_sprint_def distinct_delete_where)
qed

lemma deleteSprint_follows:
  assumes "sprints_inv w"
  shows "follows (Drops sid) w (snd (deleteSprint u sid w))"
proof -
  have "follows (Drops sid) w (cascade_sprint sid w)" if "find_sprint w sid = Some s" for s
    using cascade_sprint_inv [OF assms] lifecycle_found [OF that]
    by (intro follows_step) (auto simp: cascade_sprint_lifecycle intro!: lifecycle_step.drop)
  then show ?thesis
    unfolding deleteSprint_def by (intro follow_steps follows_refl [OF assms]) (simp add: sprint_or_throw_def)
qed

lemma addTasks_follows:
  assumes "sprints_inv w"
  shows "follows l w (snd (addTasks e u sid ids w))"
proof -
  have "follows l w (open_memberships sid now ys (move_tasks p (Some sid) w))"
    if "find_sprint w sid = Some s" and "\<And>t. p t \<Longrightarrow> t_projectId t = sp_projectId s" for s p ys now
    using find_sprint_ref [OF that(1)] that(2) by (intro follows_same) (auto intro: moved_in_inv [OF assms])
  with assms show ?thesis
    unfolding addTasks_def Let_def
    by (intro follow_steps follows_refl) (auto intro!: follow_steps follows_refl)
qed

lemma removeFromSprint_follows:
  assumes "sprints_inv w"
  shows "follows l w (snd (removeFromSprint e u sid tid w))"
proof -
  have "follows l w (close_memberships sid xs now (move_tasks p None w))" for xs now p
    by (intro follows_same) (simp_all add: moved_out_inv [OF assms])
  with assms show ?thesis
    unfolding removeFromSprint_def
    by (intro follow_steps follows_refl) (auto intro!: follow_steps follows_refl)
qed

interpretation sprint_runs: labelled_system sprints_inv new_sprint_id exec_sprint lifecycle "\<lambda>op. lifecycle_step (sprint_label op)"
proof
  fix w op assume a: "sprints_inv w" "new_sprint_id op w"
  then have "follows (sprint_label op) w (exec_sprint op w)"
    by (cases op) (simp_all add: createSprint_follows updateMetadata_follows startSprint_follows completeSprint_follows
        deleteSprint_follows addTasks_follows removeFromSprint_follows)
  then show "sprints_inv (exec_sprint op w)"
    "lifecycle (exec_sprint op w) = lifecycle w \<or> lifecycle_step (sprint_label op) (lifecycle w) (lifecycle (exec_sprint op w))"
    by (simp_all add: follows_def)
qed

section \<open>Properties\<close>

text \<open>
  C12: whatever sprint operations run, sprint identifiers stay unique, at most one sprint of a
  project is active, and the sprint of a task is a sprint of its project.
\<close>

theorem sprint_operations_keep_invariant:
  assumes "sprints_inv w" and "sprint_runs.run_ok ops w"
  shows "sprints_inv (fold exec_sprint ops w)"
  using assms by (rule sprint_runs.run_inv)

definition sample_sprint :: "string \<Rightarrow> sprint_state \<Rightarrow> sprint_row" where
  "sample_sprint sid st = \<lparr>sp_id = sid, sp_projectId = ''P'', sp_name = sid, sp_goal = None, sp_startDate = None,
     sp_endDate = None, sp_state = st, sp_createdById = ''A'', sp_createdAt = 0\<rparr>"

definition sprint_world :: world where
  "sprint_world = task_world\<lparr>sprints := [sample_sprint ''S1'' Active, sample_sprint ''S2'' Planned],
     memberships := [open_membership ''S1'' 0 ''t1'', open_membership ''S1'' 0 ''t2''],
     tasks := [(sample_task ''t1'' ''Approved'')\<lparr>t_sprintId := Some ''S1''\<rparr>,
       (sample_task ''t2'' ''Todo'')\<lparr>t_keyNumber := 2, t_sprintId := Some ''S1''\<rparr>]\<rparr>"

lemma sprint_world_inv: "sprints_inv sprint_world"
  by (auto simp: sprints_inv_def sprint_world_def sample_sprint_def active_projects_def task_sprints_def sprint_ref_def
      sample_task_def)

theorem sprint_operations_keep_invariant_witness:
  "sprints_inv (fold exec_sprint [StartSprint sample_env sample_admin ''S2'',
     CompleteSprint sample_env sample_admin ''S1'' (Some ToNextPlanned), StartSprint sample_env sample_admin ''S2'',
     AddTasks sample_env sample_admin ''S2'' [''t1'', ''t1'']] sprint_world)"
  by (rule sprint_operations_keep_invariant [OF sprint_world_inv]) simp

text \<open>
  C13: the service implements its life cycle. Along every sequence of operations each one leaves the
  states of all sprints as they are or takes the one step of the abstract machine its name stands for: creating adds a planned
  sprint, starting makes that planned sprint active while no other of its project is, completing ends that active
  sprint, deleting drops that sprint, and nothing else changes a state. So at no time two sprints of a project
  are active, and a sprint that is not deleted never goes back: a completed one stays completed.
\<close>

theorem sprint_operations_refine_lifecycle:
  assumes "sprints_inv w" and "sprint_runs.run_ok ops w"
  shows "follows_labels (\<lambda>op. lifecycle_step (sprint_label op)) ops (map lifecycle (states_along exec_sprint ops w)) \<and>
    one_active (lifecycle (fold exec_sprint ops w)) \<and>
    (lifecycle w sid = Some (pid, st) \<longrightarrow> (\<forall>u. DeleteSprint u sid \<notin> set ops) \<longrightarrow>
       (\<exists>st'. lifecycle (fold exec_sprint ops w) sid = Some (pid, st') \<and> stage_of st \<le> stage_of st'))"
proof (intro conjI impI)
  show "one_active (lifecycle (fold exec_sprint ops w))"
    by (rule sprint_runs.run_keeps [where P = one_active, OF assms inv_one_active [OF assms(1)]]) (rule lifecycle_step_active)
  assume "lifecycle w sid = Some (pid, st)" and kept: "\<forall>u. DeleteSprint u sid \<notin> set ops"
  then have now: "reached sid pid (stage_of st) (lifecycle w)" by (simp add: reached_def)
  have "sprint_label op \<noteq> Drops sid" if "op \<in> set ops" for op using kept that by (cases op) auto
  then have "reached sid pid (stage_of st) (lifecycle (fold exec_sprint ops w))"
    by (intro sprint_runs.run_keeps [where P = "reached sid pid (stage_of st)", OF assms now]) (rule lifecycle_step_reached)
  then show "\<exists>st'. lifecycle (fold exec_sprint ops w) sid = Some (pid, st') \<and> stage_of st \<le> stage_of st'"
    by (simp add: reached_def)
qed (rule sprint_runs.run_follows [OF assms])

theorem sprint_operations_refine_lifecycle_witness:
  "\<exists>st. lifecycle (fold exec_sprint [CompleteSprint sample_env sample_admin ''S1'' None, StartSprint sample_env sample_admin ''S1'',
      DeleteSprint sample_admin ''S2''] sprint_world) ''S1'' = Some (''P'', st) \<and> 1 \<le> stage_of st"
proof -
  have "lifecycle sprint_world ''S1'' = Some (''P'', Active)"
    by (simp add: lifecycle_def find_sprint_def sprint_world_def sample_sprint_def)
  then show ?thesis
    using sprint_operations_refine_lifecycle [OF sprint_world_inv, of "[CompleteSprint sample_env sample_admin ''S1'' None,
      StartSprint sample_env sample_admin ''S1'', DeleteSprint sample_admin ''S2'']" "''S1''" "''P''" Active]
    by (simp del: exec_sprint.simps fold_simps)
qed

definition unfinished :: "string set \<Rightarrow> string \<Rightarrow> task_row \<Rightarrow> bool" where
  "unfinished finished sid t \<longleftrightarrow> t_sprintId t = Some sid \<and> t_status t \<notin> finished"

definition finished_for :: "incomplete_destination option \<Rightarrow> workflow_preset \<Rightarrow> string set" where
  "finished_for d preset = (if d = Some ToNextPlanned then {''Done'', ''Approved''} else sprint_done preset)"

definition closed_for :: "world \<Rightarrow> string \<Rightarrow> string \<Rightarrow> bool" where
  "closed_for w sid tid \<longleftrightarrow> (\<forall>m \<in> set (memberships w). sm_sprintId m = sid \<longrightarrow> sm_taskId m = tid \<longrightarrow> sm_removedAt m \<noteq> None)"


lemma membership_lists:
  "memberships (open_memberships sid now tids w) = memberships w @ map (open_membership sid now) tids"
  "memberships (close_memberships sid tids now w) =
    update_where (\<lambda>m. sm_sprintId m = sid \<and> sm_taskId m \<in> set tids \<and> sm_removedAt m = None)
      (\<lambda>m. m\<lparr>sm_removedAt := Some now\<rparr>) (memberships w)"
  by (simp_all add: open_memberships_def close_memberships_def)

lemma closed_after:
  assumes "tid \<in> set tids"
  shows "closed_for (close_memberships sid tids now w) sid tid"
  unfolding closed_for_def membership_lists set_update_where
proof (intro ballI impI)
  fix m assume m: "m \<in> (\<lambda>m. if sm_sprintId m = sid \<and> sm_taskId m \<in> set tids \<and> sm_removedAt m = None
      then m\<lparr>sm_removedAt := Some now\<rparr> else m) ` set (memberships w)" "sm_sprintId m = sid" "sm_taskId m = tid"
  from m(1) obtain m0 where "m = (if sm_sprintId m0 = sid \<and> sm_taskId m0 \<in> set tids \<and> sm_removedAt m0 = None
      then m0\<lparr>sm_removedAt := Some now\<rparr> else m0)" by (rule imageE)
  with m(2,3) assms show "sm_removedAt m \<noteq> None" by (auto split: if_splits)
qed

text \<open>The tasks after the move, by destination.\<close>

lemma move_incomplete_tasks:
  assumes "move_incomplete e dest s (sprint_done preset) ids w = (w1, n)"
  shows "\<exists>x. tasks w1 = update_where (unfinished (finished_for (Some dest) preset) (sp_id s)) (\<lambda>t. t\<lparr>t_sprintId := x\<rparr>) (tasks w) \<and>
    (x = None \<or> dest = ToNextPlanned \<and> (\<exists>nx \<in> set (sprints w). x = Some (sp_id nx) \<and>
       sp_projectId nx = sp_projectId s \<and> sp_state nx = Planned))"
proof -
  have u: "(\<lambda>t. t_sprintId t = Some (sp_id s) \<and> t_status t \<notin> D) = unfinished D (sp_id s)" for D
    by (simp add: unfinished_def fun_eq_iff)
  show ?thesis
  proof (cases dest)
    case ToBacklog
    with assms show ?thesis by (auto simp: move_incomplete_def Let_def u finished_for_def move_tasks_def)
  next
    case ToNextPlanned
    have "(\<lambda>t. t_sprintId t = Some (sp_id s) \<and> t_status t \<noteq> ''Done'' \<and> t_status t \<noteq> ''Approved'') =
        unfinished (finished_for (Some dest) preset) (sp_id s)"
      by (simp add: unfinished_def fun_eq_iff finished_for_def ToNextPlanned)
    note leaving = this
    show ?thesis
    proof (cases "next_planned (sp_projectId s) w")
      case None
      with assms ToNextPlanned leaving show ?thesis by (auto simp: move_incomplete_def Let_def move_tasks_def)
    next
      case (Some nx)
      have "tasks w1 = update_where (unfinished (finished_for (Some dest) preset) (sp_id s))
          (\<lambda>t. t\<lparr>t_sprintId := Some (sp_id nx)\<rparr>) (tasks w)"
        using assms ToNextPlanned leaving Some by (auto simp: move_incomplete_def Let_def move_tasks_def)
      with next_plannedD [OF Some] ToNextPlanned show ?thesis by blast
    qed
  qed
qed

text \<open>
  Completing a sprint. The sprint ends up completed; exactly its unfinished tasks leave it,
  all to the backlog or all to a planned sprint of the same project when that was asked for, no
  other task changes, and the membership of each task that left is closed. Finished means Done,
  or Approved for a design project, and for any project when the next sprint was asked for.
\<close>

theorem completed_sprint:
  assumes "completeSprint e u sid d w = (Inr s, w')" and "find_project w (sp_projectId s) = Some p"
  shows "sp_state s = Completed \<and> find_sprint w' sid = Some s \<and> has_role w u (sp_projectId s) Manager \<and>
    map_option sp_state (find_sprint w sid) = Some Active \<and>
    (\<exists>x. tasks w' = update_where (unfinished (finished_for d (p_workflowPreset p)) sid) (\<lambda>t. t\<lparr>t_sprintId := x\<rparr>) (tasks w) \<and>
       (x = None \<or> d = Some ToNextPlanned \<and> (\<exists>nx \<in> set (sprints w). x = Some (sp_id nx) \<and>
          sp_projectId nx = sp_projectId s \<and> sp_state nx = Planned))) \<and>
    (\<forall>t \<in> set (tasks w). unfinished (finished_for d (p_workflowPreset p)) sid t \<longrightarrow> closed_for w' sid (t_id t))"
proof -
  obtain s0 q r where s0: "find_sprint w sid = Some s0" "sp_state s0 = Active"
    and q: "find_project w (sp_projectId s0) = Some q" and r: "assertAtLeast w u (sp_projectId s0) Manager = Inr r"
    and s: "find_sprint (complete_tx e (override d ToBacklog) s0 (p_workflowPreset q) w) sid = Some s"
    and w': "w' = emit (SprintCompleted sid (sp_projectId s0) (au_id u)) (complete_tx e (override d ToBacklog) s0 (p_workflowPreset q) w)"
    using assms(1) by (auto simp: completeSprint_def attempt_Inr Let_def sprint_or_throw_def project_or_throw_def)
  have sid: "sp_id s0 = sid" using find_sprintD [OF s0(1)] by simp
  let ?ids = "map t_id (filter (\<lambda>t. t_sprintId t = Some (sp_id s0) \<and> t_status t \<notin> sprint_done (p_workflowPreset q)) (tasks w))"
  obtain w1 n where m: "move_incomplete e (override d ToBacklog) s0 (sprint_done (p_workflowPreset q)) ?ids w = (w1, n)" by fastforce
  define w2 where "w2 = (if ?ids = [] then w1 else close_memberships (sp_id s0) ?ids (clk e n) w1)"
  define k where "k = Some (clk e (if ?ids = [] then n else Suc n))"
  have c: "complete_tx e (override d ToBacklog) s0 (p_workflowPreset q) w =
      write_sprint (sp_id s0) (\<lambda>s. s\<lparr>sp_state := Completed, sp_endDate := k\<rparr>) w2"
    unfolding complete_tx_def Let_def m w2_def k_def by simp
  have "sprints w1 = sprints w"
    using m by (auto simp: move_incomplete_def Let_def split: incomplete_destination.splits option.splits)
  then have "find_sprint w2 sid = Some s0" using s0 by (simp add: w2_def find_sprint_def)
  then have srow: "s = s0\<lparr>sp_state := Completed, sp_endDate := k\<rparr>"
    using s unfolding c by (simp add: find_sprint_written sid)
  then have p: "q = p" using assms(2) q by simp
  have tasks2: "tasks w' = tasks w1" by (simp add: w' c w2_def)
  have fin: "finished_for (Some (override d ToBacklog)) preset = finished_for d preset" for preset
    by (cases d) (simp_all add: finished_for_def)
  have "closed_for w' sid (t_id t)" if t: "t \<in> set (tasks w)" "unfinished (finished_for d (p_workflowPreset p)) sid t" for t
  proof -
    have "sprint_done preset \<subseteq> finished_for d preset" for preset by (auto simp: finished_for_def sprint_done_def)
    then have "t_id t \<in> set ?ids" using t by (auto simp: unfinished_def sid p)
    moreover from this have "w2 = close_memberships (sp_id s0) ?ids (clk e n) w1"
      unfolding w2_def by (metis empty_iff list.set(1))
    ultimately have "closed_for w2 sid (t_id t)" using closed_after by (simp only: sid)
    then show ?thesis by (simp add: w' c closed_for_def)
  qed
  moreover have "has_role w u (sp_projectId s0) Manager" using r assertAtLeast_ok by blast
  then have "has_role w u (sp_projectId s) Manager" by (simp add: srow)
  moreover have "find_sprint w' sid = Some s" using s by (simp add: w' find_sprint_def)
  ultimately show ?thesis
    using move_incomplete_tasks [OF m] s0 unfolding fin tasks2 sid p by (cases d) (auto simp: srow)
qed

theorem completed_sprint_witness:
  "map t_sprintId (tasks (snd (completeSprint sample_env sample_admin ''S1'' (Some ToNextPlanned) sprint_world))) =
     [Some ''S1'', Some ''S2''] \<and>
   closed_for (snd (completeSprint sample_env sample_admin ''S1'' (Some ToNextPlanned) sprint_world)) ''S1'' ''t2'' \<and>
   open_membership ''S2'' 0 ''t1'' \<in>
     set (memberships (snd (completeSprint sample_env sample_admin ''S1'' (Some ToNextPlanned) sprint_world)))"
proof -
  let ?r = "completeSprint sample_env sample_admin ''S1'' (Some ToNextPlanned) sprint_world"
  let ?s = "(sample_sprint ''S1'' Active)\<lparr>sp_state := Completed, sp_endDate := Some 2\<rparr>"
  have e: "fst ?r = Inr ?s" and m: "open_membership ''S2'' 0 ''t1'' \<in> set (memberships (snd ?r))"
    and x: "map t_sprintId (tasks (snd ?r)) = [Some ''S1'', Some ''S2'']"
    by (simp_all add: completeSprint_def sprint_or_throw_def project_or_throw_def find_sprint_def find_project_def
        sprint_world_def task_samples sample_sprint_def complete_tx_def Let_def sprint_done_def move_incomplete_def
        next_planned_def move_tasks_def open_memberships_def close_memberships_def write_sprint_def open_membership_def
        sample_env_def)
  then have r: "?r = (Inr ?s, snd ?r)" by (metis prod.collapse)
  have p: "find_project sprint_world (sp_projectId ?s) = Some (sample_project\<lparr>p_nextTaskNumber := 4\<rparr>)"
    by (simp add: sprint_world_def task_samples sample_sprint_def find_project_def)
  let ?t = "(sample_task ''t2'' ''Todo'')\<lparr>t_keyNumber := 2, t_sprintId := Some ''S1''\<rparr>"
  have "?t \<in> set (tasks sprint_world)" "unfinished (finished_for (Some ToNextPlanned) preset) ''S1'' ?t" for preset
    by (simp_all add: sprint_world_def unfinished_def finished_for_def sample_task_def)
  then have "closed_for (snd ?r) ''S1'' (t_id ?t)" using completed_sprint [OF r p] by blast
  then have "closed_for (snd ?r) ''S1'' ''t2''" by (simp add: sample_task_def)
  with m x show ?thesis by blast
qed

text \<open>
  Adding tasks to a sprint. On success every named task exists in the project of the sprint
  and is now in it, the count is the number of moved tasks, no other task changes, and a new open
  membership is appended for each name even when the task already was in this or another sprint,
  whose open membership stays.
\<close>

theorem added_tasks:
  assumes "addTasks e u sid names w = (Inr n, w')"
  shows "\<exists>s ids now. find_sprint w sid = Some s \<and> sp_state s \<noteq> Completed \<and> has_role w u (sp_projectId s) Contributor \<and>
    distinct ids \<and> set ids = set names - {[]} \<and>
    (\<forall>x \<in> set ids. \<exists>t \<in> set (tasks w). t_id t = x) \<and>
    (\<forall>t \<in> set (tasks w). t_id t \<in> set ids \<longrightarrow> t_projectId t = sp_projectId s) \<and>
    n = count_where (\<lambda>t. t_id t \<in> set ids) (tasks w) \<and>
    tasks w' = update_where (\<lambda>t. t_id t \<in> set ids) (\<lambda>t. t\<lparr>t_sprintId := Some sid\<rparr>) (tasks w) \<and>
    memberships w' = memberships w @ map (open_membership sid now) ids"
proof -
  let ?ids = "filter (\<lambda>x. x \<noteq> []) (uniq names)"
  obtain s r where s: "find_sprint w sid = Some s" "sp_state s \<noteq> Completed"
    and r: "assertAtLeast w u (sp_projectId s) Contributor = Inr r"
    using assms by (auto simp: addTasks_def attempt_Inr)
  have ids: "distinct ?ids" "set ?ids = set names - {[]}" by auto
  have role: "has_role w u (sp_projectId s) Contributor" using r assertAtLeast_ok by blast
  show ?thesis
  proof (cases "?ids = []")
    case True
    with assms s r have "n = 0" "w' = w" by (auto simp: addTasks_def)
    with True s role ids show ?thesis by (intro exI [of _ s] exI [of _ "[]"]) (simp add: update_where_def count_where_def)
  next
    case False
    let ?moved = "\<lambda>t. t_id t \<in> set ?ids \<and> t_projectId t = sp_projectId s"
    have missing: "filter (\<lambda>x. x \<notin> set (map t_id (filter (\<lambda>t. t_id t \<in> set ?ids) (tasks w)))) ?ids = []"
      and cross: "map t_id (filter (\<lambda>t. t_projectId t \<noteq> sp_projectId s) (filter (\<lambda>t. t_id t \<in> set ?ids) (tasks w))) = []"
      and n: "n = count_where ?moved (tasks w)"
      and w': "w' = emit (SprintTasksAdded sid (sp_projectId s) ?ids (au_id u))
              (open_memberships sid (clk e 0) ?ids (move_tasks ?moved (Some sid) w))"
      using assms s r False unfolding addTasks_def Let_def
      by (simp_all only: found_simps attempt_simps require_simps if_False not_False_eq_True attempt_Inr require_Inr prod.inject sum.inject)
        auto
    have ex: "\<forall>x \<in> set ?ids. \<exists>t \<in> set (tasks w). t_id t = x" using missing unfolding filter_empty_conv by auto
    have proj: "\<forall>t \<in> set (tasks w). t_id t \<in> set ?ids \<longrightarrow> t_projectId t = sp_projectId s"
      using cross unfolding map_is_Nil_conv filter_empty_conv by simp
    have "update_where ?moved f (tasks w) = update_where (\<lambda>t. t_id t \<in> set ?ids) f (tasks w)" for f
      using proj by (simp add: update_where_def)
    moreover have "count_where ?moved (tasks w) = count_where (\<lambda>t. t_id t \<in> set ?ids) (tasks w)"
      unfolding count_where_def using proj by (metis (mono_tags, lifting) filter_cong)
    ultimately show ?thesis using s role ids ex proj n
      by (intro exI [of _ s] exI [of _ ?ids] exI [of _ "clk e 0"])
        (simp add: w' membership_lists move_tasks_def del: set_filter)
  qed
qed

theorem added_tasks_witness:
  "count_where (\<lambda>m. sm_sprintId m = ''S1'' \<and> sm_taskId m = ''t1'' \<and> sm_removedAt m = None)
     (memberships (snd (addTasks sample_env sample_admin ''S1'' [''t1'', ''t1''] sprint_world))) = 2"
proof -
  let ?r = "addTasks sample_env sample_admin ''S1'' [''t1'', ''t1''] sprint_world"
  have "\<exists>n. fst ?r = Inr n"
    by (simp add: addTasks_def Let_def find_sprint_def sprint_world_def sample_sprint_def uniq_def task_samples)
  then obtain n where r: "?r = (Inr n, snd ?r)" by (metis prod.collapse)
  obtain ids now where ids: "distinct ids" "set ids = {''t1''}"
    and m: "memberships (snd ?r) = memberships sprint_world @ map (open_membership ''S1'' now) ids"
    using added_tasks [OF r] by auto
  have "length ids = 1" using ids distinct_card by fastforce
  with ids(2) have "ids = [''t1'']" by (cases ids) auto
  then show ?thesis unfolding m by (simp add: sprint_world_def count_where_def open_membership_def)
qed

end
