(* ===== verification/Worklogs.thy ===== *)
theory Worklogs
  imports TaskLaws JsNumber
begin

text \<open>
  \<^verbatim>\<open>apps/api/src/modules/worklog/worklog.service.ts\<close>: live timers and manual entries, with the
  unique index of \<^verbatim>\<open>companion.sql\<close> (one running timer per user) as part of the invariant.
  Seconds are stored in a four-byte column.
\<close>

section \<open>Timers\<close>

definition INT4_MAX :: int where
  "INT4_MAX = 2147483647"

definition int4 :: "int \<Rightarrow> int res" where
  "int4 n = (if - INT4_MAX - 1 \<le> n \<and> n \<le> INT4_MAX then Inr n
     else Inl (LibraryError ''value out of range for type integer''))"

text \<open>The task of a work log must be there and visible.\<close>

definition visible_task :: "world \<Rightarrow> auth_user \<Rightarrow> string \<Rightarrow> task_row res" where
  "visible_task w u tid =
     and_then (found (NotFound ''Task not found'') (find_task w tid)) (\<lambda>task.
     and_then (canSeeTask w u (t_projectId task) (t_visibility task)) (\<lambda>canSee.
     and_then (require canSee (Forbidden ''No access'')) (\<lambda>_. Inr task)))"

definition running :: "string \<Rightarrow> worklog_row \<Rightarrow> bool" where
  "running uid l \<longleftrightarrow> wl_userId l = uid \<and> wl_endedAt l = None"

definition nonempty :: "string option \<Rightarrow> string option" where
  "nonempty note = (if truthy note then note else None)"

definition startTimer :: "env \<Rightarrow> auth_user \<Rightarrow> string \<Rightarrow> string option \<Rightarrow> world \<Rightarrow> worklog_row res \<times> world" where
  "startTimer e u tid note w =
     attempt (visible_task w u tid) w (\<lambda>task.
     let w1 = w\<lparr>worklogs := update_where (running (au_id u))
           (\<lambda>l. l\<lparr>wl_endedAt := Some (clk e 0), wl_seconds := 0\<rparr>) (worklogs w)\<rparr>;
         l = \<lparr>wl_id = uuid e 0, wl_taskId = tid, wl_userId = au_id u, wl_seconds = 0,
              wl_startedAt = clk e 1, wl_endedAt = None, wl_note = nonempty note\<rparr>
     in attempt (require (user_task_fk w1 (au_id u) tid) (DbError P2003)) w1 (\<lambda>_.
        (Inr l, emit (WorklogStarted (wl_id l) tid (t_projectId task) (au_id u)) (w1\<lparr>worklogs := worklogs w1 @ [l]\<rparr>))))"

text \<open>\<open>Math.max(0, Math.floor((endedAt - startedAt) / 1000))\<close> on milliseconds.\<close>

definition elapsed_seconds :: "int \<Rightarrow> int \<Rightarrow> int" where
  "elapsed_seconds startedAt endedAt = max 0 ((endedAt - startedAt) div 1000)"

definition stopTimer :: "env \<Rightarrow> auth_user \<Rightarrow> string \<Rightarrow> world \<Rightarrow> worklog_row res \<times> world" where
  "stopTimer e u tid w =
     attempt (found (BadRequest ''No running timer for this task'')
       (List.find (\<lambda>l. running (au_id u) l \<and> wl_taskId l = tid) (worklogs w))) w (\<lambda>r.
     let endedAt = clk e 0
     in attempt (int4 (elapsed_seconds (wl_startedAt r) endedAt)) w (\<lambda>seconds.
        let upd = (\<lambda>l. l\<lparr>wl_endedAt := Some endedAt, wl_seconds := seconds\<rparr>)
        in (Inr (upd r), emit (WorklogStopped (wl_id r) tid seconds (au_id u))
             (w\<lparr>worklogs := update_where (\<lambda>l. wl_id l = wl_id r) upd (worklogs w)\<rparr>))))"

section \<open>Manual entries\<close>

definition js_positive :: "jsnum \<Rightarrow> bool" where
  "js_positive x \<longleftrightarrow> js_finite x \<and> js_less (Fin 0) x"

definition valid_date :: "jsnum \<Rightarrow> int res" where
  "valid_date x = found (LibraryError ''Invalid Date'') (time_clip x)"

text \<open>\<open>Math.floor\<close> of a finite number.\<close>

definition floor_of :: "jsnum \<Rightarrow> int" where
  "floor_of x = (case x of Fin q \<Rightarrow> \<lfloor>q\<rfloor> | _ \<Rightarrow> 0)"

definition logManual :: "env \<Rightarrow> auth_user \<Rightarrow> string \<Rightarrow> jsnum \<Rightarrow> string option \<Rightarrow> int option \<Rightarrow> world \<Rightarrow>
    worklog_row res \<times> world" where
  "logManual e u tid seconds note startedAt_in w =
     attempt (require (js_positive seconds) (BadRequest ''Seconds must be a positive number'')) w (\<lambda>_.
     attempt (visible_task w u tid) w (\<lambda>task.
     let span = js_mul seconds (Fin 1000)
     in attempt (case startedAt_in of Some d \<Rightarrow> Inr d | None \<Rightarrow> valid_date (js_sub (of_int_js (clk e 0)) span)) w (\<lambda>startedAt.
        attempt (valid_date (js_add (of_int_js startedAt) span)) w (\<lambda>endedAt.
        attempt (int4 (floor_of seconds)) w (\<lambda>secs.
        let l = \<lparr>wl_id = uuid e 0, wl_taskId = tid, wl_userId = au_id u, wl_seconds = secs,
                 wl_startedAt = startedAt, wl_endedAt = Some endedAt, wl_note = nonempty note\<rparr>
        in attempt (require (user_task_fk w (au_id u) tid) (DbError P2003)) w (\<lambda>_.
           (Inr l, emit (WorklogLogged (wl_id l) tid secs (au_id u)) (w\<lparr>worklogs := worklogs w @ [l]\<rparr>))))))))"

section \<open>Reading and deleting\<close>

record worklog_summary =
  ws_entries :: "(worklog_row \<times> (string \<times> string \<times> string option) option) list"
  ws_totalSeconds :: int
  ws_running :: "worklog_row option"

definition worklog_user :: "world \<Rightarrow> worklog_row \<Rightarrow> (string \<times> string \<times> string option) option" where
  "worklog_user w l = map_option (\<lambda>r. (u_id r, u_name r, u_avatarUrl r)) (find_row u_id (wl_userId l) (users w))"

definition listWorklog :: "auth_user \<Rightarrow> string \<Rightarrow> world \<Rightarrow> worklog_summary res" where
  "listWorklog u tid w =
     and_then (visible_task w u tid) (\<lambda>_.
     let entries = order_by (\<lambda>a b. wl_startedAt b \<le> wl_startedAt a) (filter (\<lambda>l. wl_taskId l = tid) (worklogs w))
     in Inr \<lparr>ws_entries = map (\<lambda>l. (l, worklog_user w l)) entries,
             ws_totalSeconds = foldl (\<lambda>s l. s + wl_seconds l) 0 entries,
             ws_running = List.find (\<lambda>l. wl_endedAt l = None) entries\<rparr>)"

definition deleteWorklog :: "auth_user \<Rightarrow> string \<Rightarrow> world \<Rightarrow> unit res \<times> world" where
  "deleteWorklog u lid w =
     attempt (found (NotFound ''Worklog not found'') (find_row wl_id lid (worklogs w))) w (\<lambda>l.
     attempt (task_or_throw w (wl_taskId l)) w (\<lambda>task.
     attempt (if wl_userId l \<noteq> au_id u
       then and_then (assertAtLeast w u (t_projectId task) Manager) (\<lambda>_. Inr ()) else Inr ()) w (\<lambda>_.
     (Inr (), w\<lparr>worklogs := delete_where (\<lambda>l. wl_id l = lid) (worklogs w)\<rparr>))))"

definition listActive :: "auth_user \<Rightarrow> world \<Rightarrow>
    (worklog_row \<times> (string \<times> string \<times> string option) option \<times> (string \<times> string \<times> string) option) list" where
  "listActive u w = (if au_kind u \<noteq> UInternal then []
     else map (\<lambda>l. (l, worklog_user w l, map_option (\<lambda>t. (t_id t, t_title t, t_projectId t)) (find_task w (wl_taskId l))))
       (filter (\<lambda>l. wl_endedAt l = None) (worklogs w)))"

record active_timer =
  at_id :: string
  at_taskId :: string
  at_startedAt :: int
  at_note :: "string option"
  at_title :: string
  at_projectId :: string
  at_projectKey :: string
  at_key :: string

definition getMyActive :: "auth_user \<Rightarrow> world \<Rightarrow> active_timer option res" where
  "getMyActive u w = (case order_by (\<lambda>a b. wl_startedAt b \<le> wl_startedAt a) (filter (running (au_id u)) (worklogs w)) of
     [] \<Rightarrow> Inr None
   | l # _ \<Rightarrow>
       and_then (task_or_throw w (wl_taskId l)) (\<lambda>t.
       and_then (project_or_throw w (t_projectId t)) (\<lambda>p.
       Inr (Some \<lparr>at_id = wl_id l, at_taskId = wl_taskId l, at_startedAt = wl_startedAt l, at_note = wl_note l,
          at_title = t_title t, at_projectId = t_projectId t, at_projectKey = p_key p,
          at_key = p_key p @ CHR ''-'' # show_int (t_keyNumber t)\<rparr>))))"

section \<open>The invariant\<close>

definition running_users :: "worklog_row list \<Rightarrow> string list" where
  "running_users ls = map wl_userId (filter (\<lambda>l. wl_endedAt l = None) ls)"

definition entry_ok :: "worklog_row \<Rightarrow> bool" where
  "entry_ok l \<longleftrightarrow> 0 \<le> wl_seconds l \<and> wl_seconds l \<le> INT4_MAX \<and> (wl_endedAt l = None \<longrightarrow> wl_seconds l = 0)"

definition worklogs_inv :: "world \<Rightarrow> bool" where
  "worklogs_inv w \<longleftrightarrow> distinct (map wl_id (worklogs w)) \<and> distinct (running_users (worklogs w)) \<and>
     list_all entry_ok (worklogs w)"

lemmas worklog_steps = attempt_inv [where P = worklogs_inv]

lemma worklogs_inv_emit [simp]: "worklogs_inv (emit ev w) = worklogs_inv w"
  by (simp add: worklogs_inv_def)

text \<open>Ending timers leaves fewer of them.\<close>

definition ends :: "(worklog_row \<Rightarrow> worklog_row) \<Rightarrow> bool" where
  "ends f \<longleftrightarrow> (\<forall>l. wl_id (f l) = wl_id l \<and> wl_endedAt (f l) \<noteq> None)"

lemma running_users_ended:
  assumes "ends f"
  shows "running_users (update_where p f ls) = running_users (filter (\<lambda>l. \<not> p l) ls)"
  using assms by (induction ls) (auto simp: running_users_def ends_def)

lemma distinct_running_filter: "distinct (running_users ls) \<Longrightarrow> distinct (running_users (filter p ls))"
  by (induction ls) (auto simp: running_users_def split: if_splits)

lemma ended_inv:
  assumes "worklogs_inv w" and "ends f" and "\<And>l. entry_ok l \<Longrightarrow> entry_ok (f l)"
  shows "worklogs_inv (w\<lparr>worklogs := update_where p f (worklogs w)\<rparr>)"
proof -
  have "map wl_id (update_where p f (worklogs w)) = map wl_id (worklogs w)"
    by (rule map_update_where) (use assms(2) in \<open>simp add: ends_def\<close>)
  moreover have "list_all entry_ok (update_where p f (worklogs w))"
    using assms(1,3) by (auto simp: worklogs_inv_def list_all_iff set_update_where)
  ultimately show ?thesis
    using assms(1) distinct_running_filter by (simp add: worklogs_inv_def running_users_ended [OF assms(2)])
qed

lemma int4_Inr: "int4 n = Inr m \<longleftrightarrow> m = n \<and> - INT4_MAX - 1 \<le> n \<and> n \<le> INT4_MAX"
  by (auto simp: int4_def)

lemma started_inv:
  assumes "worklogs_inv w" and "uuid e 0 \<notin> wl_id ` set (worklogs w)"
  shows "worklogs_inv (snd (startTimer e u tid note w))"
proof -
  let ?f = "\<lambda>l. l\<lparr>wl_endedAt := Some (clk e 0), wl_seconds := 0\<rparr>"
  let ?ls = "update_where (running (au_id u)) ?f (worklogs w)"
  have f: "ends ?f" "\<And>l. entry_ok l \<Longrightarrow> entry_ok (?f l)" by (simp_all add: ends_def entry_ok_def INT4_MAX_def)
  have stopped: "worklogs_inv (w\<lparr>worklogs := ?ls\<rparr>)" by (rule ended_inv [OF assms(1) f])
  have "au_id u \<notin> set (running_users (filter (\<lambda>l. \<not> running (au_id u) l) (worklogs w)))"
    by (auto simp: running_users_def running_def)
  then have free: "au_id u \<notin> set (running_users ?ls)" by (simp add: running_users_ended [OF f(1)])
  have "map wl_id ?ls = map wl_id (worklogs w)" by (rule map_update_where) simp
  then have "uuid e 0 \<notin> wl_id ` set ?ls" using assms(2) by (metis list.set_map)
  with stopped free have new: "worklogs_inv (w\<lparr>worklogs := ?ls @ [l]\<rparr>)"
    if "wl_id l = uuid e 0" "wl_userId l = au_id u" "wl_endedAt l = None" "wl_seconds l = 0" for l
    using that by (simp add: worklogs_inv_def running_users_def entry_ok_def INT4_MAX_def)
  show ?thesis
    unfolding startTimer_def Let_def
    by (intro worklog_steps assms(1) stopped) (simp add: new)
qed

lemma stopped_inv:
  assumes "worklogs_inv w"
  shows "worklogs_inv (snd (stopTimer e u tid w))"
proof -
  have "worklogs_inv (w\<lparr>worklogs := update_where p (\<lambda>l. l\<lparr>wl_endedAt := Some x, wl_seconds := s\<rparr>) (worklogs w)\<rparr>)"
    if "0 \<le> s" "s \<le> INT4_MAX" for p x s
    using that by (intro ended_inv [OF assms]) (simp_all add: ends_def entry_ok_def)
  then show ?thesis
    unfolding stopTimer_def Let_def
    by (intro worklog_steps assms) (auto simp: int4_Inr elapsed_seconds_def)
qed

lemma logged_inv:
  assumes "worklogs_inv w" and "uuid e 0 \<notin> wl_id ` set (worklogs w)"
  shows "worklogs_inv (snd (logManual e u tid seconds note s w))"
proof -
  have "worklogs_inv (w\<lparr>worklogs := worklogs w @ [l]\<rparr>)"
    if "wl_id l = uuid e 0" "wl_endedAt l \<noteq> None" "0 \<le> wl_seconds l" "wl_seconds l \<le> INT4_MAX" for l
    using assms that by (auto simp: worklogs_inv_def running_users_def entry_ok_def)
  moreover have "0 \<le> floor_of seconds" if "js_positive seconds"
    using that by (auto simp: js_positive_def js_finite_def floor_of_def)
  ultimately show ?thesis
    unfolding logManual_def Let_def
    by (intro worklog_steps assms(1)) (auto simp: int4_Inr)
qed

lemma deleted_inv:
  assumes "worklogs_inv w"
  shows "worklogs_inv (snd (deleteWorklog u lid w))"
proof -
  have "worklogs_inv (w\<lparr>worklogs := delete_where p (worklogs w)\<rparr>)" for p
    using assms distinct_running_filter [of "worklogs w" "\<lambda>l. \<not> p l"]
    by (simp add: worklogs_inv_def distinct_delete_where) (simp add: delete_where_def list_all_iff)
  then show ?thesis unfolding deleteWorklog_def by (intro worklog_steps assms) simp
qed

datatype worklog_op =
    StartTimer env auth_user string "string option"
  | StopTimer env auth_user string
  | LogManual env auth_user string jsnum "string option" "int option"
  | DeleteWorklog auth_user string

fun exec_worklog :: "worklog_op \<Rightarrow> world \<Rightarrow> world" where
  "exec_worklog (StartTimer e u tid note) w = snd (startTimer e u tid note w)"
| "exec_worklog (StopTimer e u tid) w = snd (stopTimer e u tid w)"
| "exec_worklog (LogManual e u tid secs note s) w = snd (logManual e u tid secs note s w)"
| "exec_worklog (DeleteWorklog u lid) w = snd (deleteWorklog u lid w)"

fun new_worklog_id :: "worklog_op \<Rightarrow> world \<Rightarrow> bool" where
  "new_worklog_id (StartTimer e u tid note) w = (uuid e 0 \<notin> wl_id ` set (worklogs w))"
| "new_worklog_id (LogManual e u tid secs note s) w = (uuid e 0 \<notin> wl_id ` set (worklogs w))"
| "new_worklog_id _ w = True"

interpretation worklog_runs: operation_system worklogs_inv new_worklog_id exec_worklog
proof
  fix w op assume "worklogs_inv w" and "new_worklog_id op w"
  then show "worklogs_inv (exec_worklog op w)"
    by (cases op) (simp_all add: started_inv stopped_inv logged_inv deleted_inv)
qed

section \<open>Properties\<close>

text \<open>
  Whatever timers are started and stopped and whatever is logged by hand or deleted, no
  user has two running timers (the index of the database), entries have unique identifiers,
  seconds are never negative nor beyond the column, and a running timer shows none.
\<close>

theorem worklog_operations_keep_invariant:
  assumes "worklogs_inv w" and "worklog_runs.run_ok ops w"
  shows "worklogs_inv (fold exec_worklog ops w)"
  using assms by (rule worklog_runs.run_inv)

theorem worklog_operations_keep_invariant_witness:
  "worklogs_inv (fold exec_worklog [StartTimer sample_env sample_admin ''t1'' None,
     StopTimer sample_env sample_admin ''t1'', DeleteWorklog sample_admin ''x''] task_world)"
  by (rule worklog_operations_keep_invariant)
    (simp_all add: worklogs_inv_def running_users_def task_world_def empty_world_def)

lemma find_snoc: "(\<And>k. k \<in> set xs \<Longrightarrow> \<not> P k) \<Longrightarrow> P x \<Longrightarrow> List.find P (xs @ [x]) = Some x"
  by (induction xs) auto

text \<open>
  Starting a timer ends every running timer of the user with zero seconds, however long it
  ran, adds exactly one running entry, and changes no other entry; stopping is what counts the
  whole seconds between the two clock reads.
\<close>

theorem timer_start_and_stop:
  assumes "startTimer e u tid note w = (Inr l, w1)"
    and "stopTimer e' u tid w1 = (Inr l', w2)"
  shows "worklogs w1 = map (\<lambda>k. if running (au_id u) k then k\<lparr>wl_endedAt := Some (clk e 0), wl_seconds := 0\<rparr> else k)
      (worklogs w) @ [l] \<and> running (au_id u) l \<and>
    l' = l\<lparr>wl_endedAt := Some (clk e' 0), wl_seconds := elapsed_seconds (clk e 1) (clk e' 0)\<rparr> \<and>
    filter (running (au_id u)) (worklogs w2) = []"
proof -
  let ?f = "\<lambda>k. k\<lparr>wl_endedAt := Some (clk e 0), wl_seconds := 0\<rparr>"
  let ?old = "update_where (running (au_id u)) ?f (worklogs w)"
  have l: "l = \<lparr>wl_id = uuid e 0, wl_taskId = tid, wl_userId = au_id u, wl_seconds = 0,
              wl_startedAt = clk e 1, wl_endedAt = None, wl_note = nonempty note\<rparr>"
    and w1: "worklogs w1 = ?old @ [l]"
    using assms(1) by (auto simp: startTimer_def attempt_Inr Let_def)
  have idle: "\<not> running (au_id u) k" if "k \<in> set ?old" for k
  proof -
    from that obtain k0 where "k = (if running (au_id u) k0 then ?f k0 else k0)"
      unfolding set_update_where by (rule imageE)
    then show ?thesis by (auto simp: running_def)
  qed
  have run: "running (au_id u) l \<and> wl_taskId l = tid" by (simp add: l running_def)
  have "List.find (\<lambda>l. running (au_id u) l \<and> wl_taskId l = tid) (?old @ [l]) = Some l"
    by (rule find_snoc) (use run idle in blast)+
  then obtain s where s: "int4 (elapsed_seconds (wl_startedAt l) (clk e' 0)) = Inr s"
    and l': "l' = l\<lparr>wl_endedAt := Some (clk e' 0), wl_seconds := s\<rparr>"
    and w2: "worklogs w2 = update_where (\<lambda>k. wl_id k = wl_id l) (\<lambda>k. k\<lparr>wl_endedAt := Some (clk e' 0), wl_seconds := s\<rparr>) (?old @ [l])"
    using assms(2) by (auto simp: stopTimer_def attempt_Inr Let_def w1)
  have "s = elapsed_seconds (clk e 1) (clk e' 0)" using s by (simp add: int4_Inr l)
  moreover have "filter (running (au_id u)) (worklogs w2) = []"
    using idle unfolding w2 filter_empty_conv by (auto simp: set_update_where running_def)
  ultimately show ?thesis using w1 run l' by (simp add: update_where_def)
qed

definition timer_world :: world where
  "timer_world = task_world\<lparr>worklogs := [\<lparr>wl_id = ''old'', wl_taskId = ''t3'', wl_userId = ''A'', wl_seconds = 0,
     wl_startedAt = - 3600000, wl_endedAt = None, wl_note = None\<rparr>]\<rparr>"

theorem timer_start_and_stop_witness:
  "map (\<lambda>l. (wl_taskId l, wl_seconds l)) (worklogs (snd (startTimer sample_env sample_admin ''t1'' None timer_world))) =
    [(''t3'', 0), (''t1'', 0)]"
proof -
  let ?r = "startTimer sample_env sample_admin ''t1'' None timer_world"
  let ?s = "stopTimer (sample_env\<lparr>clk := \<lambda>n. 5000\<rparr>) sample_admin ''t1'' (snd ?r)"
  have sees: "visible_task timer_world sample_admin ''t1'' = Inr (sample_task ''t1'' ''Todo'')"
    by (simp add: visible_task_def timer_world_def find_task_def canSeeTask_def task_samples)
  have fk: "user_task_fk (timer_world\<lparr>worklogs := ls\<rparr>) (au_id sample_admin) ''t1''" for ls
    by (simp add: user_task_fk_def timer_world_def task_samples sample_admin_def)
  have "\<exists>l. fst ?r = Inr l" by (simp add: startTimer_def Let_def sees fk)
  then obtain l where r: "?r = (Inr l, snd ?r)" by (metis prod.collapse)
  have l: "worklogs (snd ?r) = update_where (running ''A'') (\<lambda>l. l\<lparr>wl_endedAt := Some 0, wl_seconds := 0\<rparr>) (worklogs timer_world) @
      [\<lparr>wl_id = ''x'', wl_taskId = ''t1'', wl_userId = ''A'', wl_seconds = 0, wl_startedAt = 1, wl_endedAt = None, wl_note = None\<rparr>]"
    by (simp add: startTimer_def Let_def sees fk) (simp add: sample_env_def sample_admin_def nonempty_def)
  have "\<exists>l. fst ?s = Inr l"
    unfolding stopTimer_def Let_def l
    by (simp add: timer_world_def running_def sample_admin_def int4_def elapsed_seconds_def INT4_MAX_def)
  then obtain l' where s: "?s = (Inr l', snd ?s)" by (metis prod.collapse)
  from timer_start_and_stop [OF r s] have "worklogs (snd ?r) = map (\<lambda>k. if running (au_id sample_admin) k
      then k\<lparr>wl_endedAt := Some (clk sample_env 0), wl_seconds := 0\<rparr> else k) (worklogs timer_world) @ [l]"
    and "wl_taskId l = ''t1'' \<and> wl_seconds l = 0" using l by auto
  then show ?thesis by (simp add: timer_world_def)
qed

end
