(* ===== verification/Goals.thy ===== *)
theory Goals
  imports TaskLaws JsNumber
begin

text \<open>
  \<^verbatim>\<open>apps/api/src/modules/goals/goals.service.ts\<close>: goals, the tasks linked to them, their key
  results with weights that are redistributed to sum to 100, and the progress computed from
  key results, child goals or tasks. Progress and weights are computed with doubles and are
  integers after rounding; sums of them stay far below the exact range of doubles.
\<close>

section \<open>Goals\<close>

record create_goal_input =
  cg_name :: string
  cg_description :: "string option"
  cg_startDate :: "int option"
  cg_targetDate :: "int option"
  cg_ownerUserId :: "string option"

record goal_patch =
  gp_name :: "string option"
  gp_description :: "string option option"
  gp_status :: "goal_status option"
  gp_progress :: "jsnum option option"
  gp_startDate :: "int option option"
  gp_targetDate :: "int option option"
  gp_ownerUserId :: "string option"

definition find_goal :: "world \<Rightarrow> string \<Rightarrow> goal_row option" where
  "find_goal w gid = find_row g_id gid (goals w)"

definition assertInternal :: "auth_user \<Rightarrow> unit res" where
  "assertInternal u = require (au_kind u = UInternal) (Forbidden ''Forbidden'')"

definition owns_goal :: "auth_user \<Rightarrow> goal_row \<Rightarrow> bool" where
  "owns_goal u g \<longleftrightarrow> \<not> (g_ownerUserId g \<noteq> au_id u \<and> au_companyRole u \<noteq> Some Admin)"

fun status_rank :: "goal_status \<Rightarrow> nat" where
  "status_rank GActive = 0"
| "status_rank GCompleted = 1"
| "status_rank GArchived = 2"

definition goal_order :: "goal_row \<Rightarrow> goal_row \<Rightarrow> bool" where
  "goal_order a b \<longleftrightarrow> (if g_status a = g_status b then g_createdAt b \<le> g_createdAt a
     else status_rank (g_status a) < status_rank (g_status b))"

definition goal_owner :: "world \<Rightarrow> goal_row \<Rightarrow> user_row option" where
  "goal_owner w g = find_row u_id (g_ownerUserId g) (users w)"

definition listGoals :: "auth_user \<Rightarrow> goal_status option \<Rightarrow> world \<Rightarrow> (goal_row \<times> user_row option \<times> nat) list" where
  "listGoals u status w = (if au_kind u \<noteq> UInternal then []
     else map (\<lambda>g. (g, goal_owner w g, count_where (\<lambda>x. gt_goalId x = g_id g) (goalTasks w)))
       (order_by goal_order (filter (\<lambda>g. status = None \<or> status = Some (g_status g)) (goals w))))"

definition linked_task :: "world \<Rightarrow> goal_task_row \<Rightarrow> (task_row \<times> project_row option \<times> user_row option) option" where
  "linked_task w x = map_option (\<lambda>t. (t, find_project w (t_projectId t),
     Option.bind (t_assigneeUserId t) (\<lambda>uid. find_row u_id uid (users w)))) (find_task w (gt_taskId x))"

definition getGoal :: "auth_user \<Rightarrow> string \<Rightarrow> world \<Rightarrow>
    (goal_row \<times> user_row option \<times> (goal_task_row \<times> (task_row \<times> project_row option \<times> user_row option) option) list) res" where
  "getGoal u gid w =
     and_then (assertInternal u) (\<lambda>_.
     and_then (found (NotFound ''Goal not found'') (find_goal w gid)) (\<lambda>g.
     Inr (g, goal_owner w g, map (\<lambda>x. (x, linked_task w x))
       (order_by (\<lambda>a b. gt_addedAt b \<le> gt_addedAt a) (filter (\<lambda>x. gt_goalId x = gid) (goalTasks w))))))"

definition createGoal :: "env \<Rightarrow> auth_user \<Rightarrow> create_goal_input \<Rightarrow> world \<Rightarrow> goal_row res \<times> world" where
  "createGoal e u i w =
     attempt (assertInternal u) w (\<lambda>_.
     let g = \<lparr>g_id = uuid e 0, g_name = cg_name i, g_description = cg_description i,
              g_ownerUserId = override (cg_ownerUserId i) (au_id u), g_status = GActive, g_progress = None,
              g_startDate = cg_startDate i, g_targetDate = cg_targetDate i, g_parentGoalId = None, g_createdAt = clk e 0\<rparr>
     in attempt (require (g_ownerUserId g \<in> u_id ` set (users w)) (DbError P2003)) w (\<lambda>_.
        (Inr g, emit (GoalCreated (g_id g) (au_id u)) (w\<lparr>goals := goals w @ [g]\<rparr>))))"

text \<open>\<open>Math.max(0, Math.min(100, Math.floor(progress)))\<close>; the database refuses not-a-number.\<close>

definition patched_progress :: "jsnum option option \<Rightarrow> int option option res" where
  "patched_progress p = (case p of
     None \<Rightarrow> Inr None
   | Some None \<Rightarrow> Inr (Some None)
   | Some (Some x) \<Rightarrow> (case clamp_percent (js_floor x) of
       Fin q \<Rightarrow> Inr (Some (Some \<lfloor>q\<rfloor>)) | _ \<Rightarrow> Inl (LibraryError ''Invalid value for progress'')))"

definition patch_goal :: "goal_patch \<Rightarrow> int option option \<Rightarrow> goal_row \<Rightarrow> goal_row" where
  "patch_goal d progress g = g\<lparr>
     g_name := override (gp_name d) (g_name g),
     g_description := override (gp_description d) (g_description g),
     g_status := override (gp_status d) (g_status g),
     g_progress := override progress (g_progress g),
     g_startDate := override (gp_startDate d) (g_startDate g),
     g_targetDate := override (gp_targetDate d) (g_targetDate g),
     g_ownerUserId := override (gp_ownerUserId d) (g_ownerUserId g)\<rparr>"

definition updateGoal :: "auth_user \<Rightarrow> string \<Rightarrow> goal_patch \<Rightarrow> world \<Rightarrow> goal_row res \<times> world" where
  "updateGoal u gid d w =
     attempt (assertInternal u) w (\<lambda>_.
     attempt (found (NotFound ''Goal not found'') (find_goal w gid)) w (\<lambda>g.
     attempt (require (owns_goal u g) (Forbidden ''Only the owner or an admin can edit this goal'')) w (\<lambda>_.
     attempt (patched_progress (gp_progress d)) w (\<lambda>progress.
     let g' = patch_goal d progress g
     in attempt (require (g_ownerUserId g' \<in> u_id ` set (users w)) (DbError P2003)) w (\<lambda>_.
        (Inr g', emit (GoalUpdated gid (au_id u))
           (w\<lparr>goals := update_where (\<lambda>g. g_id g = gid) (patch_goal d progress) (goals w)\<rparr>)))))))"

definition cascade_goal :: "string \<Rightarrow> world \<Rightarrow> world" where
  "cascade_goal gid w = w\<lparr>
     goals := map (\<lambda>g. if g_parentGoalId g = Some gid then g\<lparr>g_parentGoalId := None\<rparr> else g)
                (delete_where (\<lambda>g. g_id g = gid) (goals w)),
     goalTasks := delete_where (\<lambda>x. gt_goalId x = gid) (goalTasks w),
     keyResults := delete_where (\<lambda>k. kr_goalId k = gid) (keyResults w)\<rparr>"

definition removeGoal :: "auth_user \<Rightarrow> string \<Rightarrow> world \<Rightarrow> unit res \<times> world" where
  "removeGoal u gid w =
     attempt (assertInternal u) w (\<lambda>_.
     attempt (found (NotFound ''Goal not found'') (find_goal w gid)) w (\<lambda>g.
     attempt (require (owns_goal u g) (Forbidden ''Forbidden'')) w (\<lambda>_.
     (Inr (), emit (GoalDeleted gid (au_id u)) (cascade_goal gid w)))))"

definition goal_task_key :: "goal_task_row \<Rightarrow> string \<times> string" where
  "goal_task_key x = (gt_goalId x, gt_taskId x)"

definition linkTask :: "env \<Rightarrow> auth_user \<Rightarrow> string \<Rightarrow> string \<Rightarrow> world \<Rightarrow> unit res \<times> world" where
  "linkTask e u gid tid w =
     attempt (assertInternal u) w (\<lambda>_.
     attempt (found (NotFound ''Task not found'') (find_task w tid)) w (\<lambda>task.
     attempt (canSeeTask w u (t_projectId task) (t_visibility task)) w (\<lambda>canSee.
     attempt (require canSee (Forbidden ''Forbidden'')) w (\<lambda>_.
     attempt (require ((gid, tid) \<in> goal_task_key ` set (goalTasks w) \<or>
         gid \<in> g_id ` set (goals w) \<and> user_task_fk w (au_id u) tid) (DbError P2003)) w (\<lambda>_.
     (Inr (), emit (GoalTaskLinked gid tid (au_id u))
        (w\<lparr>goalTasks := insert_absent goal_task_key
             \<lparr>gt_goalId = gid, gt_taskId = tid, gt_addedById = au_id u, gt_addedAt = clk e 0\<rparr> (goalTasks w)\<rparr>)))))))"

definition unlinkTask :: "auth_user \<Rightarrow> string \<Rightarrow> string \<Rightarrow> world \<Rightarrow> unit res \<times> world" where
  "unlinkTask u gid tid w =
     attempt (assertInternal u) w (\<lambda>_.
     (Inr (), w\<lparr>goalTasks := delete_where (\<lambda>x. goal_task_key x = (gid, tid)) (goalTasks w)\<rparr>))"

section \<open>Key results\<close>

text \<open>The key results of a goal in the order of their positions.\<close>

definition goal_krs :: "string \<Rightarrow> key_result_row list \<Rightarrow> key_result_row list" where
  "goal_krs gid ks = order_by (\<lambda>a b. kr_position a \<le> kr_position b) (filter (\<lambda>k. kr_goalId k = gid) ks)"

definition even_split :: "nat \<Rightarrow> int list" where
  "even_split n = (let base = 100 div int n; remainder = 100 - base * int n
     in map (\<lambda>i. if i = n - 1 then base + remainder else base) [0..<n])"

text \<open>\<open>Math.round((weight / sum) * 100)\<close>.\<close>

definition scaled_weight :: "int \<Rightarrow> int \<Rightarrow> int" where
  "scaled_weight whole weight =
     (case js_round (js_mul (js_div (of_int_js weight) (of_int whole)) (Fin 100)) of Fin q \<Rightarrow> \<lfloor>q\<rfloor> | _ \<Rightarrow> 0)"

text \<open>The loop with its running total: the last entry takes what is left of 100.\<close>

fun scale_weights :: "int \<Rightarrow> int \<Rightarrow> int list \<Rightarrow> int list" where
  "scale_weights whole acc [] = []"
| "scale_weights whole acc [x] = [100 - acc]"
| "scale_weights whole acc (x # y # xs) =
    (let scaled = scaled_weight whole x in scaled # scale_weights whole (acc + scaled) (y # xs))"

definition next_weights :: "int list \<Rightarrow> int list" where
  "next_weights ws = (if sum_list ws = 0 then even_split (length ws) else scale_weights (sum_list ws) 0 ws)"

definition set_weight :: "string \<times> int \<Rightarrow> key_result_row list \<Rightarrow> key_result_row list" where
  "set_weight x ks = update_where (\<lambda>k. kr_id k = fst x) (\<lambda>k. k\<lparr>kr_weight := snd x\<rparr>) ks"

definition redistributeWeights :: "string \<Rightarrow> key_result_row list \<Rightarrow> key_result_row list" where
  "redistributeWeights gid ks =
     (let krs = goal_krs gid ks
      in fold set_weight (zip (map kr_id krs) (next_weights (map kr_weight krs))) ks)"

record key_result_input =
  ki_name :: string
  ki_unit :: "string option"
  ki_kind :: "string option"
  ki_targetValue :: "rat option"
  ki_currentValue :: "rat option"

definition listKeyResults :: "auth_user \<Rightarrow> string \<Rightarrow> world \<Rightarrow> key_result_row list res" where
  "listKeyResults u gid w =
     and_then (assertInternal u) (\<lambda>_.
     and_then (found (NotFound ''Goal not found'') (find_goal w gid)) (\<lambda>_.
     Inr (order_by (\<lambda>a b. if kr_position a = kr_position b then kr_createdAt a \<le> kr_createdAt b
            else kr_position a < kr_position b) (filter (\<lambda>k. kr_goalId k = gid) (keyResults w)))))"

definition new_key_result :: "env \<Rightarrow> string \<Rightarrow> key_result_input \<Rightarrow> key_result_row list \<Rightarrow> key_result_row" where
  "new_key_result e gid i ks =
     (let kind = override (ki_kind i) ''number'';
          defaultTarget = (if kind = ''boolean'' then 1 else if kind = ''percent'' then 100 else 100);
          positions = map kr_position (filter (\<lambda>k. kr_goalId k = gid) ks)
      in \<lparr>kr_id = uuid e 0, kr_goalId = gid, kr_name = trim (ki_name i),
          kr_unit = (case ki_unit i of Some x \<Rightarrow> Some x
            | None \<Rightarrow> if kind = ''percent'' then Some ''%'' else if kind = ''revenue'' then Some ''$'' else None),
          kr_kind = kind, kr_targetValue = override (ki_targetValue i) defaultTarget,
          kr_currentValue = override (ki_currentValue i) 0, kr_weight = 0,
          kr_position = (if positions = [] then - 1 else Max (set positions)) + 1, kr_createdAt = clk e 0\<rparr>)"

definition createKeyResult :: "env \<Rightarrow> auth_user \<Rightarrow> string \<Rightarrow> key_result_input \<Rightarrow> world \<Rightarrow> key_result_row res \<times> world" where
  "createKeyResult e u gid i w =
     attempt (assertInternal u) w (\<lambda>_.
     attempt (found (NotFound ''Goal not found'') (find_goal w gid)) w (\<lambda>g.
     attempt (require (owns_goal u g) (Forbidden ''Only the owner or an admin can add key results'')) w (\<lambda>_.
     let created = new_key_result e gid i (keyResults w);
         ks = redistributeWeights gid (keyResults w @ [created])
     in attempt (found (DbError P2025) (find_row kr_id (kr_id created) ks)) w (\<lambda>k.
        (Inr k, w\<lparr>keyResults := ks\<rparr>)))))"

record key_result_patch =
  kp_name :: "string option"
  kp_unit :: "string option option"
  kp_targetValue :: "rat option"
  kp_currentValue :: "rat option"
  kp_position :: "int option"

definition patch_key_result :: "key_result_patch \<Rightarrow> key_result_row \<Rightarrow> key_result_row" where
  "patch_key_result d k = k\<lparr>
     kr_name := override (map_option trim (kp_name d)) (kr_name k),
     kr_unit := override (kp_unit d) (kr_unit k),
     kr_targetValue := override (kp_targetValue d) (kr_targetValue k),
     kr_currentValue := override (kp_currentValue d) (kr_currentValue k),
     kr_position := override (kp_position d) (kr_position k)\<rparr>"

text \<open>The key result with its goal, whose owner decides.\<close>

definition owned_key_result :: "string \<Rightarrow> auth_user \<Rightarrow> string \<Rightarrow> world \<Rightarrow> key_result_row res" where
  "owned_key_result msg u kid w =
     and_then (assertInternal u) (\<lambda>_.
     and_then (found (NotFound ''Key result not found'') (find_row kr_id kid (keyResults w))) (\<lambda>k.
     and_then (found (DbError P2025) (find_goal w (kr_goalId k))) (\<lambda>g.
     and_then (require (owns_goal u g) (Forbidden msg)) (\<lambda>_. Inr k))))"

definition updateKeyResult :: "auth_user \<Rightarrow> string \<Rightarrow> key_result_patch \<Rightarrow> world \<Rightarrow> key_result_row res \<times> world" where
  "updateKeyResult u kid d w =
     attempt (owned_key_result ''Only the owner or an admin can edit key results'' u kid w) w (\<lambda>k.
     (Inr (patch_key_result d k),
      w\<lparr>keyResults := update_where (\<lambda>k. kr_id k = kid) (patch_key_result d) (keyResults w)\<rparr>))"

definition removeKeyResult :: "auth_user \<Rightarrow> string \<Rightarrow> world \<Rightarrow> unit res \<times> world" where
  "removeKeyResult u kid w =
     attempt (owned_key_result ''Forbidden'' u kid w) w (\<lambda>k.
     (Inr (), w\<lparr>keyResults := redistributeWeights (kr_goalId k)
        (delete_where (\<lambda>k. kr_id k = kid) (keyResults w))\<rparr>))"

section \<open>Progress\<close>

definition js_to_int :: "jsnum \<Rightarrow> int" where
  "js_to_int x = (case x of Fin q \<Rightarrow> \<lfloor>q\<rfloor> | _ \<Rightarrow> 0)"

definition krProgressPct :: "key_result_row \<Rightarrow> int" where
  "krProgressPct k = (if kr_targetValue k = 0 then 0
     else js_to_int (clamp_percent (js_round (js_mul (js_div (Fin (kr_currentValue k)) (kr_targetValue k)) (Fin 100)))))"

text \<open>\<open>Math.round(a / b)\<close> on integers.\<close>

definition round_quotient :: "int \<Rightarrow> int \<Rightarrow> int" where
  "round_quotient a b = js_to_int (js_round (js_div (of_int_js a) (of_int b)))"

definition kr_average :: "key_result_row list \<Rightarrow> int" where
  "kr_average ks =
     (let weighted = foldl (\<lambda>acc k. acc + krProgressPct k * kr_weight k) 0 ks;
          sumW = foldl (\<lambda>acc k. acc + kr_weight k) 0 ks
      in if 0 < sumW then round_quotient weighted sumW else 0)"

definition done_ratio :: "string list \<Rightarrow> int" where
  "done_ratio sts =
     (let done_count = length (filter (\<lambda>s. s = ''Done'' \<or> s = ''Approved'') sts)
      in js_to_int (js_round (js_mul (js_div (of_int_js (int done_count)) (of_int (int (length sts)))) (Fin 100))))"

definition goal_children :: "world \<Rightarrow> string \<Rightarrow> goal_row list" where
  "goal_children w gid = filter (\<lambda>g. g_parentGoalId g = Some gid) (goals w)"

definition goal_statuses :: "world \<Rightarrow> string \<Rightarrow> string list" where
  "goal_statuses w gid = [t_status t. x \<leftarrow> goalTasks w, gt_goalId x = gid, t \<leftarrow> tasks w, t_id t = gt_taskId x]"

definition key_results_of :: "world \<Rightarrow> string \<Rightarrow> key_result_row list" where
  "key_results_of w gid = filter (\<lambda>k. kr_goalId k = gid) (keyResults w)"

text \<open>
  \<open>computeProgressBounded(id, depth)\<close> with \<open>n = 11 - depth\<close> levels left: the code answers 0 from
  depth 11 on.
\<close>

fun progress_bounded :: "nat \<Rightarrow> world \<Rightarrow> string \<Rightarrow> int" where
  "progress_bounded 0 w gid = 0"
| "progress_bounded (Suc n) w gid = (case find_goal w gid of
     None \<Rightarrow> 0
   | Some g \<Rightarrow> (case g_progress g of
       Some p \<Rightarrow> p
     | None \<Rightarrow>
         if goal_children w gid \<noteq> [] then
           (let child = map (\<lambda>c. progress_bounded n w (g_id c)) (goal_children w gid)
            in round_quotient (foldl (+) 0 child) (int (length child)))
         else if key_results_of w gid \<noteq> [] then kr_average (key_results_of w gid)
         else if goal_statuses w gid \<noteq> [] then done_ratio (goal_statuses w gid)
         else 0))"

datatype progress_source = Manual | FromChildren | FromKeyResults | FromTasks | Empty

definition MAX_DEPTH :: nat where
  "MAX_DEPTH = 10"

definition computeProgress :: "world \<Rightarrow> string \<Rightarrow> int \<times> progress_source" where
  "computeProgress w gid = (case find_goal w gid of
     None \<Rightarrow> (0, Empty)
   | Some g \<Rightarrow> (case g_progress g of
       Some p \<Rightarrow> (p, Manual)
     | None \<Rightarrow>
         if goal_children w gid \<noteq> [] then
           (let child = map (\<lambda>c. progress_bounded MAX_DEPTH w (g_id c)) (goal_children w gid)
            in (round_quotient (foldl (+) 0 child) (int (length child)), FromChildren))
         else if key_results_of w gid \<noteq> [] then (kr_average (key_results_of w gid), FromKeyResults)
         else if goal_statuses w gid \<noteq> [] then (done_ratio (goal_statuses w gid), FromTasks)
         else (0, Empty)))"

end
