(* ===== verification/GoalLaws.thy ===== *)
theory GoalLaws
  imports Goals
begin

text \<open>
  The laws of the goal service: the weights of the key results of a goal sum to 100 whatever
  operations run, and the computed progress stays between 0 and 100 while no weight is negative,
  with the runs that make one negative.
\<close>

section \<open>Redistribution\<close>

lemma sum_list_insert_by: "sum_list (map f (insert_by le x xs)) = (f x + sum_list (map f xs) :: int)"
  by (induction xs) auto

lemma sum_list_order_by: "sum_list (map f (order_by le xs)) = (sum_list (map f xs) :: int)"
  by (induction xs) (simp_all add: sum_list_insert_by)

lemma sum_scale_weights: "ws \<noteq> [] \<Longrightarrow> sum_list (scale_weights whole acc ws) = 100 - acc"
  by (induction whole acc ws rule: scale_weights.induct) (auto simp: Let_def)

lemma length_scale_weights [simp]: "length (scale_weights whole acc ws) = length ws"
  by (induction whole acc ws rule: scale_weights.induct) (auto simp: Let_def)

lemma sum_even_split: "0 < n \<Longrightarrow> sum_list (even_split n) = 100"
proof -
  assume n: "0 < n"
  let ?f = "\<lambda>i. if i = n - 1 then 100 div int n + (100 - 100 div int n * int n) else 100 div int n"
  have "[0..<n] = [0..<n - 1] @ [n - 1]" using n by (cases n) simp_all
  moreover have "map ?f [0..<n - 1] = replicate (n - 1) (100 div int n)"
    by (rule nth_equalityI) simp_all
  ultimately have "sum_list (even_split n) = int (n - 1) * (100 div int n) + (100 div int n + (100 - 100 div int n * int n))"
    by (simp add: even_split_def Let_def sum_list_replicate)
  also have "\<dots> = 100" using n by (simp add: of_nat_diff algebra_simps)
  finally show ?thesis .
qed

lemma sum_next_weights: "ws \<noteq> [] \<Longrightarrow> sum_list (next_weights ws) = 100"
  by (simp add: next_weights_def sum_scale_weights sum_even_split)

lemma length_next_weights [simp]: "length (next_weights ws) = length ws"
  by (simp add: next_weights_def even_split_def Let_def)

definition reweigh :: "(string \<times> int) list \<Rightarrow> key_result_row \<Rightarrow> key_result_row" where
  "reweigh xs k = (case map_of xs (kr_id k) of None \<Rightarrow> k | Some v \<Rightarrow> k\<lparr>kr_weight := v\<rparr>)"

lemma reweigh_fields [simp]: "kr_id (reweigh xs k) = kr_id k" "kr_goalId (reweigh xs k) = kr_goalId k"
  by (simp_all add: reweigh_def split: option.splits)

lemma fold_set_weight: "distinct (map fst xs) \<Longrightarrow> fold set_weight xs ks = map (reweigh xs) ks"
proof (induction xs arbitrary: ks)
  case (Cons x xs)
  then have "map_of xs (fst x) = None" by (simp add: map_of_eq_None_iff)
  then have "reweigh xs (if kr_id k = fst x then k\<lparr>kr_weight := snd x\<rparr> else k) = reweigh (x # xs) k" for k
    by (cases x) (auto simp: reweigh_def)
  with Cons show ?case by (simp add: set_weight_def update_where_def comp_def)
qed (simp add: reweigh_def map_idI)

definition weights_of :: "string \<Rightarrow> key_result_row list \<Rightarrow> int list" where
  "weights_of gid ks = map kr_weight (filter (\<lambda>k. kr_goalId k = gid) ks)"

lemma redistribute_reweigh:
  assumes "distinct (map kr_id ks)"
  shows "redistributeWeights gid ks =
    map (reweigh (zip (map kr_id (goal_krs gid ks)) (next_weights (map kr_weight (goal_krs gid ks))))) ks"
proof -
  have "distinct (map kr_id (goal_krs gid ks))"
    unfolding goal_krs_def using assms by (intro distinct_order_by distinct_map_filter)
  then show ?thesis unfolding redistributeWeights_def Let_def by (intro fold_set_weight) simp
qed

lemma goal_krs_set: "set (goal_krs gid ks) = {k \<in> set ks. kr_goalId k = gid}"
  by (simp add: goal_krs_def)

lemma redistribute_ids: "distinct (map kr_id ks) \<Longrightarrow> map kr_id (redistributeWeights gid ks) = map kr_id ks"
  by (simp add: redistribute_reweigh comp_def)

lemma redistribute_other:
  assumes "distinct (map kr_id ks)" and "g \<noteq> gid"
  shows "weights_of g (redistributeWeights gid ks) = weights_of g ks"
proof -
  let ?krs = "goal_krs gid ks"
  let ?r = "reweigh (zip (map kr_id ?krs) (next_weights (map kr_weight ?krs)))"
  have "?r k = k" if "k \<in> set ks" "kr_goalId k = g" for k
  proof -
    have "kr_id k \<notin> kr_id ` set ?krs"
    proof
      assume "kr_id k \<in> kr_id ` set ?krs"
      then obtain k' where "k' \<in> set ks" "kr_goalId k' = gid" "kr_id k' = kr_id k" by (auto simp: goal_krs_set)
      with that assms show False by (auto simp: distinct_map dest: inj_onD)
    qed
    then show ?thesis by (simp add: reweigh_def map_of_eq_None_iff split: option.splits) (metis in_set_zipE map_of_SomeD list.set_map)
  qed
  then have "map kr_weight (filter (\<lambda>k. kr_goalId k = g) (map ?r ks)) = map kr_weight (filter (\<lambda>k. kr_goalId k = g) ks)"
    by (auto simp: filter_map comp_def)
  then show ?thesis by (simp add: weights_of_def redistribute_reweigh [OF assms(1)])
qed

lemma redistribute_sum:
  assumes "distinct (map kr_id ks)" and "weights_of gid ks \<noteq> []"
  shows "sum_list (weights_of gid (redistributeWeights gid ks)) = 100"
proof -
  let ?krs = "goal_krs gid ks" and ?ws = "next_weights (map kr_weight (goal_krs gid ks))"
  let ?r = "reweigh (zip (map kr_id ?krs) ?ws)"
  have d: "distinct (map kr_id ?krs)"
    unfolding goal_krs_def using assms(1) by (intro distinct_order_by distinct_map_filter)
  have "map (kr_weight \<circ> ?r) ?krs = ?ws"
  proof (rule nth_equalityI)
    fix i assume i: "i < length (map (kr_weight \<circ> ?r) ?krs)"
    have "map_of (zip (map kr_id ?krs) ?ws) (map kr_id ?krs ! i) = Some (?ws ! i)"
      using d i by (intro map_of_zip_nth) simp_all
    with i show "map (kr_weight \<circ> ?r) ?krs ! i = ?ws ! i" by (simp add: reweigh_def)
  qed simp
  moreover have "sum_list (map (kr_weight \<circ> ?r) ?krs) = sum_list (map (kr_weight \<circ> ?r) (filter (\<lambda>k. kr_goalId k = gid) ks))"
    unfolding goal_krs_def by (rule sum_list_order_by)
  moreover have "weights_of gid (redistributeWeights gid ks) = map (kr_weight \<circ> ?r) (filter (\<lambda>k. kr_goalId k = gid) ks)"
    by (simp add: weights_of_def redistribute_reweigh [OF assms(1)] filter_map comp_def)
  moreover have "?krs \<noteq> []"
    using assms(2) goal_krs_set [of gid ks] by (auto simp: weights_of_def filter_empty_conv)
  ultimately show ?thesis using sum_next_weights [of "map kr_weight ?krs"] by simp
qed

section \<open>The invariant\<close>

definition percent :: "int \<Rightarrow> bool" where
  "percent p \<longleftrightarrow> 0 \<le> p \<and> p \<le> 100"

definition weights_ok :: "key_result_row list \<Rightarrow> bool" where
  "weights_ok ks \<longleftrightarrow> distinct (map kr_id ks) \<and> (\<forall>gid. weights_of gid ks = [] \<or> sum_list (weights_of gid ks) = 100)"

definition goals_inv :: "world \<Rightarrow> bool" where
  "goals_inv w \<longleftrightarrow> weights_ok (keyResults w) \<and> (\<forall>g \<in> set (goals w). pred_option percent (g_progress g))"

lemmas goal_steps = attempt_inv [where P = goals_inv]

lemma goals_inv_others [simp]:
  "goals_inv (emit ev w) = goals_inv w" "goals_inv (w\<lparr>goalTasks := xs\<rparr>) = goals_inv w"
  by (simp_all add: goals_inv_def)

lemma weights_of_redistributed:
  assumes "distinct (map kr_id ks)" and "\<And>g. g \<noteq> gid \<Longrightarrow> weights_of g ks = [] \<or> sum_list (weights_of g ks) = 100"
  shows "weights_ok (redistributeWeights gid ks)"
  unfolding weights_ok_def
proof (intro conjI allI)
  show "distinct (map kr_id (redistributeWeights gid ks))" using assms(1) by (simp add: redistribute_ids)
  fix g
  have "weights_of gid ks = [] \<Longrightarrow> weights_of gid (redistributeWeights gid ks) = []"
    by (auto simp: weights_of_def redistribute_reweigh [OF assms(1)] filter_empty_conv)
  then show "weights_of g (redistributeWeights gid ks) = [] \<or> sum_list (weights_of g (redistributeWeights gid ks)) = 100"
    using redistribute_sum [OF assms(1)] redistribute_other [OF assms(1)] assms(2) by (cases "g = gid") auto
qed

lemma createKeyResult_inv:
  assumes "goals_inv w" and "uuid e 0 \<notin> kr_id ` set (keyResults w)"
  shows "goals_inv (snd (createKeyResult e u gid i w))"
proof -
  let ?k = "new_key_result e gid i (keyResults w)"
  have k: "kr_id ?k = uuid e 0" "kr_goalId ?k = gid" by (simp_all add: new_key_result_def Let_def)
  have "weights_ok (redistributeWeights gid (keyResults w @ [?k]))"
  proof (rule weights_of_redistributed)
    show "distinct (map kr_id (keyResults w @ [?k]))" using assms by (simp add: goals_inv_def weights_ok_def k)
    show "\<And>g. g \<noteq> gid \<Longrightarrow> weights_of g (keyResults w @ [?k]) = [] \<or> sum_list (weights_of g (keyResults w @ [?k])) = 100"
      using assms(1) k by (simp add: goals_inv_def weights_ok_def weights_of_def)
  qed
  then show ?thesis
    unfolding createKeyResult_def Let_def
    using assms(1) by (intro goal_steps assms(1)) (simp add: goals_inv_def)
qed

lemma removeKeyResult_inv:
  assumes "goals_inv w"
  shows "goals_inv (snd (removeKeyResult u kid w))"
proof -
  have "weights_ok (redistributeWeights (kr_goalId k) (delete_where (\<lambda>k. kr_id k = kid) (keyResults w)))"
    if k: "find_row kr_id kid (keyResults w) = Some k" for k
  proof (rule weights_of_redistributed)
    note d = assms [unfolded goals_inv_def weights_ok_def]
    show "distinct (map kr_id (delete_where (\<lambda>k. kr_id k = kid) (keyResults w)))"
      using d by (intro distinct_delete_where) blast
    fix g assume g: "g \<noteq> kr_goalId k"
    have "k' = k" if "k' \<in> set (keyResults w)" "kr_id k' = kid" for k'
      using find_row_distinct [of kr_id "keyResults w" k'] that d k by simp
    then have "filter (\<lambda>k. kr_goalId k = g) (delete_where (\<lambda>k. kr_id k = kid) (keyResults w)) =
        filter (\<lambda>k. kr_goalId k = g) (keyResults w)"
      using g unfolding delete_where_def filter_filter by (intro filter_cong) auto
    then show "weights_of g (delete_where (\<lambda>k. kr_id k = kid) (keyResults w)) = [] \<or>
        sum_list (weights_of g (delete_where (\<lambda>k. kr_id k = kid) (keyResults w))) = 100"
      using d by (simp add: weights_of_def)
  qed
  then have "goals_inv (w\<lparr>keyResults := redistributeWeights (kr_goalId k) (delete_where (\<lambda>k. kr_id k = kid) (keyResults w))\<rparr>)"
    if "owned_key_result msg u kid w = Inr k" for k msg
    using that assms by (auto simp: owned_key_result_def and_then_Inr goals_inv_def)
  then show ?thesis unfolding removeKeyResult_def by (intro goal_steps assms) simp
qed

lemma updateKeyResult_inv:
  assumes "goals_inv w"
  shows "goals_inv (snd (updateKeyResult u kid d w))"
proof -
  let ?ks = "update_where (\<lambda>k. kr_id k = kid) (patch_key_result d) (keyResults w)"
  have "weights_of g ?ks = weights_of g (keyResults w)" for g
    unfolding weights_of_def by (subst filter_update_where) (simp_all add: patch_key_result_def map_update_where)
  moreover have "map kr_id ?ks = map kr_id (keyResults w)" by (rule map_update_where) (simp add: patch_key_result_def)
  ultimately have "weights_ok ?ks" using assms by (simp add: goals_inv_def weights_ok_def)
  with assms show ?thesis
    unfolding updateKeyResult_def by (intro goal_steps assms) (simp add: goals_inv_def)
qed

lemma clamp_percent_range: "clamp_percent x = Fin q \<Longrightarrow> 0 \<le> q \<and> q \<le> 100"
  by (cases x) (auto simp: clamp_percent_def js_max_def js_min_def split: if_splits)

lemma patched_progress_percent: "patched_progress p = Inr (Some (Some n)) \<Longrightarrow> percent n"
  by (auto simp: patched_progress_def percent_def floor_le_iff dest: clamp_percent_range split: option.splits jsnum.splits)

lemma updateGoal_inv:
  assumes "goals_inv w"
  shows "goals_inv (snd (updateGoal u gid d w))"
proof -
  have "goals_inv (w\<lparr>goals := update_where p (patch_goal d pr) (goals w)\<rparr>)"
    if "patched_progress (gp_progress d) = Inr pr" for p pr
  proof -
    have "pred_option percent (g_progress (patch_goal d pr g))" if "pred_option percent (g_progress g)" for g
      using that patched_progress_percent \<open>patched_progress (gp_progress d) = Inr pr\<close>
      by (cases pr) (auto simp: patch_goal_def pred_option_def elim!: option.set_cases)
    with assms show ?thesis by (auto simp: goals_inv_def set_update_where)
  qed
  with assms show ?thesis unfolding updateGoal_def Let_def by (intro goal_steps) auto
qed

lemma removeGoal_inv:
  assumes "goals_inv w"
  shows "goals_inv (snd (removeGoal u gid w))"
proof -
  have "filter (\<lambda>k. kr_goalId k = g) (delete_where (\<lambda>k. kr_goalId k = gid) ks) =
      (if g = gid then [] else filter (\<lambda>k. kr_goalId k = g) ks)" for g and ks :: "key_result_row list"
    by (induction ks) auto
  then have "weights_ok (delete_where (\<lambda>k. kr_goalId k = gid) (keyResults w))"
    using assms by (simp add: goals_inv_def weights_ok_def weights_of_def distinct_delete_where)
  then have "goals_inv (cascade_goal gid w)" using assms by (auto simp: goals_inv_def cascade_goal_def)
  with assms show ?thesis unfolding removeGoal_def by (intro goal_steps) simp_all
qed

lemma createGoal_inv: "goals_inv w \<Longrightarrow> goals_inv (snd (createGoal e u i w))"
  unfolding createGoal_def Let_def by (intro goal_steps) (auto simp: goals_inv_def)

lemma link_inv: "goals_inv w \<Longrightarrow> goals_inv (snd (linkTask e u gid tid w))"
    and unlink_inv: "goals_inv w \<Longrightarrow> goals_inv (snd (unlinkTask u gid tid w))"
  unfolding linkTask_def unlinkTask_def by (intro goal_steps; simp)+

datatype goal_op =
    CreateGoal env auth_user create_goal_input
  | UpdateGoal auth_user string goal_patch
  | RemoveGoal auth_user string
  | LinkTask env auth_user string string
  | UnlinkTask auth_user string string
  | CreateKeyResult env auth_user string key_result_input
  | UpdateKeyResult auth_user string key_result_patch
  | RemoveKeyResult auth_user string

fun exec_goal :: "goal_op \<Rightarrow> world \<Rightarrow> world" where
  "exec_goal (CreateGoal e u i) w = snd (createGoal e u i w)"
| "exec_goal (UpdateGoal u gid d) w = snd (updateGoal u gid d w)"
| "exec_goal (RemoveGoal u gid) w = snd (removeGoal u gid w)"
| "exec_goal (LinkTask e u gid tid) w = snd (linkTask e u gid tid w)"
| "exec_goal (UnlinkTask u gid tid) w = snd (unlinkTask u gid tid w)"
| "exec_goal (CreateKeyResult e u gid i) w = snd (createKeyResult e u gid i w)"
| "exec_goal (UpdateKeyResult u kid d) w = snd (updateKeyResult u kid d w)"
| "exec_goal (RemoveKeyResult u kid) w = snd (removeKeyResult u kid w)"

fun new_key_result_id :: "goal_op \<Rightarrow> world \<Rightarrow> bool" where
  "new_key_result_id (CreateKeyResult e u gid i) w = (uuid e 0 \<notin> kr_id ` set (keyResults w))"
| "new_key_result_id _ w = True"

interpretation goal_runs: operation_system goals_inv new_key_result_id exec_goal
proof
  fix w op assume "goals_inv w" and "new_key_result_id op w"
  then show "goals_inv (exec_goal op w)"
    by (cases op) (simp_all add: createGoal_inv updateGoal_inv removeGoal_inv link_inv unlink_inv createKeyResult_inv
        updateKeyResult_inv removeKeyResult_inv)
qed


section \<open>Progress\<close>

text \<open>The percentage of a key result is a number, whatever doubles it was given.\<close>

lemma kr_pct_finite:
  assumes "kr_targetValue k \<noteq> 0"
  shows "js_finite (clamp_percent (js_round (js_mul (js_div (Fin (kr_currentValue k)) (kr_targetValue k)) (Fin 100))))"
proof -
  let ?x = "js_div (Fin (kr_currentValue k)) (kr_targetValue k)"
  have "?x \<noteq> NaN" using to_double_not_NaN by (simp add: js_div_def)
  then have "js_mul ?x (Fin 100) \<noteq> NaN"
    using to_double_not_NaN by (cases ?x) (simp_all add: js_mul_def signed_inf_def)
  then show ?thesis
    by (cases "js_mul ?x (Fin 100)") (simp_all add: js_round_def js_int_def clamp_percent_def js_min_def js_max_def js_finite_def)
qed

lemma percent_floor: "0 \<le> q \<Longrightarrow> q \<le> 100 \<Longrightarrow> percent \<lfloor>q\<rfloor>"
  by (simp add: percent_def floor_le_iff)

lemma krProgressPct_percent: "percent (krProgressPct k)"
proof -
  have "percent (js_to_int (clamp_percent x))" for x
    by (cases "clamp_percent x") (use clamp_percent_range [of x] percent_floor in \<open>auto simp: js_to_int_def percent_def\<close>)
  then show ?thesis by (simp add: krProgressPct_def percent_def)
qed

lemma round_up_between: "of_int a \<le> q \<Longrightarrow> q \<le> of_int b \<Longrightarrow> a \<le> round_up q \<and> round_up q \<le> b"
  by (simp add: round_up_def le_floor_iff floor_le_iff)

lemma js_to_int_of_int [simp]: "js_to_int (Fin (of_int i)) = i"
  by (simp add: js_to_int_def)

lemma round_quotient_percent:
  assumes "0 < b" and "0 \<le> a" and "a \<le> 100 * b" and "a < 2 ^ 53"
  shows "percent (round_quotient a b)"
proof -
  have a: "of_int_js a = Fin (of_int a)" using assms(2,4) by (simp add: of_int_js_def)
  have "(of_int a :: rat) \<le> of_int (100 * b)" using assms(3) by (simp only: of_int_le_iff)
  then have "(of_int a :: rat) / of_int b \<le> of_int 100" using assms(1) by (simp add: field_simps)
  moreover have "of_int 0 \<le> (of_int a :: rat) / of_int b" using assms(1,2) by simp
  ultimately obtain r where r: "to_double (of_int a / of_int b) = Fin r" "of_int 0 \<le> r" "r \<le> of_int 100"
    using to_double_between [of 0 "of_int a / of_int b" 100] by auto
  then show ?thesis using round_up_between [of 0 r 100]
    by (simp add: round_quotient_def a js_div_def js_round_def js_int_def percent_def)
qed

lemma foldl_sum: "foldl (\<lambda>acc k. acc + f k) (a :: int) ks = a + sum_list (map f ks)"
  by (induction ks arbitrary: a) simp_all

lemma sum_percent: "(\<And>x. x \<in> set xs \<Longrightarrow> percent (f x)) \<Longrightarrow> 0 \<le> sum_list (map f xs) \<and> sum_list (map f xs) \<le> 100 * int (length xs)"
proof (induction xs)
  case (Cons x xs)
  then have "percent (f x)" "0 \<le> sum_list (map f xs) \<and> sum_list (map f xs) \<le> 100 * int (length xs)" by simp_all
  then show ?case by (simp add: percent_def)
qed simp

lemma sum_weighted:
  "(\<And>k. k \<in> set ks \<Longrightarrow> 0 \<le> kr_weight k) \<Longrightarrow>
    0 \<le> sum_list (map (\<lambda>k. krProgressPct k * kr_weight k) ks) \<and>
    sum_list (map (\<lambda>k. krProgressPct k * kr_weight k) ks) \<le> 100 * sum_list (map kr_weight ks)"
proof (induction ks)
  case (Cons k ks)
  have "0 \<le> krProgressPct k" "krProgressPct k \<le> 100" using krProgressPct_percent by (simp_all add: percent_def)
  moreover have "0 \<le> kr_weight k" using Cons.prems by simp
  ultimately have "0 \<le> krProgressPct k * kr_weight k" "krProgressPct k * kr_weight k \<le> 100 * kr_weight k"
    by (simp_all add: mult_right_mono)
  with Cons show ?case by simp
qed simp

lemma done_ratio_percent:
  assumes "sts \<noteq> []" and "int (length sts) < 2 ^ 53"
  shows "percent (done_ratio sts)"
proof -
  let ?d = "length (filter (\<lambda>s. s = ''Done'' \<or> s = ''Approved'') sts)"
  have d: "?d \<le> length sts" by (rule length_filter_le)
  have n: "0 < length sts" using assms(1) by simp
  have "of_int_js (int ?d) = Fin (of_int (int ?d))"
    unfolding of_int_js_def using assms(2) d by (intro to_double_of_int) linarith
  moreover have "(of_int (int ?d) :: rat) / of_int (int (length sts)) \<le> of_int 1"
    using d n by (simp add: divide_le_eq)
  moreover have "of_int 0 \<le> (of_int (int ?d) :: rat) / of_int (int (length sts))" by simp
  ultimately obtain r where r: "js_div (of_int_js (int ?d)) (of_int (int (length sts))) = Fin r" "0 \<le> r" "r \<le> 1"
    using to_double_between [of 0 "of_int (int ?d) / of_int (int (length sts))" 1] by (auto simp: js_div_def)
  obtain r' where r': "to_double (r * 100) = Fin r'" "of_int 0 \<le> r'" "r' \<le> of_int 100"
    using to_double_between [of 0 "r * 100" 100] r(2,3) by auto
  then show ?thesis using r(1) round_up_between [of 0 r' 100]
    by (simp add: done_ratio_def Let_def js_mul_def js_round_def js_int_def percent_def)
qed

text \<open>Bounds under which sums are exact doubles: no real table comes near them.\<close>

definition small_tables :: "world \<Rightarrow> bool" where
  "small_tables w \<longleftrightarrow> int (length (goals w)) < 2 ^ 40 \<and> (\<forall>gid. int (length (goal_statuses w gid)) < 2 ^ 40)"

definition no_negative_weight :: "world \<Rightarrow> bool" where
  "no_negative_weight w \<longleftrightarrow> (\<forall>k \<in> set (keyResults w). 0 \<le> kr_weight k)"

lemma kr_average_percent:
  assumes "goals_inv w" and "no_negative_weight w" and "key_results_of w gid \<noteq> []"
  shows "percent (kr_average (key_results_of w gid))"
proof -
  let ?ks = "key_results_of w gid"
  have "sum_list (map kr_weight ?ks) = 100"
    using assms(1,3) by (auto simp: goals_inv_def weights_ok_def weights_of_def key_results_of_def)
  moreover have "\<And>k. k \<in> set ?ks \<Longrightarrow> 0 \<le> kr_weight k"
    using assms(2) by (simp add: no_negative_weight_def key_results_of_def)
  ultimately show ?thesis
    using sum_weighted [of ?ks] by (simp add: kr_average_def Let_def foldl_sum round_quotient_percent)
qed

lemma children_percent:
  assumes "small_tables w" and "goal_children w gid \<noteq> []" and "\<And>c. percent (f c)"
  shows "percent (round_quotient (foldl (+) 0 (map (\<lambda>c. f (g_id c)) (goal_children w gid))) (int (length (map (\<lambda>c. f (g_id c)) (goal_children w gid)))))"
proof -
  let ?cs = "goal_children w gid"
  have "length ?cs \<le> length (goals w)" by (simp add: goal_children_def)
  then have "int (length ?cs) < 2 ^ 40" using assms(1) by (simp add: small_tables_def)
  moreover have "0 \<le> sum_list (map (\<lambda>c. f (g_id c)) ?cs) \<and> sum_list (map (\<lambda>c. f (g_id c)) ?cs) \<le> 100 * int (length ?cs)"
    by (rule sum_percent) (rule assms(3))
  moreover have "foldl (+) 0 xs = sum_list xs" for xs :: "int list" using foldl_sum [of id 0 xs] by simp
  ultimately show ?thesis using assms(2) by (simp add: round_quotient_percent)
qed

lemma found_goal_percent: "goals_inv w \<Longrightarrow> find_goal w gid = Some g \<Longrightarrow> g_progress g = Some p \<Longrightarrow> percent p"
  by (force simp: goals_inv_def find_goal_def dest: find_row_SomeD)

lemma status_ratio_percent: "small_tables w \<Longrightarrow> goal_statuses w gid \<noteq> [] \<Longrightarrow> percent (done_ratio (goal_statuses w gid))"
proof (rule done_ratio_percent)
  assume "small_tables w"
  then have "int (length (goal_statuses w gid)) < 2 ^ 40" by (simp add: small_tables_def)
  then show "int (length (goal_statuses w gid)) < 2 ^ 53" by simp
qed

lemma progress_bounded_percent:
  assumes "goals_inv w" and "no_negative_weight w" and "small_tables w"
  shows "percent (progress_bounded n w gid)"
proof (induction n arbitrary: gid)
  case (Suc n)
  have child: "percent (round_quotient (foldl (+) 0 (map (\<lambda>c. progress_bounded n w (g_id c)) (goal_children w gid)))
      (int (length (map (\<lambda>c. progress_bounded n w (g_id c)) (goal_children w gid)))))" if "goal_children w gid \<noteq> []"
    using children_percent [OF assms(3) that, of "progress_bounded n w"] Suc by blast
  show ?case
    using found_goal_percent [OF assms(1), of gid] child kr_average_percent [OF assms(1,2), of gid]
      status_ratio_percent [OF assms(3), of gid]
    by (simp add: Let_def percent_def split: option.splits)
qed (simp add: percent_def)

section \<open>Properties\<close>

text \<open>
  C14: whatever goal and key result operations run, the weights of the key results of a goal
  sum to exactly 100 (or it has none), and a manual progress is between 0 and 100.
\<close>

theorem key_result_weights_sum_to_100:
  assumes "goals_inv w" and "goal_runs.run_ok ops w"
  shows "goals_inv (fold exec_goal ops w)"
  using assms by (rule goal_runs.run_inv)

definition sample_goal :: "string \<Rightarrow> string option \<Rightarrow> goal_row" where
  "sample_goal gid parent = \<lparr>g_id = gid, g_name = gid, g_description = None, g_ownerUserId = ''A'', g_status = GActive,
     g_progress = None, g_startDate = None, g_targetDate = None, g_parentGoalId = parent, g_createdAt = 0\<rparr>"

definition sample_kr :: "string \<Rightarrow> int \<Rightarrow> rat \<Rightarrow> key_result_row" where
  "sample_kr kid weight current = \<lparr>kr_id = kid, kr_goalId = ''g1'', kr_name = kid, kr_unit = None, kr_kind = ''number'',
     kr_targetValue = 100, kr_currentValue = current, kr_weight = weight, kr_position = 0, kr_createdAt = 0\<rparr>"

definition goal_world :: world where
  "goal_world = task_world\<lparr>goals := [sample_goal ''g1'' None, sample_goal ''g2'' (Some ''g1'')],
     keyResults := [sample_kr ''k1'' 60 50, sample_kr ''k2'' 40 10]\<rparr>"

lemma goal_world_inv: "goals_inv goal_world"
  by (simp add: goals_inv_def weights_ok_def weights_of_def goal_world_def sample_kr_def sample_goal_def)

definition sample_kr_input :: key_result_input where
  "sample_kr_input = \<lparr>ki_name = ''kr'', ki_unit = None, ki_kind = None, ki_targetValue = None, ki_currentValue = None\<rparr>"

theorem key_result_weights_sum_to_100_witness:
  "goals_inv (fold exec_goal [CreateKeyResult sample_env sample_admin ''g1'' sample_kr_input,
     RemoveKeyResult sample_admin ''k1''] goal_world)"
  by (rule key_result_weights_sum_to_100 [OF goal_world_inv]) (simp add: goal_world_def sample_kr_def sample_env_def)

text \<open>
  C15: the computed progress of a goal is between 0 and 100, from wherever it comes (manual,
  children, key results, tasks), on any tree of goals, cyclic ones included, while no key result
  has a negative weight.
\<close>

theorem progress_is_percentage:
  assumes "goals_inv w" and "no_negative_weight w" and "small_tables w"
  shows "0 \<le> fst (computeProgress w gid) \<and> fst (computeProgress w gid) \<le> 100"
proof -
  have child: "percent (round_quotient (foldl (+) 0 (map (\<lambda>c. progress_bounded MAX_DEPTH w (g_id c)) (goal_children w gid)))
      (int (length (map (\<lambda>c. progress_bounded MAX_DEPTH w (g_id c)) (goal_children w gid)))))" if "goal_children w gid \<noteq> []"
    using children_percent [OF assms(3) that, of "progress_bounded MAX_DEPTH w"] progress_bounded_percent [OF assms] by blast
  have "percent (fst (computeProgress w gid))"
    using found_goal_percent [OF assms(1), of gid] child kr_average_percent [OF assms(1,2), of gid]
      status_ratio_percent [OF assms(3), of gid]
    by (simp add: computeProgress_def Let_def percent_def split: option.splits)
  then show ?thesis by (simp add: percent_def)
qed

theorem progress_is_percentage_witness:
  "0 \<le> fst (computeProgress goal_world ''g1'') \<and> fst (computeProgress goal_world ''g1'') \<le> 100"
proof (rule progress_is_percentage [OF goal_world_inv])
  show "no_negative_weight goal_world" by (simp add: no_negative_weight_def goal_world_def sample_kr_def)
  show "small_tables goal_world"
    by (simp add: small_tables_def goal_statuses_def goal_world_def task_world_def empty_world_def)
qed

text \<open>
  Weights can become negative, and progress with them. Nineteen key results that share the
  weight evenly have 5 each and the last one 10; removing the last one rescales the others to 6
  each, which leaves -2 for the last of them, and when only that one is finished the progress
  of the goal is -2.
\<close>

lemma scaled_5_of_90: "scaled_weight 90 5 = 6"
proof -
  obtain r where r: "to_double (5 / 90) = Fin r" "58254 / 2 ^ 20 \<le> r" "r \<le> 58255 / 2 ^ 20"
    using to_double_between_grid [of 58254 20 "5 / 90" 58255] by auto
  obtain r' where r': "to_double (r * 100) = Fin r'" "5825400 / 2 ^ 20 \<le> r'" "r' \<le> 5825500 / 2 ^ 20"
    using to_double_between_grid [of 5825400 20 "r * 100" 5825500] r(2,3) by auto
  have "round_up r' = 6" using r'(2,3) by (simp add: round_up_def floor_eq_iff)
  moreover have "of_int_js 5 = Fin 5" using to_double_of_int [of 5] by (simp add: of_int_js_def)
  ultimately show ?thesis using r(1) r'(1) by (simp add: scaled_weight_def js_div_def js_mul_def js_round_def js_int_def)
qed

theorem weights_can_turn_negative:
  "even_split 19 = replicate 18 5 @ [10] \<and> next_weights (replicate 18 5) = replicate 17 6 @ [- 2] \<and>
    kr_average (map (\<lambda>i. sample_kr (show_nat i) 6 0) [0..<17] @ [sample_kr ''last'' (- 2) 100]) = - 2"
proof -
  have e: "even_split 19 = replicate 18 5 @ [10]"
    by (simp add: even_split_def Let_def upt_rec numeral_eq_Suc)
  have n: "next_weights (replicate 18 5) = replicate 17 6 @ [- 2]"
    by (simp add: next_weights_def numeral_eq_Suc [of "num.Bit0 _"] scaled_5_of_90 eval_nat_numeral)
  have none: "krProgressPct (sample_kr x a 0) = 0" for x a
    using clamp_percent_range by (simp add: krProgressPct_def sample_kr_def js_div_def js_mul_def js_round_def js_int_def
        round_up_def clamp_percent_def js_min_def js_max_def js_to_int_def)
  have full: "krProgressPct (sample_kr x a 100) = 100" for x a
    by (simp add: krProgressPct_def sample_kr_def js_div_def js_mul_def js_round_def js_int_def
        round_up_def clamp_percent_def js_min_def js_max_def js_to_int_def)
  have "kr_average (map (\<lambda>i. sample_kr (show_nat i) 6 0) [0..<17] @ [sample_kr ''last'' (- 2) 100]) = round_quotient (- 200) 100"
    by (simp add: kr_average_def Let_def foldl_sum none full comp_def sum_list_triv) (simp add: sample_kr_def comp_def sum_list_triv)
  also have "\<dots> = - 2"
    using to_double_of_int [of "- 200"] to_double_of_int [of "- 2"]
    by (simp add: round_quotient_def of_int_js_def js_div_def js_round_def js_int_def round_up_def js_to_int_def floor_eq_iff)
  finally show ?thesis using e n by blast
qed

end
