(* ===== verification/JsDate.thy ===== *)
theory JsDate
  imports JsNumber
begin

text \<open>
  Dates of the language: time values in milliseconds, the proleptic Gregorian calendar by day
  numbers, and the local zone of the server as a pair of functions. What the services use of
  \<open>Date\<close>: \<open>setSeconds\<close>, \<open>setMinutes\<close>, \<open>setDate\<close>, \<open>setMonth\<close> and the getters in local time,
  \<open>getUTCDay\<close>, \<open>toISOString\<close>.
\<close>

section \<open>The calendar\<close>

definition MS_PER_DAY :: int where
  "MS_PER_DAY = 86400000"

definition day_from_year :: "int \<Rightarrow> int" where
  "day_from_year y = 365 * (y - 1970) + (y - 1969) div 4 - (y - 1901) div 100 + (y - 1601) div 400"

definition leap_year :: "int \<Rightarrow> bool" where
  "leap_year y \<longleftrightarrow> y mod 4 = 0 \<and> (y mod 100 \<noteq> 0 \<or> y mod 400 = 0)"

text \<open>The year of a day: an estimate that is off by at most one.\<close>

definition year_of_day :: "int \<Rightarrow> int" where
  "year_of_day d = (let y = 1970 + (400 * d) div 146097
     in if d < day_from_year y then y - 1 else if day_from_year (y + 1) \<le> d then y + 1 else y)"

text \<open>Days before a month (0 to 12) in a year.\<close>

definition month_offset :: "bool \<Rightarrow> int \<Rightarrow> int" where
  "month_offset leap m =
     [0, 31, 59, 90, 120, 151, 181, 212, 243, 273, 304, 334, 365] ! nat m + (if leap \<and> 2 \<le> m then 1 else 0)"

definition make_day :: "int \<Rightarrow> int \<Rightarrow> int \<Rightarrow> int" where
  "make_day y m dt = (let ym = y + m div 12; mn = m mod 12
     in day_from_year ym + month_offset (leap_year ym) mn + dt - 1)"

fun month_search :: "bool \<Rightarrow> int \<Rightarrow> nat \<Rightarrow> int" where
  "month_search leap n 0 = 0"
| "month_search leap n (Suc m) = (if month_offset leap (int (Suc m)) \<le> n then int (Suc m) else month_search leap n m)"

definition month_of_day :: "int \<Rightarrow> int" where
  "month_of_day d = (let y = year_of_day d in month_search (leap_year y) (d - day_from_year y) 11)"

definition date_of_day :: "int \<Rightarrow> int" where
  "date_of_day d = d - make_day (year_of_day d) (month_of_day d) 1 + 1"

text \<open>0 is Sunday: day 0 was a Thursday.\<close>

definition week_day :: "int \<Rightarrow> int" where
  "week_day d = (d + 4) mod 7"

section \<open>Time values and the local zone\<close>

record zone =
  to_local :: "int \<Rightarrow> int"
  to_utc :: "int \<Rightarrow> int"

definition fixed_zone :: "int \<Rightarrow> zone" where
  "fixed_zone off = \<lparr>to_local = (\<lambda>t. t + off), to_utc = (\<lambda>t. t - off)\<rparr>"

definition day_of :: "int \<Rightarrow> int" where
  "day_of t = t div MS_PER_DAY"

definition time_in_day :: "int \<Rightarrow> int" where
  "time_in_day t = t mod MS_PER_DAY"

definition getUTCDay :: "int \<Rightarrow> int" where
  "getUTCDay t = week_day (day_of t)"

definition getDate :: "zone \<Rightarrow> int \<Rightarrow> int" where
  "getDate z t = date_of_day (day_of (to_local z t))"

definition getMonth :: "zone \<Rightarrow> int \<Rightarrow> int" where
  "getMonth z t = month_of_day (day_of (to_local z t))"

definition getFullYear :: "zone \<Rightarrow> int \<Rightarrow> int" where
  "getFullYear z t = year_of_day (day_of (to_local z t))"

definition getMinutes :: "zone \<Rightarrow> int \<Rightarrow> int" where
  "getMinutes z t = (to_local z t div 60000) mod 60"

text \<open>Setters rebuild the local time from its fields and go back to a time value.\<close>

definition setSeconds :: "zone \<Rightarrow> int \<Rightarrow> int \<Rightarrow> int \<Rightarrow> int" where
  "setSeconds z sec ms t = (let l = to_local z t
     in to_utc z (day_of l * MS_PER_DAY + (time_in_day l div 60000) * 60000 + sec * 1000 + ms))"

definition setMinutes :: "zone \<Rightarrow> int \<Rightarrow> int \<Rightarrow> int" where
  "setMinutes z mins t = (let l = to_local z t
     in to_utc z (day_of l * MS_PER_DAY + (time_in_day l div 3600000) * 3600000 + mins * 60000 + l mod 60000))"

definition setDate :: "zone \<Rightarrow> int \<Rightarrow> int \<Rightarrow> int" where
  "setDate z dt t = (let l = to_local z t; d = day_of l
     in to_utc z (make_day (year_of_day d) (month_of_day d) dt * MS_PER_DAY + time_in_day l))"

definition setMonth :: "zone \<Rightarrow> int \<Rightarrow> int \<Rightarrow> int" where
  "setMonth z m t = (let l = to_local z t; d = day_of l
     in to_utc z (make_day (year_of_day d) m (date_of_day d) * MS_PER_DAY + time_in_day l))"

text \<open>\<open>new Date(year, month, date)\<close>: midnight in the local zone (years from 100 on).\<close>

definition local_date :: "zone \<Rightarrow> int \<Rightarrow> int \<Rightarrow> int \<Rightarrow> int" where
  "local_date z y m dt = to_utc z (make_day y m dt * MS_PER_DAY)"

section \<open>Printing\<close>

definition pad :: "nat \<Rightarrow> int \<Rightarrow> string" where
  "pad n i = (let s = show_nat (nat i) in replicate (n - length s) CHR ''0'' @ s)"

text \<open>\<open>toISOString\<close>, with the signed six-digit years the format has outside 0 to 9999.\<close>

definition iso_year :: "int \<Rightarrow> string" where
  "iso_year y = (if 0 \<le> y \<and> y \<le> 9999 then pad 4 y
     else if y < 0 then CHR ''-'' # pad 6 (- y) else CHR ''+'' # pad 6 y)"

definition toISOString :: "int \<Rightarrow> string" where
  "toISOString t = (let d = day_of t; s = time_in_day t
     in iso_year (year_of_day d) @ ''-'' @ pad 2 (month_of_day d + 1) @ ''-'' @ pad 2 (date_of_day d) @ ''T'' @
        pad 2 (s div 3600000) @ '':'' @ pad 2 (s div 60000 mod 60) @ '':'' @ pad 2 (s div 1000 mod 60) @ ''.'' @
        pad 3 (s mod 1000) @ ''Z'')"

section \<open>Laws of the calendar\<close>

lemma div_between: "0 < (k::int) \<Longrightarrow> k * (a div k) \<le> a \<and> a < k * (a div k) + k"
  by (metis add.commute mult.commute mult_div_mod_eq pos_mod_bound pos_mod_sign add_le_same_cancel1 le_add_same_cancel1 add_less_cancel_left)

lemma day_from_year_bounds:
  "146097 * (y - 1970) - 800 < 400 * day_from_year y" "400 * day_from_year y < 146097 * (y - 1970) + 800"
proof -
  note a = div_between [of 4 "y - 1969"] and b = div_between [of 100 "y - 1901"] and c = div_between [of 400 "y - 1601"]
  show "146097 * (y - 1970) - 800 < 400 * day_from_year y" "400 * day_from_year y < 146097 * (y - 1970) + 800"
    using a b c by (simp_all add: day_from_year_def)
qed


lemma div_succ:
  assumes "0 < (k::int)"
  shows "(a + 1) div k = a div k + (if (a + 1) mod k = 0 then 1 else 0)"
proof -
  have r: "0 \<le> a mod k" "a mod k < k" using assms by simp_all
  have a: "a + 1 = k * (a div k) + (a mod k + 1)" by simp
  show ?thesis
  proof (cases "a mod k + 1 = k")
    case True
    then have "a + 1 = k * (a div k + 1)" using a by (simp add: distrib_left)
    then show ?thesis using assms by simp
  next
    case False
    with r have n: "0 \<le> a mod k + 1" "a mod k + 1 < k" by simp_all
    have "(a + 1) div k = a div k" using a n by (rule int_div_pos_eq)
    moreover have "(a + 1) mod k = a mod k + 1" using a n by (rule int_mod_pos_eq)
    ultimately show ?thesis using r by simp
  qed
qed

lemma mod_shift: "n mod k = 0 \<Longrightarrow> (y - n) mod k = 0 \<longleftrightarrow> y mod (k::int) = 0"
  by (simp add: mod_eq_0_iff_dvd dvd_diff_left_iff)

lemma mod_0_cancel: "c dvd b \<Longrightarrow> (y::int) mod b = 0 \<Longrightarrow> y mod c = 0"
  by (metis mod_mod_cancel mod_0)

lemma day_from_year_succ: "day_from_year (y + 1) = day_from_year y + 365 + (if leap_year y then 1 else 0)"
proof -
  define a b c where "a = (y - 1969) div 4" and "b = (y - 1901) div 100" and "c = (y - 1601) div 400"
  have a: "(y - 1968) div 4 = a + (if y mod 4 = 0 then 1 else 0)"
    using div_succ [of 4 "y - 1969"] mod_shift [of 1968 4 y] by (simp add: a_def)
  have b: "(y - 1900) div 100 = b + (if y mod 100 = 0 then 1 else 0)"
    using div_succ [of 100 "y - 1901"] mod_shift [of 1900 100 y] by (simp add: b_def)
  have c: "(y - 1600) div 400 = c + (if y mod 400 = 0 then 1 else 0)"
    using div_succ [of 400 "y - 1601"] mod_shift [of 1600 400 y] by (simp add: c_def)
  have m: "y mod 400 = 0 \<Longrightarrow> y mod 100 = 0" by (rule mod_0_cancel [of 100 400]) simp_all
  have n: "y mod 100 = 0 \<Longrightarrow> y mod 4 = 0" by (rule mod_0_cancel [of 4 100]) simp_all
  have "day_from_year (y + 1) = 365 * (y - 1970) + 365 + (y - 1968) div 4 - (y - 1900) div 100 + (y - 1600) div 400"
    by (simp only: day_from_year_def) (simp add: algebra_simps)
  also have "\<dots> = 365 * (y - 1970) + a - b + c + 365 +
      (if y mod 4 = 0 then 1 else 0) - (if y mod 100 = 0 then 1 else 0) + (if y mod 400 = 0 then 1 else 0)"
    unfolding a b c by simp
  also have "\<dots> = day_from_year y + 365 + (if leap_year y then 1 else 0)"
  proof -
    have "day_from_year y = 365 * (y - 1970) + a - b + c" by (simp only: day_from_year_def a_def b_def c_def)
    then show ?thesis using m n by (cases "y mod 4 = 0"; cases "y mod 100 = 0"; cases "y mod 400 = 0") (simp_all add: leap_year_def)
  qed
  finally show ?thesis .
qed

lemma year_of_day_correct:
  "day_from_year (year_of_day d) \<le> d \<and> d < day_from_year (year_of_day d + 1)"
proof -
  define y where "y = 1970 + (400 * d) div 146097"
  have b: "146097 * (y - 1970) \<le> 400 * d" "400 * d < 146097 * (y - 1970) + 146097"
    using div_between [of 146097 "400 * d"] by (simp_all add: y_def)
  have lo: "day_from_year (y - 1) \<le> d" using day_from_year_bounds(2) [of "y - 1"] b(1) by simp
  have hi: "d < day_from_year (y + 1 + 1)" using day_from_year_bounds(1) [of "y + 1 + 1"] b(2) by simp
  show ?thesis
    using lo hi by (auto simp: year_of_day_def Let_def y_def [symmetric])
qed

text \<open>Months counted from year 0: where each one starts.\<close>

definition month_start :: "int \<Rightarrow> int" where
  "month_start a = make_day 0 a 1"

lemma make_day_month: "make_day y m dt = month_start (12 * y + m) + dt - 1"
  by (simp add: make_day_def month_start_def Let_def)

lemma months_cases:
  assumes "0 \<le> m" and "m < (12::int)"
  obtains "m = 0" | "m = 1" | "m = 2" | "m = 3" | "m = 4" | "m = 5" | "m = 6" | "m = 7" | "m = 8" | "m = 9" | "m = 10" | "m = 11"
proof -
  have "m = 0 \<or> m = 1 \<or> m = 2 \<or> m = 3 \<or> m = 4 \<or> m = 5 \<or> m = 6 \<or> m = 7 \<or> m = 8 \<or> m = 9 \<or> m = 10 \<or> m = 11"
    using assms by presburger
  with that show thesis by blast
qed

lemma month_offset_succ:
  assumes "0 \<le> m" and "m < 12"
  shows "month_offset leap m + 28 \<le> month_offset leap (m + 1)" "month_offset leap (m + 1) \<le> month_offset leap m + 31"
  using assms by (cases rule: months_cases; simp add: month_offset_def)+

lemma month_start_succ: "month_start a + 28 \<le> month_start (a + 1)" "month_start (a + 1) \<le> month_start a + 31"
proof -
  let ?y = "a div 12" and ?m = "a mod 12"
  have m: "0 \<le> ?m" "?m < 12" by simp_all
  have "month_start (a + 1) = day_from_year ?y + month_offset (leap_year ?y) (?m + 1)"
  proof (cases "?m = 11")
    case True
    then have "(a + 1) mod 12 = 0" by presburger
    then have "(a + 1) div 12 = ?y + 1" using div_succ [of 12 a] by simp
    with True \<open>(a + 1) mod 12 = 0\<close> show ?thesis
      by (simp add: month_start_def make_day_def Let_def day_from_year_succ month_offset_def)
  next
    case False
    then have "(a + 1) mod 12 = ?m + 1" using m by presburger
    moreover from this have "(a + 1) div 12 = ?y" using div_succ [of 12 a] m by simp
    ultimately show ?thesis by (simp add: month_start_def make_day_def Let_def)
  qed
  moreover have "month_start a = day_from_year ?y + month_offset (leap_year ?y) ?m"
    by (simp add: month_start_def make_day_def Let_def)
  ultimately show "month_start a + 28 \<le> month_start (a + 1)" "month_start (a + 1) \<le> month_start a + 31"
    using month_offset_succ [OF m] by simp_all
qed

lemma month_start_mono: "a \<le> b \<Longrightarrow> month_start a \<le> month_start b"
proof -
  have "month_start a \<le> month_start (a + int n)" for n
  proof (induction n)
    case (Suc n)
    then show ?case using month_start_succ(1) [of "a + int n"] by (simp add: ac_simps)
  qed simp
  moreover assume "a \<le> b"
  ultimately show ?thesis by (metis zle_iff_zadd)
qed

lemma month_search_spec:
  "0 \<le> n \<Longrightarrow> 0 \<le> month_search leap n k \<and> month_search leap n k \<le> int k \<and>
    month_offset leap (month_search leap n k) \<le> n \<and>
    (month_search leap n k < int k \<longrightarrow> n < month_offset leap (month_search leap n k + 1))"
proof (induction k)
  case 0
  then show ?case by (simp add: month_offset_def)
next
  case (Suc k)
  then show ?case by (cases "month_search leap n k = int k") (auto simp: ac_simps)
qed

definition abs_month :: "int \<Rightarrow> int" where
  "abs_month d = 12 * year_of_day d + month_of_day d"

lemma abs_month_bounds: "month_start (abs_month d) \<le> d" "d < month_start (abs_month d + 1)"
proof -
  let ?y = "year_of_day d" and ?m = "month_of_day d"
  let ?n = "d - day_from_year ?y"
  note y = year_of_day_correct [of d]
  have "0 \<le> ?n" using y by simp
  note m = month_search_spec [OF this, of "leap_year ?y" 11]
  have m': "0 \<le> ?m" "?m \<le> 11" "month_offset (leap_year ?y) ?m \<le> ?n"
    using m by (simp_all add: month_of_day_def Let_def)
  have upper: "?n < month_offset (leap_year ?y) (?m + 1)"
  proof (cases "?m = 11")
    case True
    have "?n < 365 + (if leap_year ?y then 1 else 0)" using y by (simp add: day_from_year_succ)
    with True show ?thesis by (simp add: month_offset_def)
  next
    case False
    with m m' show ?thesis by (simp add: month_of_day_def Let_def)
  qed
  have start: "month_start (12 * ?y + k) = day_from_year ?y + month_offset (leap_year ?y) k" if "0 \<le> k" "k < 12" for k
    using that by (simp add: month_start_def make_day_def Let_def)
  show "month_start (abs_month d) \<le> d" using m' start [of ?m] by (simp add: abs_month_def)
  show "d < month_start (abs_month d + 1)"
  proof (cases "?m = 11")
    case True
    then have "abs_month d + 1 = 12 * (?y + 1)" by (simp add: abs_month_def)
    then have "month_start (abs_month d + 1) = day_from_year (?y + 1)"
      by (simp add: month_start_def make_day_def Let_def month_offset_def del: distrib_left_numeral)
    with y show ?thesis by simp
  next
    case False
    then show ?thesis using upper m' start [of "?m + 1"] by (simp add: abs_month_def add.assoc)
  qed
qed

lemma date_of_day_bounds: "1 \<le> date_of_day d" "date_of_day d \<le> 31" "d = month_start (abs_month d) + date_of_day d - 1"
  using abs_month_bounds [of d] month_start_succ(2) [of "abs_month d"]
  by (simp_all add: date_of_day_def make_day_month abs_month_def)

lemma abs_month_le:
  assumes "month_start a \<le> d"
  shows "a \<le> abs_month d"
proof (rule ccontr)
  assume "\<not> a \<le> abs_month d"
  then have "month_start (abs_month d + 1) \<le> month_start a" by (intro month_start_mono) simp
  with assms abs_month_bounds(2) [of d] show False by simp
qed

lemma fixed_zone_simps [simp]: "to_local (fixed_zone off) t = t + off" "to_utc (fixed_zone off) t = t - off"
  by (simp_all add: fixed_zone_def)

lemma time_parts: "t = day_of t * MS_PER_DAY + time_in_day t" "0 \<le> time_in_day t" "time_in_day t < MS_PER_DAY"
  by (simp_all add: day_of_def time_in_day_def MS_PER_DAY_def)

lemma day_of_parts: "0 \<le> s \<Longrightarrow> s < MS_PER_DAY \<Longrightarrow> day_of (d * MS_PER_DAY + s) = d \<and> time_in_day (d * MS_PER_DAY + s) = s"
  by (simp add: day_of_def time_in_day_def MS_PER_DAY_def)

end
