(* ===== verification/Recurrence.thy ===== *)
theory Recurrence
  imports TaskLaws JsDate
begin

text \<open>
  \<^verbatim>\<open>apps/api/src/modules/recurrence/recurrence.service.ts\<close>: the schedule on which a task clones
  itself, the computation of the next run in the zone of the server, and the worker that claims
  due schedules and spawns their copies. \<open>Date.parse\<close> is a parameter, as is the local zone.
\<close>

section \<open>Schedules\<close>

record recurrence_input =
  ri_frequency :: frequency
  ri_interval :: "int option"
  ri_weekdays :: "int list option"
  ri_dayOfMonth :: "int option option"
  ri_timezone :: "string option"
  ri_endsAt :: "string option option"
  ri_enabled :: "bool option"

text \<open>The frequency is an enumeration, so the first check of \<open>validate\<close> always passes.\<close>

definition validate :: "recurrence_input \<Rightarrow> unit res" where
  "validate i =
     and_then (require (\<not> (case ri_interval i of None \<Rightarrow> False | Some n \<Rightarrow> n < 1 \<or> n > 365))
       (BadRequest ''Interval must be 1..365'')) (\<lambda>_.
     and_then (require (list_all (\<lambda>d. \<not> (d < 0 \<or> d > 6)) (override (ri_weekdays i) []))
       (BadRequest ''weekdays must be 0..6'')) (\<lambda>_.
     require (\<not> (case ri_dayOfMonth i of Some (Some d) \<Rightarrow> d < 1 \<or> d > 28 | _ \<Rightarrow> False))
       (BadRequest ''dayOfMonth must be 1..28'')))"

definition next_minute :: "zone \<Rightarrow> int \<Rightarrow> int" where
  "next_minute z from = (let next = setSeconds z 0 0 from in setMinutes z (getMinutes z next + 1) next)"

definition addDays :: "zone \<Rightarrow> int \<Rightarrow> int \<Rightarrow> int" where
  "addDays z n t = setDate z (getDate z t + n) t"

definition next_weekly :: "zone \<Rightarrow> int \<Rightarrow> int list \<Rightarrow> int \<Rightarrow> int" where
  "next_weekly z interval weekdays next =
     (if weekdays = [] then addDays z (7 * interval) next
      else let sorted_days = sort weekdays; currentDow = getUTCDay next
           in case List.find (\<lambda>d. currentDow < d) sorted_days of
                Some d \<Rightarrow> addDays z (d - currentDow) next
              | None \<Rightarrow> addDays z ((7 - currentDow) + hd sorted_days + 7 * (interval - 1)) next)"

definition next_monthly :: "zone \<Rightarrow> int \<Rightarrow> int option \<Rightarrow> int \<Rightarrow> int" where
  "next_monthly z interval dayOfMonth next =
     (let wanted = override dayOfMonth (getDate z next);
          moved = setMonth z (getMonth z next + interval) next;
          lastDayOfTargetMonth = getDate z (local_date z (getFullYear z moved) (getMonth z moved + 1) 0)
      in setDate z (min wanted lastDayOfTargetMonth) moved)"

definition computeNextRun :: "zone \<Rightarrow> frequency \<Rightarrow> int \<Rightarrow> int list \<Rightarrow> int option \<Rightarrow> int \<Rightarrow> int" where
  "computeNextRun z freq interval weekdays dayOfMonth from =
     (let next = next_minute z from
      in case freq of
           Daily \<Rightarrow> addDays z interval next
         | Weekly \<Rightarrow> next_weekly z interval weekdays next
         | Monthly \<Rightarrow> next_monthly z interval dayOfMonth next)"

definition getForTask :: "auth_user \<Rightarrow> string \<Rightarrow> world \<Rightarrow> recurrence_row option res" where
  "getForTask u tid w =
     and_then (found (NotFound ''Task not found'') (find_task w tid)) (\<lambda>task.
     and_then (canSeeTask w u (t_projectId task) (t_visibility task)) (\<lambda>canSee.
     and_then (require canSee (NotFound ''Task not found'')) (\<lambda>_.
     Inr (find_row rc_taskId tid (recurrences w)))))"

definition parse_end :: "(string \<Rightarrow> jsnum) \<Rightarrow> string option option \<Rightarrow> int option res" where
  "parse_end dateParse x = (let s = override x None
     in if truthy s then and_then (found (LibraryError ''Invalid Date'') (time_clip (dateParse (the s)))) (\<lambda>d. Inr (Some d))
        else Inr None)"

text \<open>The fields both branches of the upsert write.\<close>

definition apply_schedule :: "recurrence_input \<Rightarrow> int option \<Rightarrow> int \<Rightarrow> recurrence_row \<Rightarrow> recurrence_row" where
  "apply_schedule i endsAt next r = r\<lparr>rc_frequency := ri_frequency i, rc_interval := override (ri_interval i) 1,
     rc_weekdays := override (ri_weekdays i) [], rc_dayOfMonth := override (ri_dayOfMonth i) None,
     rc_timezone := override (ri_timezone i) ''UTC'', rc_endsAt := endsAt,
     rc_enabled := override (ri_enabled i) True, rc_nextRunAt := next\<rparr>"

definition upsertRecurrence :: "env \<Rightarrow> zone \<Rightarrow> (string \<Rightarrow> jsnum) \<Rightarrow> auth_user \<Rightarrow> string \<Rightarrow> recurrence_input \<Rightarrow> world \<Rightarrow>
    recurrence_row res \<times> world" where
  "upsertRecurrence e z dateParse u tid i w =
     attempt (found (NotFound ''Task not found'') (find_task w tid)) w (\<lambda>task.
     attempt (assertAtLeast w u (t_projectId task) Contributor) w (\<lambda>_.
     attempt (validate i) w (\<lambda>_.
     let next = computeNextRun z (ri_frequency i) (override (ri_interval i) 1) (override (ri_weekdays i) [])
                  (override (ri_dayOfMonth i) None) (clk e 0)
     in attempt (parse_end dateParse (ri_endsAt i)) w (\<lambda>endsAt.
        case find_row rc_taskId tid (recurrences w) of
          Some r \<Rightarrow> (Inr (apply_schedule i endsAt next r),
            w\<lparr>recurrences := update_where (\<lambda>r. rc_taskId r = tid) (apply_schedule i endsAt next) (recurrences w)\<rparr>)
        | None \<Rightarrow>
            (let r = apply_schedule i endsAt next \<lparr>rc_id = uuid e 0, rc_taskId = tid, rc_frequency = Daily, rc_interval = 1,
                   rc_weekdays = [], rc_dayOfMonth = None, rc_timezone = ''UTC'', rc_nextRunAt = next, rc_lastRunAt = None,
                   rc_enabled = True, rc_endsAt = None\<rparr>
             in (Inr r, w\<lparr>recurrences := recurrences w @ [r]\<rparr>))))))"

definition removeRecurrence :: "auth_user \<Rightarrow> string \<Rightarrow> world \<Rightarrow> unit res \<times> world" where
  "removeRecurrence u tid w =
     attempt (found (NotFound ''Task not found'') (find_task w tid)) w (\<lambda>task.
     attempt (assertAtLeast w u (t_projectId task) Contributor) w (\<lambda>_.
     (Inr (), w\<lparr>recurrences := delete_where (\<lambda>r. rc_taskId r = tid) (recurrences w)\<rparr>)))"

section \<open>The worker\<close>

text \<open>A due schedule as it was read: its row, its task and the labels of the task.\<close>

type_synonym due_row = "recurrence_row \<times> task_row \<times> string list"

definition is_due :: "int \<Rightarrow> recurrence_row \<Rightarrow> bool" where
  "is_due now r \<longleftrightarrow> rc_enabled r \<and> rc_nextRunAt r \<le> now \<and> (case rc_endsAt r of None \<Rightarrow> True | Some d \<Rightarrow> now < d)"

definition due_rows :: "int \<Rightarrow> world \<Rightarrow> due_row list" where
  "due_rows now w = take 100 [(r, t, map tl_labelId (filter (\<lambda>x. tl_taskId x = t_id t) (taskLabels w))).
     r \<leftarrow> filter (is_due now) (recurrences w), t \<leftarrow> tasks w, t_id t = rc_taskId r]"

text \<open>The conditional update that claims a row: it matches only while \<open>nextRunAt\<close> is as read.\<close>

definition claim :: "int \<Rightarrow> recurrence_row \<Rightarrow> world \<Rightarrow> nat \<times> world" where
  "claim now r w =
     (let matches = (\<lambda>x. rc_id x = rc_id r \<and> rc_nextRunAt x = rc_nextRunAt r)
      in (count_where matches (recurrences w),
          w\<lparr>recurrences := update_where matches (\<lambda>x. x\<lparr>rc_nextRunAt := now + 10 * 60 * 1000\<rparr>) (recurrences w)\<rparr>))"

definition spawned_task :: "env \<Rightarrow> task_row \<Rightarrow> int \<Rightarrow> string \<Rightarrow> task_row" where
  "spawned_task e t keyNumber pos = \<lparr>t_id = uuid e 0, t_projectId = t_projectId t, t_keyNumber = keyNumber, t_type = Task,
     t_title = t_title t, t_description = t_description t, t_status = t_status t, t_priority = t_priority t,
     t_isBlocked = False, t_blockedReason = None, t_visibility = t_visibility t, t_reportedByClient = False,
     t_parentTaskId = None, t_sprintId = t_sprintId t, t_assigneeUserId = t_assigneeUserId t,
     t_reporterUserId = t_reporterUserId t, t_createdById = t_createdById t, t_startDate = None, t_dueDate = None,
     t_estimate = t_estimate t, t_boardPosition = pos, t_completedAt = None, t_createdAt = clk e 0\<rparr>"

definition insert_spawned :: "env \<Rightarrow> task_row \<Rightarrow> string \<Rightarrow> string list \<Rightarrow> world \<Rightarrow> world res" where
  "insert_spawned e t creator labelIds w =
     and_then (require (task_fk w t \<and> creator \<in> u_id ` set (users w) \<and> set labelIds \<subseteq> lb_id ` set (labels w))
       (DbError P2003)) (\<lambda>_.
     and_then (require (number_key t \<notin> number_key ` set (tasks w)) (DbError P2002)) (\<lambda>_.
     Inr (w\<lparr>tasks := tasks w @ [t],
            watchers := watchers w @ [\<lparr>w_userId = creator, w_taskId = t_id t\<rparr>],
            taskLabels := taskLabels w @ map (\<lambda>l. \<lparr>tl_taskId = t_id t, tl_labelId = l, tl_addedById = creator,
              tl_addedAt = clk e 0\<rparr>) labelIds\<rparr>)))"

text \<open>The steps are separate writes: a failure keeps those before it.\<close>

definition spawnOne :: "env \<Rightarrow> zone \<Rightarrow> due_row \<Rightarrow> world \<Rightarrow> unit res \<times> world" where
  "spawnOne e z d w = (case d of (r, t, labelIds) \<Rightarrow>
     attempt (project_or_throw w (t_projectId t)) w (\<lambda>project.
     attempt (generateKeyBetween e (last_position e w (p_id project) (t_status t)) None) w (\<lambda>boardPosition.
     let w1 = w\<lparr>projects := update_where (\<lambda>p. p_id p = p_id project)
                (\<lambda>p. p\<lparr>p_nextTaskNumber := p_nextTaskNumber p + 1\<rparr>) (projects w)\<rparr>;
         keyNumber = p_nextTaskNumber project;
         created = spawned_task e t keyNumber boardPosition
     in attempt (insert_spawned e created (t_createdById t) labelIds w1) w1 (\<lambda>w2.
        let next = computeNextRun z (rc_frequency r) (rc_interval r) (rc_weekdays r) (rc_dayOfMonth r) (clk e 1)
        in attempt (require (rc_id r \<in> rc_id ` set (recurrences w2)) (DbError P2025)) w2 (\<lambda>_.
           (Inr (), emit (TaskCreated (t_id created) (p_id project) (p_key project @ CHR ''-'' # show_int keyNumber)
                (t_createdById t) (t_assigneeUserId created) (Some (rc_id r)))
             (w2\<lparr>recurrences := update_where (\<lambda>x. rc_id x = rc_id r)
                (\<lambda>x. x\<lparr>rc_lastRunAt := Some (clk e 2), rc_nextRunAt := next\<rparr>) (recurrences w2)\<rparr>)))))))"

text \<open>What is left of the environment after one round: three clock reads and one identifier.\<close>

definition next_round :: "env \<Rightarrow> env" where
  "next_round e = e\<lparr>clk := (\<lambda>n. clk e (n + 3)), uuid := (\<lambda>n. uuid e (n + 1))\<rparr>"

fun spawn_all :: "env \<Rightarrow> zone \<Rightarrow> int \<Rightarrow> due_row list \<Rightarrow> nat \<Rightarrow> world \<Rightarrow> nat \<times> world" where
  "spawn_all e z now [] spawned w = (spawned, w)"
| "spawn_all e z now (d # ds) spawned w =
     (let (n, w1) = claim now (fst d) w
      in if n = 0 then spawn_all e z now ds spawned w1
         else case spawnOne e z d w1 of
             (Inr _, w2) \<Rightarrow> spawn_all (next_round e) z now ds (spawned + 1) w2
           | (Inl _, w2) \<Rightarrow> spawn_all (next_round e) z now ds spawned w2)"

definition spawnDueRecurrences :: "env \<Rightarrow> zone \<Rightarrow> int \<Rightarrow> world \<Rightarrow> nat \<times> world" where
  "spawnDueRecurrences e z now w = spawn_all e z now (due_rows now w) 0 w"

section \<open>The next run in a zone with a fixed offset\<close>

text \<open>A local time is \<open>d\<close> days, \<open>k\<close> minutes and a rest below a minute.\<close>

lemma minute_parts:
  fixes d k r :: int
  assumes "0 \<le> k" and "k < 1440" and "0 \<le> r" and "r < 60000"
  shows "day_of (d * MS_PER_DAY + (k * 60000 + r)) = d" "time_in_day (d * MS_PER_DAY + (k * 60000 + r)) = k * 60000 + r"
    "(d * MS_PER_DAY + (k * 60000 + r)) div 60000 mod 60 = k mod 60"
    "(k * 60000 + r) div 60000 = k" "(k * 60000 + r) div 3600000 = k div 60"
    "(d * MS_PER_DAY + (k * 60000 + r)) mod 60000 = r"
    "(d * MS_PER_DAY + (k * 60000 + r)) div 60000 * 60000 = d * MS_PER_DAY + k * 60000"
proof -
  have b: "0 \<le> k * 60000 + r" "k * 60000 + r < MS_PER_DAY" using assms by (simp_all add: MS_PER_DAY_def)
  show "day_of (d * MS_PER_DAY + (k * 60000 + r)) = d" "time_in_day (d * MS_PER_DAY + (k * 60000 + r)) = k * 60000 + r"
    using day_of_parts [OF b] by simp_all
  have e: "d * MS_PER_DAY + (k * 60000 + r) = 60000 * (d * 1440 + k) + r" by (simp add: MS_PER_DAY_def)
  have q: "(d * MS_PER_DAY + (k * 60000 + r)) div 60000 = d * 1440 + k" using e assms(3,4) by (rule int_div_pos_eq)
  show "(d * MS_PER_DAY + (k * 60000 + r)) mod 60000 = r" using e assms(3,4) by (rule int_mod_pos_eq)
  show "(k * 60000 + r) div 60000 = k" by (rule int_div_pos_eq) (use assms in simp_all)
  have "(d * 1440 + k) mod 60 = (k + (d * 24) * 60) mod 60" by (simp add: ac_simps)
  then show "(d * MS_PER_DAY + (k * 60000 + r)) div 60000 mod 60 = k mod 60" by (simp only: q mod_mult_self1)
  have "0 \<le> k mod 60" "k mod 60 \<le> 59" using pos_mod_bound [of 60 k] by simp_all
  then show "(k * 60000 + r) div 3600000 = k div 60"
    by (intro int_div_pos_eq [where r = "(k mod 60) * 60000 + r"]) (use assms mult_div_mod_eq [of 60 k] in linarith)+
  show "(d * MS_PER_DAY + (k * 60000 + r)) div 60000 * 60000 = d * MS_PER_DAY + k * 60000"
    unfolding q by (simp add: MS_PER_DAY_def)
qed

lemma minute_split: "\<exists>d k r. t = d * MS_PER_DAY + (k * 60000 + r) \<and> 0 \<le> k \<and> k < 1440 \<and> 0 \<le> r \<and> r < (60000::int)"
proof (intro exI conjI)
  let ?s = "time_in_day t"
  note p = time_parts [of t] and d = div_between [of 60000 ?s]
  show "t = day_of t * MS_PER_DAY + (?s div 60000 * 60000 + ?s mod 60000)" using p(1) by simp
  show "0 \<le> ?s div 60000" using p(2) by (simp add: pos_imp_zdiv_nonneg_iff)
  show "?s div 60000 < 1440" using p(3) d by (simp add: MS_PER_DAY_def)
qed simp_all

lemma next_minute_fixed: "next_minute (fixed_zone off) from = (from + off) div 60000 * 60000 + 60000 - off"
proof -
  obtain d k r where l: "from + off = d * MS_PER_DAY + (k * 60000 + r)" and b: "0 \<le> k" "k < 1440" "0 \<le> r" "r < 60000"
    using minute_split by blast
  note m = minute_parts [OF b] and m0 = minute_parts [OF b(1,2) order.refl, simplified]
  have step: "setSeconds (fixed_zone off) 0 0 from = d * MS_PER_DAY + k * 60000 - off"
    by (simp add: setSeconds_def Let_def l m)
  have "k div 60 * 3600000 + (k mod 60 + 1) * 60000 = k * 60000 + 60000"
  proof -
    have "x * 3600000 + (y + 1) * 60000 = (60 * x + y) * 60000 + 60000" for x y :: int by simp
    then show ?thesis by (metis mult_div_mod_eq)
  qed
  then have "next_minute (fixed_zone off) from = d * MS_PER_DAY + (k * 60000 + 60000) - off"
    unfolding next_minute_def Let_def step using m0 by (simp add: setMinutes_def getMinutes_def Let_def)
  then show ?thesis by (simp add: l m)
qed

lemma next_minute_after: "from < next_minute (fixed_zone off) from"
  using div_between [of 60000 "from + off"] by (simp add: next_minute_fixed)

lemma setDate_fixed:
  "setDate (fixed_zone off) dt t = (month_start (abs_month (day_of (t + off))) + dt - 1) * MS_PER_DAY + time_in_day (t + off) - off"
  by (simp add: setDate_def Let_def make_day_month abs_month_def)

lemma addDays_fixed: "addDays (fixed_zone off) n t = t + n * MS_PER_DAY"
proof -
  have "month_start (abs_month (day_of (t + off))) + (date_of_day (day_of (t + off)) + n) - 1 = day_of (t + off) + n"
    using date_of_day_bounds(3) [of "day_of (t + off)"] by simp
  then have "addDays (fixed_zone off) n t = (day_of (t + off) + n) * MS_PER_DAY + time_in_day (t + off) - off"
    by (simp add: addDays_def getDate_def setDate_fixed)
  then show ?thesis using time_parts(1) [of "t + off"] by (simp add: distrib_right)
qed

text \<open>A month ahead: the day lands in a later month, so setting the date cannot come back.\<close>

lemma next_monthly_after:
  assumes "1 \<le> interval" and "\<And>d. dayOfMonth = Some d \<Longrightarrow> 1 \<le> d"
  shows "t < next_monthly (fixed_zone off) interval dayOfMonth t"
proof -
  let ?z = "fixed_zone off"
  let ?d = "day_of (t + off)" and ?s = "time_in_day (t + off)"
  let ?m = "month_start (abs_month ?d + interval) + date_of_day ?d - 1"
  define moved where "moved = setMonth ?z (getMonth ?z t + interval) t"
  have moved: "moved = ?m * MS_PER_DAY + ?s - off"
    by (simp add: moved_def setMonth_def getMonth_def Let_def make_day_month abs_month_def add.assoc)
  have s: "0 \<le> ?s" "?s < MS_PER_DAY" using time_parts [of "t + off"] by simp_all
  have dm: "day_of (moved + off) = ?m" "time_in_day (moved + off) = ?s" using day_of_parts [OF s, of ?m] by (simp_all add: moved)
  define wanted where "wanted = min (override dayOfMonth (getDate ?z t))
      (getDate ?z (local_date ?z (getFullYear ?z moved) (getMonth ?z moved + 1) 0))"
  have "1 \<le> getDate ?z x" for x using date_of_day_bounds(1) by (simp add: getDate_def)
  then have w: "1 \<le> wanted" using assms(2) by (cases dayOfMonth) (simp_all add: wanted_def)
  have "abs_month ?d + interval \<le> abs_month ?m" using date_of_day_bounds(1) [of ?d] by (intro abs_month_le) simp
  then have "abs_month ?d + 1 \<le> abs_month ?m" using assms(1) by linarith
  then have "month_start (abs_month ?d + 1) \<le> month_start (abs_month ?m)" by (rule month_start_mono)
  then have later: "?d + 1 \<le> month_start (abs_month ?m) + wanted - 1" using abs_month_bounds(2) [of ?d] w by linarith
  have "next_monthly ?z interval dayOfMonth t = (month_start (abs_month ?m) + wanted - 1) * MS_PER_DAY + ?s - off"
    unfolding next_monthly_def Let_def moved_def [symmetric] wanted_def [symmetric] setDate_fixed dm by simp
  moreover have "(?d + 1) * MS_PER_DAY \<le> (month_start (abs_month ?m) + wanted - 1) * MS_PER_DAY"
    using later by (rule mult_right_mono) (simp add: MS_PER_DAY_def)
  moreover have "t = ?d * MS_PER_DAY + ?s - off" using time_parts(1) [of "t + off"] by simp
  ultimately show ?thesis by (simp add: distrib_right MS_PER_DAY_def)
qed

lemma next_weekly_after:
  assumes "1 \<le> interval" and "\<forall>d \<in> set weekdays. 0 \<le> d \<and> d \<le> 6"
  shows "t < next_weekly (fixed_zone off) interval weekdays t"
proof -
  have dow: "getUTCDay t \<le> 6" using pos_mod_bound [of 7 "day_of t + 4"] by (simp add: getUTCDay_def week_day_def)
  show ?thesis
  proof (cases "List.find (\<lambda>d. getUTCDay t < d) (sort weekdays)")
    case None
    have "0 \<le> hd (sort weekdays)" if "weekdays \<noteq> []"
      using assms(2) that by (metis hd_in_set set_empty set_sort)
    with None dow assms(1) show ?thesis
      by (auto simp: next_weekly_def Let_def addDays_fixed MS_PER_DAY_def)
  next
    case (Some d)
    then have "getUTCDay t < d" by (auto simp: find_Some_iff)
    with Some show ?thesis using assms(1) by (simp add: next_weekly_def Let_def addDays_fixed MS_PER_DAY_def)
  qed
qed


section \<open>The worker keeps the task invariant\<close>

lemma bump_inv:
  assumes "tasks_inv w"
  shows "tasks_inv (w\<lparr>projects := update_where (\<lambda>p. p_id p = pid) (\<lambda>p. p\<lparr>p_nextTaskNumber := p_nextTaskNumber p + 1\<rparr>) (projects w)\<rparr>)"
proof -
  let ?bump = "\<lambda>q. if p_id q = pid then q\<lparr>p_nextTaskNumber := p_nextTaskNumber q + 1\<rparr> else q"
  let ?ps = "update_where (\<lambda>p. p_id p = pid) (\<lambda>p. p\<lparr>p_nextTaskNumber := p_nextTaskNumber p + 1\<rparr>) (projects w)"
  have kept: "\<exists>q \<in> set ?ps. p_id q = x \<and> k < p_nextTaskNumber q"
    if "q0 \<in> set (projects w)" "p_id q0 = x" "k < p_nextTaskNumber q0" for q0 x k
  proof -
    have "?bump q0 \<in> set ?ps" using that(1) unfolding set_update_where by (rule imageI)
    then show ?thesis using that(2,3) by (intro bexI [of _ "?bump q0"]) auto
  qed
  have "map p_id ?ps = map p_id (projects w)" by (simp add: map_update_where)
  moreover have "\<forall>t \<in> set (tasks w). \<exists>q \<in> set ?ps. p_id q = t_projectId t \<and> t_keyNumber t < p_nextTaskNumber q"
  proof
    fix t
    assume "t \<in> set (tasks w)"
    then obtain q0 where "q0 \<in> set (projects w)" "p_id q0 = t_projectId t" "t_keyNumber t < p_nextTaskNumber q0"
      using assms by (auto simp: tasks_inv_def numbers_ok_def)
    then show "\<exists>q \<in> set ?ps. p_id q = t_projectId t \<and> t_keyNumber t < p_nextTaskNumber q" by (rule kept)
  qed
  ultimately have "numbers_ok (w\<lparr>projects := ?ps\<rparr>)"
    using assms by (simp add: tasks_inv_def numbers_ok_def)
  then show ?thesis using assms by (simp add: tasks_inv_def hierarchy_ok_def)
qed

lemma tasks_inv_recurrences [simp]:
  "tasks_inv (w\<lparr>recurrences := rs\<rparr>) = tasks_inv w" "tasks_inv (w\<lparr>taskLabels := ls\<rparr>) = tasks_inv w"
  by (simp_all add: tasks_inv_def numbers_ok_def hierarchy_ok_def)

lemma insert_spawned_Inr:
  "insert_spawned e t creator ls w = Inr w' \<Longrightarrow> number_key t \<notin> number_key ` set (tasks w) \<and>
    (\<exists>ws tls. w' = w\<lparr>tasks := tasks w @ [t], watchers := ws, taskLabels := tls\<rparr>)"
  by (auto simp: insert_spawned_def and_then_Inr)

lemma spawnOne_inv:
  assumes inv: "tasks_inv w" and fresh: "uuid e 0 \<notin> t_id ` set (tasks w)" "uuid e 0 \<noteq> []"
  shows "tasks_inv (snd (spawnOne e z d w))"
proof -
  obtain r t ls where d: "d = (r, t, ls)" using prod_cases3 by blast
  have main: "tasks_inv w2"
    if p: "find_project w (t_projectId t) = Some p" and ins: "insert_spawned e (spawned_task e t (p_nextTaskNumber p) pos) c ls
        (w\<lparr>projects := update_where (\<lambda>q. p_id q = t_projectId t) (\<lambda>p. p\<lparr>p_nextTaskNumber := p_nextTaskNumber p + 1\<rparr>) (projects w)\<rparr>) = Inr w2"
      for p pos c w2
  proof -
    let ?t = "spawned_task e t (p_nextTaskNumber p) pos"
    have pid: "p_id p = t_projectId t" using find_projectD [OF p] by simp
    let ?w = "w\<lparr>projects := update_where (\<lambda>q. p_id q = p_id p) (\<lambda>q. q\<lparr>p_nextTaskNumber := p_nextTaskNumber q + 1\<rparr>) (projects w),
        tasks := tasks w @ [?t]\<rparr>"
    have t: "t_id ?t = uuid e 0" "t_projectId ?t = t_projectId t" "t_keyNumber ?t = p_nextTaskNumber p"
      "t_parentTaskId ?t = None" by (simp_all add: spawned_task_def)
    obtain ws tls where w2: "w2 = ?w\<lparr>watchers := ws, taskLabels := tls\<rparr>" and key: "number_key ?t \<notin> number_key ` set (tasks w)"
      using insert_spawned_Inr [OF ins] by (auto simp: pid)
    have "numbers_ok ?w"
      using inv p fresh key by (intro insert_numbers) (simp_all add: tasks_inv_def t)
    moreover have "hierarchy_ok ?w"
      using inv fresh(2) by (intro insert_hierarchy) (simp_all add: tasks_inv_def t parent_ok_def)
    ultimately have "tasks_inv ?w" by (simp add: tasks_inv_def)
    then show ?thesis unfolding w2 by (simp add: tasks_inv_def numbers_ok_def hierarchy_ok_def)
  qed
  show ?thesis
    unfolding spawnOne_def d Let_def prod.case
    by (intro task_inv_steps inv bump_inv) (auto simp: project_or_throw_def dest: find_projectD intro!: main)
qed

section \<open>Properties\<close>

text \<open>
  C16: the next run of a valid schedule is in the future, for every frequency, whatever interval,
  weekdays and day of the month it names, when the server runs in a zone with a fixed offset.
\<close>

theorem next_run_is_in_the_future:
  assumes "validate i = Inr ()"
  shows "from < computeNextRun (fixed_zone off) (ri_frequency i) (override (ri_interval i) 1) (override (ri_weekdays i) [])
    (override (ri_dayOfMonth i) None) from"
proof -
  let ?next = "next_minute (fixed_zone off) from"
  have n: "1 \<le> override (ri_interval i) 1"
    using assms by (cases "ri_interval i") (auto simp: validate_def and_then_Inr)
  have d: "\<forall>d \<in> set (override (ri_weekdays i) []). 0 \<le> d \<and> d \<le> 6"
    using assms by (auto simp: validate_def and_then_Inr list_all_iff not_less)
  have m: "\<And>x. override (ri_dayOfMonth i) None = Some x \<Longrightarrow> 1 \<le> x"
    using assms by (cases "ri_dayOfMonth i") (auto simp: validate_def and_then_Inr)
  have "?next < computeNextRun (fixed_zone off) (ri_frequency i) (override (ri_interval i) 1) (override (ri_weekdays i) [])
      (override (ri_dayOfMonth i) None) from"
  proof (cases "ri_frequency i")
    case Daily
    with n show ?thesis by (simp add: computeNextRun_def Let_def addDays_fixed MS_PER_DAY_def)
  next
    case Weekly
    then show ?thesis using next_weekly_after [OF n d] by (simp add: computeNextRun_def Let_def)
  next
    case Monthly
    then show ?thesis using next_monthly_after [OF n m] by (simp add: computeNextRun_def Let_def)
  qed
  then show ?thesis using next_minute_after [of "from" off] by linarith
qed

text \<open>
  The input for the 15th of every month, seen on 30 January 2026 at 10:00 UTC: the run of
  February is skipped, because 30 February is in March.
\<close>

definition monthly_15 :: recurrence_input where
  "monthly_15 = \<lparr>ri_frequency = Monthly, ri_interval = None, ri_weekdays = None, ri_dayOfMonth = Some (Some 15),
     ri_timezone = None, ri_endsAt = None, ri_enabled = None\<rparr>"

theorem next_run_is_in_the_future_witness:
  "(1769767200000 :: int) < computeNextRun (fixed_zone 0) Monthly 1 [] (Some 15) 1769767200000 \<and>
    getMonth (fixed_zone 0) 1769767200000 = 0 \<and>
    getMonth (fixed_zone 0) (computeNextRun (fixed_zone 0) Monthly 1 [] (Some 15) 1769767200000) = 2"
proof -
  have "validate monthly_15 = Inr ()" by code_simp
  from next_run_is_in_the_future [OF this, of 1769767200000 0]
  have "(1769767200000 :: int) < computeNextRun (fixed_zone 0) Monthly 1 [] (Some 15) 1769767200000"
    by (simp add: monthly_15_def)
  moreover have "getMonth (fixed_zone 0) 1769767200000 = 0" by code_simp
  moreover have "getMonth (fixed_zone 0) (computeNextRun (fixed_zone 0) Monthly 1 [] (Some 15) 1769767200000) = 2"
    by code_simp
  ultimately show ?thesis by blast
qed

text \<open>
  Several workers may read the same due row before any of them claims it.  \<open>claims\<close> runs
  their conditional updates one after the other, in the order in which the database commits them,
  each at its own time, and returns how many rows each of them claimed.
\<close>

fun claims :: "recurrence_row \<Rightarrow> int list \<Rightarrow> world \<Rightarrow> nat list \<times> world" where
  "claims r [] w = ([], w)"
| "claims r (now # nows) w = (let (n, w1) = claim now r w; (ns, w2) = claims r nows w1 in (n # ns, w2))"

lemma claims_lost:
  assumes "\<forall>x \<in> set (recurrences w). \<not> (rc_id x = rc_id r \<and> rc_nextRunAt x = rc_nextRunAt r)"
  shows "fst (claims r nows w) = replicate (length nows) 0"
  using assms
proof (induction nows arbitrary: w)
  case (Cons now nows)
  have c: "fst (claim now r w) = 0" using Cons.prems by (simp add: claim_def Let_def)
  have "\<forall>x \<in> set (recurrences (snd (claim now r w))). \<not> (rc_id x = rc_id r \<and> rc_nextRunAt x = rc_nextRunAt r)"
    using Cons.prems by (auto simp: claim_def Let_def set_update_where)
  from Cons.IH [OF this] c show ?case by (simp add: split_beta)
qed simp

text \<open>
  A due row is claimed once: when its identifier is unique and the row is due at every time at which a
  worker claims it, exactly one of the workers that read it wins it, the first to commit.
\<close>

theorem due_row_claimed_once:
  assumes "distinct (map rc_id (recurrences w))" and "r \<in> set (recurrences w)" and "\<forall>now \<in> set (now # nows). is_due now r"
  shows "fst (claims r (now # nows) w) = 1 # replicate (length nows) 0"
proof -
  let ?m = "\<lambda>x. rc_id x = rc_id r \<and> rc_nextRunAt x = rc_nextRunAt r"
  have one: "x = r" if "x \<in> set (recurrences w)" "rc_id x = rc_id r" for x
    using that assms(1,2) by (meson inj_on_eq_iff distinct_map)
  have "{x. ?m x} \<inter> set (recurrences w) = {r}" using one assms(2) by auto
  moreover have "distinct (recurrences w)" using assms(1) by (simp add: distinct_map)
  ultimately have "fst (claim now r w) = 1"
    by (simp add: claim_def Let_def count_where_def distinct_length_filter)
  moreover have "rc_nextRunAt r \<le> now" using assms(3) by (simp add: is_due_def)
  then have "\<forall>x \<in> set (recurrences (snd (claim now r w))). \<not> ?m x"
    using one by (auto simp: claim_def Let_def set_update_where)
  ultimately show ?thesis using claims_lost [of "snd (claim now r w)" r nows] by (simp add: split_beta)
qed

definition due_15 :: recurrence_row where
  "due_15 = \<lparr>rc_id = ''r1'', rc_taskId = ''t1'', rc_frequency = Monthly, rc_interval = 1, rc_weekdays = [],
     rc_dayOfMonth = Some 15, rc_timezone = ''UTC'', rc_nextRunAt = 1000, rc_lastRunAt = None, rc_enabled = True,
     rc_endsAt = None\<rparr>"

theorem due_row_claimed_once_witness:
  "fst (claims due_15 [1000, 1001, 5000] (empty_world\<lparr>recurrences := [due_15]\<rparr>)) = [1, 0, 0]"
  using due_row_claimed_once [of "empty_world\<lparr>recurrences := [due_15]\<rparr>" due_15 1000 "[1001, 5000]"]
  by (simp add: due_15_def is_due_def numeral_2_eq_2)

end
