(* ===== verification/AutoStatus.thy ===== *)
theory AutoStatus
  imports TaskLaws
begin

text \<open>
  \<^verbatim>\<open>apps/api/src/modules/github/auto-status.service.ts\<close>: the state machine that moves a
  task when its branch or pull request does, one table per workflow preset.
\<close>

section \<open>The tables\<close>

datatype trigger = CommitPushed | PrOpened | PrReadyForReview | PrMerged | PrReopened

record auto_transition =
  fromStatuses :: "string list"
  toStatus :: string

fun TRANSITIONS_BY_PRESET :: "workflow_preset \<Rightarrow> trigger \<Rightarrow> auto_transition option" where
  "TRANSITIONS_BY_PRESET Engineering CommitPushed = Some \<lparr>fromStatuses = [''Todo''], toStatus = ''In Progress''\<rparr>"
| "TRANSITIONS_BY_PRESET Engineering PrOpened = Some \<lparr>fromStatuses = [''Todo'', ''In Progress''], toStatus = ''In Review''\<rparr>"
| "TRANSITIONS_BY_PRESET Engineering PrReadyForReview = Some \<lparr>fromStatuses = [''Todo'', ''In Progress''], toStatus = ''In Review''\<rparr>"
| "TRANSITIONS_BY_PRESET Engineering PrMerged = Some \<lparr>fromStatuses = [''In Review'', ''In Progress''], toStatus = ''Testing''\<rparr>"
| "TRANSITIONS_BY_PRESET Engineering PrReopened = Some \<lparr>fromStatuses = [''In Progress''], toStatus = ''In Review''\<rparr>"
| "TRANSITIONS_BY_PRESET Design CommitPushed = Some \<lparr>fromStatuses = [''Todo''], toStatus = ''In Progress''\<rparr>"
| "TRANSITIONS_BY_PRESET Design PrOpened = Some \<lparr>fromStatuses = [''Todo'', ''In Progress''], toStatus = ''In Review''\<rparr>"
| "TRANSITIONS_BY_PRESET Design PrReadyForReview = Some \<lparr>fromStatuses = [''Todo'', ''In Progress''], toStatus = ''In Review''\<rparr>"
| "TRANSITIONS_BY_PRESET Design PrMerged = Some \<lparr>fromStatuses = [''In Progress'', ''Todo''], toStatus = ''In Review''\<rparr>"
| "TRANSITIONS_BY_PRESET Design PrReopened = Some \<lparr>fromStatuses = [''Approved''], toStatus = ''In Review''\<rparr>"
| "TRANSITIONS_BY_PRESET Generic CommitPushed = Some \<lparr>fromStatuses = [''Todo''], toStatus = ''In Progress''\<rparr>"
| "TRANSITIONS_BY_PRESET Generic PrOpened = Some \<lparr>fromStatuses = [''Todo''], toStatus = ''In Progress''\<rparr>"
| "TRANSITIONS_BY_PRESET Generic PrMerged = Some \<lparr>fromStatuses = [''In Progress'', ''Todo''], toStatus = ''Done''\<rparr>"
| "TRANSITIONS_BY_PRESET Generic PrReadyForReview = None"
| "TRANSITIONS_BY_PRESET Generic PrReopened = None"

text \<open>
  The project of a task is read with it, by a required relation; a task without one cannot
  be stored, and the lookup fails as that query would.
\<close>

definition applyTransition :: "env \<Rightarrow> string \<Rightarrow> trigger \<Rightarrow> world \<Rightarrow> unit res \<times> world" where
  "applyTransition e tid trig w =
     (case find_task w tid of None \<Rightarrow> (Inr (), w)
      | Some task \<Rightarrow>
          attempt (project_or_throw w (t_projectId task)) w (\<lambda>project.
          if \<not> p_githubAutoStatus project then (Inr (), w)
          else case TRANSITIONS_BY_PRESET (p_workflowPreset project) trig of None \<Rightarrow> (Inr (), w)
            | Some transition \<Rightarrow>
                if t_status task \<notin> set (fromStatuses transition) then (Inr (), w)
                else if t_status task = toStatus transition then (Inr (), w)
                else attempt (generateKeyBetween e (last_position e w (t_projectId task) (toStatus transition)) None) w (\<lambda>boardPosition.
                  (Inr (), emit (TaskStatusChanged tid (t_status task) (toStatus transition) ByGithub None (t_projectId task))
                     (w\<lparr>tasks := update_where (\<lambda>t. t_id t = tid)
                        (\<lambda>t. t\<lparr>t_status := toStatus transition, t_boardPosition := boardPosition\<rparr>) (tasks w)\<rparr>)))))"

section \<open>Lemmas\<close>

text \<open>The place of a status on the board of its preset.\<close>

definition rank :: "workflow_preset \<Rightarrow> string \<Rightarrow> nat" where
  "rank preset st = length (takeWhile (\<lambda>s. s \<noteq> st) (WORKFLOW_STATUSES preset))"

text \<open>Forward on the board, except out of an approval.\<close>

definition moves_forward :: "workflow_preset \<Rightarrow> trigger \<Rightarrow> string \<Rightarrow> string \<Rightarrow> bool" where
  "moves_forward preset trig a b \<longleftrightarrow> isValidStatusFor preset a \<and> isValidStatusFor preset b \<and>
     (if preset = Design \<and> trig = PrReopened then rank preset b < rank preset a else rank preset a < rank preset b)"

lemma transition_valid:
  assumes "TRANSITIONS_BY_PRESET preset trig = Some tr" and "st \<in> set (fromStatuses tr)"
  shows "moves_forward preset trig st (toStatus tr)"
proof -
  have "case TRANSITIONS_BY_PRESET preset trig of None \<Rightarrow> True
      | Some tr \<Rightarrow> list_all (\<lambda>st. moves_forward preset trig st (toStatus tr)) (fromStatuses tr)"
    by (cases preset; cases trig; simp add: moves_forward_def isValidStatusFor_def rank_def)
  with assms show ?thesis by (simp add: list_all_iff)
qed

lemma applyTransition_changes:
  assumes "snd (applyTransition e tid trig w) \<noteq> w"
  obtains t p tr pos where "find_task w tid = Some t" and "find_project w (t_projectId t) = Some p"
    and "p_githubAutoStatus p" and "TRANSITIONS_BY_PRESET (p_workflowPreset p) trig = Some tr"
    and "t_status t \<in> set (fromStatuses tr)"
    and "applyTransition e tid trig w = (Inr (), emit (TaskStatusChanged tid (t_status t) (toStatus tr) ByGithub None (t_projectId t))
      (w\<lparr>tasks := update_where (\<lambda>t. t_id t = tid) (\<lambda>t. t\<lparr>t_status := toStatus tr, t_boardPosition := pos\<rparr>) (tasks w)\<rparr>))"
proof -
  obtain t where t: "find_task w tid = Some t"
    using assms by (cases "find_task w tid") (simp_all add: applyTransition_def)
  obtain p where p: "find_project w (t_projectId t) = Some p"
    using assms t by (cases "find_project w (t_projectId t)") (simp_all add: applyTransition_def project_or_throw_def)
  have a: "p_githubAutoStatus p"
    using assms t p by (cases "p_githubAutoStatus p") (simp_all add: applyTransition_def project_or_throw_def)
  obtain tr where tr: "TRANSITIONS_BY_PRESET (p_workflowPreset p) trig = Some tr"
    using assms t p a by (cases "TRANSITIONS_BY_PRESET (p_workflowPreset p) trig") (simp_all add: applyTransition_def project_or_throw_def)
  have st: "t_status t \<in> set (fromStatuses tr)" "t_status t \<noteq> toStatus tr"
    using assms t p a tr by (simp_all add: applyTransition_def project_or_throw_def split: if_splits)
  obtain pos where "generateKeyBetween e (last_position e w (t_projectId t) (toStatus tr)) None = Inr pos"
    using assms t p a tr st by (cases "generateKeyBetween e (last_position e w (t_projectId t) (toStatus tr)) None")
      (simp_all add: applyTransition_def project_or_throw_def)
  with t p a tr st show ?thesis by (intro that) (simp_all add: applyTransition_def project_or_throw_def)
qed

lemma applyTransition_inv:
  assumes "tasks_inv w"
  shows "tasks_inv (snd (applyTransition e tid trig w))"
proof (cases "snd (applyTransition e tid trig w) = w")
  case False
  then show ?thesis
    by (rule applyTransition_changes) (simp add: tasks_inv_update [OF assms] place_def ident_def)
qed (simp add: assms)

interpretation moving: row_update t_id "\<lambda>t. t\<lparr>t_status := st, t_boardPosition := pos\<rparr>" for st pos
  by unfold_locales simp

lemma filter_not_updated:
  "(\<And>t. t_id (f t) = t_id t) \<Longrightarrow> filter (\<lambda>t. t_id t \<noteq> tid) (update_where (\<lambda>t. t_id t = tid) f ts) = filter (\<lambda>t. t_id t \<noteq> tid) ts"
  by (induction ts) auto

section \<open>Properties\<close>

text \<open>
  C17: a trigger that changes anything moves one task of a project that asked for it, from a
  status of the preset's table to the one the table names, a status of the preset too; it
  moves forward on the board, except when a design is taken back from approval. Of that task only the status, the board
  position and the time of completion may differ after it, the other tasks, every other table, the numbering and the hierarchy stay,
  and the move is announced as one by GitHub.
\<close>

theorem auto_status_moves_forward:
  assumes "tasks_inv w" and "snd (applyTransition e tid trig w) \<noteq> w"
  shows "\<exists>t p tr t' w'. find_task w tid = Some t \<and> find_project w (t_projectId t) = Some p \<and> p_githubAutoStatus p \<and>
    TRANSITIONS_BY_PRESET (p_workflowPreset p) trig = Some tr \<and> t_status t \<in> set (fromStatuses tr) \<and>
    moves_forward (p_workflowPreset p) trig (t_status t) (toStatus tr) \<and>
    applyTransition e tid trig w = (Inr (), w') \<and> find_task w' tid = Some t' \<and> t_status t' = toStatus tr \<and>
    t'\<lparr>t_status := t_status t, t_boardPosition := t_boardPosition t, t_completedAt := t_completedAt t\<rparr> = t \<and>
    filter (\<lambda>s. t_id s \<noteq> tid) (tasks w') = filter (\<lambda>s. t_id s \<noteq> tid) (tasks w) \<and>
    emitted w' = emitted w @ [TaskStatusChanged tid (t_status t) (toStatus tr) ByGithub None (t_projectId t)] \<and>
    w'\<lparr>tasks := tasks w, emitted := emitted w\<rparr> = w \<and> tasks_inv w'"
  using assms(2)
proof (rule applyTransition_changes)
  fix t :: task_row and p and tr :: auto_transition and pos
  let ?upd = "\<lambda>t. t\<lparr>t_status := toStatus tr, t_boardPosition := pos\<rparr>"
  let ?w = "emit (TaskStatusChanged tid (t_status t) (toStatus tr) ByGithub None (t_projectId t))
      (w\<lparr>tasks := update_where (\<lambda>t. t_id t = tid) ?upd (tasks w)\<rparr>)"
  assume *: "find_task w tid = Some t" "find_project w (t_projectId t) = Some p"
    "p_githubAutoStatus p" "TRANSITIONS_BY_PRESET (p_workflowPreset p) trig = Some tr"
    "t_status t \<in> set (fromStatuses tr)" "applyTransition e tid trig w = (Inr (), ?w)"
  note forward = transition_valid [OF *(4,5)]
  have inv: "tasks_inv ?w" using applyTransition_inv [OF assms(1), of e tid trig] *(6) by simp
  have found: "find_task ?w tid = Some (?upd t)"
    using *(1) find_taskD [OF *(1)] by (simp add: find_task_def moving.find_updated)
  have rest: "filter (\<lambda>s. t_id s \<noteq> tid) (tasks ?w) = filter (\<lambda>s. t_id s \<noteq> tid) (tasks w)"
    by (simp add: filter_not_updated)
  have frame: "(?upd t)\<lparr>t_status := t_status t, t_boardPosition := t_boardPosition t, t_completedAt := t_completedAt t\<rparr> = t"
    "?w\<lparr>tasks := tasks w, emitted := emitted w\<rparr> = w" "t_status (?upd t) = toStatus tr"
    "emitted ?w = emitted w @ [TaskStatusChanged tid (t_status t) (toStatus tr) ByGithub None (t_projectId t)]"
    by (simp_all add: emit_def)
  show ?thesis by (intro exI conjI) (rule * forward found frame rest inv)+
qed

lemma merged_world:
  "snd (applyTransition sample_env ''t1'' PrMerged task_world) \<noteq> task_world"
  by (simp add: applyTransition_def project_or_throw_def sample_task_def sample_project_def generateKeyBetween_def sample_env_def)
     (simp add: task_samples emit_def update_where_def)

theorem auto_status_moves_forward_witness:
  "\<exists>t'. find_task (snd (applyTransition sample_env ''t1'' PrMerged task_world)) ''t1'' = Some t' \<and> t_status t' = ''Done'' \<and>
     t_title t' = t_title (sample_task ''t1'' ''Todo'')"
proof -
  obtain t p tr t' w' where *: "find_task task_world ''t1'' = Some t" "find_project task_world (t_projectId t) = Some p"
    "TRANSITIONS_BY_PRESET (p_workflowPreset p) PrMerged = Some tr" "applyTransition sample_env ''t1'' PrMerged task_world = (Inr (), w')"
    "find_task w' ''t1'' = Some t'" "t_status t' = toStatus tr"
    "t'\<lparr>t_status := t_status t, t_boardPosition := t_boardPosition t, t_completedAt := t_completedAt t\<rparr> = t"
    using auto_status_moves_forward [OF task_world_inv merged_world] by blast
  from *(1-3) have "t = sample_task ''t1'' ''Todo''" "toStatus tr = ''Done''"
    by (auto simp: find_task_def sample_task_def find_project_def task_samples sample_project_def)
  moreover have "t_title t' = t_title t" using arg_cong [OF *(7), of t_title] by simp
  ultimately show ?thesis using *(4-6) by simp
qed

text \<open>
  Merging a pull request completes the task in a generic project and in no way stamps it: the
  time of completion that the task service keeps is missing.
\<close>

lemma merged_task_is_not_stamped:
  "map (\<lambda>t. (t_status t, t_completedAt t)) (tasks (snd (applyTransition sample_env ''t1'' PrMerged task_world))) =
     [(''Done'', None), (''Done'', Some 7), (''Todo'', None)]"
  using merged_world
proof (rule applyTransition_changes)
  fix t p tr pos
  assume *: "find_task task_world ''t1'' = Some t" "find_project task_world (t_projectId t) = Some p"
    "TRANSITIONS_BY_PRESET (p_workflowPreset p) PrMerged = Some tr"
    "applyTransition sample_env ''t1'' PrMerged task_world = (Inr (), emit (TaskStatusChanged ''t1'' (t_status t) (toStatus tr) ByGithub None (t_projectId t))
      (task_world\<lparr>tasks := update_where (\<lambda>t. t_id t = ''t1'') (\<lambda>t. t\<lparr>t_status := toStatus tr, t_boardPosition := pos\<rparr>) (tasks task_world)\<rparr>))"
  from *(1-3) have "toStatus tr = ''Done''" by (auto simp: find_task_def sample_task_def find_project_def task_samples sample_project_def)
  then show ?thesis unfolding *(4) by (simp add: emit_def update_where_def) (simp add: task_samples)
qed

end
