(* ===== verification/JsText.thy ===== *)
theory JsText
  imports JsNumber
begin

text \<open>
  Numbers and text: \<open>Number(string)\<close> and \<open>String(number)\<close>, over strings whose code units are
  below 256.
\<close>

section \<open>From text\<close>

definition code_unit :: "char \<Rightarrow> nat" where
  "code_unit c = of_char c"

definition isDigit :: "char \<Rightarrow> bool" where
  "isDigit c \<longleftrightarrow> 48 \<le> code_unit c \<and> code_unit c \<le> 57"

text \<open>The value of a digit in any radix up to 36; no digit has the value 36.\<close>

definition digit_value :: "char \<Rightarrow> nat" where
  "digit_value c = (let n = code_unit c
     in if isDigit c then n - 48
        else if 97 \<le> n \<and> n \<le> 122 then n - 87
        else if 65 \<le> n \<and> n \<le> 90 then n - 55 else 36)"

definition natural :: "nat \<Rightarrow> string \<Rightarrow> nat" where
  "natural radix ds = foldl (\<lambda>v c. v * radix + digit_value c) 0 ds"

definition pow10 :: "int \<Rightarrow> rat" where
  "pow10 e = (if 0 \<le> e then 10 ^ nat e else 1 / 10 ^ nat (- e))"

definition signed :: "string \<Rightarrow> bool \<times> string" where
  "signed s = (case s of [] \<Rightarrow> (False, []) | c # r \<Rightarrow> if c = CHR ''-'' then (True, r) else if c = CHR ''+'' then (False, r) else (False, s))"

definition exponent_part :: "string \<Rightarrow> int option" where
  "exponent_part s = (case s of [] \<Rightarrow> Some 0
     | c # r \<Rightarrow> if c = CHR ''e'' \<or> c = CHR ''E''
         then let (neg, ds) = signed r
              in if ds \<noteq> [] \<and> list_all isDigit ds then Some (if neg then - int (natural 10 ds) else int (natural 10 ds)) else None
         else None)"

definition unsigned_decimal :: "string \<Rightarrow> jsnum" where
  "unsigned_decimal s =
     (let whole = takeWhile isDigit s; r = dropWhile isDigit s; point = (r \<noteq> [] \<and> hd r = CHR ''.'');
          fraction = (if point then takeWhile isDigit (tl r) else []);
          rest = (if point then dropWhile isDigit (tl r) else r)
      in if whole @ fraction = [] then NaN
         else case exponent_part rest of None \<Rightarrow> NaN
           | Some e \<Rightarrow> to_double (of_nat (natural 10 (whole @ fraction)) * pow10 (e - int (length fraction))))"

definition radix_of :: "char \<Rightarrow> nat option" where
  "radix_of c = (if c \<in> {CHR ''x'', CHR ''X''} then Some 16 else if c \<in> {CHR ''o'', CHR ''O''} then Some 8
     else if c \<in> {CHR ''b'', CHR ''B''} then Some 2 else None)"

text \<open>\<open>Number(string)\<close>: a decimal, a literal with a radix prefix, an infinity, or nothing.\<close>

definition decimal_literal :: "string \<Rightarrow> jsnum" where
  "decimal_literal t = (let (neg, u) = signed t; x = (if u = ''Infinity'' then PosInf else unsigned_decimal u)
     in if neg then js_neg x else x)"

definition js_number :: "string \<Rightarrow> jsnum" where
  "js_number s = (let t = trim s
     in case t of [] \<Rightarrow> Fin 0
        | [c] \<Rightarrow> decimal_literal t
        | z # x # ds \<Rightarrow>
            (case (if z = CHR ''0'' then radix_of x else None) of
               Some radix \<Rightarrow> if ds \<noteq> [] \<and> list_all (\<lambda>d. digit_value d < radix) ds then to_double (of_nat (natural radix ds)) else NaN
             | None \<Rightarrow> decimal_literal t))"

section \<open>To text\<close>

text \<open>The place \<open>n\<close> of the decimal point: \<open>10 ^ (n - 1) \<le> q < 10 ^ n\<close>.\<close>

definition decimal_place :: "rat \<Rightarrow> int" where
  "decimal_place q = (if 1 \<le> q then int (length (show_nat (nat \<lfloor>q\<rfloor>)))
     else 1 - int (length (show_nat (nat (\<lceil>1 / q\<rceil> - 1)))))"

text \<open>An integer of \<open>k\<close> digits that reads back as \<open>q\<close>, the nearer one when there are two.\<close>

definition digits_at :: "rat \<Rightarrow> int \<Rightarrow> int \<Rightarrow> int option" where
  "digits_at q n k = (let x = q * pow10 (k - n)
     in case filter (\<lambda>s. to_double (of_int s * pow10 (n - k)) = Fin q) (remdups [\<lfloor>x\<rfloor>, \<lceil>x\<rceil>]) of
          [] \<Rightarrow> None
        | [s] \<Rightarrow> Some s
        | a # b # _ \<Rightarrow> Some (if x - of_int a < of_int b - x \<or> x - of_int a = of_int b - x \<and> even a then a else b))"

text \<open>Seventeen digits tell all doubles apart.\<close>

fun shortest_digits :: "rat \<Rightarrow> int \<Rightarrow> int \<Rightarrow> nat \<Rightarrow> int \<times> int" where
  "shortest_digits q n k 0 = (\<lfloor>q * pow10 (k - n)\<rfloor>, k)"
| "shortest_digits q n k (Suc more) = (case digits_at q n k of Some s \<Rightarrow> (s, k) | None \<Rightarrow> shortest_digits q n (k + 1) more)"

definition zeros :: "int \<Rightarrow> string" where
  "zeros n = replicate (nat n) CHR ''0''"

definition layout_number :: "string \<Rightarrow> int \<Rightarrow> string" where
  "layout_number ds n =
     (let k = int (length ds)
      in if k \<le> n \<and> n \<le> 21 then ds @ zeros (n - k)
         else if 0 < n \<and> n \<le> 21 then take (nat n) ds @ ''.'' @ drop (nat n) ds
         else if - 6 < n \<and> n \<le> 0 then ''0.'' @ zeros (- n) @ ds
         else take 1 ds @ (if k = 1 then [] else CHR ''.'' # drop 1 ds) @ ''e'' @
                (if 0 < n then ''+'' else ''-'') @ show_nat (nat \<bar>n - 1\<bar>))"

definition positive_to_string :: "rat \<Rightarrow> string" where
  "positive_to_string q =
     (let n = decimal_place q; (s, k) = shortest_digits q n 1 16; all_ds = show_nat (nat s);
          ds = rev (dropWhile (\<lambda>c. c = CHR ''0'') (rev all_ds))
      in layout_number ds (n - k + int (length all_ds)))"

definition number_to_string :: "jsnum \<Rightarrow> string" where
  "number_to_string x = (case x of NaN \<Rightarrow> ''NaN'' | PosInf \<Rightarrow> ''Infinity'' | NegInf \<Rightarrow> ''-Infinity''
     | Fin q \<Rightarrow> if q = 0 then ''0'' else if q < 0 then CHR ''-'' # positive_to_string (- q) else positive_to_string q)"

end
