(* ===== verification/FormulaParser.thy ===== *)
theory FormulaParser
  imports JsText
begin

text \<open>
  The first half of \<^verbatim>\<open>apps/api/src/modules/custom-fields/formula-evaluator.ts\<close>: the
  tokenizer and the recursive-descent parser of the formulas of computed fields. The
  position in the token array is the list of the tokens that are left. One method is one
  definition, which takes the method it calls as an argument; the circle from \<open>parsePrimary\<close> back to
  \<open>parseExpr\<close> is cut by fuel, and \<open>None\<close> is running out of it. The parser never does, as shown below.
  Characters are code units below 256.
\<close>

section \<open>Syntax\<close>

datatype token = TNum jsnum | TStr string | TIdent string | TPunct string

datatype unary_op = OpNeg | OpNot
datatype binary_op = OpOr | OpAnd | OpEq | OpNe | OpLt | OpLe | OpGt | OpGe | OpAdd | OpSub | OpMul | OpDiv

datatype ast =
    ANum jsnum
  | AStr string
  | ABool bool
  | ANull
  | ARef string
  | AArray "ast list"
  | ACall string "ast list"
  | AUnary unary_op ast
  | ABinary binary_op ast ast

text \<open>The messages of \<open>FormulaError\<close> with what they quote.\<close>

datatype formula_error =
    InvalidNumber string
  | InvalidEscape string
  | UnterminatedString
  | UnexpectedCharacter char
  | TrailingToken token
  | UnexpectedEnd
  | BareIdentifier string
  | ExpectedFieldName
  | UnexpectedToken token
  | ExpectedPunct string "token option"
  | FormulaEmpty
  | FormulaTooLong
  | FormulaTooComplex
  | ForbiddenIdentifier string
  | UnknownFunction string
  | WrongArguments string
  | LenOfOther

section \<open>Tokenizer\<close>

definition isAlpha :: "char \<Rightarrow> bool" where
  "isAlpha c \<longleftrightarrow> (let n = code_unit c in 97 \<le> n \<and> n \<le> 122 \<or> 65 \<le> n \<and> n \<le> 90 \<or> n = 95)"

definition isAlphaNum :: "char \<Rightarrow> bool" where
  "isAlphaNum c \<longleftrightarrow> isAlpha c \<or> isDigit c"

definition formula_blank :: "char \<Rightarrow> bool" where
  "formula_blank c \<longleftrightarrow> code_unit c \<in> {32, 9, 10, 13}"

text \<open>The characters of a number after its first one, and what follows.\<close>

fun scan_number :: "bool \<Rightarrow> string \<Rightarrow> string \<times> string" where
  "scan_number sawDot [] = ([], [])"
| "scan_number sawDot (c # cs) =
     (if isDigit c \<or> (\<not> sawDot \<and> c = CHR ''.'')
      then let (raw, rest) = scan_number (sawDot \<or> c = CHR ''.'') cs in (c # raw, rest)
      else ([], c # cs))"

definition escape :: "char \<Rightarrow> char option" where
  "escape c = (if c = CHR 0x5C then Some CHR 0x5C else if c = CHR 0x22 then Some CHR 0x22
     else if c = CHR ''n'' then Some CHR 0x0A else if c = CHR ''t'' then Some CHR 0x09 else None)"

text \<open>The body of a string literal after its opening quote: its value and what follows the closing one.\<close>

fun scan_string :: "string \<Rightarrow> string \<Rightarrow> formula_error + string \<times> string" where
  "scan_string out [] = Inl UnterminatedString"
| "scan_string out (c # cs) =
     (if c = CHR 0x22 then Inr (out, cs)
      else if c = CHR 0x5C then
        (case cs of [] \<Rightarrow> Inl (InvalidEscape [])
         | n # cs' \<Rightarrow> (case escape n of None \<Rightarrow> Inl (InvalidEscape [n]) | Some x \<Rightarrow> scan_string (out @ [x]) cs'))
      else scan_string (out @ [c]) cs)"

definition two_char_punct :: "string list" where
  "two_char_punct = [''=='', ''!='', ''<='', ''>='', ''&&'', ''||'']"

definition one_char_punct :: string where
  "one_char_punct = ''+-*/(){}[],<>!''"

lemma scan_number_length: "length (snd (scan_number b cs)) \<le> length cs"
  by (induction b cs rule: scan_number.induct) (auto simp: split_beta intro: le_SucI)

lemma scan_string_length: "scan_string out cs = Inr (s, rest) \<Longrightarrow> length rest < length cs"
proof (induction cs arbitrary: out rule: length_induct)
  case (1 cs)
  note IH = "1.IH" [rule_format]
  show ?case
  proof (cases cs)
    case Nil
    with "1.prems" show ?thesis by simp
  next
    case (Cons c cs')
    show ?thesis
    proof (cases "c = CHR 0x22")
      case True
      with "1.prems" Cons show ?thesis by simp
    next
      case quote: False
      show ?thesis
      proof (cases "c = CHR 0x5C")
        case True
        obtain n cs'' x where "cs' = n # cs''" "escape n = Some x"
          using "1.prems" Cons quote True by (auto split: list.splits option.splits)
        with "1.prems" Cons quote True IH [of cs'' "out @ [x]"] show ?thesis by simp
      next
        case False
        with "1.prems" Cons quote IH [of cs' "out @ [c]"] show ?thesis by simp
      qed
    qed
  qed
qed

function tokenize :: "string \<Rightarrow> formula_error + token list" where
  "tokenize [] = Inr []"
| "tokenize (c # cs) =
     (if formula_blank c then tokenize cs
      else if isDigit c \<or> (c = CHR ''.'' \<and> cs \<noteq> [] \<and> isDigit (hd cs)) then
        (case scan_number (c = CHR ''.'') cs of (raw, rest) \<Rightarrow>
           let num = js_number (c # raw)
           in if js_finite num then and_then (tokenize rest) (\<lambda>ts. Inr (TNum num # ts))
              else Inl (InvalidNumber (c # raw)))
      else if c = CHR 0x22 then
        (case scan_string [] cs of
           Inl e \<Rightarrow> Inl e
         | Inr (out, rest) \<Rightarrow> and_then (tokenize rest) (\<lambda>ts. Inr (TStr out # ts)))
      else if isAlpha c then
        and_then (tokenize (dropWhile isAlphaNum cs)) (\<lambda>ts. Inr (TIdent (c # takeWhile isAlphaNum cs) # ts))
      else if cs \<noteq> [] \<and> [c, hd cs] \<in> set two_char_punct then
        and_then (tokenize (tl cs)) (\<lambda>ts. Inr (TPunct [c, hd cs] # ts))
      else if c \<in> set one_char_punct then and_then (tokenize cs) (\<lambda>ts. Inr (TPunct [c] # ts))
      else Inl (UnexpectedCharacter c))"
  by pat_completeness auto

termination
  apply (relation "measure length")
        apply (simp_all only: in_measure wf_measure length_Cons less_Suc_eq_le order.refl length_dropWhile_le length_tl diff_le_self)
   apply (metis scan_number_length snd_conv)
  apply (metis scan_string_length less_imp_le)
  done

declare tokenize.simps(2) [simp del]

section \<open>Parser\<close>

text \<open>A step that may run out of fuel or fail, and its continuation.\<close>

type_synonym 'a parsed = "(formula_error + 'a \<times> token list) option"

definition parse_then :: "'a parsed \<Rightarrow> ('a \<Rightarrow> token list \<Rightarrow> 'b parsed) \<Rightarrow> 'b parsed" where
  "parse_then m k = (case m of None \<Rightarrow> None | Some (Inl e) \<Rightarrow> Some (Inl e) | Some (Inr (a, ts)) \<Rightarrow> k a ts)"

definition peekPunct :: "string \<Rightarrow> token list \<Rightarrow> bool" where
  "peekPunct p ts = (case ts of TPunct q # _ \<Rightarrow> q = p | _ \<Rightarrow> False)"

definition expectPunct :: "string \<Rightarrow> 'a \<Rightarrow> token list \<Rightarrow> 'a parsed" where
  "expectPunct p a ts = Some (if peekPunct p ts then Inr (a, tl ts)
     else Inl (ExpectedPunct p (case ts of [] \<Rightarrow> None | t # _ \<Rightarrow> Some t)))"

text \<open>The operator that a token stands for at a level of the grammar.\<close>

definition peek_op :: "(string \<times> 'o) list \<Rightarrow> token list \<Rightarrow> 'o option" where
  "peek_op ops ts = (case ts of TPunct q # _ \<Rightarrow> map_of ops q | _ \<Rightarrow> None)"

text \<open>
  The loop of a level: while an operator of the level is next, read an operand of the level
  above and combine to the left. Every round takes a token, so the number of tokens is fuel enough.
\<close>

fun parse_loop :: "(string \<times> binary_op) list \<Rightarrow> (token list \<Rightarrow> ast parsed) \<Rightarrow> nat \<Rightarrow> ast \<Rightarrow> token list \<Rightarrow> ast parsed" where
  "parse_loop ops sub k left ts =
     (case peek_op ops ts of
        None \<Rightarrow> Some (Inr (left, ts))
      | Some op \<Rightarrow>
          (case k of 0 \<Rightarrow> None
           | Suc k' \<Rightarrow> parse_then (sub (tl ts)) (\<lambda>right. parse_loop ops sub k' (ABinary op left right))))"

definition parse_level :: "(string \<times> binary_op) list \<Rightarrow> (token list \<Rightarrow> ast parsed) \<Rightarrow> token list \<Rightarrow> ast parsed" where
  "parse_level ops sub ts = parse_then (sub ts) (\<lambda>left rest. parse_loop ops sub (length rest) left rest)"

definition parseMul :: "(token list \<Rightarrow> ast parsed) \<Rightarrow> token list \<Rightarrow> ast parsed" where
  "parseMul = parse_level [(''*'', OpMul), (''/'', OpDiv)]"

definition parseAdd :: "(token list \<Rightarrow> ast parsed) \<Rightarrow> token list \<Rightarrow> ast parsed" where
  "parseAdd = parse_level [(''+'', OpAdd), (''-'', OpSub)]"

definition parseComparison :: "(token list \<Rightarrow> ast parsed) \<Rightarrow> token list \<Rightarrow> ast parsed" where
  "parseComparison = parse_level [(''<'', OpLt), (''<='', OpLe), (''>'', OpGt), (''>='', OpGe)]"

definition parseEquality :: "(token list \<Rightarrow> ast parsed) \<Rightarrow> token list \<Rightarrow> ast parsed" where
  "parseEquality = parse_level [(''=='', OpEq), (''!='', OpNe)]"

definition parseAnd :: "(token list \<Rightarrow> ast parsed) \<Rightarrow> token list \<Rightarrow> ast parsed" where
  "parseAnd = parse_level [(''&&'', OpAnd)]"

definition parseOr :: "(token list \<Rightarrow> ast parsed) \<Rightarrow> token list \<Rightarrow> ast parsed" where
  "parseOr = parse_level [(''||'', OpOr)]"

definition unary_ops :: "(string \<times> unary_op) list" where
  "unary_ops = [(''-'', OpNeg), (''!'', OpNot)]"

fun parseUnary :: "(token list \<Rightarrow> ast parsed) \<Rightarrow> token list \<Rightarrow> ast parsed" where
  "parseUnary primary [] = primary []"
| "parseUnary primary (t # ts) =
     (case peek_op unary_ops (t # ts) of
        Some op \<Rightarrow> parse_then (parseUnary primary ts) (\<lambda>operand rest. Some (Inr (AUnary op operand, rest)))
      | None \<Rightarrow> primary (t # ts))"

declare parse_loop.simps [simp del]

text \<open>One or more expressions with commas between them; a list that a closing token ends.\<close>

fun parse_items :: "(token list \<Rightarrow> ast parsed) \<Rightarrow> nat \<Rightarrow> token list \<Rightarrow> ast list parsed" where
  "parse_items expr k ts =
     parse_then (expr ts) (\<lambda>item rest.
       if peekPunct '','' rest
       then (case k of 0 \<Rightarrow> None
             | Suc k' \<Rightarrow> parse_then (parse_items expr k' (tl rest)) (\<lambda>items rest'. Some (Inr (item # items, rest'))))
       else Some (Inr ([item], rest)))"

declare parse_items.simps [simp del]

definition parse_list :: "(token list \<Rightarrow> ast parsed) \<Rightarrow> string \<Rightarrow> token list \<Rightarrow> ast list parsed" where
  "parse_list expr closing ts =
     (if peekPunct closing ts then expectPunct closing [] ts
      else parse_then (parse_items expr (length ts) ts) (expectPunct closing))"

definition parse_ident :: "(token list \<Rightarrow> ast parsed) \<Rightarrow> string \<Rightarrow> token list \<Rightarrow> ast parsed" where
  "parse_ident expr name rest =
     (if name = ''true'' then Some (Inr (ABool True, rest))
      else if name = ''false'' then Some (Inr (ABool False, rest))
      else if name = ''null'' then Some (Inr (ANull, rest))
      else if \<not> peekPunct ''('' rest then Some (Inl (BareIdentifier name))
      else parse_then (parse_list expr '')'' (tl rest)) (\<lambda>args rest'. Some (Inr (ACall name args, rest'))))"

definition parse_ref :: "token list \<Rightarrow> ast parsed" where
  "parse_ref rest = (case rest of TIdent name # rest' \<Rightarrow> expectPunct ''}'' (ARef name) rest' | _ \<Rightarrow> Some (Inl ExpectedFieldName))"

definition parsePrimary :: "(token list \<Rightarrow> ast parsed) \<Rightarrow> token list \<Rightarrow> ast parsed" where
  "parsePrimary expr ts =
     (case ts of
        [] \<Rightarrow> Some (Inl UnexpectedEnd)
      | TNum v # rest \<Rightarrow> Some (Inr (ANum v, rest))
      | TStr s # rest \<Rightarrow> Some (Inr (AStr s, rest))
      | TIdent name # rest \<Rightarrow> parse_ident expr name rest
      | TPunct p # rest \<Rightarrow>
          if p = ''{'' then parse_ref rest
          else if p = ''['' then parse_then (parse_list expr '']'' rest) (\<lambda>items rest'. Some (Inr (AArray items, rest')))
          else if p = ''('' then parse_then (expr rest) (expectPunct '')'')
          else Some (Inl (UnexpectedToken (TPunct p))))"

text \<open>\<open>parseExpr\<close> is \<open>parseOr\<close>; the fuel bounds the nesting of brackets.\<close>

definition parse_upto :: "(token list \<Rightarrow> ast parsed) \<Rightarrow> token list \<Rightarrow> ast parsed" where
  "parse_upto expr = parseOr (parseAnd (parseEquality (parseComparison (parseAdd (parseMul (parseUnary (parsePrimary expr)))))))"

fun parseExpr :: "nat \<Rightarrow> token list \<Rightarrow> ast parsed" where
  "parseExpr 0 ts = None"
| "parseExpr (Suc n) ts = parse_upto (parseExpr n) ts"

definition parse_tokens :: "token list \<Rightarrow> (formula_error + ast) option" where
  "parse_tokens ts = (case parseExpr (Suc (length ts)) ts of
       None \<Rightarrow> None
     | Some (Inl e) \<Rightarrow> Some (Inl e)
     | Some (Inr (node, [])) \<Rightarrow> Some (Inr node)
     | Some (Inr (node, t # _)) \<Rightarrow> Some (Inl (TrailingToken t)))"

definition parseFormula :: "string \<Rightarrow> (formula_error + ast) option" where
  "parseFormula expression =
     (if trim expression = [] then Some (Inl FormulaEmpty)
      else if 4096 < length expression then Some (Inl FormulaTooLong)
      else case tokenize expression of
        Inl e \<Rightarrow> Some (Inl e)
      | Inr ts \<Rightarrow> if ts = [] then Some (Inl FormulaEmpty)
                  else if 1024 < length ts then Some (Inl FormulaTooComplex)
                  else parse_tokens ts)"

end
