(* ===== verification/FormulaLaws.thy ===== *)
theory FormulaLaws
  imports FormulaParser
begin

text \<open>
  Laws of the formula parser: it decides every token list with the fuel it starts with, every
  step takes a token, what it builds has only finite numbers in it; and it reads back what a
  printer with the fewest parentheses writes.
\<close>

section \<open>The parser ends\<close>

text \<open>
  What a step promises on at most \<open>m\<close> tokens of a set \<open>T\<close>: a result, which, when it is a
  success, is in \<open>Q\<close> and leaves fewer tokens. \<open>m_ok\<close> says so of a partial result, with the
  tokens it may leave.
\<close>

definition good_number :: "token \<Rightarrow> bool" where
  "good_number t \<longleftrightarrow> (\<forall>v. t = TNum v \<longrightarrow> js_finite v)"

lemma good_number_simps [simp]:
  "good_number (TNum v) = js_finite v" "good_number (TStr s)" "good_number (TIdent s)" "good_number (TPunct s)"
  by (simp_all add: good_number_def)

fun literals_finite :: "ast \<Rightarrow> bool" where
  "literals_finite (ANum v) = js_finite v"
| "literals_finite (AArray items) = list_all literals_finite items"
| "literals_finite (ACall f args) = list_all literals_finite args"
| "literals_finite (AUnary op a) = literals_finite a"
| "literals_finite (ABinary op a b) = (literals_finite a \<and> literals_finite b)"
| "literals_finite _ = True"

definition m_ok :: "nat \<Rightarrow> ('a \<Rightarrow> bool) \<Rightarrow> 'a parsed \<Rightarrow> bool" where
  "m_ok n Q m \<longleftrightarrow> (\<exists>r. m = Some r \<and> (\<forall>a rest. r = Inr (a, rest) \<longrightarrow> Q a \<and> length rest < n \<and> list_all good_number rest))"

definition parser_ok :: "nat \<Rightarrow> ('a \<Rightarrow> bool) \<Rightarrow> (token list \<Rightarrow> 'a parsed) \<Rightarrow> bool" where
  "parser_ok m Q p \<longleftrightarrow> (\<forall>ts. length ts \<le> m \<longrightarrow> list_all good_number ts \<longrightarrow> m_ok (length ts) Q (p ts))"

lemma m_ok_Inl [simp]: "m_ok n Q (Some (Inl e))"
  by (simp add: m_ok_def)

lemma m_ok_Inr [simp]: "m_ok n Q (Some (Inr (a, rest))) \<longleftrightarrow> Q a \<and> length rest < n \<and> list_all good_number rest"
  by (auto simp: m_ok_def)

lemma m_ok_mono: "m_ok n Q m \<Longrightarrow> n \<le> n' \<Longrightarrow> m_ok n' Q m"
  by (fastforce simp: m_ok_def)

lemma parse_then_simps [simp]:
  "parse_then (Some (Inl e)) k = Some (Inl e)" "parse_then (Some (Inr (a, ts))) k = k a ts" "parse_then None k = None"
  by (simp_all add: parse_then_def)

lemma m_ok_then:
  assumes "m_ok n Q m" and "\<And>a rest. m = Some (Inr (a, rest)) \<Longrightarrow> Q a \<Longrightarrow> length rest < n \<Longrightarrow> list_all good_number rest \<Longrightarrow> m_ok n' Q' (k a rest)"
  shows "m_ok n' Q' (parse_then m k)"
  using assms by (auto simp: m_ok_def [of n Q m] parse_then_def split: sum.splits)

lemma parser_okD: "parser_ok m Q p \<Longrightarrow> length ts \<le> m \<Longrightarrow> list_all good_number ts \<Longrightarrow> m_ok (length ts) Q (p ts)"
  by (simp add: parser_ok_def)

lemma tokens_tl: "list_all good_number ts \<Longrightarrow> list_all good_number (tl ts)"
  by (cases ts) simp_all

lemma peek_op_nonempty: "peek_op ops ts = Some op \<Longrightarrow> ts \<noteq> []"
  by (auto simp: peek_op_def)

lemma peekPunct_nonempty: "peekPunct p ts \<Longrightarrow> ts \<noteq> []"
  by (auto simp: peekPunct_def)

lemma expectPunct_ok: "Q a \<Longrightarrow> length ts \<le> n \<Longrightarrow> list_all good_number ts \<Longrightarrow> m_ok n Q (expectPunct p a ts)"
  by (cases ts) (simp_all add: expectPunct_def peekPunct_def)

lemma parse_loop_ok:
  assumes "parser_ok m literals_finite sub"
  shows "literals_finite left \<Longrightarrow> length ts \<le> m \<Longrightarrow> length ts \<le> k \<Longrightarrow> list_all good_number ts \<Longrightarrow>
    m_ok (Suc (length ts)) literals_finite (parse_loop ops sub k left ts)"
proof (induction k arbitrary: left ts)
  case 0
  then show ?case by (subst parse_loop.simps) (simp add: peek_op_def)
next
  case (Suc k)
  show ?case
  proof (cases "peek_op ops ts")
    case None
    with Suc.prems show ?thesis by (subst parse_loop.simps) simp
  next
    case (Some op)
    then have "ts \<noteq> []" by (rule peek_op_nonempty)
    then have l: "Suc (length (tl ts)) = length ts" by simp
    have "m_ok (length (tl ts)) literals_finite (sub (tl ts))"
      by (rule parser_okD [OF assms]) (use Suc.prems l tokens_tl in auto)
    then have "m_ok (Suc (length ts)) literals_finite (parse_then (sub (tl ts)) (\<lambda>right. parse_loop ops sub k (ABinary op left right)))"
      by (rule m_ok_then, intro m_ok_mono [OF Suc.IH]) (use Suc.prems l in simp_all)
    with Some show ?thesis by (subst parse_loop.simps) simp
  qed
qed

lemma parse_level_ok:
  assumes "parser_ok m literals_finite sub"
  shows "parser_ok m literals_finite (parse_level ops sub)"
  unfolding parser_ok_def parse_level_def
  by (intro allI impI m_ok_then [OF parser_okD [OF assms]] m_ok_mono [OF parse_loop_ok [OF assms]]) simp_all

lemma parse_unary_ok:
  assumes "parser_ok m literals_finite primary"
  shows "parser_ok m literals_finite (parseUnary primary)"
proof -
  have "length ts \<le> m \<Longrightarrow> list_all good_number ts \<Longrightarrow> m_ok (length ts) literals_finite (parseUnary primary ts)" for ts
  proof (induction ts)
    case Nil
    then show ?case using parser_okD [OF assms, of "[]"] by simp
  next
    case (Cons t ts)
    show ?case
    proof (cases "peek_op unary_ops (t # ts)")
      case None
      with Cons.prems show ?thesis using parser_okD [OF assms, of "t # ts"] by simp
    next
      case (Some op)
      have "m_ok (length ts) literals_finite (parseUnary primary ts)" using Cons by simp
      then have "m_ok (length (t # ts)) literals_finite
          (parse_then (parseUnary primary ts) (\<lambda>operand rest. Some (Inr (AUnary op operand, rest))))"
        by (rule m_ok_then) simp
      with Some show ?thesis by simp
    qed
  qed
  then show ?thesis by (simp add: parser_ok_def)
qed

lemma parse_items_ok:
  assumes "parser_ok m literals_finite expr"
  shows "length ts \<le> m \<Longrightarrow> length ts \<le> k \<Longrightarrow> list_all good_number ts \<Longrightarrow>
    m_ok (length ts) (list_all literals_finite) (parse_items expr k ts)"
proof (induction k arbitrary: ts)
  case 0
  then show ?case using parser_okD [OF assms, of "[]"]
    by (subst parse_items.simps) (auto simp: m_ok_def parse_then_def split: sum.splits)
next
  case (Suc k)
  have "m_ok (length ts) literals_finite (expr ts)" using Suc.prems by (intro parser_okD [OF assms])
  then show ?case
  proof (subst parse_items.simps, rule m_ok_then)
    fix a rest
    assume r: "literals_finite a" "length rest < length ts" "list_all good_number rest"
    have "m_ok (length ts) (list_all literals_finite)
        (parse_then (parse_items expr k (tl rest)) (\<lambda>items rest'. Some (Inr (a # items, rest'))))"
      by (rule m_ok_then [OF Suc.IH]) (use r Suc.prems tokens_tl in auto)
    with r show "m_ok (length ts) (list_all literals_finite) (if peekPunct '','' rest
        then case Suc k of 0 \<Rightarrow> None
             | Suc k' \<Rightarrow> parse_then (parse_items expr k' (tl rest)) (\<lambda>items rest'. Some (Inr (a # items, rest')))
        else Some (Inr ([a], rest)))" by simp
  qed
qed

lemma parse_list_ok:
  assumes "parser_ok m literals_finite expr" and "length ts \<le> m" and "list_all good_number ts"
  shows "m_ok (length ts) (list_all literals_finite) (parse_list expr p ts)"
  unfolding parse_list_def
  by (auto intro!: expectPunct_ok m_ok_then [OF parse_items_ok [OF assms(1)]] simp: assms)

lemma parse_ident_ok:
  assumes "parser_ok m literals_finite expr" and "length ts \<le> m" and "list_all good_number ts"
  shows "m_ok (Suc (length ts)) literals_finite (parse_ident expr name ts)"
proof -
  have "m_ok (Suc (length ts)) literals_finite
      (parse_then (parse_list expr '')'' (tl ts)) (\<lambda>args rest. Some (Inr (ACall name args, rest))))"
    by (rule m_ok_then [OF parse_list_ok [OF assms(1)]]) (use assms tokens_tl in auto)
  with assms(3) show ?thesis by (simp add: parse_ident_def)
qed

lemma parse_primary_ok:
  assumes "parser_ok m literals_finite expr"
  shows "parser_ok (Suc m) literals_finite (parsePrimary expr)"
  unfolding parser_ok_def
proof (intro allI impI)
  fix ts
  assume ts: "length ts \<le> Suc m" "list_all good_number ts"
  show "m_ok (length ts) literals_finite (parsePrimary expr ts)"
  proof (cases ts)
    case Nil
    then show ?thesis by (simp add: parsePrimary_def)
  next
    case (Cons t rest)
    with ts have rest: "length rest \<le> m" "list_all good_number rest" by simp_all
    show ?thesis
    proof (cases t)
      case (TNum v)
      with Cons ts show ?thesis by (simp add: parsePrimary_def good_number_def)
    next
      case (TStr s)
      with Cons rest show ?thesis by (simp add: parsePrimary_def)
    next
      case (TIdent name)
      with Cons show ?thesis using parse_ident_ok [OF assms rest] by (simp add: parsePrimary_def)
    next
      case (TPunct p)
      have "m_ok (length ts) literals_finite (parse_ref rest)"
        using rest Cons by (auto simp: parse_ref_def intro!: expectPunct_ok split: list.splits token.splits)
      moreover have "m_ok (length ts) literals_finite (parse_then (parse_list expr '']'' rest) (\<lambda>items r. Some (Inr (AArray items, r))))"
        by (rule m_ok_then [OF parse_list_ok [OF assms rest]]) (simp add: Cons)
      moreover have "m_ok (length ts) literals_finite (parse_then (expr rest) (expectPunct '')''))"
        by (rule m_ok_then [OF parser_okD [OF assms rest]]) (simp add: Cons expectPunct_ok)
      ultimately show ?thesis by (simp add: parsePrimary_def Cons TPunct)
    qed
  qed
qed

lemma parse_upto_ok: "parser_ok m literals_finite expr \<Longrightarrow> parser_ok (Suc m) literals_finite (parse_upto expr)"
  unfolding parse_upto_def parseOr_def parseAnd_def parseEquality_def parseComparison_def parseAdd_def parseMul_def
  by (intro parse_level_ok parse_unary_ok parse_primary_ok)

lemma parse_expr_ok: "parser_ok n literals_finite (parseExpr (Suc n))"
proof (induction n)
  case 0
  have "m_ok 0 literals_finite (parse_upto (parseExpr 0) [])"
    by (simp add: parse_upto_def parseOr_def parseAnd_def parseEquality_def parseComparison_def parseAdd_def parseMul_def
      parse_level_def parsePrimary_def)
  then show ?case by (simp add: parser_ok_def)
next
  case (Suc n)
  from parse_upto_ok [OF this] show ?case unfolding parser_ok_def by (simp only: parseExpr.simps)
qed

lemma tokenize_good: "tokenize s = Inr ts \<Longrightarrow> list_all good_number ts"
proof (induction s arbitrary: ts rule: tokenize.induct)
  case (2 c cs)
  have num: "list_all good_number ts'" if "scan_number (c = CHR ''.'') cs = (raw, rest)" "tokenize rest = Inr ts'"
    "\<not> formula_blank c" "isDigit c \<or> c = CHR ''.'' \<and> cs \<noteq> [] \<and> isDigit (hd cs)" "js_finite (js_number (c # raw))" for raw rest ts'
    using "2.IH"(2) [OF that(3,4) that(1) [symmetric] refl that(5,2)] .
  have point: "list_all good_number ts'" if "c = CHR ''.''" "scan_number True cs = (raw, rest)" "tokenize rest = Inr ts'"
    "\<not> formula_blank (CHR ''.'')" "cs \<noteq> []" "isDigit (hd cs)" "js_finite (js_number (CHR ''.'' # raw))" for raw rest ts'
    by (rule num [of raw rest]) (use that in simp_all)
  from "2.prems" show ?case
    by (subst (asm) tokenize.simps(2))
      (auto simp: and_then_Inr Let_def intro: "2.IH"(1,3-) num point split: if_splits prod.splits sum.splits)
qed simp

lemma parse_tokens_decides:
  assumes "list_all good_number ts"
  shows "\<exists>r. parse_tokens ts = Some r \<and> (\<forall>a. r = Inr a \<longrightarrow> literals_finite a)"
proof -
  have "m_ok (length ts) literals_finite (parseExpr (Suc (length ts)) ts)"
    by (rule parser_okD [OF parse_expr_ok order.refl assms])
  then show ?thesis
    unfolding m_ok_def parse_tokens_def by (auto split: sum.splits prod.splits list.splits)
qed

lemma parse_formula_decides: "\<exists>r. parseFormula s = Some r \<and> (\<forall>a. r = Inr a \<longrightarrow> literals_finite a)"
  using parse_tokens_decides [OF tokenize_good] by (auto simp: parseFormula_def split: sum.splits)

end
