(* ===== verification/FormulaPrint.thy ===== *)
theory FormulaPrint
  imports FormulaLaws
begin

text \<open>
  A printer of formulas that writes parentheses only where the grammar needs them, and the
  proof that the parser reads its output back: precedence and grouping are those of the grammar
  in the comment at the top of the source.
\<close>

section \<open>The printer\<close>

fun op_rank :: "binary_op \<Rightarrow> nat" where
  "op_rank OpMul = 2" | "op_rank OpDiv = 2" | "op_rank OpAdd = 3" | "op_rank OpSub = 3"
| "op_rank OpLt = 4" | "op_rank OpLe = 4" | "op_rank OpGt = 4" | "op_rank OpGe = 4"
| "op_rank OpEq = 5" | "op_rank OpNe = 5" | "op_rank OpAnd = 6" | "op_rank OpOr = 7"

fun op_text :: "binary_op \<Rightarrow> string" where
  "op_text OpMul = ''*''" | "op_text OpDiv = ''/''" | "op_text OpAdd = ''+''" | "op_text OpSub = ''-''"
| "op_text OpLt = ''<''" | "op_text OpLe = ''<=''" | "op_text OpGt = ''>''" | "op_text OpGe = ''>=''"
| "op_text OpEq = ''==''" | "op_text OpNe = ''!=''" | "op_text OpAnd = ''&&''" | "op_text OpOr = ''||''"

fun unary_text :: "unary_op \<Rightarrow> string" where
  "unary_text OpNeg = ''-''" | "unary_text OpNot = ''!''"

text \<open>The level at which a formula may stand without parentheses, from 0 (anywhere) to 7.\<close>

fun ast_rank :: "ast \<Rightarrow> nat" where
  "ast_rank (ABinary op a b) = op_rank op"
| "ast_rank (AUnary op a) = 1"
| "ast_rank _ = 0"

definition parens :: "bool \<Rightarrow> token list \<Rightarrow> token list" where
  "parens b ts = (if b then TPunct ''('' # ts @ [TPunct '')''] else ts)"

fun commas :: "token list list \<Rightarrow> token list" where
  "commas [] = []"
| "commas [ts] = ts"
| "commas (ts # tss) = ts @ TPunct '','' # commas tss"

fun print_ast :: "ast \<Rightarrow> token list" where
  "print_ast (ANum v) = [TNum v]"
| "print_ast (AStr s) = [TStr s]"
| "print_ast (ABool b) = [TIdent (if b then ''true'' else ''false'')]"
| "print_ast ANull = [TIdent ''null'']"
| "print_ast (ARef name) = [TPunct ''{'', TIdent name, TPunct ''}'']"
| "print_ast (AArray items) = TPunct ''['' # commas (map print_ast items) @ [TPunct '']'']"
| "print_ast (ACall name args) = TIdent name # TPunct ''('' # commas (map print_ast args) @ [TPunct '')'']"
| "print_ast (AUnary op a) = TPunct (unary_text op) # parens (1 < ast_rank a) (print_ast a)"
| "print_ast (ABinary op a b) = parens (op_rank op < ast_rank a) (print_ast a) @
     TPunct (op_text op) # parens (op_rank op \<le> ast_rank b) (print_ast b)"

text \<open>The names of the literals are no function names.\<close>

fun printable :: "ast \<Rightarrow> bool" where
  "printable (ACall name args) = (name \<notin> {''true'', ''false'', ''null''} \<and> list_all printable args)"
| "printable (AArray items) = list_all printable items"
| "printable (AUnary op a) = printable a"
| "printable (ABinary op a b) = (printable a \<and> printable b)"
| "printable _ = True"

section \<open>The levels of the parser by number\<close>

fun level_ops :: "nat \<Rightarrow> (string \<times> binary_op) list" where
  "level_ops 0 = [(''*'', OpMul), (''/'', OpDiv)]"
| "level_ops (Suc 0) = [(''+'', OpAdd), (''-'', OpSub)]"
| "level_ops (Suc (Suc 0)) = [(''<'', OpLt), (''<='', OpLe), (''>'', OpGt), (''>='', OpGe)]"
| "level_ops (Suc (Suc (Suc 0))) = [(''=='', OpEq), (''!='', OpNe)]"
| "level_ops (Suc (Suc (Suc (Suc 0)))) = [(''&&'', OpAnd)]"
| "level_ops (Suc (Suc (Suc (Suc (Suc n))))) = [(''||'', OpOr)]"

fun parse_at :: "nat \<Rightarrow> (token list \<Rightarrow> ast parsed) \<Rightarrow> token list \<Rightarrow> ast parsed" where
  "parse_at 0 expr = parsePrimary expr"
| "parse_at (Suc 0) expr = parseUnary (parsePrimary expr)"
| "parse_at (Suc (Suc k)) expr = parse_level (level_ops k) (parse_at (Suc k) expr)"

lemma parse_upto_at: "parse_upto expr = parse_at 7 expr"
  by (simp add: parse_upto_def parseOr_def parseAnd_def parseEquality_def parseComparison_def parseAdd_def parseMul_def
    eval_nat_numeral)

text \<open>What follows a formula at level \<open>k\<close> is no operator of a level up to \<open>k\<close>.\<close>

definition stops :: "nat \<Rightarrow> token list \<Rightarrow> bool" where
  "stops k rest \<longleftrightarrow> (\<forall>i. i + 2 \<le> k \<longrightarrow> peek_op (level_ops i) rest = None)"

lemma stops_mono: "stops k rest \<Longrightarrow> j \<le> k \<Longrightarrow> stops j rest"
  by (simp add: stops_def)

lemma level_ops_closing: "map_of (level_ops i) '')'' = None" "map_of (level_ops i) '']'' = None" "map_of (level_ops i) '','' = None"
  by (cases i rule: level_ops.cases; simp)+

lemma stops_closing: "p \<in> {'')'', '']'', '',''} \<Longrightarrow> stops k (TPunct p # rest)"
  unfolding stops_def peek_op_def using level_ops_closing by auto

lemma stops_op:
  assumes "k < op_rank op"
  shows "stops k (TPunct (op_text op) # rest)"
proof -
  have "map_of (level_ops i) (op_text op) = None" if "i + 2 < op_rank op" for i
    using that by (cases op; cases i rule: level_ops.cases; simp)
  with assms show ?thesis by (simp add: stops_def peek_op_def)
qed

lemma peek_own_op: "peek_op (level_ops (op_rank op - 2)) (TPunct (op_text op) # rest) = Some op"
  by (cases op) (simp_all add: peek_op_def eval_nat_numeral)

lemma peek_unary: "peek_op unary_ops (TPunct (unary_text op) # rest) = Some op"
  by (cases op) (simp_all add: peek_op_def unary_ops_def)

lemma op_rank_bounds: "2 \<le> op_rank op" "op_rank op \<le> 7"
  by (cases op; simp)+

text \<open>
  A level that has read \<open>a\<close> and is about to look for its operators in \<open>rest\<close>; below the
  levels with operators it is done.
\<close>

definition parses :: "nat \<Rightarrow> nat \<Rightarrow> token list \<Rightarrow> ast \<Rightarrow> token list \<Rightarrow> bool" where
  "parses k m ts a rest \<longleftrightarrow>
     (if k < 2 then parse_at k (parseExpr m) ts = Some (Inr (a, rest))
      else \<exists>f \<ge> length rest. parse_at k (parseExpr m) ts =
        parse_loop (level_ops (k - 2)) (parse_at (k - 1) (parseExpr m)) f a rest)"

lemma parses_done:
  assumes "parses k m ts a rest" and "stops k rest"
  shows "parse_at k (parseExpr m) ts = Some (Inr (a, rest))"
proof (cases "k < 2")
  case False
  then have "peek_op (level_ops (k - 2)) rest = None" using assms(2) by (simp add: stops_def)
  moreover obtain f where "parse_at k (parseExpr m) ts = parse_loop (level_ops (k - 2)) (parse_at (k - 1) (parseExpr m)) f a rest"
    using assms(1) False by (auto simp: parses_def)
  ultimately show ?thesis by (simp add: parse_loop.simps)
qed (use assms in \<open>simp add: parses_def\<close>)

lemma parses_Suc:
  assumes "parses k m (t # ts) a rest" and "stops k rest" and "k = 0 \<Longrightarrow> peek_op unary_ops (t # ts) = None"
  shows "parses (Suc k) m (t # ts) a rest"
proof (cases k)
  case 0
  with assms show ?thesis by (simp add: parses_def)
next
  case (Suc j)
  have "parse_at (Suc j) (parseExpr m) (t # ts) = Some (Inr (a, rest))" using parses_done [OF assms(1,2)] Suc by simp
  then show ?thesis by (auto simp: parses_def Suc parse_level_def)
qed

lemma parses_climb:
  assumes "parses j m (t # ts) a rest" and "j \<le> k" and "stops (k - 1) rest" and "j = 0 \<Longrightarrow> peek_op unary_ops (t # ts) = None"
  shows "parses k m (t # ts) a rest"
  using assms(2,3)
proof (induction rule: dec_induct)
  case (step n)
  show ?case
  proof (rule parses_Suc)
    show "parses n m (t # ts) a rest" by (rule step.IH) (use step.prems stops_mono in auto)
    show "stops n rest" using step by simp
    show "peek_op unary_ops (t # ts) = None" if "n = 0" using assms(4) that step by simp
  qed
qed (rule assms(1))

section \<open>Reading back\<close>

text \<open>The first token of a printed formula.\<close>

definition opens :: "ast \<Rightarrow> token list \<Rightarrow> bool" where
  "opens a ts \<longleftrightarrow> (\<exists>t rest. ts = t # rest \<and> t \<noteq> TPunct '')'' \<and> t \<noteq> TPunct '']'' \<and>
     (ast_rank a = 0 \<longrightarrow> (\<forall>r. peek_op unary_ops (t # r) = None)))"

lemma opens_print: "opens a (print_ast a)"
proof (induction a)
  case (AUnary op a)
  show ?case by (cases op) (simp_all add: opens_def)
next
  case (ABinary op a b)
  have "op_rank op \<noteq> 0" using op_rank_bounds(1) [of op] by simp
  with ABinary show ?case by (cases "op_rank op < ast_rank a") (auto simp: opens_def parens_def)
qed (auto simp: opens_def peek_op_def unary_ops_def)

text \<open>What the induction proves of a formula.\<close>

definition reads_back :: "ast \<Rightarrow> bool" where
  "reads_back a \<longleftrightarrow> (\<forall>k m rest. ast_rank a \<le> k \<longrightarrow> k \<le> 7 \<longrightarrow> length (print_ast a @ rest) \<le> m \<longrightarrow> stops (k - 1) rest \<longrightarrow>
     parses k m (print_ast a @ rest) a rest)"

lemma ast_rank_le: "ast_rank a \<le> 7"
  by (cases a) (simp_all add: op_rank_bounds)

lemma parens_parses:
  assumes a: "reads_back a" and "k \<le> 7" and "length (parens (k < ast_rank a) (print_ast a) @ rest) \<le> m" and "stops (k - 1) rest"
  shows "parses k m (parens (k < ast_rank a) (print_ast a) @ rest) a rest"
proof (cases "k < ast_rank a")
  case False
  with assms show ?thesis by (simp add: reads_back_def parens_def)
next
  case True
  let ?ts = "print_ast a @ TPunct '')'' # rest"
  obtain m' where m: "m = Suc m'" using assms(3) True by (cases m) (simp_all add: parens_def)
  have "parses 7 m' ?ts a (TPunct '')'' # rest)"
    using a assms(3) True by (simp add: reads_back_def parens_def m ast_rank_le stops_closing)
  then have "parseExpr m ?ts = Some (Inr (a, TPunct '')'' # rest))"
    by (simp only: m parseExpr.simps parse_upto_at) (rule parses_done, simp_all add: stops_closing)
  then have "parses 0 m (TPunct ''('' # ?ts) a rest"
    by (simp add: parses_def parsePrimary_def expectPunct_def peekPunct_def)
  then have "parses k m (TPunct ''('' # ?ts) a rest"
    by (rule parses_climb) (use assms(4) in \<open>simp_all add: peek_op_def unary_ops_def\<close>)
  with True show ?thesis by (simp add: parens_def)
qed

lemma parens_reads:
  assumes "reads_back a" and "k \<le> 7" and "length (parens (k < ast_rank a) (print_ast a) @ rest) \<le> m" and "stops k rest"
  shows "parse_at k (parseExpr m) (parens (k < ast_rank a) (print_ast a) @ rest) = Some (Inr (a, rest))"
  using assms by (intro parses_done parens_parses) (auto intro: stops_mono)

lemma expr_reads:
  assumes "reads_back a" and "length (print_ast a @ rest) \<le> m" and "stops 7 rest"
  shows "parseExpr (Suc m) (print_ast a @ rest) = Some (Inr (a, rest))"
  using parens_reads [of a 7 rest m] assms ast_rank_le [of a]
  by (simp add: parse_upto_at parens_def not_less [symmetric])

lemma items_read:
  assumes "items \<noteq> []" and "list_all reads_back items" and "p = '')'' \<or> p = '']''"
    and "length (commas (map print_ast items) @ TPunct p # rest) \<le> m" and "length items \<le> Suc k"
  shows "parse_items (parseExpr (Suc m)) k (commas (map print_ast items) @ TPunct p # rest) = Some (Inr (items, TPunct p # rest))"
  using assms
proof (induction items arbitrary: k rule: list_nonempty_induct)
  case (single a)
  then have "parseExpr (Suc m) (print_ast a @ TPunct p # rest) = Some (Inr (a, TPunct p # rest))"
    by (intro expr_reads) (auto simp: stops_closing)
  with single show ?case by (subst parse_items.simps) (auto simp: peekPunct_def)
next
  case (cons a items)
  let ?tail = "commas (map print_ast items) @ TPunct p # rest"
  obtain j where k: "k = Suc j" using cons.prems cons.hyps by (cases k) (auto simp: Suc_le_eq)
  obtain b bs where items: "items = b # bs" using cons.hyps by (cases items) auto
  have "parseExpr (Suc m) (print_ast a @ TPunct '','' # ?tail) = Some (Inr (a, TPunct '','' # ?tail))"
    using cons.prems by (intro expr_reads) (simp_all add: items stops_closing)
  moreover have "parse_items (parseExpr (Suc m)) j ?tail = Some (Inr (items, TPunct p # rest))"
    using cons.prems by (intro cons.IH) (simp_all add: k items)
  ultimately show ?case by (subst parse_items.simps) (simp add: items k peekPunct_def)
qed

lemma items_open:
  assumes "items \<noteq> []"
  shows "(\<exists>t ts. commas (map print_ast items) = t # ts \<and> t \<noteq> TPunct '')'' \<and> t \<noteq> TPunct '']'') \<and>
    length items \<le> length (commas (map print_ast items))"
  using assms
proof (induction items rule: list_nonempty_induct)
  case (single a)
  from opens_print [of a] show ?case by (auto simp: opens_def)
next
  case (cons a items)
  obtain b bs where "items = b # bs" using cons.hyps by (cases items) auto
  with opens_print [of a] cons.IH show ?case by (auto simp: opens_def)
qed

lemma list_reads:
  assumes "list_all reads_back items" and "p = '')'' \<or> p = '']''" and "length (commas (map print_ast items) @ TPunct p # rest) \<le> m"
  shows "parse_list (parseExpr (Suc m)) p (commas (map print_ast items) @ TPunct p # rest) = Some (Inr (items, rest))"
proof (cases "items = []")
  case True
  then show ?thesis by (simp add: parse_list_def peekPunct_def expectPunct_def)
next
  case False
  let ?ts = "commas (map print_ast items) @ TPunct p # rest"
  have "\<not> peekPunct p ?ts" using items_open [OF False] assms(2) by (auto simp: peekPunct_def split: token.splits)
  moreover have "parse_items (parseExpr (Suc m)) (length ?ts) ?ts = Some (Inr (items, TPunct p # rest))"
    using items_open [OF False] by (intro items_read False assms) simp
  ultimately show ?thesis by (simp add: parse_list_def peekPunct_def expectPunct_def)
qed

text \<open>What a primary reads, every level reads.\<close>

lemma reads_primary:
  assumes "ast_rank a = 0" and "\<And>m rest. length (print_ast a @ rest) \<le> Suc m \<Longrightarrow>
    parsePrimary (parseExpr (Suc m)) (print_ast a @ rest) = Some (Inr (a, rest))"
  shows "reads_back a"
  unfolding reads_back_def
proof (intro allI impI)
  fix k m rest
  assume m: "length (print_ast a @ rest) \<le> m" and s: "stops (k - 1) rest"
  obtain t ts where t: "print_ast a = t # ts" "\<And>r. peek_op unary_ops (t # r) = None" using opens_print [of a] assms(1) by (auto simp: opens_def)
  then obtain m' where "m = Suc m'" using m by (cases m) simp_all
  with assms(2) m have "parses 0 m (t # ts @ rest) a rest" by (simp add: parses_def t)
  then have "parses k m (t # ts @ rest) a rest" by (rule parses_climb) (simp_all add: s t(2) del: One_nat_def)
  then show "parses k m (print_ast a @ rest) a rest" by (simp add: t)
qed

lemma reads_unary:
  assumes "reads_back a"
  shows "reads_back (AUnary op a)"
  unfolding reads_back_def
proof (intro allI impI)
  fix k m rest
  let ?ts = "parens (1 < ast_rank a) (print_ast a) @ rest"
  assume k: "ast_rank (AUnary op a) \<le> k" and m: "length (print_ast (AUnary op a) @ rest) \<le> m" and s: "stops (k - 1) rest"
  have "parses 1 m ?ts a rest" by (rule parens_parses [OF assms]) (use m in \<open>simp_all add: stops_def\<close>)
  then have "parses 1 m (TPunct (unary_text op) # ?ts) (AUnary op a) rest"
    by (simp add: parses_def peek_unary)
  then have "parses k m (TPunct (unary_text op) # ?ts) (AUnary op a) rest"
    by (rule parses_climb) (use k s in simp_all)
  then show "parses k m (print_ast (AUnary op a) @ rest) (AUnary op a) rest" by simp
qed

lemma reads_binary:
  assumes "reads_back a" and "reads_back b"
  shows "reads_back (ABinary op a b)"
  unfolding reads_back_def
proof (intro allI impI)
  fix k m rest
  let ?r = "op_rank op" and ?A = "parens (op_rank op < ast_rank a) (print_ast a)" and ?B = "parens (op_rank op - 1 < ast_rank b) (print_ast b)"
  let ?tail = "TPunct (op_text op) # ?B @ rest"
  note r = op_rank_bounds [of op]
  have B: "op_rank op \<le> ast_rank b \<longleftrightarrow> op_rank op - 1 < ast_rank b" using r by arith
  assume k: "ast_rank (ABinary op a b) \<le> k" and m: "length (print_ast (ABinary op a b) @ rest) \<le> m" and s: "stops (k - 1) rest"
  have len: "length ?A + length ?B + length rest < m" using m by (simp add: B)
  have "parses ?r m (?A @ ?tail) a ?tail"
    by (rule parens_parses [OF assms(1)]) (use r len in \<open>simp_all add: stops_op\<close>)
  then obtain f where f: "length ?tail \<le> f" and loop: "parse_at ?r (parseExpr m) (?A @ ?tail) =
      parse_loop (level_ops (?r - 2)) (parse_at (?r - 1) (parseExpr m)) f a ?tail"
    using r by (auto simp: parses_def)
  then obtain f' where f': "f = Suc f'" "length rest \<le> f'" by (cases f) simp_all
  have "parse_at (?r - 1) (parseExpr m) (?B @ rest) = Some (Inr (b, rest))"
    by (rule parens_reads [OF assms(2)]) (use r len k stops_mono [OF s] in simp_all)
  then have "parse_at ?r (parseExpr m) (?A @ ?tail) =
      parse_loop (level_ops (?r - 2)) (parse_at (?r - 1) (parseExpr m)) f' (ABinary op a b) rest"
    unfolding loop f' by (subst parse_loop.simps) (simp add: peek_own_op)
  then have whole: "parses ?r m (?A @ ?tail) (ABinary op a b) rest" using r f'(2) by (auto simp: parses_def)
  obtain t ts where t: "?A @ ?tail = t # ts" using opens_print [of a] by (cases "?r < ast_rank a") (auto simp: opens_def parens_def)
  have "parses k m (?A @ ?tail) (ABinary op a b) rest"
    unfolding t by (rule parses_climb [OF whole [unfolded t]]) (use k s r in simp_all)
  then show "parses k m (print_ast (ABinary op a b) @ rest) (ABinary op a b) rest" by (simp add: B)
qed

lemma reads_all: "printable a \<Longrightarrow> reads_back a"
proof (induction a)
  case (ABool b)
  show ?case by (rule reads_primary) (simp_all add: parsePrimary_def parse_ident_def)
next
  case (ARef name)
  show ?case by (rule reads_primary) (simp_all add: parsePrimary_def parse_ref_def expectPunct_def peekPunct_def)
next
  case (AArray items)
  then have "list_all reads_back items" by (simp add: list_all_iff)
  then show ?case
    by (intro reads_primary) (simp_all add: parsePrimary_def list_reads)
next
  case (ACall name args)
  then have "list_all reads_back args" by (simp add: list_all_iff)
  with ACall.prems show ?case
    by (intro reads_primary) (simp_all add: parsePrimary_def parse_ident_def peekPunct_def list_reads)
next
  case (AUnary op a)
  then show ?case by (simp add: reads_unary)
next
  case (ABinary op a b)
  then show ?case by (simp add: reads_binary)
qed (rule reads_primary, simp_all add: parsePrimary_def parse_ident_def)+

section \<open>Property\<close>



end
