(* ===== verification/FormulaEval.thy ===== *)
theory FormulaEval
  imports FormulaPrint JsDate Schema
begin

text \<open>
  The second half of \<^verbatim>\<open>apps/api/src/modules/custom-fields/formula-evaluator.ts\<close>: the
  evaluator of formulas and the visibility rules of fields. \<open>Date.parse\<close> and the text of a date, which depend on
  the host, are parameters; a date is its time value, \<open>None\<close> when it is invalid.
\<close>

section \<open>Values\<close>

record eval_context =
  ec_vars :: "string \<Rightarrow> fval option"
  ec_now :: int
  ec_dateParse :: "string \<Rightarrow> jsnum"
  ec_dateText :: "int option \<Rightarrow> string"

definition is_null :: "fval \<Rightarrow> bool" where
  "is_null v = (case v of VNull \<Rightarrow> True | _ \<Rightarrow> False)"

definition is_string :: "fval \<Rightarrow> bool" where
  "is_string v = (case v of VStr s \<Rightarrow> True | _ \<Rightarrow> False)"

fun join_commas :: "string list \<Rightarrow> string" where
  "join_commas [] = []"
| "join_commas [s] = s"
| "join_commas (s # ss) = s @ '','' @ join_commas ss"

text \<open>\<open>String(value)\<close>; an array joins its items, a null item being empty.\<close>

fun js_string :: "(int option \<Rightarrow> string) \<Rightarrow> fval \<Rightarrow> string" where
  "js_string dateText (VNum x) = number_to_string x"
| "js_string dateText (VStr s) = s"
| "js_string dateText (VBool b) = (if b then ''true'' else ''false'')"
| "js_string dateText (VDate d) = dateText d"
| "js_string dateText VNull = ''null''"
| "js_string dateText (VArr vs) = join_commas (map (\<lambda>v. if is_null v then [] else js_string dateText v) vs)"

definition date_time :: "int option \<Rightarrow> jsnum" where
  "date_time d = (case d of None \<Rightarrow> NaN | Some t \<Rightarrow> of_int_js t)"

definition finite_or_null :: "jsnum \<Rightarrow> jsnum option" where
  "finite_or_null x = (if js_finite x then Some x else None)"

fun toNumber :: "fval \<Rightarrow> jsnum option" where
  "toNumber VNull = None"
| "toNumber (VNum x) = finite_or_null x"
| "toNumber (VBool b) = Some (Fin (if b then 1 else 0))"
| "toNumber (VStr s) = (if trim s = [] then None else finite_or_null (js_number s))"
| "toNumber (VDate d) = Some (date_time d)"
| "toNumber (VArr vs) = None"

fun fval_truthy :: "fval \<Rightarrow> bool" where
  "fval_truthy VNull = False"
| "fval_truthy (VBool b) = b"
| "fval_truthy (VNum x) = (\<not> js_eq x (Fin 0))"
| "fval_truthy (VStr s) = (s \<noteq> [])"
| "fval_truthy (VArr vs) = (vs \<noteq> [])"
| "fval_truthy (VDate d) = True"

definition numeric_eq :: "fval \<Rightarrow> fval \<Rightarrow> bool" where
  "numeric_eq a b = (case (toNumber a, toNumber b) of (Some x, Some y) \<Rightarrow> js_eq x y | _ \<Rightarrow> False)"

definition looseEq :: "fval \<Rightarrow> fval \<Rightarrow> bool" where
  "looseEq a b =
     (if is_null a \<and> is_null b then True
      else if is_null a \<or> is_null b then False
      else case (a, b) of
          (VNum x, VNum y) \<Rightarrow> js_eq x y
        | (VStr s, VStr t) \<Rightarrow> s = t
        | (VBool p, VBool q) \<Rightarrow> p = q
        | _ \<Rightarrow> numeric_eq a b)"

definition flatten :: "fval list \<Rightarrow> fval list" where
  "flatten vals = concat (map (\<lambda>v. case v of VArr vs \<Rightarrow> vs | _ \<Rightarrow> [v]) vals)"

text \<open>\<open>null\<close>, or a date that may be invalid.\<close>

fun toDate :: "(string \<Rightarrow> jsnum) \<Rightarrow> fval \<Rightarrow> int option option" where
  "toDate dateParse (VDate d) = (if d = None then None else Some d)"
| "toDate dateParse (VStr s) = (let t = dateParse s in if js_finite t then Some (time_clip t) else None)"
| "toDate dateParse (VNum x) = (if js_finite x then Some (time_clip x) else None)"
| "toDate dateParse _ = None"

section \<open>Built-in functions\<close>

definition BUILTIN_NAMES :: "string list" where
  "BUILTIN_NAMES = [''daysBetween'', ''now'', ''if'', ''sum'', ''min'', ''max'', ''avg'', ''count'', ''len'', ''abs'', ''round'',
     ''floor'', ''ceil'', ''concat'']"

definition FORBIDDEN_IDENT :: "string list" where
  "FORBIDDEN_IDENT = [''__proto__'', ''constructor'', ''prototype'', ''Function'', ''eval'', ''globalThis'']"

definition number_or_null :: "jsnum option \<Rightarrow> fval" where
  "number_or_null x = (case x of None \<Rightarrow> VNull | Some n \<Rightarrow> VNum n)"

definition numbers_in :: "fval list \<Rightarrow> jsnum list" where
  "numbers_in args = List.map_filter toNumber (flatten args)"

definition js_sum :: "jsnum list \<Rightarrow> jsnum" where
  "js_sum nums = foldl js_add (Fin 0) nums"

definition days_between :: "int option \<Rightarrow> int option \<Rightarrow> jsnum" where
  "days_between a b = js_round (js_div (js_sub (date_time b) (date_time a)) 86400000)"

definition unary_number :: "string \<Rightarrow> (jsnum \<Rightarrow> jsnum) \<Rightarrow> fval list \<Rightarrow> formula_error + fval" where
  "unary_number name f args = (case args of [v] \<Rightarrow> Inr (number_or_null (map_option f (toNumber v))) | _ \<Rightarrow> Inl (WrongArguments name))"

definition builtin_len :: "fval list \<Rightarrow> formula_error + fval" where
  "builtin_len args = (case args of
       [VNull] \<Rightarrow> Inr (VNum (Fin 0))
     | [VStr s] \<Rightarrow> Inr (VNum (Fin (of_nat (length s))))
     | [VArr vs] \<Rightarrow> Inr (VNum (Fin (of_nat (length vs))))
     | [_] \<Rightarrow> Inl LenOfOther
     | _ \<Rightarrow> Inl (WrongArguments ''len''))"

definition builtin_daysBetween :: "(string \<Rightarrow> jsnum) \<Rightarrow> fval list \<Rightarrow> formula_error + fval" where
  "builtin_daysBetween dateParse args = (case args of
       [x, y] \<Rightarrow> (case (toDate dateParse x, toDate dateParse y) of
           (Some a, Some b) \<Rightarrow> Inr (VNum (days_between a b))
         | _ \<Rightarrow> Inr VNull)
     | _ \<Rightarrow> Inl (WrongArguments ''daysBetween''))"

definition callBuiltin :: "eval_context \<Rightarrow> string \<Rightarrow> fval list \<Rightarrow> formula_error + fval" where
  "callBuiltin c name args =
     (if name = ''now'' then (if args \<noteq> [] then Inl (WrongArguments name) else Inr (VStr (toISOString (ec_now c))))
      else if name = ''daysBetween'' then builtin_daysBetween (ec_dateParse c) args
      else if name = ''if'' then
        (case args of [cond, a, b] \<Rightarrow> Inr (if fval_truthy cond then a else b) | _ \<Rightarrow> Inl (WrongArguments name))
      else if name = ''sum'' then Inr (VNum (let nums = numbers_in args in if nums = [] then Fin 0 else js_sum nums))
      else if name = ''avg'' then
        Inr (let nums = numbers_in args in if nums = [] then VNull else VNum (js_div (js_sum nums) (of_nat (length nums))))
      else if name = ''min'' then
        Inr (let nums = numbers_in args in if nums = [] then VNull else VNum (foldl js_min PosInf nums))
      else if name = ''max'' then
        Inr (let nums = numbers_in args in if nums = [] then VNull else VNum (foldl js_max NegInf nums))
      else if name = ''count'' then Inr (VNum (Fin (of_nat (length (filter (\<lambda>v. \<not> is_null v) (flatten args))))))
      else if name = ''len'' then builtin_len args
      else if name = ''abs'' then unary_number name js_abs args
      else if name = ''round'' then unary_number name js_round args
      else if name = ''floor'' then unary_number name js_floor args
      else if name = ''ceil'' then unary_number name js_ceil args
      else if name = ''concat'' then
        Inr (VStr (concat (map (\<lambda>v. if is_null v then [] else js_string (ec_dateText c) v) args)))
      else Inl (UnknownFunction name))"

section \<open>Evaluator\<close>

text \<open>An arithmetic operator on what both sides are as numbers.\<close>

definition arith :: "(jsnum \<Rightarrow> jsnum \<Rightarrow> fval) \<Rightarrow> fval \<Rightarrow> fval \<Rightarrow> fval" where
  "arith f l r = (case (toNumber l, toNumber r) of (Some a, Some b) \<Rightarrow> f a b | _ \<Rightarrow> VNull)"

text \<open>A quotient; the divisor is finite unless it comes from an invalid date.\<close>

definition js_quotient :: "jsnum \<Rightarrow> jsnum \<Rightarrow> jsnum" where
  "js_quotient x y = (case y of Fin b \<Rightarrow> js_div x b | NaN \<Rightarrow> NaN | _ \<Rightarrow> if js_finite x then Fin 0 else NaN)"

definition compare_numbers :: "(jsnum \<Rightarrow> jsnum \<Rightarrow> bool) \<Rightarrow> fval \<Rightarrow> fval \<Rightarrow> fval" where
  "compare_numbers f l r = VBool (case (toNumber l, toNumber r) of (Some a, Some b) \<Rightarrow> f a b | _ \<Rightarrow> False)"

definition text_or_empty :: "eval_context \<Rightarrow> fval \<Rightarrow> string" where
  "text_or_empty c v = (if is_null v then [] else js_string (ec_dateText c) v)"

fun eval_binary :: "eval_context \<Rightarrow> binary_op \<Rightarrow> fval \<Rightarrow> fval \<Rightarrow> fval" where
  "eval_binary c OpAdd l r =
     (if is_string l \<or> is_string r then VStr (text_or_empty c l @ text_or_empty c r)
      else arith (\<lambda>a b. VNum (js_add a b)) l r)"
| "eval_binary c OpSub l r = arith (\<lambda>a b. VNum (js_sub a b)) l r"
| "eval_binary c OpMul l r = arith (\<lambda>a b. VNum (js_mul a b)) l r"
| "eval_binary c OpDiv l r = arith (\<lambda>a b. if js_eq b (Fin 0) then VNull else VNum (js_quotient a b)) l r"
| "eval_binary c OpEq l r = VBool (looseEq l r)"
| "eval_binary c OpNe l r = VBool (\<not> looseEq l r)"
| "eval_binary c OpLt l r = compare_numbers js_less l r"
| "eval_binary c OpLe l r = compare_numbers js_le l r"
| "eval_binary c OpGt l r = compare_numbers (\<lambda>a b. js_less b a) l r"
| "eval_binary c OpGe l r = compare_numbers (\<lambda>a b. js_le b a) l r"
| "eval_binary c OpAnd l r = (if fval_truthy l then r else l)"
| "eval_binary c OpOr l r = (if fval_truthy l then l else r)"

fun all_results :: "('e + 'a) list \<Rightarrow> 'e + 'a list" where
  "all_results [] = Inr []"
| "all_results (r # rs) = and_then r (\<lambda>x. and_then (all_results rs) (\<lambda>xs. Inr (x # xs)))"

fun evalNode :: "eval_context \<Rightarrow> ast \<Rightarrow> formula_error + fval" where
  "evalNode c (ANum x) = Inr (VNum x)"
| "evalNode c (AStr s) = Inr (VStr s)"
| "evalNode c (ABool b) = Inr (VBool b)"
| "evalNode c ANull = Inr VNull"
| "evalNode c (ARef name) =
     (if name \<in> set FORBIDDEN_IDENT then Inl (ForbiddenIdentifier name)
      else Inr (case ec_vars c name of None \<Rightarrow> VNull | Some v \<Rightarrow> v))"
| "evalNode c (AArray items) = and_then (all_results (map (evalNode c) items)) (\<lambda>vs. Inr (VArr vs))"
| "evalNode c (AUnary op a) =
     and_then (evalNode c a) (\<lambda>v. Inr (case op of
         OpNeg \<Rightarrow> number_or_null (map_option js_neg (toNumber v))
       | OpNot \<Rightarrow> VBool (\<not> fval_truthy v)))"
| "evalNode c (ABinary op a b) =
     and_then (evalNode c a) (\<lambda>l.
       if op = OpAnd \<and> \<not> fval_truthy l then Inr l
       else if op = OpOr \<and> fval_truthy l then Inr l
       else and_then (evalNode c b) (\<lambda>r. Inr (eval_binary c op l r)))"
| "evalNode c (ACall name args) =
     (if name \<in> set FORBIDDEN_IDENT \<or> name \<notin> set BUILTIN_NAMES then Inl (UnknownFunction name)
      else and_then (all_results (map (evalNode c) args)) (callBuiltin c name))"

definition evaluateFormula :: "ast \<Rightarrow> eval_context \<Rightarrow> formula_error + fval" where
  "evaluateFormula ast c = evalNode c ast"

section \<open>Visibility rules\<close>

text \<open>A missing \<open>value\<close> is \<open>undefined\<close>, which no field value equals.\<close>

definition isFieldVisible :: "visibility_rule option \<Rightarrow> (string \<Rightarrow> fval option) \<Rightarrow> bool" where
  "isFieldVisible rule vars = (case rule of None \<Rightarrow> True
     | Some r \<Rightarrow>
         let actual = (case vars (vr_fieldKey r) of None \<Rightarrow> VNull | Some v \<Rightarrow> v)
         in case vr_op r of
              OpIsSet \<Rightarrow> \<not> is_null actual \<and> actual \<noteq> VStr []
            | OpEquals \<Rightarrow> (case vr_value r of None \<Rightarrow> False | Some v \<Rightarrow> looseEq actual v)
            | OpIn \<Rightarrow> (case vr_value r of Some (VArr vs) \<Rightarrow> list_ex (looseEq actual) vs | _ \<Rightarrow> False))"

end
