(* ===== verification/FormulaSafety.thy ===== *)
theory FormulaSafety
  imports FormulaEval
begin

text \<open>
  What the evaluator of formulas guarantees: it reads only the fields the formula names,
  it refuses every function outside the table, and, save for \<open>daysBetween\<close>, no arithmetic
  ends in not-a-number.
\<close>

section \<open>Clean values\<close>

text \<open>No not-a-number and no invalid date anywhere in a value.\<close>

fun clean :: "fval \<Rightarrow> bool" where
  "clean (VNum x) = (x \<noteq> NaN)"
| "clean (VDate d) = (case d of None \<Rightarrow> False | Some t \<Rightarrow> \<bar>t\<bar> \<le> 8640000000000000)"
| "clean (VArr vs) = list_all clean vs"
| "clean _ = True"

fun calls :: "string \<Rightarrow> ast \<Rightarrow> bool" where
  "calls f (ACall name args) = (name = f \<or> list_ex (calls f) args)"
| "calls f (AArray items) = list_ex (calls f) items"
| "calls f (AUnary op a) = calls f a"
| "calls f (ABinary op a b) = (calls f a \<or> calls f b)"
| "calls f _ = False"

fun refs :: "ast \<Rightarrow> string set" where
  "refs (ARef name) = {name}"
| "refs (ACall name args) = \<Union> (set (map refs args))"
| "refs (AArray items) = \<Union> (set (map refs items))"
| "refs (AUnary op a) = refs a"
| "refs (ABinary op a b) = refs a \<union> refs b"
| "refs _ = {}"

lemma finite_or_null_Some: "finite_or_null x = Some n \<Longrightarrow> \<exists>q. n = Fin q"
  by (auto simp: finite_or_null_def js_finite_def split: if_splits)

lemma date_time_finite:
  assumes "\<bar>t\<bar> \<le> 8640000000000000"
  shows "\<exists>q. date_time (Some t) = Fin q"
proof -
  have "\<bar>t\<bar> < 2 ^ 53" using assms by simp
  from to_double_of_int [OF this] show ?thesis by (simp add: date_time_def of_int_js_def)
qed

lemma clean_toNumber:
  assumes "clean v" and "toNumber v = Some n"
  shows "\<exists>q. n = Fin q"
proof (cases v)
  case (VDate d)
  with assms date_time_finite show ?thesis by (cases d) auto
next
  case (VStr s)
  with assms(2) show ?thesis by (cases "trim s = []") (auto dest: finite_or_null_Some)
next
  case (VNum x)
  with assms(2) show ?thesis by (simp add: finite_or_null_Some)
qed (use assms in auto)

lemma js_add_finite: "x \<noteq> NaN \<Longrightarrow> js_add x (Fin q) \<noteq> NaN"
  by (cases x) simp_all

lemma js_add_fold: "x \<noteq> NaN \<Longrightarrow> list_all (\<lambda>n. \<exists>q. n = Fin q) nums \<Longrightarrow> foldl js_add x nums \<noteq> NaN"
proof (induction nums arbitrary: x)
  case (Cons n nums)
  then obtain q where "n = Fin q" by auto
  with Cons js_add_finite show ?case by simp
qed simp

lemma js_sum_not_NaN: "list_all (\<lambda>n. \<exists>q. n = Fin q) nums \<Longrightarrow> js_sum nums \<noteq> NaN"
  by (simp add: js_sum_def js_add_fold)

lemma signed_inf_not_NaN: "s \<noteq> 0 \<Longrightarrow> signed_inf s \<noteq> NaN"
  by (simp add: signed_inf_def)

lemma js_div_not_NaN: "x \<noteq> NaN \<Longrightarrow> b \<noteq> 0 \<Longrightarrow> js_div x b \<noteq> NaN"
  by (cases x) (simp_all add: js_div_def signed_inf_def)

lemma js_min_fold: "x \<noteq> NaN \<Longrightarrow> list_all (\<lambda>n. \<exists>q. n = Fin q) nums \<Longrightarrow> foldl js_min x nums \<noteq> NaN"
  by (induction nums arbitrary: x) (auto simp: js_min_def)

lemma js_max_fold: "x \<noteq> NaN \<Longrightarrow> list_all (\<lambda>n. \<exists>q. n = Fin q) nums \<Longrightarrow> foldl js_max x nums \<noteq> NaN"
  by (induction nums arbitrary: x) (auto simp: js_max_def)

lemma js_neg_NaN [simp]: "js_neg x = NaN \<longleftrightarrow> x = NaN"
  by (cases x) simp_all

lemma js_int_NaN [simp]: "js_int f x = NaN \<longleftrightarrow> x = NaN"
  by (cases x) (simp_all add: js_int_def)

lemma js_abs_NaN [simp]: "js_abs x = NaN \<longleftrightarrow> x = NaN"
  by (simp add: js_abs_def)

lemma clean_flatten: "list_all clean args \<Longrightarrow> list_all clean (flatten args)"
  by (induction args) (auto simp: flatten_def split: fval.splits)

lemma numbers_finite:
  assumes "list_all clean args"
  shows "list_all (\<lambda>n. \<exists>q. n = Fin q) (numbers_in args)"
proof -
  have "list_all (\<lambda>n. \<exists>q. n = Fin q) (List.map_filter toNumber vs)" if "list_all clean vs" for vs
    using that clean_toNumber by (induction vs) (auto simp: List.map_filter_simps split: option.splits)
  then show ?thesis using clean_flatten [OF assms] by (simp add: numbers_in_def)
qed

lemma clean_number_or_null: "(\<And>n. x = Some n \<Longrightarrow> n \<noteq> NaN) \<Longrightarrow> clean (number_or_null x)"
  by (cases x) (simp_all add: number_or_null_def)

lemma clean_unary_number:
  assumes "list_all clean args" and "\<And>q. f (Fin q) \<noteq> NaN" and "unary_number name f args = Inr v"
  shows "clean v"
proof -
  obtain a where a: "args = [a]" "v = number_or_null (map_option f (toNumber a))"
    using assms(3) by (auto simp: unary_number_def split: list.splits)
  with assms(1,2) clean_toNumber show ?thesis by (auto intro!: clean_number_or_null)
qed

lemma clean_builtin_len: "builtin_len args = Inr v \<Longrightarrow> clean v"
  by (auto simp: builtin_len_def split: list.splits fval.splits)

lemma clean_callBuiltin:
  assumes "list_all clean args" and "name \<noteq> ''daysBetween''" and "callBuiltin c name args = Inr v"
  shows "clean v"
proof -
  note nums = numbers_finite [OF assms(1)]
  have avg: "js_div (js_sum (numbers_in args)) (of_nat (length (numbers_in args))) \<noteq> NaN" if "numbers_in args \<noteq> []"
    using that by (intro js_div_not_NaN js_sum_not_NaN nums) simp
  have unary: "clean v" if "unary_number name f args = Inr v" "f \<in> {js_abs, js_round, js_floor, js_ceil}" for f
    by (rule clean_unary_number [OF assms(1) _ that(1)]) (use that(2) in \<open>auto simp: js_round_def js_floor_def js_ceil_def\<close>)
  have cond: "clean v" if "(case args of [cond, a, b] \<Rightarrow> Inr (if fval_truthy cond then a else b) | _ \<Rightarrow> Inl (WrongArguments name)) = Inr v"
    using that assms(1) by (auto split: list.splits if_splits)
  from assms(3) show ?thesis
    unfolding callBuiltin_def
    using assms(2) nums avg unary cond clean_builtin_len
    by (auto simp: Let_def js_sum_not_NaN js_min_fold js_max_fold split: if_splits)
qed

lemma clean_arith: "clean l \<Longrightarrow> clean r \<Longrightarrow> (\<And>p q. clean (f (Fin p) (Fin q))) \<Longrightarrow> clean (arith f l r)"
  by (auto simp: arith_def dest: clean_toNumber split: option.splits)

lemma clean_eval_binary: "clean l \<Longrightarrow> clean r \<Longrightarrow> clean (eval_binary c op l r)"
  by (cases op) (auto simp: compare_numbers_def js_sub_def js_mul_def js_quotient_def js_eq_def js_div_not_NaN intro!: clean_arith)

lemma all_results_clean:
  "all_results rs = Inr vs \<Longrightarrow> (\<And>v. Inr v \<in> set rs \<Longrightarrow> clean v) \<Longrightarrow> list_all clean vs"
  by (induction rs arbitrary: vs) (auto simp: and_then_Inr)

lemma evalNode_clean:
  assumes "\<And>n v. ec_vars c n = Some v \<Longrightarrow> clean v"
  shows "literals_finite a \<Longrightarrow> \<not> calls ''daysBetween'' a \<Longrightarrow> evalNode c a = Inr v \<Longrightarrow> clean v"
proof (induction a arbitrary: v)
  case (ANum x)
  then show ?case by (auto simp: js_finite_def)
next
  case (ARef name)
  then show ?case using assms by (auto split: if_splits option.splits)
next
  case (AArray items)
  then obtain vs where vs: "all_results (map (evalNode c) items) = Inr vs" "v = VArr vs"
    by (auto simp: and_then_Inr)
  have "list_all clean vs"
    using vs(1) by (rule all_results_clean) (use AArray in \<open>auto simp: list_all_iff list_ex_iff\<close>)
  with vs(2) show ?case by simp
next
  case (ACall name args)
  then obtain vs where vs: "all_results (map (evalNode c) args) = Inr vs" "callBuiltin c name vs = Inr v"
    by (auto simp: and_then_Inr split: if_splits)
  have "list_all clean vs"
    using vs(1) by (rule all_results_clean) (use ACall in \<open>auto simp: list_all_iff list_ex_iff\<close>)
  with vs(2) ACall.prems show ?case by (intro clean_callBuiltin) auto
next
  case (AUnary op a)
  then obtain u where "evalNode c a = Inr u" "clean u"
    "v = (case op of OpNeg \<Rightarrow> number_or_null (map_option js_neg (toNumber u)) | OpNot \<Rightarrow> VBool (\<not> fval_truthy u))"
    by (auto simp: and_then_Inr)
  then show ?case by (cases op) (auto intro!: clean_number_or_null dest: clean_toNumber)
next
  case (ABinary op a b)
  then show ?case by (auto simp: and_then_Inr intro: clean_eval_binary split: if_splits)
qed auto

lemma all_results_cong: "(\<And>x. x \<in> set xs \<Longrightarrow> f x = g x) \<Longrightarrow> all_results (map f xs) = all_results (map g xs)"
  by (metis map_cong)

lemma evalNode_refs:
  "(\<And>n. n \<in> refs a \<Longrightarrow> ec_vars c n = vars n) \<Longrightarrow> evalNode (c\<lparr>ec_vars := vars\<rparr>) a = evalNode c a"
proof (induction a)
  case (ACall name args)
  have "callBuiltin (c\<lparr>ec_vars := vars\<rparr>) = callBuiltin c" by (intro ext) (simp add: callBuiltin_def cong: if_cong)
  moreover have "all_results (map (evalNode (c\<lparr>ec_vars := vars\<rparr>)) args) = all_results (map (evalNode c) args)"
    by (rule all_results_cong) (use ACall in auto)
  ultimately show ?case by simp
next
  case (AArray items)
  have "all_results (map (evalNode (c\<lparr>ec_vars := vars\<rparr>)) items) = all_results (map (evalNode c) items)"
    by (rule all_results_cong) (use AArray in auto)
  then show ?case by simp
next
  case (ABinary op a b)
  have "eval_binary (c\<lparr>ec_vars := vars\<rparr>) op = eval_binary c op"
    by (intro ext, cases op) (simp_all add: text_or_empty_def)
  with ABinary show ?case by (simp cong: if_cong)
qed auto

section \<open>Properties\<close>

text \<open>
  C19: the parser decides every string: it never runs out of fuel, so it returns a formula or
  an error, and it accepts nothing longer than 4096 characters and no number that is not finite.
\<close>

theorem formula_always_decided:
  "\<exists>r. parseFormula s = Some r \<and> (\<forall>a. r = Inr a \<longrightarrow> literals_finite a \<and> length s \<le> 4096)"
proof -
  obtain r where r: "parseFormula s = Some r" "\<forall>a. r = Inr a \<longrightarrow> literals_finite a"
    using parse_formula_decides by blast
  moreover have "length s \<le> 4096" if "r = Inr a" for a
    using r(1) that by (auto simp: parseFormula_def split: if_splits)
  ultimately show ?thesis by blast
qed

theorem formula_always_decided_witness:
  "\<exists>r. parseFormula ''(('' = Some r \<and> parseFormula ''(('' = Some (Inl UnexpectedEnd)"
proof -
  have "parseFormula ''(('' = Some (Inl UnexpectedEnd)" by code_simp
  with formula_always_decided [of "''((''"] show ?thesis by blast
qed

text \<open>
  C20: a computed field is never not-a-number. When a formula is accepted, does not call
  \<open>daysBetween\<close> and starts from fields without not-a-number and invalid dates, neither is in its
  result, whatever overflows on the way and whatever texts it reads as numbers.
\<close>

theorem formula_result_is_clean:
  assumes "parseFormula s = Some (Inr a)" and "\<forall>n v. ec_vars c n = Some v \<longrightarrow> clean v" and "\<not> calls ''daysBetween'' a"
    and "evaluateFormula a c = Inr v"
  shows "clean v"
proof -
  have "literals_finite a" using parse_formula_decides [of s] assms(1) by auto
  then show ?thesis using assms by (intro evalNode_clean [of c a v]) (auto simp: evaluateFormula_def)
qed

definition formula_context :: "(string \<Rightarrow> fval option) \<Rightarrow> eval_context" where
  "formula_context vars = \<lparr>ec_vars = vars, ec_now = 0, ec_dateParse = (\<lambda>s. NaN), ec_dateText = (\<lambda>d. [])\<rparr>"

text \<open>A square of a text, and the exception: a number beyond the last date.\<close>

theorem formula_result_is_clean_witness:
  "\<exists>v. evaluateFormula (ABinary OpMul (ARef ''a'') (ARef ''a'')) (formula_context [''a'' \<mapsto> VStr ''3'']) = Inr v \<and> clean v \<and>
     evaluateFormula (ACall ''daysBetween'' [ANum (Fin 0), ANum (Fin 9000000000000000)]) (formula_context Map.empty) = Inr (VNum NaN)"
proof -
  let ?c = "formula_context [''a'' \<mapsto> VStr ''3'']"
  have p: "parseFormula ''{a}*{a}'' = Some (Inr (ABinary OpMul (ARef ''a'') (ARef ''a'')))" by code_simp
  obtain v where v: "evaluateFormula (ABinary OpMul (ARef ''a'') (ARef ''a'')) ?c = Inr v"
    by (simp add: evaluateFormula_def formula_context_def FORBIDDEN_IDENT_def)
  have "clean v" by (rule formula_result_is_clean [OF p _ _ v]) (auto simp: formula_context_def split: if_splits)
  moreover have "evaluateFormula (ACall ''daysBetween'' [ANum (Fin 0), ANum (Fin 9000000000000000)]) (formula_context Map.empty) =
      Inr (VNum NaN)"
    by (simp add: evaluateFormula_def FORBIDDEN_IDENT_def BUILTIN_NAMES_def callBuiltin_def builtin_daysBetween_def
      js_finite_def time_clip_def days_between_def date_time_def js_sub_def js_div_def js_round_def js_int_def)
  ultimately show ?thesis using v by blast
qed

text \<open>
  A formula reaches no data but the fields it names in braces: with any other fields changed it
  evaluates to the same result or the same error.
\<close>

theorem formula_reads_only_references:
  assumes "\<forall>n \<in> refs a. ec_vars c n = vars n"
  shows "evaluateFormula a (c\<lparr>ec_vars := vars\<rparr>) = evaluateFormula a c"
  unfolding evaluateFormula_def by (rule evalNode_refs) (use assms in blast)

theorem formula_reads_only_references_witness:
  "evaluateFormula (ACall ''count'' [ARef ''a'']) (formula_context [''a'' \<mapsto> VNull, ''secret'' \<mapsto> VBool True]) =
   evaluateFormula (ACall ''count'' [ARef ''a'']) (formula_context [''a'' \<mapsto> VNull])"
  using formula_reads_only_references [of "ACall ''count'' [ARef ''a'']" "formula_context [''a'' \<mapsto> VNull]"
    "[''a'' \<mapsto> VNull, ''secret'' \<mapsto> VBool True]"]
  by (simp add: formula_context_def)

end
