(* ===== verification/CustomFields.thy ===== *)
theory CustomFields
  imports TaskLaws FormulaSafety
begin

text \<open>
  \<^verbatim>\<open>apps/api/src/modules/custom-fields/custom-fields.service.ts\<close>: the definitions of custom
  fields of a project, the check that formulas do not refer to each other in a circle, the
  values of a task with its computed fields, and the writing of values. The URL parser of the
  host is a parameter, as are \<open>Date.parse\<close> and the text of a date (in the context of formulas).
\<close>

section \<open>Messages of formula errors\<close>

definition hex_char :: "nat \<Rightarrow> char" where
  "hex_char n = (if n < 10 then digit_char n else char_of (n + 87))"

text \<open>\<open>JSON.stringify\<close> of a string.\<close>

definition json_char :: "char \<Rightarrow> string" where
  "json_char c = (let n = code_unit c
     in if n = 34 then [CHR 0x5C, CHR 0x22] else if n = 92 then [CHR 0x5C, CHR 0x5C]
        else if n = 8 then [CHR 0x5C, CHR ''b''] else if n = 9 then [CHR 0x5C, CHR ''t'']
        else if n = 10 then [CHR 0x5C, CHR ''n''] else if n = 12 then [CHR 0x5C, CHR ''f'']
        else if n = 13 then [CHR 0x5C, CHR ''r'']
        else if n < 32 then [CHR 0x5C, CHR ''u'', CHR ''0'', CHR ''0'', hex_char (n div 16), hex_char (n mod 16)]
        else [c])"

definition json_string :: "string \<Rightarrow> string" where
  "json_string s = CHR 0x22 # concat (map json_char s) @ [CHR 0x22]"

fun json_token :: "token \<Rightarrow> string" where
  "json_token (TNum v) = number_to_string v"
| "json_token (TStr s) = json_string s"
| "json_token (TIdent s) = json_string s"
| "json_token (TPunct s) = json_string s"

text \<open>The dash and the ellipsis of one message stand as their UTF-8 bytes.\<close>

definition em_dash :: string where
  "em_dash = [CHR 0xE2, CHR 0x80, CHR 0x94]"

definition ellipsis :: string where
  "ellipsis = [CHR 0xE2, CHR 0x80, CHR 0xA6]"

fun argument_message :: "string \<Rightarrow> string" where
  "argument_message f =
     (if f = ''now'' then ''now() takes no arguments''
      else if f = ''daysBetween'' then ''daysBetween(a, b) takes exactly 2 arguments''
      else if f = ''if'' then ''if(cond, a, b) takes exactly 3 arguments''
      else if f = ''len'' then ''len(x) takes exactly 1 argument''
      else f @ ''(x) takes 1 argument'')"

fun error_message :: "formula_error \<Rightarrow> string" where
  "error_message (InvalidNumber raw) = ''Invalid number literal: '' @ raw"
| "error_message (InvalidEscape s) = ''Invalid escape '' @ CHR 0x5C # s"
| "error_message UnterminatedString = ''Unterminated string literal''"
| "error_message (UnexpectedCharacter c) = ''Unexpected character: '' @ json_string [c]"
| "error_message (TrailingToken t) = ''Unexpected trailing token: '' @ json_token t"
| "error_message UnexpectedEnd = ''Unexpected end of expression''"
| "error_message (BareIdentifier n) = ''Bare identifier '' @ json_string n @ '' '' @ em_dash @ '' call as '' @ n @
     ''() or wrap a field reference in {'' @ ellipsis @ ''}''"
| "error_message ExpectedFieldName = ''Expected field name inside `{ }`''"
| "error_message (UnexpectedToken t) = ''Unexpected token: '' @ json_token t"
| "error_message (ExpectedPunct p t) = ''Expected '' @ json_string p @ '', got '' @
     (case t of None \<Rightarrow> ''end of input'' | Some t \<Rightarrow> json_token t)"
| "error_message FormulaEmpty = ''Formula is empty''"
| "error_message FormulaTooLong = ''Formula too long (max 4096 chars)''"
| "error_message FormulaTooComplex = ''Formula too complex (max 1024 tokens)''"
| "error_message (ForbiddenIdentifier n) = ''Forbidden identifier: '' @ n"
| "error_message (UnknownFunction n) = ''Unknown function: '' @ n"
| "error_message (WrongArguments f) = argument_message f"
| "error_message LenOfOther = ''len() only accepts strings or arrays''"

section \<open>Circles among formulas\<close>

text \<open>The references of a formula in the order in which the walk meets them first.\<close>

fun walk_refs :: "ast \<Rightarrow> string list" where
  "walk_refs (ARef name) = [name]"
| "walk_refs (AUnary op a) = walk_refs a"
| "walk_refs (ABinary op a b) = walk_refs a @ walk_refs b"
| "walk_refs (AArray items) = concat (map walk_refs items)"
| "walk_refs (ACall name args) = concat (map walk_refs args)"
| "walk_refs _ = []"

definition collectRefs :: "ast \<Rightarrow> string list" where
  "collectRefs a = rev (remdups (rev (walk_refs a)))"

definition formula_ast :: "string \<Rightarrow> ast option" where
  "formula_ast expr = (case parseFormula expr of Some (Inr a) \<Rightarrow> Some a | _ \<Rightarrow> None)"

definition live_field :: "string \<Rightarrow> custom_field_row \<Rightarrow> bool" where
  "live_field pid f \<longleftrightarrow> cf_projectId f = pid \<and> cf_archivedAt f = None"

definition row_refs :: "custom_field_row \<Rightarrow> (string \<times> string list) option" where
  "row_refs f = (if truthy (cf_formulaExpression f)
     then map_option (\<lambda>a. (cf_name f, collectRefs a)) (formula_ast (the (cf_formulaExpression f))) else None)"

text \<open>The other formulas of the project by name, with what each refers to; a later row wins.\<close>

definition refsByName :: "world \<Rightarrow> string \<Rightarrow> string option \<Rightarrow> (string \<times> string list) list" where
  "refsByName w pid selfId =
     rev (List.map_filter row_refs
       (filter (\<lambda>f. live_field pid f \<and> cf_kind f = KFormula \<and> (truthy selfId \<longrightarrow> Some (cf_id f) \<noteq> selfId)) (customFields w)))"

definition open_nodes :: "(string \<times> string list) list \<Rightarrow> string list \<Rightarrow> nat" where
  "open_nodes g visited = card (fst ` set g - set visited)"

lemma open_nodes_visit:
  assumes "map_of g node = Some next" and "node \<notin> set visited"
  shows "open_nodes g (node # visited) < open_nodes g visited"
proof -
  have "node \<in> fst ` set g" using assms(1) by (metis map_of_eq_None_iff option.distinct(1))
  with assms(2) have "fst ` set g - set (node # visited) \<subset> fst ` set g - set visited" by auto
  then show ?thesis unfolding open_nodes_def by (intro psubset_card_mono) auto
qed

lemma open_nodes_unknown: "map_of g node = None \<Longrightarrow> open_nodes g (node # visited) = open_nodes g visited"
  unfolding open_nodes_def by (rule arg_cong [of _ _ card]) (auto simp: map_of_eq_None_iff)

text \<open>The breadth-first walk: whether it meets \<open>self\<close>. It visits every node of the map once at most.\<close>

function finds_cycle :: "(string \<times> string list) list \<Rightarrow> string \<Rightarrow> string list \<Rightarrow> string list \<Rightarrow> bool" where
  "finds_cycle g self visited [] = False"
| "finds_cycle g self visited (node # queue) =
     (if node = self then True
      else if node \<in> set visited then finds_cycle g self visited queue
      else finds_cycle g self (node # visited) (queue @ (case map_of g node of None \<Rightarrow> [] | Some next \<Rightarrow> next)))"
  by pat_completeness auto

termination
proof (relation "measures [\<lambda>(g, self, visited, queue). open_nodes g visited, \<lambda>(g, self, visited, queue). length queue]")
  fix g self visited and node :: string and queue
  assume "node \<notin> set visited"
  then show "((g, self, node # visited, queue @ (case map_of g node of None \<Rightarrow> [] | Some next \<Rightarrow> next)), g, self, visited, node # queue)
      \<in> measures [\<lambda>(g, self, visited, queue). open_nodes g visited, \<lambda>(g, self, visited, queue). length queue]"
    by (cases "map_of g node") (simp_all add: open_nodes_visit open_nodes_unknown)
qed simp_all

definition quoted :: "string \<Rightarrow> string" where
  "quoted s = CHR 0x22 # s @ [CHR 0x22]"

definition assertNoFormulaCycle :: "world \<Rightarrow> string \<Rightarrow> string \<Rightarrow> string \<Rightarrow> string option \<Rightarrow> unit res" where
  "assertNoFormulaCycle w pid selfName expression selfId =
     (case formula_ast expression of
        None \<Rightarrow> Inr ()
      | Some a \<Rightarrow>
          let directRefs = collectRefs a
          in and_then (require (selfName \<notin> set directRefs) (BadRequest (''Formula cannot reference itself: '' @ quoted selfName))) (\<lambda>_.
             if directRefs = [] then Inr ()
             else require (\<not> finds_cycle (refsByName w pid selfId) selfName [] directRefs)
               (BadRequest (''Formula creates a cycle: '' @ quoted selfName @ '' -> ... -> '' @ quoted selfName))))"

section \<open>Definitions of fields\<close>

fun kind_text :: "field_kind \<Rightarrow> string" where
  "kind_text KText = ''text''" | "kind_text KNumber = ''number''" | "kind_text KSelect = ''select''"
| "kind_text KMultiselect = ''multiselect''" | "kind_text KDate = ''date''" | "kind_text KUrl = ''url''"
| "kind_text KCheckbox = ''checkbox''" | "kind_text KFormula = ''formula''" | "kind_text KRollup = ''rollup''"

text \<open>The part of a field that is validated before it is stored.\<close>

record custom_field_input =
  fi_name :: string
  fi_kind :: field_kind
  fi_options :: "field_option list option"
  fi_position :: "int option"
  fi_required :: "bool option"
  fi_formulaExpression :: "string option"
  fi_rollupConfig :: "rollup_config option"
  fi_visibilityRule :: "visibility_rule option"

definition validate_options :: "field_kind \<Rightarrow> field_option list option \<Rightarrow> unit res" where
  "validate_options kind options =
     (if kind = KSelect \<or> kind = KMultiselect
      then and_then (require (options \<noteq> None \<and> options \<noteq> Some []) (BadRequest (kind_text kind @ '' fields need at least one option''))) (\<lambda>_.
           require (list_all (\<lambda>x. fo_value x \<noteq> [] \<and> fo_label x \<noteq> []) (the options)) (BadRequest ''Each option needs value and label''))
      else Inr ())"

definition validate_formula :: "field_kind \<Rightarrow> string option \<Rightarrow> unit res" where
  "validate_formula kind expr =
     (if kind = KFormula
      then and_then (require (truthy expr \<and> trim (the expr) \<noteq> []) (BadRequest ''formula fields need a formulaExpression'')) (\<lambda>_.
           case parseFormula (the expr) of
             Some (Inl e) \<Rightarrow> Inl (BadRequest (''Invalid formula: '' @ error_message e))
           | _ \<Rightarrow> Inr ())
      else Inr ())"

definition validate_rollup :: "field_kind \<Rightarrow> rollup_config option \<Rightarrow> unit res" where
  "validate_rollup kind cfg =
     (if kind = KRollup
      then and_then (found (BadRequest ''rollup fields need a rollupConfig'') cfg) (\<lambda>cfg.
           require (ru_field cfg \<noteq> []) (BadRequest ''rollupConfig.field is required''))
      else Inr ())"

definition validate_field :: "custom_field_input \<Rightarrow> unit res" where
  "validate_field i =
     and_then (require (trim (fi_name i) \<noteq> []) (BadRequest ''Name is required'')) (\<lambda>_.
     and_then (require (length (fi_name i) \<le> 60) (BadRequest ''Name too long'')) (\<lambda>_.
     and_then (validate_options (fi_kind i) (fi_options i)) (\<lambda>_.
     and_then (validate_formula (fi_kind i) (fi_formulaExpression i)) (\<lambda>_.
     validate_rollup (fi_kind i) (fi_rollupConfig i)))))"

definition field_order :: "custom_field_row \<Rightarrow> custom_field_row \<Rightarrow> bool" where
  "field_order a b \<longleftrightarrow> cf_position a < cf_position b \<or> cf_position a = cf_position b \<and> cf_createdAt a \<le> cf_createdAt b"

definition live_fields :: "world \<Rightarrow> string \<Rightarrow> custom_field_row list" where
  "live_fields w pid = order_by field_order (filter (live_field pid) (customFields w))"

definition listFields :: "auth_user \<Rightarrow> string \<Rightarrow> world \<Rightarrow> custom_field_row list res" where
  "listFields u pid w = and_then (assertAtLeast w u pid Viewer) (\<lambda>_. Inr (live_fields w pid))"

definition field_key :: "custom_field_row \<Rightarrow> string \<times> string" where
  "field_key f = (cf_projectId f, cf_name f)"

text \<open>The circle check sees the name as it was sent; the row stores it trimmed.\<close>

definition new_field :: "env \<Rightarrow> string \<Rightarrow> custom_field_input \<Rightarrow> custom_field_row" where
  "new_field e pid i = \<lparr>cf_id = uuid e 0, cf_projectId = pid, cf_name = trim (fi_name i), cf_kind = fi_kind i,
     cf_options = override (fi_options i) [], cf_position = override (fi_position i) 0, cf_required = override (fi_required i) False,
     cf_archivedAt = None, cf_formulaExpression = fi_formulaExpression i, cf_rollupConfig = fi_rollupConfig i,
     cf_visibilityRule = fi_visibilityRule i, cf_createdAt = clk e 0\<rparr>"

definition createField :: "env \<Rightarrow> auth_user \<Rightarrow> string \<Rightarrow> custom_field_input \<Rightarrow> world \<Rightarrow> custom_field_row res \<times> world" where
  "createField e u pid i w =
     attempt (assertAtLeast w u pid Manager) w (\<lambda>_.
     attempt (validate_field i) w (\<lambda>_.
     attempt (if fi_kind i = KFormula \<and> truthy (fi_formulaExpression i)
         then assertNoFormulaCycle w pid (fi_name i) (the (fi_formulaExpression i)) None else Inr ()) w (\<lambda>_.
     attempt (require (find_project w pid \<noteq> None) (DbError P2003)) w (\<lambda>_.
     let f = new_field e pid i
     in attempt (require (field_key f \<notin> field_key ` set (customFields w))
          (BadRequest (''Field '' @ quoted (fi_name i) @ '' already exists''))) w (\<lambda>_.
        (Inr f, w\<lparr>customFields := customFields w @ [f]\<rparr>))))))"

text \<open>A patch: the outer \<open>option\<close> is whether the key is in the request, the inner one is \<open>null\<close>.\<close>

record custom_field_patch =
  fp_name :: "string option"
  fp_kind :: "field_kind option"
  fp_options :: "field_option list option"
  fp_position :: "int option"
  fp_required :: "bool option"
  fp_formulaExpression :: "string option option"
  fp_rollupConfig :: "rollup_config option option"
  fp_visibilityRule :: "visibility_rule option option"

definition not_null :: "'a option option \<Rightarrow> 'a option \<Rightarrow> 'a option" where
  "not_null new old = (case new of Some (Some x) \<Rightarrow> Some x | _ \<Rightarrow> old)"

definition merged_field :: "custom_field_patch \<Rightarrow> custom_field_row \<Rightarrow> custom_field_input" where
  "merged_field i f = \<lparr>fi_name = override (map_option trim (fp_name i)) (cf_name f), fi_kind = override (fp_kind i) (cf_kind f),
     fi_options = Some (override (fp_options i) (cf_options f)), fi_position = None,
     fi_required = Some (override (fp_required i) (cf_required f)),
     fi_formulaExpression = not_null (fp_formulaExpression i) (cf_formulaExpression f),
     fi_rollupConfig = not_null (fp_rollupConfig i) (cf_rollupConfig f),
     fi_visibilityRule = not_null (fp_visibilityRule i) (cf_visibilityRule f)\<rparr>"

definition patch_field :: "custom_field_patch \<Rightarrow> custom_field_row \<Rightarrow> custom_field_row" where
  "patch_field i f = f\<lparr>cf_name := override (map_option trim (fp_name i)) (cf_name f),
     cf_options := override (fp_options i) (cf_options f), cf_position := override (fp_position i) (cf_position f),
     cf_required := override (fp_required i) (cf_required f), cf_kind := override (fp_kind i) (cf_kind f),
     cf_formulaExpression := override (fp_formulaExpression i) (cf_formulaExpression f),
     cf_rollupConfig := override (fp_rollupConfig i) (cf_rollupConfig f),
     cf_visibilityRule := override (fp_visibilityRule i) (cf_visibilityRule f)\<rparr>"

definition find_field :: "world \<Rightarrow> string \<Rightarrow> custom_field_row option" where
  "find_field w fid = find_row cf_id fid (customFields w)"

definition updateField :: "auth_user \<Rightarrow> string \<Rightarrow> custom_field_patch \<Rightarrow> world \<Rightarrow> custom_field_row res \<times> world" where
  "updateField u fid i w =
     attempt (found (NotFound ''Custom field not found'') (find_field w fid)) w (\<lambda>f.
     attempt (assertAtLeast w u (cf_projectId f) Manager) w (\<lambda>_.
     let merged = merged_field i f
     in attempt (validate_field merged) w (\<lambda>_.
        attempt (if fi_kind merged = KFormula \<and> truthy (fi_formulaExpression merged)
            then assertNoFormulaCycle w (cf_projectId f) (fi_name merged) (the (fi_formulaExpression merged)) (Some fid) else Inr ()) w (\<lambda>_.
        attempt (unique_rows field_key (update_where (\<lambda>f. cf_id f = fid) (patch_field i) (customFields w))) w (\<lambda>rows.
        (Inr (patch_field i f), w\<lparr>customFields := rows\<rparr>))))))"

definition removeField :: "env \<Rightarrow> auth_user \<Rightarrow> string \<Rightarrow> world \<Rightarrow> unit res \<times> world" where
  "removeField e u fid w =
     attempt (found (NotFound ''Custom field not found'') (find_field w fid)) w (\<lambda>f.
     attempt (assertAtLeast w u (cf_projectId f) Manager) w (\<lambda>_.
     (Inr (), w\<lparr>customFields := update_where (\<lambda>f. cf_id f = fid) (\<lambda>f. f\<lparr>cf_archivedAt := Some (clk e 0)\<rparr>) (customFields w)\<rparr>)))"

section \<open>Computed values\<close>

type_synonym field_vars = "string \<Rightarrow> fval option"

definition validateFormula :: "string \<Rightarrow> formula_error option" where
  "validateFormula expression = (case parseFormula expression of Some (Inl e) \<Rightarrow> Some e | _ \<Rightarrow> None)"

definition stored_value :: "world \<Rightarrow> string \<Rightarrow> string \<Rightarrow> custom_value_row option" where
  "stored_value w tid fid = find_row cv_fieldId fid (rev (filter (\<lambda>v. cv_taskId v = tid) (customValues w)))"

definition stored_vars :: "world \<Rightarrow> string \<Rightarrow> custom_field_row list \<Rightarrow> field_vars" where
  "stored_vars w tid defs = fold (\<lambda>d vars. vars(cf_name d \<mapsto>
     (case stored_value w tid (cf_id d) of None \<Rightarrow> VNull | Some v \<Rightarrow> cv_value v))) defs Map.empty"

definition computeFormula :: "eval_context \<Rightarrow> custom_field_row \<Rightarrow> field_vars \<Rightarrow> fval" where
  "computeFormula c f vars =
     (if \<not> truthy (cf_formulaExpression f) then VNull
      else case parseFormula (the (cf_formulaExpression f)) of
          Some (Inr a) \<Rightarrow>
            (case evaluateFormula a (c\<lparr>ec_vars := vars\<rparr>) of
               Inr v \<Rightarrow> v | Inl e \<Rightarrow> VStr (''#ERR: '' @ error_message e))
        | Some (Inl e) \<Rightarrow> VStr (''#ERR: '' @ error_message e)
        | None \<Rightarrow> VStr ''#ERR: formula error'')"

definition aggregate :: "jsnum list \<Rightarrow> rollup_agg \<Rightarrow> fval" where
  "aggregate nums agg =
     (if agg = AggCount then VNum (Fin (of_nat (length nums)))
      else if nums = [] then (if agg = AggSum then VNum (Fin 0) else VNull)
      else VNum (case agg of
          AggSum \<Rightarrow> js_sum nums
        | AggAvg \<Rightarrow> js_div (js_sum nums) (of_nat (length nums))
        | AggMin \<Rightarrow> foldl js_min PosInf nums
        | _ \<Rightarrow> foldl js_max NegInf nums))"

definition estimates :: "task_row list \<Rightarrow> jsnum list" where
  "estimates ts = map of_int_js (List.map_filter t_estimate ts)"

definition TASK_NUMERIC_COLUMNS :: "string list" where
  "TASK_NUMERIC_COLUMNS = [''estimate'', ''storyPoints'']"

definition numeric_values :: "world \<Rightarrow> string \<Rightarrow> string list \<Rightarrow> jsnum list" where
  "numeric_values w fid tids = List.map_filter (\<lambda>v. case cv_value v of VNum x \<Rightarrow> Some x | _ \<Rightarrow> None)
     (filter (\<lambda>v. cv_fieldId v = fid \<and> cv_taskId v \<in> set tids) (customValues w))"

text \<open>The aggregation over the related tasks once the estimates are dealt with.\<close>

definition rollup_field :: "world \<Rightarrow> string \<Rightarrow> rollup_config \<Rightarrow> string list \<Rightarrow> fval" where
  "rollup_field w pid cfg tids =
     (if tids = [] then aggregate [] (ru_agg cfg)
      else if ru_field cfg \<notin> set TASK_NUMERIC_COLUMNS then
        (case List.find (\<lambda>f. live_field pid f \<and> cf_name f = ru_field cfg) (customFields w) of
           None \<Rightarrow> VNull
         | Some targetDef \<Rightarrow> aggregate (numeric_values w (cf_id targetDef) tids) (ru_agg cfg))
      else aggregate [] (ru_agg cfg))"

definition related_tasks :: "world \<Rightarrow> string \<Rightarrow> string list" where
  "related_tasks w tid = map (\<lambda>l. if l_fromTaskId l = tid then l_toTaskId l else l_fromTaskId l)
     (filter (\<lambda>l. l_fromTaskId l = tid \<or> l_toTaskId l = tid) (links w))"

definition computeRollup :: "world \<Rightarrow> custom_field_row \<Rightarrow> string \<Rightarrow> string \<Rightarrow> fval" where
  "computeRollup w f tid pid = (case cf_rollupConfig f of
       None \<Rightarrow> VNull
     | Some cfg \<Rightarrow>
         if ru_field cfg = [] then VNull
         else case ru_relation cfg of
             RelSubtasks \<Rightarrow>
               let subs = filter (\<lambda>t. t_parentTaskId t = Some tid) (tasks w)
               in if ru_field cfg = ''estimate'' \<and> ru_agg cfg \<noteq> AggCount then aggregate (estimates subs) (ru_agg cfg)
                  else if ru_agg cfg = AggCount then VNum (Fin (of_nat (length subs)))
                  else rollup_field w pid cfg (map t_id subs)
           | RelLinkedTasks \<Rightarrow>
               let related = related_tasks w tid
               in if ru_agg cfg = AggCount then VNum (Fin (of_nat (length related)))
                  else if ru_field cfg = ''estimate''
                       then aggregate (estimates (filter (\<lambda>t. t_id t \<in> set related) (tasks w))) (ru_agg cfg)
                  else rollup_field w pid cfg related)"

definition compute_def :: "eval_context \<Rightarrow> world \<Rightarrow> string \<Rightarrow> string \<Rightarrow> custom_field_row \<Rightarrow> field_vars \<Rightarrow> field_vars" where
  "compute_def c w tid pid d vars =
     (if cf_kind d = KFormula then vars(cf_name d \<mapsto> computeFormula c d vars)
      else if cf_kind d = KRollup then vars(cf_name d \<mapsto> computeRollup w d tid pid)
      else vars)"

text \<open>Two passes over the definitions, in their order.\<close>

definition computed_vars :: "eval_context \<Rightarrow> world \<Rightarrow> string \<Rightarrow> string \<Rightarrow> field_vars" where
  "computed_vars c w tid pid =
     (let defs = live_fields w pid; pass = fold (compute_def c w tid pid) defs
      in pass (pass (stored_vars w tid defs)))"

record value_row =
  vw_id :: string
  vw_fieldId :: string
  vw_value :: fval
  vw_field :: custom_field_row
  vw_computed :: bool

definition value_row_of :: "world \<Rightarrow> string \<Rightarrow> field_vars \<Rightarrow> custom_field_row \<Rightarrow> value_row option" where
  "value_row_of w tid vars d =
     (if \<not> isFieldVisible (cf_visibilityRule d) vars then None
      else if cf_kind d = KFormula \<or> cf_kind d = KRollup
      then Some \<lparr>vw_id = cf_id d @ ''::computed::'' @ tid, vw_fieldId = cf_id d,
             vw_value = (case vars (cf_name d) of None \<Rightarrow> VNull | Some v \<Rightarrow> v), vw_field = d, vw_computed = True\<rparr>
      else map_option (\<lambda>v. \<lparr>vw_id = cv_id v, vw_fieldId = cv_fieldId v, vw_value = cv_value v, vw_field = d, vw_computed = False\<rparr>)
             (stored_value w tid (cf_id d)))"

definition getValuesForTask :: "eval_context \<Rightarrow> string \<Rightarrow> string \<Rightarrow> world \<Rightarrow> value_row list" where
  "getValuesForTask c tid pid w = List.map_filter (value_row_of w tid (computed_vars c w tid pid)) (live_fields w pid)"

definition listValuesForTask :: "eval_context \<Rightarrow> auth_user \<Rightarrow> string \<Rightarrow> world \<Rightarrow> value_row list res" where
  "listValuesForTask c u tid w =
     and_then (found (NotFound ''Task not found'') (find_task w tid)) (\<lambda>task.
     and_then (canSeeTask w u (t_projectId task) (t_visibility task)) (\<lambda>canSee.
     and_then (require canSee (NotFound ''Task not found'')) (\<lambda>_.
     Inr (getValuesForTask c tid (t_projectId task) w))))"

text \<open>What the test of an expression answers.\<close>

datatype formula_check =
    CheckEmpty
  | CheckSyntax formula_error
  | CheckCycle api_error
  | CheckFailed formula_error string
  | CheckNoTask
  | CheckValue fval string

definition newest_task :: "world \<Rightarrow> string \<Rightarrow> task_row option" where
  "newest_task w pid = greatest_by (\<lambda>a b. t_createdAt a \<le> t_createdAt b) (filter (\<lambda>t. t_projectId t = pid) (tasks w))"

definition check_expression :: "eval_context \<Rightarrow> world \<Rightarrow> custom_field_row \<Rightarrow> string \<Rightarrow> ast \<Rightarrow> formula_check" where
  "check_expression c w f expr a =
     (case assertNoFormulaCycle w (cf_projectId f) (cf_name f) expr (Some (cf_id f)) of
        Inl e \<Rightarrow> CheckCycle e
      | Inr _ \<Rightarrow>
          (case newest_task w (cf_projectId f) of
             None \<Rightarrow> CheckNoTask
           | Some t \<Rightarrow>
               let vars = stored_vars w (t_id t) (filter (live_field (cf_projectId f)) (customFields w))
               in case evaluateFormula a (c\<lparr>ec_vars := vars\<rparr>) of
                    Inr v \<Rightarrow> CheckValue v (t_id t)
                  | Inl e \<Rightarrow> CheckFailed e (t_id t)))"

definition validateFormulaAgainstField :: "eval_context \<Rightarrow> auth_user \<Rightarrow> string \<Rightarrow> string option \<Rightarrow> world \<Rightarrow> formula_check res" where
  "validateFormulaAgainstField c u fid expression w =
     and_then (found (NotFound ''Custom field not found'') (find_field w fid)) (\<lambda>f.
     and_then (assertAtLeast w u (cf_projectId f) Manager) (\<lambda>_.
     let expr = trim (override expression (override (cf_formulaExpression f) []))
     in Inr (if expr = [] then CheckEmpty
        else case parseFormula expr of
            Some (Inl e) \<Rightarrow> CheckSyntax e
          | Some (Inr a) \<Rightarrow> check_expression c w f expr a
          | None \<Rightarrow> CheckSyntax FormulaTooComplex)))"

text \<open>Whoever watches a task is told to read its computed fields again when the task changes.\<close>

definition onTaskUpdated :: "string option \<Rightarrow> world \<Rightarrow> world" where
  "onTaskUpdated tid w = (if truthy tid then emit (CustomFieldsRecomputed (the tid)) w else w)"

section \<open>Stored values\<close>

text \<open>A missing option list cannot occur: the column is never null.\<close>

definition in_options :: "field_option list \<Rightarrow> string \<Rightarrow> bool" where
  "in_options options s \<longleftrightarrow> list_ex (\<lambda>x. fo_value x = s) options"

fun check_items :: "field_option list \<Rightarrow> fval list \<Rightarrow> unit res" where
  "check_items options [] = Inr ()"
| "check_items options (v # vs) = (case v of
       VStr s \<Rightarrow> and_then (require (in_options options s) (BadRequest (''Value '' @ quoted s @ '' not in options''))) (\<lambda>_.
         check_items options vs)
     | _ \<Rightarrow> Inl (BadRequest ''multiselect items must be strings''))"

definition validateValue :: "(string \<Rightarrow> bool) \<Rightarrow> (string \<Rightarrow> jsnum) \<Rightarrow> field_kind \<Rightarrow> fval \<Rightarrow> field_option list \<Rightarrow> unit res" where
  "validateValue validUrl dateParse kind value options =
     (case kind of
        KText \<Rightarrow> require (is_null value \<or> is_string value) (BadRequest ''text value must be a string'')
      | KUrl \<Rightarrow> (case value of
            VNull \<Rightarrow> Inr ()
          | VStr s \<Rightarrow> require (s \<noteq> [] \<longrightarrow> validUrl s) (BadRequest ''Invalid URL'')
          | _ \<Rightarrow> Inl (BadRequest ''url value must be a string''))
      | KNumber \<Rightarrow> (case value of
            VNull \<Rightarrow> Inr () | VNum x \<Rightarrow> Inr () | _ \<Rightarrow> Inl (BadRequest ''number value must be a number''))
      | KDate \<Rightarrow> (case value of
            VNull \<Rightarrow> Inr ()
          | VStr s \<Rightarrow> require (dateParse s \<noteq> NaN) (BadRequest ''date value must be an ISO date string'')
          | _ \<Rightarrow> Inl (BadRequest ''date value must be an ISO date string''))
      | KCheckbox \<Rightarrow> (case value of
            VNull \<Rightarrow> Inr () | VBool b \<Rightarrow> Inr () | _ \<Rightarrow> Inl (BadRequest ''checkbox value must be a boolean''))
      | KSelect \<Rightarrow> (case value of
            VNull \<Rightarrow> Inr ()
          | VStr s \<Rightarrow> require (in_options options s) (BadRequest (''Value '' @ quoted s @ '' not in options''))
          | _ \<Rightarrow> Inl (BadRequest ''select value must be a string''))
      | KMultiselect \<Rightarrow> (case value of
            VNull \<Rightarrow> Inr ()
          | VArr vs \<Rightarrow> check_items options vs
          | _ \<Rightarrow> Inl (BadRequest ''multiselect value must be an array''))
      | KFormula \<Rightarrow> Inl (BadRequest ''formula values are computed, not stored'')
      | KRollup \<Rightarrow> Inl (BadRequest ''rollup values are computed, not stored''))"

definition value_key :: "custom_value_row \<Rightarrow> string \<times> string" where
  "value_key v = (cv_taskId v, cv_fieldId v)"

definition upsert_value :: "env \<Rightarrow> string \<Rightarrow> string \<Rightarrow> fval \<Rightarrow> world \<Rightarrow> custom_value_row \<times> world" where
  "upsert_value e tid fid value w = (case find_row value_key (tid, fid) (customValues w) of
       Some v \<Rightarrow> (v\<lparr>cv_value := value\<rparr>,
         w\<lparr>customValues := update_where (\<lambda>v. value_key v = (tid, fid)) (\<lambda>v. v\<lparr>cv_value := value\<rparr>) (customValues w)\<rparr>)
     | None \<Rightarrow> (let v = \<lparr>cv_id = uuid e 0, cv_taskId = tid, cv_fieldId = fid, cv_value = value\<rparr>
         in (v, w\<lparr>customValues := customValues w @ [v]\<rparr>)))"

text \<open>The client of the database refuses a bare \<open>null\<close> in a JSON column that is required.\<close>

definition setValue :: "(string \<Rightarrow> bool) \<Rightarrow> (string \<Rightarrow> jsnum) \<Rightarrow> env \<Rightarrow> auth_user \<Rightarrow> string \<Rightarrow> string \<Rightarrow> fval \<Rightarrow> world \<Rightarrow>
    custom_value_row res \<times> world" where
  "setValue validUrl dateParse e u tid fid value w =
     attempt (found (NotFound ''Task not found'') (find_task w tid)) w (\<lambda>task.
     attempt (found (NotFound ''Custom field not found'') (find_field w fid)) w (\<lambda>field.
     attempt (require (cf_projectId field = t_projectId task) (BadRequest ''Field belongs to a different project'')) w (\<lambda>_.
     attempt (require (cf_kind field \<noteq> KFormula \<and> cf_kind field \<noteq> KRollup)
       (BadRequest (kind_text (cf_kind field) @ '' fields are computed read-only; values cannot be set directly''))) w (\<lambda>_.
     attempt (assertAtLeast w u (t_projectId task) Contributor) w (\<lambda>_.
     attempt (validateValue validUrl dateParse (cf_kind field) value (cf_options field)) w (\<lambda>_.
     attempt (require (\<not> is_null value) (LibraryError ''Argument `value` must not be null'')) w (\<lambda>_.
     let (v, w') = upsert_value e tid fid value w in (Inr v, w'))))))))"

definition clearValue :: "auth_user \<Rightarrow> string \<Rightarrow> string \<Rightarrow> world \<Rightarrow> unit res \<times> world" where
  "clearValue u tid fid w =
     attempt (found (NotFound ''Task not found'') (find_task w tid)) w (\<lambda>task.
     attempt (assertAtLeast w u (t_projectId task) Contributor) w (\<lambda>_.
     (Inr (), w\<lparr>customValues := delete_where (\<lambda>v. value_key v = (tid, fid)) (customValues w)\<rparr>)))"

end
