(* ===== verification/CustomFieldLaws.thy ===== *)
theory CustomFieldLaws
  imports CustomFields
begin

text \<open>
  Laws of custom fields: the walk over formulas finds a circle exactly when there is one, so that no
  sequence of edits makes the formulas of a project refer to each other in a circle, and
  what is shown of a task's fields.
\<close>

section \<open>The walk over the formulas\<close>

definition edges :: "(string \<times> string list) list \<Rightarrow> (string \<times> string) set" where
  "edges g = {(a, b). \<exists>rs. map_of g a = Some rs \<and> b \<in> set rs}"

lemma edges_Image: "set (case map_of g n of None \<Rightarrow> [] | Some rs \<Rightarrow> rs) = edges g `` {n}"
  by (cases "map_of g n") (auto simp: edges_def)

lemma finds_cycle_sound: "finds_cycle g self visited queue \<Longrightarrow> \<exists>n \<in> set queue. (n, self) \<in> (edges g)\<^sup>*"
proof (induction g self visited queue rule: finds_cycle.induct)
  case (2 g self visited node queue)
  let ?next = "case map_of g node of None \<Rightarrow> [] | Some rs \<Rightarrow> rs"
  show ?case
  proof (cases "node = self \<or> node \<in> set visited")
    case True
    with 2 show ?thesis by (cases "node = self") auto
  next
    case False
    with 2 obtain m where m: "m \<in> set (queue @ ?next)" "(m, self) \<in> (edges g)\<^sup>*" by auto
    then have "m \<in> set queue \<or> m \<in> edges g `` {node}" by (simp only: set_append Un_iff edges_Image)
    with m(2) show ?thesis by (auto intro: converse_rtrancl_into_rtrancl)
  qed
qed simp

lemma finds_cycle_complete:
  "\<not> finds_cycle g self visited queue \<Longrightarrow> self \<notin> set visited \<Longrightarrow> edges g `` set visited \<subseteq> set visited \<union> set queue \<Longrightarrow>
    \<exists>V. set visited \<union> set queue \<subseteq> V \<and> self \<notin> V \<and> edges g `` V \<subseteq> V"
proof (induction g self visited queue rule: finds_cycle.induct)
  case (1 g self visited)
  then show ?case by auto
next
  case (2 g self visited node queue)
  let ?next = "case map_of g node of None \<Rightarrow> [] | Some rs \<Rightarrow> rs"
  from "2.prems"(1) have n: "node \<noteq> self" by auto
  show ?case
  proof (cases "node \<in> set visited")
    case True
    with 2 n show ?thesis by (simp add: insert_absorb)
  next
    case False
    have next_set: "set ?next = edges g `` {node}" by (rule edges_Image)
    have "edges g `` set (node # visited) \<subseteq> set (node # visited) \<union> set (queue @ ?next)"
      unfolding set_append next_set using "2.prems"(3) by auto
    moreover have "\<not> finds_cycle g self (node # visited) (queue @ ?next)" using "2.prems"(1) n False by simp
    moreover have "self \<notin> set (node # visited)" using "2.prems"(2) n by simp
    ultimately obtain V where "set (node # visited) \<union> set (queue @ ?next) \<subseteq> V \<and> self \<notin> V \<and> edges g `` V \<subseteq> V"
      using "2.IH"(2) [OF n False] by blast
    then show ?thesis by (intro exI [of _ V]) auto
  qed
qed

lemma finds_cycle_iff: "finds_cycle g self [] queue \<longleftrightarrow> (\<exists>n \<in> set queue. (n, self) \<in> (edges g)\<^sup>*)"
proof
  assume r: "\<exists>n \<in> set queue. (n, self) \<in> (edges g)\<^sup>*"
  show "finds_cycle g self [] queue"
  proof (rule ccontr)
    assume "\<not> finds_cycle g self [] queue"
    then obtain V where V: "set queue \<subseteq> V" "self \<notin> V" "edges g `` V \<subseteq> V" 
      using finds_cycle_complete [of g self "[]" queue] by auto
    from r obtain n where n: "n \<in> set queue" "(n, self) \<in> (edges g)\<^sup>*" by blast
    have "x \<in> V" if "(n, x) \<in> (edges g)\<^sup>*" for x
      using that by (induction rule: rtrancl_induct) (use V(1,3) n(1) in auto)
    with n(2) V(2) show False by blast
  qed
qed (rule finds_cycle_sound)

section \<open>The graph of the formulas of a project\<close>

definition formula_edges :: "custom_field_row list \<Rightarrow> string \<Rightarrow> (string \<times> string) set" where
  "formula_edges fs pid = {(a, b). \<exists>f \<in> set fs. live_field pid f \<and> cf_kind f = KFormula \<and> (\<exists>rs. row_refs f = Some (a, rs) \<and> b \<in> set rs)}"

lemma set_map_filter: "set (List.map_filter f xs) = {y. \<exists>x \<in> set xs. f x = Some y}"
  by (induction xs) (auto simp: List.map_filter_simps split: option.splits)

lemma row_refs_name: "row_refs f = Some (a, rs) \<Longrightarrow> a = cf_name f"
  by (auto simp: row_refs_def split: if_splits)

lemma distinct_row_refs: "distinct (map cf_name fs) \<Longrightarrow> distinct (map fst (List.map_filter row_refs fs))"
proof (induction fs)
  case (Cons f fs)
  have "fst ` set (List.map_filter row_refs fs) \<subseteq> cf_name ` set fs" by (auto simp: set_map_filter dest: row_refs_name)
  with Cons have "cf_name f \<notin> fst ` set (List.map_filter row_refs fs)" by auto
  with Cons row_refs_name show ?case
    by (cases "row_refs f") (auto simp: List.map_filter_simps rev_image_eqI)
qed (simp add: List.map_filter_simps)

lemma edges_refsByName:
  assumes "distinct (map field_key (customFields w))"
  shows "edges (refsByName w pid selfId) =
    formula_edges (filter (\<lambda>f. truthy selfId \<longrightarrow> Some (cf_id f) \<noteq> selfId) (customFields w)) pid"
proof -
  let ?fs = "filter (\<lambda>f. live_field pid f \<and> cf_kind f = KFormula \<and> (truthy selfId \<longrightarrow> Some (cf_id f) \<noteq> selfId)) (customFields w)"
  have "distinct (map field_key ?fs)" using assms by (rule distinct_map_filter)
  then have "distinct (map cf_name ?fs)" by (auto simp: distinct_map inj_on_def field_key_def live_field_def)
  then have d: "distinct (map fst (refsByName w pid selfId))"
    using distinct_row_refs by (simp add: refsByName_def rev_map [symmetric])
  have "map_of (refsByName w pid selfId) a = Some rs \<longleftrightarrow> (\<exists>f \<in> set ?fs. row_refs f = Some (a, rs))" for a rs
    unfolding map_of_eq_Some_iff [OF d] by (simp add: refsByName_def set_map_filter)
  then show ?thesis by (auto simp: edges_def formula_edges_def)
qed

text \<open>New edges out of one node that the old graph does not lead back to.\<close>

lemma acyclic_node:
  assumes "acyclic G" and "\<And>r. r \<in> R \<Longrightarrow> (r, self) \<notin> G\<^sup>*"
  shows "acyclic (G \<union> {self} \<times> R)"
proof -
  let ?G = "G \<union> {self} \<times> R"
  have returns: "(x, self) \<in> G\<^sup>*" if "(x, self) \<in> ?G\<^sup>*" for x
    using that by (induction rule: converse_rtrancl_induct) (auto intro: converse_rtrancl_into_rtrancl)
  have noself: "(self, self) \<notin> ?G\<^sup>+"
  proof
    assume "(self, self) \<in> ?G\<^sup>+"
    then obtain y where y: "(self, y) \<in> ?G" "(y, self) \<in> ?G\<^sup>*" by (meson tranclD)
    from returns [OF y(2)] y(1) assms show False by (auto simp: acyclic_def dest: rtrancl_into_trancl2)
  qed
  have split: "(x, y) \<in> G\<^sup>+ \<or> (x, self) \<in> ?G\<^sup>* \<and> (self, y) \<in> ?G\<^sup>+" if "(x, y) \<in> ?G\<^sup>+" for x y
    using that
  proof (induction rule: trancl_induct)
    case (base y)
    then show ?case by auto
  next
    case (step y z)
    show ?case
    proof (cases "(y, z) \<in> G")
      case True
      with step.IH step.hyps(2) show ?thesis by (auto intro: trancl_into_trancl)
    next
      case False
      with step.hyps have "y = self" "(x, self) \<in> ?G\<^sup>+" "(self, z) \<in> ?G" by auto
      then show ?thesis by (blast intro: trancl_into_rtrancl)
    qed
  qed
  show ?thesis
    unfolding acyclic_def
  proof (intro allI notI)
    fix x
    assume "(x, x) \<in> ?G\<^sup>+"
    from split [OF this] assms(1) have "(x, self) \<in> ?G\<^sup>*" "(self, x) \<in> ?G\<^sup>+" by (auto simp: acyclic_def)
    then have "(self, self) \<in> ?G\<^sup>+" by (rule trancl_rtrancl_trancl [rotated])
    with noself show False ..
  qed
qed

lemma set_collectRefs [simp]: "set (collectRefs a) = set (walk_refs a)"
  by (simp add: collectRefs_def)

lemma walk_refs_set: "set (walk_refs a) = refs a"
  by (induction a) auto

text \<open>What the check of a formula promises.\<close>

lemma no_cycle_check:
  assumes "distinct (map field_key (customFields w))" and "formula_ast expr = Some a"
  shows "assertNoFormulaCycle w pid name expr selfId = Inr () \<longleftrightarrow> (\<forall>r \<in> refs a.
    (r, name) \<notin> (formula_edges (filter (\<lambda>f. truthy selfId \<longrightarrow> Some (cf_id f) \<noteq> selfId) (customFields w)) pid)\<^sup>*)"
proof -
  have "collectRefs a = [] \<longleftrightarrow> refs a = {}" by (metis set_collectRefs walk_refs_set set_empty)
  then show ?thesis
    using assms(2) edges_refsByName [OF assms(1), of pid selfId]
    by (auto simp: assertNoFormulaCycle_def Let_def and_then_Inr finds_cycle_iff walk_refs_set)
qed

section \<open>Every operation keeps the invariant\<close>

text \<open>
  Identifiers and names (per project) are unique, no formulas of a project refer to each other
  in a circle, and there is one value at most for a task and a field.
\<close>

definition fields_ok :: "custom_field_row list \<Rightarrow> bool" where
  "fields_ok fs \<longleftrightarrow> distinct (map cf_id fs) \<and> [] \<notin> cf_id ` set fs \<and> distinct (map field_key fs) \<and> (\<forall>pid. acyclic (formula_edges fs pid))"

definition values_ok :: "custom_field_row list \<Rightarrow> custom_value_row list \<Rightarrow> bool" where
  "values_ok fs vs \<longleftrightarrow> distinct (map value_key vs) \<and> cv_fieldId ` set vs \<subseteq> cf_id ` set fs"

definition custom_inv :: "world \<Rightarrow> bool" where
  "custom_inv w \<longleftrightarrow> fields_ok (customFields w) \<and> values_ok (customFields w) (customValues w)"

lemmas custom_steps = attempt_inv [where P = custom_inv]

lemma formula_edges_append: "formula_edges (fs @ gs) pid = formula_edges fs pid \<union> formula_edges gs pid"
  by (auto simp: formula_edges_def)

lemma formula_edges_single:
  "formula_edges [f] pid \<subseteq> {cf_name f} \<times> {r. live_field pid f \<and> cf_kind f = KFormula \<and> (\<exists>rs. row_refs f = Some (cf_name f, rs) \<and> r \<in> set rs)}"
  by (auto simp: formula_edges_def dest: row_refs_name)

lemma formula_edges_set: "set fs = set gs \<Longrightarrow> formula_edges fs pid = formula_edges gs pid"
  by (simp add: formula_edges_def)

text \<open>A field that passed the check, put beside fields without a circle.\<close>

lemma acyclic_checked:
  assumes "distinct (map field_key (customFields w))" and "acyclic (formula_edges fs pid)"
    and "fs = filter (\<lambda>f. truthy selfId \<longrightarrow> Some (cf_id f) \<noteq> selfId) (customFields w)"
    and "\<And>e. cf_kind f = KFormula \<Longrightarrow> cf_formulaExpression f = Some e \<Longrightarrow> e \<noteq> [] \<Longrightarrow>
      assertNoFormulaCycle w pid (cf_name f) e selfId = Inr ()"
  shows "acyclic (formula_edges fs pid \<union> formula_edges [f] pid)"
proof (cases "formula_edges [f] pid = {}")
  case False
  then obtain e a where e: "cf_kind f = KFormula" "cf_formulaExpression f = Some e" "e \<noteq> []" "formula_ast e = Some a"
    "row_refs f = Some (cf_name f, collectRefs a)"
    by (cases "cf_formulaExpression f") (auto simp: formula_edges_def row_refs_def split: if_splits)
  have "(r, cf_name f) \<notin> (formula_edges fs pid)\<^sup>*" if "r \<in> refs a" for r
    using assms(4) [OF e(1-3)] that unfolding no_cycle_check [OF assms(1) e(4)] assms(3) by blast
  with assms(2) have "acyclic (formula_edges fs pid \<union> {cf_name f} \<times> refs a)" by (rule acyclic_node)
  then show ?thesis
    by (rule acyclic_subset) (use formula_edges_single [of f pid] e(5) in \<open>auto simp: walk_refs_set\<close>)
qed (use assms(2) in simp)

lemma validated_formula: "validate_field i = Inr () \<Longrightarrow> fi_kind i = KFormula \<Longrightarrow> truthy (fi_formulaExpression i)"
  by (simp add: validate_field_def validate_formula_def and_then_Inr)

lemma acyclic_other:
  assumes "fields_ok fs" and "set (filter (live_field pid) gs) \<subseteq> set fs"
  shows "acyclic (formula_edges gs pid)"
proof -
  have "formula_edges gs pid \<subseteq> formula_edges fs pid" using assms(2) by (auto simp: formula_edges_def)
  with assms(1) show ?thesis unfolding fields_ok_def by (meson acyclic_subset)
qed

lemma custom_inv_add:
  assumes "custom_inv w" and "cf_id f \<notin> cf_id ` set (customFields w)" and "cf_id f \<noteq> []"
    and "field_key f \<notin> field_key ` set (customFields w)"
    and "\<And>e. cf_kind f = KFormula \<Longrightarrow> cf_formulaExpression f = Some e \<Longrightarrow> e \<noteq> [] \<Longrightarrow>
      assertNoFormulaCycle w (cf_projectId f) (cf_name f) e None = Inr ()"
  shows "custom_inv (w\<lparr>customFields := customFields w @ [f]\<rparr>)"
proof -
  let ?fs = "customFields w"
  have fs: "fields_ok ?fs" using assms(1) by (simp add: custom_inv_def)
  have "acyclic (formula_edges (?fs @ [f]) pid)" for pid
  proof (cases "pid = cf_projectId f")
    case True
    have "acyclic (formula_edges ?fs pid \<union> formula_edges [f] pid)"
      by (rule acyclic_checked [where w = w and selfId = None]) (use fs assms(5) True in \<open>auto simp: fields_ok_def\<close>)
    then show ?thesis by (simp add: formula_edges_append)
  next
    case False
    then show ?thesis by (intro acyclic_other [OF fs]) (auto simp: live_field_def)
  qed
  with fs assms(2-4) have "fields_ok (?fs @ [f])" by (simp add: fields_ok_def)
  moreover have "values_ok (?fs @ [f]) (customValues w)" using assms(1) by (auto simp: custom_inv_def values_ok_def)
  ultimately show ?thesis by (simp add: custom_inv_def)
qed

lemma createField_inv:
  assumes "custom_inv w" and "uuid e 0 \<notin> cf_id ` set (customFields w)" and "uuid e 0 \<noteq> []" and "trim (fi_name i) = fi_name i"
  shows "custom_inv (snd (createField e u pid i w))"
  unfolding createField_def Let_def
proof (intro custom_steps assms(1))
  fix x y
  assume check: "(if fi_kind i = KFormula \<and> truthy (fi_formulaExpression i)
      then assertNoFormulaCycle w pid (fi_name i) (the (fi_formulaExpression i)) None else Inr ()) = Inr x"
    and key: "require (field_key (new_field e pid i) \<notin> field_key ` set (customFields w))
      (BadRequest (''Field '' @ quoted (fi_name i) @ '' already exists'')) = Inr y"
  have "custom_inv (w\<lparr>customFields := customFields w @ [new_field e pid i]\<rparr>)"
  proof (rule custom_inv_add [OF assms(1)])
    show "field_key (new_field e pid i) \<notin> field_key ` set (customFields w)" using key by simp
    show "assertNoFormulaCycle w (cf_projectId (new_field e pid i)) (cf_name (new_field e pid i)) ex None = Inr ()"
      if "cf_kind (new_field e pid i) = KFormula" "cf_formulaExpression (new_field e pid i) = Some ex" "ex \<noteq> []" for ex
      using that check by (simp add: new_field_def assms(4))
  qed (use assms(2,3) in \<open>simp_all add: new_field_def\<close>)
  then show "custom_inv (snd (Inr (new_field e pid i), w\<lparr>customFields := customFields w @ [new_field e pid i]\<rparr>))" by simp
qed

text \<open>Edits of one row that keep its identity.\<close>

lemma values_ok_ids:
  assumes "values_ok fs vs" and "map cf_id gs = map cf_id fs"
  shows "values_ok gs vs"
proof -
  have "set (map cf_id gs) = set (map cf_id fs)" by (simp only: assms(2))
  with assms(1) show ?thesis by (simp add: values_ok_def)
qed

lemma values_ok_keys:
  assumes "values_ok fs vs" and "map value_key vs' = map value_key vs"
  shows "values_ok fs vs'"
proof -
  have "cv_fieldId ` set us = snd ` set (map value_key us)" for us by (force simp: value_key_def)
  with assms show ?thesis by (simp only: values_ok_def)
qed

lemma field_ids_update: "(\<And>f. cf_id (g f) = cf_id f) \<Longrightarrow> map cf_id (update_where p g fs) = map cf_id fs"
  by (simp add: map_update_where)

lemma patch_field_simps [simp]: "cf_id (patch_field i f) = cf_id f" "cf_projectId (patch_field i f) = cf_projectId f"
  "cf_archivedAt (patch_field i f) = cf_archivedAt f"
  by (simp_all add: patch_field_def)

lemma updated_edges:
  assumes "distinct (map cf_id fs)" and "f \<in> set fs" and "cf_id f = fid"
  shows "formula_edges (update_where (\<lambda>f. cf_id f = fid) g fs) pid =
    formula_edges (filter (\<lambda>f. cf_id f \<noteq> fid) fs) pid \<union> formula_edges [g f] pid"
proof -
  have only: "h = f" if "h \<in> set fs" "cf_id h = fid" for h using assms that by (auto simp: distinct_map dest: inj_onD)
  have "set (update_where (\<lambda>f. cf_id f = fid) g fs) = set (filter (\<lambda>f. cf_id f \<noteq> fid) fs @ [g f])"
    unfolding set_update_where
  proof (intro equalityI subsetI)
    fix h assume "h \<in> (\<lambda>f. if cf_id f = fid then g f else f) ` set fs"
    then obtain k where "k \<in> set fs" "h = (if cf_id k = fid then g k else k)" by (rule imageE)
    then show "h \<in> set (filter (\<lambda>f. cf_id f \<noteq> fid) fs @ [g f])" using only by (cases "cf_id k = fid") auto
  next
    fix h assume "h \<in> set (filter (\<lambda>f. cf_id f \<noteq> fid) fs @ [g f])"
    then show "h \<in> (\<lambda>f. if cf_id f = fid then g f else f) ` set fs" using assms(2,3) by (auto simp: image_iff)
  qed
  then show ?thesis unfolding formula_edges_append [symmetric] by (rule formula_edges_set)
qed

lemma custom_inv_patch:
  assumes "custom_inv w" and f: "find_field w fid = Some f"
    and key: "distinct (map field_key (update_where (\<lambda>f. cf_id f = fid) (patch_field i) (customFields w)))"
    and check: "fi_kind (merged_field i f) = KFormula \<Longrightarrow> truthy (fi_formulaExpression (merged_field i f)) \<Longrightarrow>
      assertNoFormulaCycle w (cf_projectId f) (fi_name (merged_field i f)) (the (fi_formulaExpression (merged_field i f))) (Some fid) = Inr ()"
  shows "custom_inv (w\<lparr>customFields := update_where (\<lambda>f. cf_id f = fid) (patch_field i) (customFields w)\<rparr>)"
proof -
  let ?fs = "customFields w" and ?gs = "update_where (\<lambda>f. cf_id f = fid) (patch_field i) (customFields w)"
  have fs: "fields_ok ?fs" using assms(1) by (simp add: custom_inv_def)
  have mem: "f \<in> set ?fs" "cf_id f = fid" using f by (auto simp: find_field_def dest: find_row_SomeD)
  have ids: "map cf_id ?gs = map cf_id ?fs" by (simp add: field_ids_update)
  have others: "acyclic (formula_edges (filter (\<lambda>f. cf_id f \<noteq> fid) ?fs) pid)" for pid
    by (rule acyclic_other [OF fs]) auto
  have "acyclic (formula_edges ?gs pid)" for pid
  proof (cases "pid = cf_projectId f")
    case True
    have "fid \<noteq> []" using fs mem unfolding fields_ok_def by (metis imageI)
    then have fid: "truthy (Some fid)" by simp
    have merged: "fi_kind (merged_field i f) = cf_kind (patch_field i f)" "fi_name (merged_field i f) = cf_name (patch_field i f)"
      "cf_formulaExpression (patch_field i f) = Some e \<Longrightarrow> fi_formulaExpression (merged_field i f) = Some e" for e
      by (auto simp: merged_field_def patch_field_def not_null_def override_def split: option.splits)
    have "acyclic (formula_edges (filter (\<lambda>f. cf_id f \<noteq> fid) ?fs) pid \<union> formula_edges [patch_field i f] pid)"
      by (rule acyclic_checked [where w = w and selfId = "Some fid"])
        (use fs fid others True check merged in \<open>auto simp: fields_ok_def\<close>)
    then show ?thesis using fs mem by (simp add: updated_edges fields_ok_def)
  next
    case False
    have "formula_edges [patch_field i f] pid = {}" using False by (auto simp: formula_edges_def live_field_def)
    then show ?thesis using fs mem others by (simp add: updated_edges fields_ok_def)
  qed
  moreover have "cf_id ` set ?gs = cf_id ` set ?fs" using arg_cong [OF ids, of set] by simp
  ultimately have "fields_ok ?gs" using fs key ids by (simp add: fields_ok_def)
  moreover have "values_ok ?gs (customValues w)"
    using assms(1) by (intro values_ok_ids [OF _ ids]) (simp add: custom_inv_def)
  ultimately show ?thesis by (simp add: custom_inv_def)
qed

lemma updateField_inv:
  assumes "custom_inv w"
  shows "custom_inv (snd (updateField u fid i w))"
  unfolding updateField_def Let_def
  by (intro custom_steps assms) (auto intro!: custom_inv_patch assms)

lemma removeField_inv:
  assumes "custom_inv w"
  shows "custom_inv (snd (removeField e u fid w))"
proof -
  let ?a = "\<lambda>f. f\<lparr>cf_archivedAt := Some (clk e 0)\<rparr>" and ?p = "\<lambda>f. cf_id f = fid"
  let ?fs = "customFields w" and ?gs = "update_where ?p ?a (customFields w)"
  have fs: "fields_ok ?fs" using assms by (simp add: custom_inv_def)
  have ids: "map cf_id ?gs = map cf_id ?fs" "map field_key ?gs = map field_key ?fs"
    by (simp_all add: map_update_where field_key_def)
  have "set (filter (live_field pid) ?gs) \<subseteq> set ?fs" for pid
    by (auto simp: set_update_where live_field_def split: if_splits)
  then have "acyclic (formula_edges ?gs pid)" for pid by (rule acyclic_other [OF fs])
  moreover have "cf_id ` set ?gs = cf_id ` set ?fs" using arg_cong [OF ids(1), of set] by simp
  ultimately have "fields_ok ?gs" using fs ids by (simp add: fields_ok_def)
  moreover have "values_ok ?gs (customValues w)"
    using assms by (intro values_ok_ids [OF _ ids(1)]) (simp add: custom_inv_def)
  ultimately have "custom_inv (w\<lparr>customFields := ?gs\<rparr>)" by (simp add: custom_inv_def)
  with assms show ?thesis unfolding removeField_def by (intro custom_steps) simp_all
qed

lemma setValue_inv:
  assumes "custom_inv w"
  shows "custom_inv (snd (setValue validUrl dateParse e u tid fid value w))"
proof -
  have "custom_inv (snd (upsert_value e tid fid value w))" if f: "find_field w fid = Some f" for f
  proof (cases "find_row value_key (tid, fid) (customValues w)")
    case None
    then have "(tid, fid) \<notin> value_key ` set (customValues w)" by (auto simp: find_row_None)
    moreover have "fid \<in> cf_id ` set (customFields w)" using f by (auto simp: find_field_def dest: find_row_SomeD)
    ultimately show ?thesis
      using None assms by (simp add: upsert_value_def Let_def custom_inv_def values_ok_def value_key_def)
  next
    case (Some v)
    have "map value_key (update_where p (\<lambda>v. v\<lparr>cv_value := value\<rparr>) vs) = map value_key vs" for p vs
      by (simp add: map_update_where value_key_def)
    with Some assms show ?thesis by (auto simp: upsert_value_def custom_inv_def intro: values_ok_keys)
  qed
  then show ?thesis
    unfolding setValue_def split_beta Let_def by (intro custom_steps assms) simp
qed

lemma clearValue_inv:
  assumes "custom_inv w"
  shows "custom_inv (snd (clearValue u tid fid w))"
proof -
  have "custom_inv (w\<lparr>customValues := delete_where p (customValues w)\<rparr>)" for p
    using assms by (auto simp: custom_inv_def values_ok_def distinct_delete_where)
  with assms show ?thesis unfolding clearValue_def by (intro custom_steps) simp_all
qed

datatype custom_op =
    CreateField env auth_user string custom_field_input
  | UpdateField auth_user string custom_field_patch
  | RemoveField env auth_user string
  | SetValue "string \<Rightarrow> bool" "string \<Rightarrow> jsnum" env auth_user string string fval
  | ClearValue auth_user string string

fun exec_custom :: "custom_op \<Rightarrow> world \<Rightarrow> world" where
  "exec_custom (CreateField e u pid i) w = snd (createField e u pid i w)"
| "exec_custom (UpdateField u fid i) w = snd (updateField u fid i w)"
| "exec_custom (RemoveField e u fid) w = snd (removeField e u fid w)"
| "exec_custom (SetValue url date e u tid fid v) w = snd (setValue url date e u tid fid v w)"
| "exec_custom (ClearValue u tid fid) w = snd (clearValue u tid fid w)"

text \<open>New identifiers, and names that are sent trimmed: the circle check does not trim them.\<close>

fun custom_op_ok :: "custom_op \<Rightarrow> world \<Rightarrow> bool" where
  "custom_op_ok (CreateField e u pid i) w =
     (uuid e 0 \<notin> cf_id ` set (customFields w) \<and> uuid e 0 \<noteq> [] \<and> trim (fi_name i) = fi_name i)"
| "custom_op_ok _ w = True"

interpretation custom_runs: operation_system custom_inv custom_op_ok exec_custom
proof
  fix w op assume "custom_inv w" and "custom_op_ok op w"
  then show "custom_inv (exec_custom op w)"
    by (cases op) (simp_all add: createField_inv updateField_inv removeField_inv setValue_inv clearValue_inv)
qed

section \<open>Computed values\<close>

definition computed_kind :: "custom_field_row \<Rightarrow> bool" where
  "computed_kind d \<longleftrightarrow> cf_kind d = KFormula \<or> cf_kind d = KRollup"

lemma fold_other:
  "n \<notin> cf_name ` {d \<in> set ds. computed_kind d} \<Longrightarrow> fold (compute_def c w tid pid) ds vars n = vars n"
proof (induction ds arbitrary: vars)
  case (Cons d ds)
  then have "n \<notin> cf_name ` {d \<in> set ds. computed_kind d}" by auto
  moreover have "compute_def c w tid pid d vars n = vars n" using Cons.prems by (auto simp: compute_def_def computed_kind_def)
  ultimately show ?case using Cons.IH by simp
qed simp

lemma computeFormula_refs:
  assumes "cf_formulaExpression d = Some expr" and "formula_ast expr = Some a" and "\<forall>n \<in> refs a. vars n = vars' n"
  shows "computeFormula c d vars = computeFormula c d vars'"
proof -
  have "evaluateFormula a (c\<lparr>ec_vars := vars\<rparr>) = evaluateFormula a (c\<lparr>ec_vars := vars'\<rparr>)"
    using evalNode_refs [of a "c\<lparr>ec_vars := vars'\<rparr>" vars] assms(3) by (simp add: evaluateFormula_def)
  moreover have "parseFormula expr = Some (Inr a)"
    using assms(2) by (simp add: formula_ast_def split: option.splits sum.splits)
  ultimately show ?thesis using assms(1) by (simp add: computeFormula_def)
qed

lemma fold_formula:
  assumes "cf_kind d = KFormula" and "cf_formulaExpression d = Some expr" and "formula_ast expr = Some a"
  shows "distinct (map cf_name ds) \<Longrightarrow> d \<in> set ds \<Longrightarrow> refs a \<inter> cf_name ` {d \<in> set ds. computed_kind d} = {} \<Longrightarrow>
    \<forall>n \<in> refs a. vars n = vars' n \<Longrightarrow> fold (compute_def c w tid pid) ds vars (cf_name d) = Some (computeFormula c d vars')"
proof (induction ds arbitrary: vars)
  case (Cons h ds)
  show ?case
  proof (cases "h = d")
    case True
    with Cons.prems(1) have "cf_name d \<notin> cf_name ` {d \<in> set ds. computed_kind d}" by auto
    moreover have "compute_def c w tid pid d vars (cf_name d) = Some (computeFormula c d vars')"
      using computeFormula_refs [OF assms(2,3) Cons.prems(4)] by (simp add: compute_def_def assms(1))
    ultimately show ?thesis using True fold_other [of "cf_name d" ds c w tid pid "compute_def c w tid pid d vars"] by simp
  next
    case False
    have "compute_def c w tid pid h vars n = vars' n" if "n \<in> refs a" for n
      using Cons.prems(3,4) that by (auto simp: compute_def_def computed_kind_def)
    moreover have "refs a \<inter> cf_name ` {d \<in> set ds. computed_kind d} = {}" using Cons.prems(3) by auto
    ultimately show ?thesis using Cons.IH [of "compute_def c w tid pid h vars"] Cons.prems(1,2) False by simp
  qed
qed simp

lemma live_fields_names:
  assumes "custom_inv w"
  shows "distinct (map cf_name (live_fields w pid))" and "set (live_fields w pid) = {f \<in> set (customFields w). live_field pid f}"
proof -
  let ?fs = "filter (live_field pid) (customFields w)"
  have "distinct (map field_key ?fs)" using assms by (intro distinct_map_filter) (simp add: custom_inv_def fields_ok_def)
  then have "distinct (map cf_name ?fs)" by (auto simp: distinct_map inj_on_def field_key_def live_field_def)
  then show "distinct (map cf_name (live_fields w pid))" unfolding live_fields_def by (rule distinct_order_by)
  show "set (live_fields w pid) = {f \<in> set (customFields w). live_field pid f}" by (simp add: live_fields_def)
qed

section \<open>Properties\<close>

text \<open>
  C21: whatever field and value operations run, fields have unique identifiers and unique names
  in their project, no formulas of a project refer to each other in a circle (so no field is
  computed from itself), a task has one value at most for a field, and every value has its field. The names of new fields
  have to be sent trimmed.
\<close>

theorem custom_field_operations_keep_invariant:
  assumes "custom_inv w" and "custom_runs.run_ok ops w"
  shows "custom_inv (fold exec_custom ops w)"
  using assms by (rule custom_runs.run_inv)

definition formula_input :: "string \<Rightarrow> string \<Rightarrow> custom_field_input" where
  "formula_input nm expr = \<lparr>fi_name = nm, fi_kind = KFormula, fi_options = None, fi_position = None, fi_required = None,
     fi_formulaExpression = Some expr, fi_rollupConfig = None, fi_visibilityRule = None\<rparr>"

text \<open>A name with a space around it: the new formula refers to itself once it is stored.\<close>

lemma untrimmed_name_makes_circle:
  "\<exists>w. fst (createField sample_env sample_admin ''P'' (formula_input ''a '' ''{a}'') task_world) = Inr (new_field sample_env ''P'' (formula_input ''a '' ''{a}'')) \<and>
    snd (createField sample_env sample_admin ''P'' (formula_input ''a '' ''{a}'') task_world) = w \<and> (''a'', ''a'') \<in> formula_edges (customFields w) ''P''"
proof -
  have p: "parseFormula ''{a}'' = Some (Inr (ARef ''a''))" by code_simp
  have t: "trim ''a '' = ''a''" "trim ''{a}'' = ''{a}''" by code_simp+
  have none: "customFields task_world = []" by (simp add: task_world_def empty_world_def)
  have "assertAtLeast task_world sample_admin ''P'' Manager = Inr Manager" by simp
  with p t none show ?thesis
    by (simp add: createField_def formula_input_def validate_field_def validate_options_def validate_formula_def validate_rollup_def
      assertNoFormulaCycle_def formula_ast_def collectRefs_def refsByName_def new_field_def formula_edges_def live_field_def
      row_refs_def List.map_filter_simps Let_def)
qed

theorem custom_field_operations_keep_invariant_witness:
  "custom_inv (fold exec_custom [CreateField sample_env sample_admin ''P'' (formula_input ''a'' ''{b}''),
     UpdateField sample_admin ''x'' \<lparr>fp_name = Some ''b'', fp_kind = None, fp_options = None, fp_position = None, fp_required = None,
       fp_formulaExpression = None, fp_rollupConfig = None, fp_visibilityRule = None\<rparr>,
     SetValue (\<lambda>s. True) (\<lambda>s. NaN) sample_env sample_admin ''t1'' ''x'' (VBool True), RemoveField sample_env sample_admin ''x''] task_world)"
proof (rule custom_field_operations_keep_invariant)
  have "trim ''a'' = ''a''" by code_simp
  then show "custom_runs.run_ok [CreateField sample_env sample_admin ''P'' (formula_input ''a'' ''{b}''),
     UpdateField sample_admin ''x'' \<lparr>fp_name = Some ''b'', fp_kind = None, fp_options = None, fp_position = None, fp_required = None,
       fp_formulaExpression = None, fp_rollupConfig = None, fp_visibilityRule = None\<rparr>,
     SetValue (\<lambda>s. True) (\<lambda>s. NaN) sample_env sample_admin ''t1'' ''x'' (VBool True), RemoveField sample_env sample_admin ''x''] task_world"
    by (simp add: formula_input_def task_world_def empty_world_def sample_env_def)
qed (simp add: custom_inv_def fields_ok_def values_ok_def formula_edges_def task_world_def empty_world_def acyclic_def)

definition sample_field :: "string \<Rightarrow> field_kind \<Rightarrow> string option \<Rightarrow> custom_field_row" where
  "sample_field nm kind expr = \<lparr>cf_id = nm, cf_projectId = ''P'', cf_name = nm, cf_kind = kind, cf_options = [], cf_position = 0,
     cf_required = False, cf_archivedAt = None, cf_formulaExpression = expr, cf_rollupConfig = None,
     cf_visibilityRule = (if kind = KText then Some \<lparr>vr_fieldKey = ''show'', vr_op = OpIsSet, vr_value = None\<rparr> else None), cf_createdAt = 0\<rparr>"

text \<open>
  C22: the check of a formula refuses exactly the ones that would close a circle. On creation it passes
  when, and only when, no field the formula names leads back, over the formulas of the project, to
  the name of the new field; on an update the same over the formulas of the other fields, since the new
  formula and name replace those of the edited field.
\<close>

theorem formula_cycle_check_exact:
  assumes "custom_inv w" and "formula_ast expr = Some a"
  shows "assertNoFormulaCycle w pid name expr selfId = Inr () \<longleftrightarrow>
    (\<forall>r \<in> refs a. (r, name) \<notin> (formula_edges (filter (\<lambda>f. Some (cf_id f) \<noteq> selfId) (customFields w)) pid)\<^sup>*)"
proof -
  have ids: "[] \<notin> cf_id ` set (customFields w)" "distinct (map field_key (customFields w))"
    using assms(1) by (simp_all add: custom_inv_def fields_ok_def)
  have "filter (\<lambda>f. truthy selfId \<longrightarrow> Some (cf_id f) \<noteq> selfId) (customFields w) = filter (\<lambda>f. Some (cf_id f) \<noteq> selfId) (customFields w)"
    using ids(1) by (intro filter_cong) (auto simp: truthy_def image_iff split: option.splits)
  then show ?thesis using no_cycle_check [OF ids(2) assms(2), of pid name selfId] by (simp only:)
qed

text \<open>A project with the formulas \<open>b = {c}\<close> and \<open>a = {b}\<close>.\<close>

definition formula_world :: world where
  "formula_world = task_world\<lparr>customFields := [sample_field ''b'' KFormula (Some ''{c}''), sample_field ''a'' KFormula (Some ''{b}'')]\<rparr>"

lemma formula_asts:
  "formula_ast ''{a}'' = Some (ARef ''a'')" "formula_ast ''{b}'' = Some (ARef ''b'')" "formula_ast ''{c}'' = Some (ARef ''c'')"
proof -
  have "parseFormula ''{a}'' = Some (Inr (ARef ''a''))" "parseFormula ''{b}'' = Some (Inr (ARef ''b''))" "parseFormula ''{c}'' = Some (Inr (ARef ''c''))"
    by code_simp+
  then show "formula_ast ''{a}'' = Some (ARef ''a'')" "formula_ast ''{b}'' = Some (ARef ''b'')" "formula_ast ''{c}'' = Some (ARef ''c'')"
    by (simp_all add: formula_ast_def)
qed

lemma formula_world_edges:
  "formula_edges (customFields formula_world) ''P'' = {(''b'', ''c''), (''a'', ''b'')}"
  "formula_edges (filter (\<lambda>f. Some (cf_id f) \<noteq> Some ''b'') (customFields formula_world)) ''P'' = {(''a'', ''b'')}"
  by (auto simp: formula_edges_def formula_world_def sample_field_def row_refs_def formula_asts live_field_def)

text \<open>
  A new formula \<open>c = {a}\<close> is refused, as \<open>a\<close> leads over \<open>b\<close> to \<open>c\<close>; renaming \<open>b = {c}\<close> to \<open>c = {a}\<close> is accepted, as
  \<open>a\<close> then leads to \<open>b\<close>, which is gone.
\<close>

theorem formula_cycle_check_exact_witness:
  "assertNoFormulaCycle formula_world ''P'' ''c'' ''{a}'' None \<noteq> Inr () \<and>
   assertNoFormulaCycle formula_world ''P'' ''c'' ''{a}'' (Some ''b'') = Inr ()"
proof -
  have "acyclic ({} :: (string \<times> string) set)" by (simp add: acyclic_def)
  then have "acyclic {(''b'', ''c''), (''a'', ''b'')}"
    by (simp add: acyclic_insert) (auto elim: rtranclE converse_rtranclE)
  moreover have "formula_edges (customFields formula_world) pid = {}" if "pid \<noteq> ''P''" for pid
    using that by (auto simp: formula_edges_def formula_world_def sample_field_def live_field_def)
  ultimately have "acyclic (formula_edges (customFields formula_world) pid)" for pid
    by (cases "pid = ''P''", simp add: formula_world_edges) (simp add: acyclic_def)
  then have inv: "custom_inv formula_world"
    by (simp add: custom_inv_def fields_ok_def values_ok_def)
      (simp add: formula_world_def sample_field_def field_key_def task_world_def empty_world_def)
  have path: "(''a'', ''c'') \<in> {(''b'', ''c''), (''a'', ''b'')}\<^sup>*"
    by (meson converse_rtrancl_into_rtrancl insertI1 insertI2 rtrancl.rtrancl_refl)
  have none: "(''a'', ''c'') \<notin> {(''a'', ''b'')}\<^sup>*"
    by (auto elim!: converse_rtranclE)
  show ?thesis
    using formula_cycle_check_exact [OF inv formula_asts(1), of "''P''" "''c''" None]
      formula_cycle_check_exact [OF inv formula_asts(1), of "''P''" "''c''" "Some ''b''"] path none
    by (simp add: formula_world_edges [simplified])
qed

text \<open>
  What a formula field shows. When a formula names only stored fields, a task shows it exactly
  if its visibility rule holds, with the result of the formula on the stored values of the task
  (or the message of its error), wherever the field stands among the others.
\<close>

theorem formula_field_shown:
  assumes "custom_inv w" and "d \<in> set (customFields w)" and "live_field pid d" and "cf_kind d = KFormula"
    and "cf_formulaExpression d = Some expr" and "formula_ast expr = Some a"
    and "refs a \<inter> cf_name ` {f \<in> set (customFields w). live_field pid f \<and> computed_kind f} = {}"
  shows "{vw_value row | row. row \<in> set (getValuesForTask c tid pid w) \<and> vw_field row = d} =
    (if isFieldVisible (cf_visibilityRule d) (computed_vars c w tid pid)
     then {computeFormula c d (stored_vars w tid (live_fields w pid))} else {})"
proof -
  let ?ds = "live_fields w pid" and ?s = "stored_vars w tid (live_fields w pid)"
  note names = live_fields_names [OF assms(1), of pid]
  have d: "d \<in> set ?ds" using assms(2,3) names(2) by simp
  have none: "refs a \<inter> cf_name ` {f \<in> set ?ds. computed_kind f} = {}" using assms(7) names(2) by auto
  have "\<forall>n \<in> refs a. fold (compute_def c w tid pid) ?ds ?s n = ?s n" using none by (auto intro!: fold_other)
  then have val: "computed_vars c w tid pid (cf_name d) = Some (computeFormula c d ?s)"
    unfolding computed_vars_def Let_def by (rule fold_formula [OF assms(4-6) names(1) d none])
  have rows: "value_row_of w tid vars h = Some row \<Longrightarrow> vw_field row = h" for vars h row
    by (auto simp: value_row_of_def split: if_splits)
  have "row \<in> set (getValuesForTask c tid pid w) \<and> vw_field row = d \<longleftrightarrow> value_row_of w tid (computed_vars c w tid pid) d = Some row" for row
    using d rows by (auto simp: getValuesForTask_def set_map_filter)
  then show ?thesis using val assms(4) by (auto simp: value_row_of_def)
qed

text \<open>
  A hidden text field, and a formula that copies it: the text is not shown, and the formula shows it.
\<close>

definition field_world :: world where
  "field_world = task_world\<lparr>customFields := [sample_field ''secret'' KText None, sample_field ''copy'' KFormula (Some ''{secret}'')],
     customValues := [\<lparr>cv_id = ''v'', cv_taskId = ''t1'', cv_fieldId = ''secret'', cv_value = VStr ''s3''\<rparr>]\<rparr>"

lemma sample_field_simps [simp]: "cf_id (sample_field nm k x) = nm" "cf_name (sample_field nm k x) = nm"
  by (simp_all add: sample_field_def)

lemma field_world_inv: "custom_inv field_world"
proof -
  have "parseFormula ''{secret}'' = Some (Inr (ARef ''secret''))" by code_simp
  then have "row_refs (sample_field ''copy'' KFormula (Some ''{secret}'')) = Some (''copy'', [''secret''])"
    by (simp add: row_refs_def sample_field_def formula_ast_def collectRefs_def)
  then have "formula_edges (customFields field_world) pid \<subseteq> {(''copy'', ''secret'')}" for pid
    by (auto simp: formula_edges_def field_world_def) (auto simp: sample_field_def row_refs_def)
  then have "acyclic (formula_edges (customFields field_world) pid)" for pid
    by (rule acyclic_subset [rotated]) (simp add: acyclic_def trancl_insert)
  then show ?thesis
    unfolding custom_inv_def fields_ok_def values_ok_def
    by (simp add: field_world_def) (simp add: sample_field_def field_key_def value_key_def)
qed

theorem formula_field_shown_witness:
  "{vw_value row | row. row \<in> set (getValuesForTask (formula_context Map.empty) ''t1'' ''P'' field_world) \<and>
      vw_field row = sample_field ''copy'' KFormula (Some ''{secret}'')} = {VStr ''s3''} \<and>
    sample_field ''secret'' KText None \<notin> vw_field ` set (getValuesForTask (formula_context Map.empty) ''t1'' ''P'' field_world)"
proof -
  let ?c = "formula_context Map.empty" and ?d = "sample_field ''copy'' KFormula (Some ''{secret}'')" and ?h = "sample_field ''secret'' KText None"
  have p: "parseFormula ''{secret}'' = Some (Inr (ARef ''secret''))" by code_simp
  have live: "live_fields field_world ''P'' = [?d, ?h] \<or> live_fields field_world ''P'' = [?h, ?d]"
    by (simp add: live_fields_def field_world_def live_field_def order_by_def field_order_def) (simp add: sample_field_def)
  have stored: "stored_value field_world ''t1'' ''secret'' = Some \<lparr>cv_id = ''v'', cv_taskId = ''t1'', cv_fieldId = ''secret'', cv_value = VStr ''s3''\<rparr>"
    "stored_value field_world ''t1'' ''copy'' = None"
    by (simp_all add: stored_value_def field_world_def)
  have vars: "stored_vars field_world ''t1'' (live_fields field_world ''P'') = [''secret'' \<mapsto> VStr ''s3'', ''copy'' \<mapsto> VNull]"
  proof -
    have "stored_vars field_world ''t1'' ds = [''secret'' \<mapsto> VStr ''s3'', ''copy'' \<mapsto> VNull]" if "ds = [?d, ?h] \<or> ds = [?h, ?d]" for ds
      using that stored by (elim disjE) (simp_all add: stored_vars_def fun_upd_twist)
    with live show ?thesis by blast
  qed
  have "computeFormula ?c ?d [''secret'' \<mapsto> VStr ''s3'', ''copy'' \<mapsto> VNull] = VStr ''s3''"
    using p by (simp add: computeFormula_def sample_field_def evaluateFormula_def FORBIDDEN_IDENT_def)
  moreover have "{vw_value row | row. row \<in> set (getValuesForTask ?c ''t1'' ''P'' field_world) \<and> vw_field row = ?d} =
      (if isFieldVisible (cf_visibilityRule ?d) (computed_vars ?c field_world ''t1'' ''P'')
       then {computeFormula ?c ?d (stored_vars field_world ''t1'' (live_fields field_world ''P''))} else {})"
    by (rule formula_field_shown [OF field_world_inv, where expr = "''{secret}''" and a = "ARef ''secret''"])
      (auto simp: field_world_def formula_ast_def p, auto simp: sample_field_def live_field_def computed_kind_def)
  moreover have "computed_vars ?c field_world ''t1'' ''P'' ''show'' = None"
  proof -
    have "''show'' \<notin> cf_name ` {d \<in> set (live_fields field_world ''P''). computed_kind d}" using live by auto
    then show ?thesis unfolding computed_vars_def Let_def vars by (simp add: fold_other)
  qed
  then have "\<not> isFieldVisible (cf_visibilityRule ?h) (computed_vars ?c field_world ''t1'' ''P'')"
    by (simp add: isFieldVisible_def sample_field_def Let_def is_null_def)
  then have "?h \<notin> vw_field ` set (getValuesForTask ?c ''t1'' ''P'' field_world)"
    by (auto simp: getValuesForTask_def set_map_filter value_row_of_def split: if_splits)
  ultimately show ?thesis by (simp add: vars) (simp add: sample_field_def isFieldVisible_def)
qed

end
