(* ===== verification/Comments.thy ===== *)
theory Comments
  imports TaskLaws
begin

text \<open>
  \<^verbatim>\<open>apps/api/src/modules/comments/comments.service.ts\<close>: the comments of tasks with their
  mentions, attachments embedded in the text, quotes, reactions and the history of edits. Ids in
  the text of a comment are looked up as they are written. Bounds of a quoted range are numbers as sent.
\<close>

section \<open>Markers in the text\<close>

definition EDIT_WINDOW_MS :: int where
  "EDIT_WINDOW_MS = 15 * 60 * 1000"

definition ALLOWED_REACTION_EMOJIS :: "string list" where
  "ALLOWED_REACTION_EMOJIS = [''thumbsup'', ''thumbsdown'', ''heart'', ''laugh'', ''celebrate'', ''eyes'']"

definition isAllowedEmoji :: "string \<Rightarrow> bool" where
  "isAllowedEmoji value \<longleftrightarrow> value \<in> set ALLOWED_REACTION_EMOJIS"

text \<open>
  \<open>matchAll\<close> and \<open>replace\<close> of a global expression. A matcher looks at the text from a place on and
  answers what it captures and how many characters it takes; the counter is how many of them are still
  to be passed over.
\<close>

type_synonym 'a matcher = "string \<Rightarrow> ('a \<times> nat) option"

fun match_all :: "'a matcher \<Rightarrow> nat \<Rightarrow> string \<Rightarrow> 'a list" where
  "match_all m k [] = []"
| "match_all m (Suc k) (c # s) = match_all m k s"
| "match_all m 0 (c # s) = (case m (c # s) of
       Some (a, n) \<Rightarrow> a # match_all m (n - 1) s
     | None \<Rightarrow> match_all m 0 s)"

fun replace_all :: "'a matcher \<Rightarrow> ('a \<Rightarrow> string) \<Rightarrow> nat \<Rightarrow> string \<Rightarrow> string" where
  "replace_all m render k [] = []"
| "replace_all m render (Suc k) (c # s) = replace_all m render k s"
| "replace_all m render 0 (c # s) = (case m (c # s) of
       Some (a, n) \<Rightarrow> render a @ replace_all m render (n - 1) s
     | None \<Rightarrow> c # replace_all m render 0 s)"

definition is_id_char :: "char \<Rightarrow> bool" where
  "is_id_char c \<longleftrightarrow> (let n = (of_char c :: nat) in 48 \<le> n \<and> n \<le> 57 \<or> 97 \<le> n \<and> n \<le> 102 \<or> n = 45)"

text \<open>A fixed text, 36 characters of an id, a fixed text.\<close>

definition id_between :: "string \<Rightarrow> string \<Rightarrow> string matcher" where
  "id_between open_text close_text s =
     (let n = length open_text; aid = take 36 (drop n s)
      in if take n s = open_text \<and> length aid = 36 \<and> list_all is_id_char aid
            \<and> take (length close_text) (drop (n + 36) s) = close_text
         then Some (aid, n + 36 + length close_text) else None)"

definition MENTION_USER_REGEX :: "string matcher" where
  "MENTION_USER_REGEX = id_between ''@['' ''](user)''"

definition MENTION_TEAM_REGEX :: "string matcher" where
  "MENTION_TEAM_REGEX = id_between ''@['' ''](team)''"

definition INLINE_ATTACHMENT_REGEX :: "string matcher" where
  "INLINE_ATTACHMENT_REGEX = id_between ''attachment:'' []"

text \<open>\<open>/(^|\s)@here(?=\s|$|[.,!?;:])/\<close>; the flag is whether a match may start here.\<close>

definition closes_here :: "string \<Rightarrow> bool" where
  "closes_here s \<longleftrightarrow> (case s of [] \<Rightarrow> True | c # _ \<Rightarrow> is_space c \<or> c \<in> set ''.,!?;:'')"

fun here_marker :: "bool \<Rightarrow> string \<Rightarrow> bool" where
  "here_marker opens [] = False"
| "here_marker opens (c # s) \<longleftrightarrow>
     opens \<and> take 5 (c # s) = ''@here'' \<and> closes_here (drop 5 (c # s)) \<or> here_marker (is_space c) s"

record parsed_mentions =
  pm_userIds :: "string list"
  pm_teamIds :: "string list"
  pm_hasHere :: bool

definition parseMentions :: "string \<Rightarrow> parsed_mentions" where
  "parseMentions body = \<lparr>pm_userIds = uniq (match_all MENTION_USER_REGEX 0 body),
     pm_teamIds = uniq (match_all MENTION_TEAM_REGEX 0 body), pm_hasHere = here_marker True body\<rparr>"

definition parseAttachmentRefs :: "string \<Rightarrow> string list" where
  "parseAttachmentRefs body = uniq (match_all INLINE_ATTACHMENT_REGEX 0 body)"

definition inline_url :: "string \<Rightarrow> string" where
  "inline_url aid = ''/api/v1/attachments/'' @ aid @ ''/inline''"

definition rewrite_refs :: "string \<Rightarrow> string" where
  "rewrite_refs body = replace_all INLINE_ATTACHMENT_REGEX inline_url 0 body"

text \<open>The dash of the last message stands as its UTF-8 bytes.\<close>

definition attachment_ok :: "world \<Rightarrow> string \<Rightarrow> visibility \<Rightarrow> string \<Rightarrow> unit res" where
  "attachment_ok w tid vis aid =
     and_then (found (BadRequest (''Unknown attachment '' @ aid))
       (find_row at_id aid (filter (\<lambda>a. at_deletedAt a = None) (attachments w)))) (\<lambda>att.
     and_then (require ((at_parentType att = AttTask \<or> at_parentType att = AttBugReport) \<and> at_parentId att = tid)
       (BadRequest (''Attachment '' @ aid @ '' does not belong to this task''))) (\<lambda>_.
     require (\<not> (vis = VClientVisible \<and> at_visibility att \<noteq> VClientVisible))
       (BadRequest (''Attachment '' @ aid @ '' is internal '' @ [CHR 0xE2, CHR 0x80, CHR 0x94] @ '' cannot embed in a client-visible comment''))))"

fun check_each :: "('a \<Rightarrow> unit res) \<Rightarrow> 'a list \<Rightarrow> unit res" where
  "check_each check [] = Inr ()"
| "check_each check (x # xs) = and_then (check x) (\<lambda>_. check_each check xs)"

definition validateAndRewriteInlineAttachments :: "world \<Rightarrow> string \<Rightarrow> string \<Rightarrow> visibility \<Rightarrow> string res" where
  "validateAndRewriteInlineAttachments w body tid vis =
     (let ids = parseAttachmentRefs body
      in if ids = [] then Inr body
         else and_then (check_each (attachment_ok w tid vis) ids) (\<lambda>_. Inr (rewrite_refs body)))"

section \<open>Writing comments\<close>

text \<open>The range of another comment that a comment quotes.\<close>

record quote_input =
  qi_commentId :: string
  qi_rangeStart :: jsnum
  qi_rangeEnd :: jsnum

definition as_integer :: "jsnum \<Rightarrow> int option" where
  "as_integer x = (case x of Fin q \<Rightarrow> if of_int \<lfloor>q\<rfloor> = q then Some \<lfloor>q\<rfloor> else None | _ \<Rightarrow> None)"

definition effective_visibility :: "auth_user \<Rightarrow> task_row \<Rightarrow> visibility option \<Rightarrow> visibility" where
  "effective_visibility u task vis =
     (if au_kind u = UClient then VClientVisible
      else if t_visibility task = VInternal then VInternal
      else override vis VInternal)"

definition resolved_parent :: "world \<Rightarrow> string \<Rightarrow> string option \<Rightarrow> string option" where
  "resolved_parent w tid parentCommentId =
     (if \<not> truthy parentCommentId then None
      else case find_comment w (the parentCommentId) of
          None \<Rightarrow> None
        | Some parent \<Rightarrow>
            if cm_taskId parent \<noteq> tid then None
            else Some (override (cm_parentCommentId parent) (cm_id parent)))"

definition quoted_range :: "quote_input \<Rightarrow> (int \<times> int) option" where
  "quoted_range q = (case (as_integer (qi_rangeStart q), as_integer (qi_rangeEnd q)) of
       (Some a, Some b) \<Rightarrow> if a < 0 \<or> b \<le> a then None else Some (a, b)
     | _ \<Rightarrow> None)"

definition check_quote :: "world \<Rightarrow> string \<Rightarrow> quote_input option \<Rightarrow> (string \<times> int \<times> int) option res" where
  "check_quote w tid quote = (case quote of
       None \<Rightarrow> Inr None
     | Some q \<Rightarrow>
         and_then (found (BadRequest ''Invalid quoted range'') (quoted_range q)) (\<lambda>(a, b).
         and_then (found (BadRequest ''Quoted comment not found'') (find_comment w (qi_commentId q))) (\<lambda>src.
         and_then (require (cm_deletedAt src = None) (BadRequest ''Quoted comment not found'')) (\<lambda>_.
         and_then (require (cm_taskId src = tid) (BadRequest ''Quoted comment is on a different task'')) (\<lambda>_.
         and_then (require (b \<le> int (length (cm_bodyMd src))) (BadRequest ''Quoted range out of bounds'')) (\<lambda>_.
         Inr (Some (qi_commentId q, a, b))))))))"

definition here_watchers :: "world \<Rightarrow> auth_user \<Rightarrow> string \<Rightarrow> parsed_mentions \<Rightarrow> string list" where
  "here_watchers w u tid m = (if pm_hasHere m
     then filter (\<lambda>uid. uid \<noteq> au_id u) (map w_userId (filter (\<lambda>r. w_taskId r = tid) (watchers w))) else [])"

definition new_mentions :: "string \<Rightarrow> parsed_mentions \<Rightarrow> mention_row list" where
  "new_mentions cid m =
     map (\<lambda>uid. \<lparr>mn_commentId = cid, mn_userId = Some uid, mn_teamId = None\<rparr>) (pm_userIds m) @
     map (\<lambda>tid. \<lparr>mn_commentId = cid, mn_userId = None, mn_teamId = Some tid\<rparr>) (pm_teamIds m)"

definition mention_fk :: "world \<Rightarrow> parsed_mentions \<Rightarrow> bool" where
  "mention_fk w m \<longleftrightarrow> set (pm_userIds m) \<subseteq> u_id ` set (users w) \<and> set (pm_teamIds m) \<subseteq> te_id ` set (teams w)"

definition new_comment :: "env \<Rightarrow> auth_user \<Rightarrow> string \<Rightarrow> string \<Rightarrow> visibility \<Rightarrow> string option \<Rightarrow> (string \<times> int \<times> int) option \<Rightarrow> comment_row" where
  "new_comment e u tid body vis parent quote = \<lparr>cm_id = uuid e 0, cm_taskId = tid, cm_authorUserId = au_id u, cm_bodyMd = body,
     cm_visibility = vis, cm_editLockedAt = Some (clk e 0 + EDIT_WINDOW_MS), cm_parentCommentId = parent,
     cm_quotedCommentId = map_option fst quote, cm_quotedRangeStart = map_option (\<lambda>q. fst (snd q)) quote,
     cm_quotedRangeEnd = map_option (\<lambda>q. snd (snd q)) quote, cm_deletedAt = None, cm_deletedById = None, cm_createdAt = clk e 1\<rparr>"

definition createComment :: "env \<Rightarrow> auth_user \<Rightarrow> string \<Rightarrow> string \<Rightarrow> visibility option \<Rightarrow> string option \<Rightarrow> quote_input option \<Rightarrow> world \<Rightarrow>
    comment_row res \<times> world" where
  "createComment e u tid body vis parentCommentId quote w =
     attempt (task_or_throw w tid) w (\<lambda>task.
     attempt (canSeeTask w u (t_projectId task) (t_visibility task)) w (\<lambda>canSee.
     attempt (require canSee (Forbidden ''No access to task'')) w (\<lambda>_.
     attempt (require (\<not> (au_kind u = UClient \<and> t_visibility task \<noteq> VClientVisible))
       (Forbidden ''Clients cannot comment on internal tasks'')) w (\<lambda>_.
     let effectiveVisibility = effective_visibility u task vis; parent = resolved_parent w tid parentCommentId
     in attempt (check_quote w tid quote) w (\<lambda>quotedFields.
        let m = parseMentions body
        in attempt (validateAndRewriteInlineAttachments w body tid effectiveVisibility) w (\<lambda>rewrittenBody.
           let here = here_watchers w u tid m; c = new_comment e u tid rewrittenBody effectiveVisibility parent quotedFields
           in attempt (require (au_id u \<in> u_id ` set (users w) \<and> mention_fk w m) (DbError P2003)) w (\<lambda>_.
              (Inr c, emit (CommentEvent (CommentAdded_ev (cm_id c) tid (au_id u) effectiveVisibility
                  (uniq (pm_userIds m @ here)) (pm_teamIds m) (length here)))
                (w\<lparr>comments := comments w @ [c], mentions := mentions w @ new_mentions (cm_id c) m\<rparr>)))))))))"

definition comment_or_throw :: "world \<Rightarrow> string \<Rightarrow> comment_row res" where
  "comment_or_throw w cid = found (DbError P2025) (find_comment w cid)"

definition updateComment :: "env \<Rightarrow> auth_user \<Rightarrow> string \<Rightarrow> string \<Rightarrow> world \<Rightarrow> comment_row res \<times> world" where
  "updateComment e u cid body w =
     attempt (comment_or_throw w cid) w (\<lambda>comment.
     attempt (require (cm_deletedAt comment = None) (BadRequest ''Comment deleted'')) w (\<lambda>_.
     attempt (require (cm_authorUserId comment = au_id u) (Forbidden ''Only the author can edit'')) w (\<lambda>_.
     attempt (require (\<not> (case cm_editLockedAt comment of None \<Rightarrow> False | Some t \<Rightarrow> t < clk e 0)) (Forbidden ''Edit window has expired'')) w (\<lambda>_.
     let m = parseMentions body
     in attempt (validateAndRewriteInlineAttachments w body (cm_taskId comment) (cm_visibility comment)) w (\<lambda>rewrittenBody.
        attempt (require (au_id u \<in> u_id ` set (users w) \<and> mention_fk w m) (DbError P2003)) w (\<lambda>_.
        let rev = \<lparr>rv_commentId = cid, rv_bodyMd = cm_bodyMd comment, rv_editedById = au_id u, rv_editedAt = clk e 1\<rparr>
        in (Inr (comment\<lparr>cm_bodyMd := rewrittenBody\<rparr>), emit (CommentEvent (CommentEdited_ev cid (cm_taskId comment) (au_id u)))
             (w\<lparr>revisions := revisions w @ [rev],
                mentions := delete_where (\<lambda>r. mn_commentId r = cid) (mentions w) @ new_mentions cid m,
                comments := update_where (\<lambda>c. cm_id c = cid) (\<lambda>c. c\<lparr>cm_bodyMd := rewrittenBody\<rparr>) (comments w)\<rparr>))))))))"

definition admin_or_manager :: "auth_user \<Rightarrow> project_role option \<Rightarrow> bool" where
  "admin_or_manager u role \<longleftrightarrow> au_kind u = UInternal \<and> au_companyRole u = Some Admin \<or> role = Some Manager"

definition author_in_window :: "env \<Rightarrow> auth_user \<Rightarrow> comment_row \<Rightarrow> bool" where
  "author_in_window e u c \<longleftrightarrow> cm_authorUserId c = au_id u \<and> (case cm_editLockedAt c of None \<Rightarrow> False | Some t \<Rightarrow> clk e 0 \<le> t)"

definition deleteComment :: "env \<Rightarrow> auth_user \<Rightarrow> string \<Rightarrow> world \<Rightarrow> unit res \<times> world" where
  "deleteComment e u cid w =
     attempt (comment_or_throw w cid) w (\<lambda>comment.
     attempt (task_or_throw w (cm_taskId comment)) w (\<lambda>task.
     attempt (effectiveRole w u (t_projectId task)) w (\<lambda>role.
     attempt (require (author_in_window e u comment \<or> admin_or_manager u role) (Forbidden ''Cannot delete this comment'')) w (\<lambda>_.
     let live = (\<lambda>c. cm_id c = cid \<and> cm_deletedAt c = None);
         w' = w\<lparr>comments := update_where live (\<lambda>c. c\<lparr>cm_deletedAt := Some (clk e 1), cm_deletedById := Some (au_id u)\<rparr>) (comments w)\<rparr>
     in (Inr (), if 0 < count_where live (comments w) then emit (CommentEvent (CommentDeleted_ev cid (au_id u))) w' else w')))))"

section \<open>Reading comments\<close>

text \<open>The buckets of a map in the order of their first insertion.\<close>

fun add_reaction :: "string \<Rightarrow> reaction_row \<Rightarrow> (string \<times> nat \<times> bool) list \<Rightarrow> (string \<times> nat \<times> bool) list" where
  "add_reaction me r [] = [(rx_emoji r, 1, rx_userId r = me)]"
| "add_reaction me r ((e, n, you) # bs) =
     (if e = rx_emoji r then (e, n + 1, you \<or> rx_userId r = me) # bs else (e, n, you) # add_reaction me r bs)"

definition group_reactions :: "string \<Rightarrow> reaction_row list \<Rightarrow> (string \<times> nat \<times> bool) list" where
  "group_reactions me rs = fold (add_reaction me) rs []"

record quoted_snippet =
  qs_commentId :: string
  qs_author :: "(string \<times> string \<times> string option) option"
  qs_excerpt :: string
  qs_deleted :: bool

record comment_view =
  vc_comment :: comment_row
  vc_author :: "(string \<times> string \<times> string option) option"
  vc_mentions :: "mention_row list"
  vc_reactions :: "(string \<times> nat \<times> bool) list"
  vc_editedCount :: nat
  vc_quotedSnippet :: "quoted_snippet option"

definition user_card :: "world \<Rightarrow> string \<Rightarrow> (string \<times> string \<times> string option) option" where
  "user_card w uid = map_option (\<lambda>r. (u_id r, u_name r, u_avatarUrl r)) (find_row u_id uid (users w))"

definition slice :: "int \<Rightarrow> int \<Rightarrow> string \<Rightarrow> string" where
  "slice a b s = take (nat (b - a)) (drop (nat a) s)"

definition excerpt :: "int \<Rightarrow> int \<Rightarrow> string \<Rightarrow> string" where
  "excerpt a b body = (let start = max 0 (min a (int (length body))) in slice start (max start (min b (int (length body)))) body)"

definition quoted_snippet_of :: "world \<Rightarrow> comment_row \<Rightarrow> quoted_snippet option" where
  "quoted_snippet_of w c =
     (case (Option.bind (cm_quotedCommentId c) (find_comment w), cm_quotedRangeStart c, cm_quotedRangeEnd c) of
        (Some src, Some a, Some b) \<Rightarrow>
          Some (if cm_deletedAt src \<noteq> None
            then \<lparr>qs_commentId = cm_id src, qs_author = user_card w (cm_authorUserId src), qs_excerpt = [], qs_deleted = True\<rparr>
            else \<lparr>qs_commentId = cm_id src, qs_author = user_card w (cm_authorUserId src),
                  qs_excerpt = excerpt a b (cm_bodyMd src), qs_deleted = False\<rparr>)
      | _ \<Rightarrow> None)"

definition comment_view_of :: "world \<Rightarrow> auth_user \<Rightarrow> comment_row \<Rightarrow> comment_view" where
  "comment_view_of w u c = \<lparr>vc_comment = c, vc_author = user_card w (cm_authorUserId c),
     vc_mentions = filter (\<lambda>m. mn_commentId m = cm_id c) (mentions w),
     vc_reactions = group_reactions (au_id u) (filter (\<lambda>r. rx_commentId r = cm_id c) (reactions w)),
     vc_editedCount = length (filter (\<lambda>r. rv_commentId r = cm_id c) (revisions w)),
     vc_quotedSnippet = quoted_snippet_of w c\<rparr>"

definition listed_comment :: "project_role \<Rightarrow> comment_row \<Rightarrow> bool" where
  "listed_comment role c \<longleftrightarrow> cm_deletedAt c = None \<and> (role = Client \<longrightarrow> cm_visibility c = VClientVisible)"

definition listByTask :: "auth_user \<Rightarrow> string \<Rightarrow> world \<Rightarrow> comment_view list res" where
  "listByTask u tid w =
     and_then (task_or_throw w tid) (\<lambda>task.
     and_then (effectiveRole w u (t_projectId task)) (\<lambda>role.
     and_then (found (Forbidden ''No access'') role) (\<lambda>r.
     Inr (map (comment_view_of w u) (order_by (\<lambda>a b. cm_createdAt a \<le> cm_createdAt b)
       (filter (\<lambda>c. cm_taskId c = tid \<and> listed_comment r c) (comments w)))))))"

definition reaction_key :: "reaction_row \<Rightarrow> string \<times> string \<times> string" where
  "reaction_key r = (rx_commentId r, rx_userId r, rx_emoji r)"

definition refused_emoji :: "string \<Rightarrow> api_error" where
  "refused_emoji emoji = BadRequest (''Emoji '' @ quoted emoji @ '' is not in the allowed set'')"

definition addReaction :: "auth_user \<Rightarrow> string \<Rightarrow> string \<Rightarrow> world \<Rightarrow> reaction_row res \<times> world" where
  "addReaction u cid emoji w =
     attempt (require (isAllowedEmoji emoji) (refused_emoji emoji)) w (\<lambda>_.
     attempt (found (NotFound ''Comment not found'') (find_comment w cid)) w (\<lambda>comment.
     attempt (require (cm_deletedAt comment = None) (NotFound ''Comment not found'')) w (\<lambda>_.
     attempt (task_or_throw w (cm_taskId comment)) w (\<lambda>task.
     attempt (canSeeTask w u (t_projectId task) (t_visibility task)) w (\<lambda>canSee.
     attempt (require canSee (Forbidden ''No access to comment'')) w (\<lambda>_.
     let r = \<lparr>rx_commentId = cid, rx_userId = au_id u, rx_emoji = emoji\<rparr>
     in attempt (require (reaction_key r \<in> reaction_key ` set (reactions w) \<or> au_id u \<in> u_id ` set (users w)) (DbError P2003)) w (\<lambda>_.
        (Inr r, emit (CommentEvent (ReactionAdded_ev cid (cm_taskId comment) (au_id u) emoji))
          (w\<lparr>reactions := insert_absent reaction_key r (reactions w)\<rparr>)))))))))"

definition removeReaction :: "auth_user \<Rightarrow> string \<Rightarrow> string \<Rightarrow> world \<Rightarrow> unit res \<times> world" where
  "removeReaction u cid emoji w =
     attempt (require (isAllowedEmoji emoji) (refused_emoji emoji)) w (\<lambda>_.
     attempt (found (NotFound ''Comment not found'') (find_comment w cid)) w (\<lambda>comment.
     attempt (task_or_throw w (cm_taskId comment)) w (\<lambda>task.
     attempt (canSeeTask w u (t_projectId task) (t_visibility task)) w (\<lambda>canSee.
     attempt (require canSee (Forbidden ''No access to comment'')) w (\<lambda>_.
     (Inr (), emit (CommentEvent (ReactionRemoved_ev cid (cm_taskId comment) (au_id u) emoji))
       (w\<lparr>reactions := delete_where (\<lambda>r. reaction_key r = (cid, au_id u, emoji)) (reactions w)\<rparr>)))))))"

definition listRevisions :: "auth_user \<Rightarrow> string \<Rightarrow> world \<Rightarrow> (revision_row \<times> (string \<times> string \<times> string option) option) list res" where
  "listRevisions u cid w =
     and_then (found (NotFound ''Comment not found'') (find_comment w cid)) (\<lambda>comment.
     and_then (task_or_throw w (cm_taskId comment)) (\<lambda>task.
     and_then (canSeeTask w u (t_projectId task) (t_visibility task)) (\<lambda>canSee.
     and_then (require canSee (Forbidden ''No access to comment'')) (\<lambda>_.
     and_then (effectiveRole w u (t_projectId task)) (\<lambda>role.
     and_then (require (cm_authorUserId comment = au_id u \<or> admin_or_manager u role) (Forbidden ''Cannot read revision history'')) (\<lambda>_.
     Inr (map (\<lambda>r. (r, user_card w (rv_editedById r)))
       (order_by (\<lambda>a b. rv_editedAt a \<le> rv_editedAt b) (filter (\<lambda>r. rv_commentId r = cid) (revisions w))))))))))"

text \<open>A comment with the id, the title, the number and the project key of its task.\<close>

definition recent_comment :: "world \<Rightarrow> comment_row \<Rightarrow> (comment_row \<times> task_row \<times> string) option" where
  "recent_comment w c = Option.bind (find_task w (cm_taskId c)) (\<lambda>t.
     map_option (\<lambda>p. (c, t, p_key p)) (find_project w (t_projectId t)))"

definition listRecentForProject :: "auth_user \<Rightarrow> string \<Rightarrow> int option \<Rightarrow> world \<Rightarrow> (comment_row \<times> task_row \<times> string) list res" where
  "listRecentForProject u pid limit w =
     and_then (effectiveRole w u pid) (\<lambda>role.
     and_then (found (Forbidden ''No access'') role) (\<lambda>r.
     Inr (take (nat (min (max (override limit 20) 1) 50)) (List.map_filter (recent_comment w)
       (order_by (\<lambda>a b. cm_createdAt b \<le> cm_createdAt a)
         (filter (\<lambda>c. listed_comment r c \<and> map_option t_projectId (find_task w (cm_taskId c)) = Some pid) (comments w)))))))"

end
