(* ===== verification/CommentLaws.thy ===== *)
theory CommentLaws
  imports Comments "HOL-Library.Sublist"
begin

text \<open>
  Laws of the comment service: rewriting leaves no attachment reference in a text, the invariant of
  the discussion tables, who may change a comment and until when, and the history of texts as an
  abstract machine that only ever appends.
\<close>

section \<open>Rewriting references\<close>

abbreviation attachment_at :: "string matcher" where
  "attachment_at \<equiv> INLINE_ATTACHMENT_REGEX"

lemma id_between_iff:
  assumes "length op = n"
  shows "id_between op cl s \<noteq> None \<longleftrightarrow> take n s = op \<and> length (take 36 (drop n s)) = 36 \<and>
    list_all is_id_char (take 36 (drop n s)) \<and> take (length cl) (drop (n + 36) s) = cl"
  unfolding id_between_def assms Let_def by (simp split: if_splits)

lemma attachment_at_iff:
  "attachment_at s \<noteq> None \<longleftrightarrow> take 11 s = ''attachment:'' \<and> length (take 36 (drop 11 s)) = 36 \<and> list_all is_id_char (take 36 (drop 11 s))"
  unfolding INLINE_ATTACHMENT_REGEX_def by (subst id_between_iff [where n = 11]) simp_all

lemma attachment_at_head: "take 11 s \<noteq> ''attachment:'' \<Longrightarrow> attachment_at s = None"
  using attachment_at_iff [of s] by blast

lemma attachment_at_prefix:
  assumes "take 47 s = take 47 s'"
  shows "attachment_at s = None \<longleftrightarrow> attachment_at s' = None"
proof -
  have "take 11 (take 47 s) = take 11 (take 47 s')" and "drop 11 (take 47 s) = drop 11 (take 47 s')"
    using assms by simp_all
  then have "take 11 s = take 11 s'" and "take 36 (drop 11 s) = take 36 (drop 11 s')" by (simp_all add: drop_take)
  then show ?thesis using attachment_at_iff [of s] attachment_at_iff [of s'] by (metis (no_types))
qed

lemma attachment_at_no_slash:
  assumes "attachment_at s \<noteq> None"
  shows "CHR ''/'' \<notin> set (take 47 s)"
proof -
  have "take 47 s = take 11 s @ take 36 (drop 11 s)" by (simp add: take_add [of 11 36, simplified])
  moreover have "CHR ''/'' \<notin> set (take 36 (drop 11 s))"
    using assms unfolding attachment_at_iff list_all_iff by (auto simp: is_id_char_def)
  ultimately show ?thesis using assms unfolding attachment_at_iff by auto
qed

lemma attachment_at_first: "c \<noteq> CHR ''a'' \<Longrightarrow> attachment_at (c # s) = None"
  by (rule attachment_at_head) simp

lemma attachment_at_second: "d \<noteq> CHR ''t'' \<Longrightarrow> attachment_at (CHR ''a'' # d # s) = None"
  by (rule attachment_at_head) simp

fun unmarked :: "string \<Rightarrow> bool" where
  "unmarked [] = True"
| "unmarked (c # s) = (attachment_at (c # s) = None \<and> unmarked s)"

lemma not_id_char_t: "is_id_char d \<Longrightarrow> d \<noteq> CHR ''t''"
  by (auto simp: is_id_char_def)

lemma unmarked_id:
  assumes "list_all is_id_char i" and "unmarked (CHR ''/'' # s)"
  shows "unmarked (i @ CHR ''/'' # s)"
  using assms(1)
proof (induction i)
  case (Cons c i)
  obtain d r where "i @ CHR ''/'' # s = d # r" "d \<noteq> CHR ''t''"
    using Cons.prems not_id_char_t by (cases i) auto
  then have "attachment_at (c # i @ CHR ''/'' # s) = None"
    by (cases "c = CHR ''a''") (simp_all add: attachment_at_first attachment_at_second)
  with Cons show ?case by simp
qed (use assms(2) in simp)

lemma unmarked_url:
  assumes "list_all is_id_char i" and "unmarked s"
  shows "unmarked (inline_url i @ s)"
proof -
  have "unmarked (CHR ''/'' # ''inline'' @ s)" using assms(2) by (simp add: attachment_at_first)
  then have "unmarked (i @ CHR ''/'' # ''inline'' @ s)" by (rule unmarked_id [OF assms(1)])
  moreover have "attachment_at (''attachments/'' @ r) = None" for r
    by (rule attachment_at_head) simp
  ultimately show ?thesis by (simp add: inline_url_def attachment_at_first attachment_at_second)
qed

lemma replace_prefix:
  "CHR ''/'' \<notin> set (take n (replace_all attachment_at inline_url 0 s)) \<Longrightarrow>
    take n (replace_all attachment_at inline_url 0 s) = take n s"
proof (induction s arbitrary: n)
  case (Cons c s)
  show ?case
  proof (cases n)
    case (Suc k)
    with Cons show ?thesis by (cases "attachment_at (c # s)") (auto simp: inline_url_def)
  qed simp
qed simp

lemma unmarked_replaced: "unmarked (replace_all attachment_at inline_url k s)"
proof (induction s arbitrary: k)
  case (Cons c s)
  show ?case
  proof (cases k)
    case 0
    show ?thesis
    proof (cases "attachment_at (c # s)")
      case None
      let ?r = "replace_all attachment_at inline_url 0 s"
      have "attachment_at (c # ?r) = None"
      proof (rule ccontr)
        assume *: "attachment_at (c # ?r) \<noteq> None"
        then have "CHR ''/'' \<notin> set (take 46 ?r)" using attachment_at_no_slash [OF *] by auto
        then have "take 47 (c # ?r) = take 47 (c # s)" using replace_prefix by simp
        with * None show False using attachment_at_prefix [of "c # ?r" "c # s"] by simp
      qed
      with None 0 Cons show ?thesis by simp
    next
      case (Some am)
      then obtain i n where am: "am = (i, n)" "list_all is_id_char i"
        by (auto simp: INLINE_ATTACHMENT_REGEX_def id_between_def Let_def split: if_splits)
      with Some 0 Cons show ?thesis by (simp add: unmarked_url)
    qed
  qed (use Cons in simp)
qed simp

lemma unmarked_no_refs: "unmarked s \<Longrightarrow> match_all attachment_at 0 s = []"
  by (induction s) auto

lemma no_refs_in_stored:
  assumes "validateAndRewriteInlineAttachments w body tid vis = Inr s"
  shows "parseAttachmentRefs s = []"
proof (cases "parseAttachmentRefs body = []")
  case False
  with assms have "s = rewrite_refs body"
    by (auto simp: validateAndRewriteInlineAttachments_def Let_def and_then_Inr)
  then show ?thesis
    using unmarked_no_refs [OF unmarked_replaced] by (simp add: parseAttachmentRefs_def rewrite_refs_def uniq_def)
qed (use assms in \<open>simp add: validateAndRewriteInlineAttachments_def\<close>)

section \<open>The invariant\<close>

text \<open>What no operation changes of a comment.\<close>

definition frame :: "comment_row \<Rightarrow> comment_row" where
  "frame c = c\<lparr>cm_bodyMd := [], cm_deletedAt := None, cm_deletedById := None\<rparr>"

text \<open>
  A reply hangs on a comment that starts a thread of the same task; a quote names a comment of the same task
  and a range that is not empty.
\<close>

definition reply_ok :: "comment_row set \<Rightarrow> comment_row \<Rightarrow> bool" where
  "reply_ok cs c \<longleftrightarrow> (case cm_parentCommentId c of None \<Rightarrow> True
     | Some p \<Rightarrow> \<exists>q \<in> cs. cm_id q = p \<and> cm_taskId q = cm_taskId c \<and> cm_parentCommentId q = None)"

definition quote_ok :: "comment_row set \<Rightarrow> comment_row \<Rightarrow> bool" where
  "quote_ok cs c \<longleftrightarrow> (case cm_quotedCommentId c of None \<Rightarrow> True
     | Some p \<Rightarrow> (\<exists>q \<in> cs. cm_id q = p \<and> cm_taskId q = cm_taskId c) \<and>
         (\<exists>a b. cm_quotedRangeStart c = Some a \<and> cm_quotedRangeEnd c = Some b \<and> 0 \<le> a \<and> a < b))"

definition threads_ok :: "comment_row list \<Rightarrow> bool" where
  "threads_ok cs \<longleftrightarrow> distinct (map cm_id cs) \<and> (\<forall>c \<in> set cs. reply_ok (set cs) c \<and> quote_ok (set cs) c)"

definition comment_refs :: "world \<Rightarrow> string set" where
  "comment_refs w = mn_commentId ` set (mentions w) \<union> rx_commentId ` set (reactions w) \<union> rv_commentId ` set (revisions w)"

definition mention_key :: "mention_row \<Rightarrow> string \<times> string option \<times> string option" where
  "mention_key m = (mn_commentId m, mn_userId m, mn_teamId m)"

definition stored_ok :: "comment_row \<Rightarrow> bool" where
  "stored_ok c \<longleftrightarrow> parseAttachmentRefs (cm_bodyMd c) = [] \<and> (cm_deletedAt c = None \<longleftrightarrow> cm_deletedById c = None)"

definition comments_inv :: "world \<Rightarrow> bool" where
  "comments_inv w \<longleftrightarrow> threads_ok (map frame (comments w)) \<and> cm_taskId ` set (comments w) \<subseteq> t_id ` set (tasks w) \<and>
     comment_refs w \<subseteq> cm_id ` set (comments w) \<and> distinct (map mention_key (mentions w)) \<and>
     distinct (map reaction_key (reactions w)) \<and> list_all stored_ok (comments w)"

lemmas comment_steps = attempt_inv [where P = comments_inv]

lemma frame_simps [simp]:
  "cm_id (frame c) = cm_id c" "cm_taskId (frame c) = cm_taskId c" "cm_parentCommentId (frame c) = cm_parentCommentId c"
  "cm_quotedCommentId (frame c) = cm_quotedCommentId c" "cm_quotedRangeStart (frame c) = cm_quotedRangeStart c"
  "cm_quotedRangeEnd (frame c) = cm_quotedRangeEnd c" "frame (c\<lparr>cm_bodyMd := b\<rparr>) = frame c"
  "frame (c\<lparr>cm_deletedAt := d, cm_deletedById := x\<rparr>) = frame c"
  by (simp_all add: frame_def)

lemma frame_ok [simp]: "reply_ok cs (frame c) = reply_ok cs c" "quote_ok cs (frame c) = quote_ok cs c"
  by (auto simp: reply_ok_def quote_ok_def split: option.splits)

lemma comments_inv_emit [simp]: "comments_inv (emit ev w) = comments_inv w"
  by (simp add: comments_inv_def comment_refs_def)

lemma threads_ok_snoc:
  assumes "threads_ok cs" and "cm_id c \<notin> cm_id ` set cs" and "reply_ok (set cs) c" and "quote_ok (set cs) c"
  shows "threads_ok (cs @ [c])"
proof -
  have mono: "reply_ok (set cs) x \<Longrightarrow> reply_ok (insert c (set cs)) x" "quote_ok (set cs) x \<Longrightarrow> quote_ok (insert c (set cs)) x" for x
    by (auto simp: reply_ok_def quote_ok_def split: option.splits)
  show ?thesis using assms mono by (auto simp: threads_ok_def)
qed

lemma frames_kept:
  assumes "map frame (comments w') = map frame (comments w)"
  shows "cm_id ` set (comments w') = cm_id ` set (comments w)" "cm_taskId ` set (comments w') = cm_taskId ` set (comments w)"
proof -
  have "map (f \<circ> frame) (comments w') = map (f \<circ> frame) (comments w)" for f :: "comment_row \<Rightarrow> string"
    using arg_cong [OF assms, of "map f"] by simp
  then have "(f \<circ> frame) ` set (comments w') = (f \<circ> frame) ` set (comments w)" for f :: "comment_row \<Rightarrow> string"
    by (metis list.set_map)
  from this [of cm_id] this [of cm_taskId] show "cm_id ` set (comments w') = cm_id ` set (comments w)"
    "cm_taskId ` set (comments w') = cm_taskId ` set (comments w)" by (simp_all add: comp_def)
qed

lemma frame_update: "(\<And>c. frame (f c) = frame c) \<Longrightarrow> map frame (update_where p f cs) = map frame cs"
  by (rule map_update_where)

lemma new_mentions_keys: "distinct (map mention_key (new_mentions cid (parseMentions body)))"
  by (auto simp: new_mentions_def parseMentions_def mention_key_def comp_def distinct_map inj_on_def)

lemma new_mentions_comment: "m \<in> set (new_mentions cid pm) \<Longrightarrow> mn_commentId m = cid"
  by (auto simp: new_mentions_def)

lemma mention_key_other: "mn_commentId m \<noteq> mn_commentId m' \<Longrightarrow> mention_key m \<noteq> mention_key m'"
  by (simp add: mention_key_def)

lemma distinct_mentions_append:
  assumes "distinct (map mention_key ms)" and "\<And>m. m \<in> set ms \<Longrightarrow> mn_commentId m \<noteq> cid"
  shows "distinct (map mention_key (ms @ new_mentions cid (parseMentions body)))"
proof -
  have "mention_key ` set ms \<inter> mention_key ` set (new_mentions cid (parseMentions body)) = {}"
    using assms(2) new_mentions_comment mention_key_other by fastforce
  with assms(1) new_mentions_keys [of cid body] show ?thesis by simp
qed

section \<open>Every operation keeps the invariant\<close>

lemma resolved_parent_ok:
  assumes "threads_ok (map frame cs)" and "comments w = cs" and "cm_taskId c = tid" and "cm_parentCommentId c = resolved_parent w tid p"
  shows "reply_ok (frame ` set cs) c"
proof (cases "cm_parentCommentId c")
  case (Some r)
  then obtain q where q: "find_comment w (the p) = Some q" "cm_taskId q = tid" "r = override (cm_parentCommentId q) (cm_id q)"
    using assms(4) by (auto simp: resolved_parent_def split: if_splits option.splits)
  then have mem: "q \<in> set cs" using find_commentD assms(2) by blast
  have "\<exists>s \<in> set cs. cm_id s = r \<and> cm_taskId s = tid \<and> cm_parentCommentId s = None"
  proof (cases "cm_parentCommentId q")
    case None
    with q mem show ?thesis by auto
  next
    case parent: (Some x)
    with assms(1) mem have "reply_ok (frame ` set cs) (frame q)" by (auto simp: threads_ok_def)
    with parent q show ?thesis by (auto simp: reply_ok_def)
  qed
  with Some assms(3) show ?thesis by (auto simp: reply_ok_def)
qed (simp add: reply_ok_def)

lemma checked_quote_ok:
  assumes "check_quote w (cm_taskId c) quote = Inr qf" and "cm_quotedCommentId c = map_option fst qf"
    and "cm_quotedRangeStart c = map_option (\<lambda>q. fst (snd q)) qf" and "cm_quotedRangeEnd c = map_option (\<lambda>q. snd (snd q)) qf"
  shows "quote_ok (frame ` set (comments w)) c"
proof (cases qf)
  case (Some q)
  then obtain x a b src where q: "q = (x, a, b)" and src: "cm_id src = x" "src \<in> set (comments w)" "cm_taskId src = cm_taskId c" "0 \<le> a" "a < b"
    using assms(1)
    by (auto simp: check_quote_def quoted_range_def and_then_Inr split: option.splits if_splits prod.splits dest!: find_commentD)
  with Some assms show ?thesis by (auto simp: quote_ok_def)
qed (use assms in \<open>simp add: quote_ok_def\<close>)

lemma createComment_inv:
  assumes "comments_inv w" and "uuid e 0 \<notin> cm_id ` set (comments w)"
  shows "comments_inv (snd (createComment e u tid body vis parent quote w))"
  unfolding createComment_def Let_def
proof (intro comment_steps assms(1))
  fix task canSee x y qf s z
  assume task: "task_or_throw w tid = Inr task" and qf: "check_quote w tid quote = Inr qf"
    and s: "validateAndRewriteInlineAttachments w body tid (effective_visibility u task vis) = Inr s"
  let ?c = "new_comment e u tid s (effective_visibility u task vis) (resolved_parent w tid parent) qf"
  let ?w = "w\<lparr>comments := comments w @ [?c], mentions := mentions w @ new_mentions (cm_id ?c) (parseMentions body)\<rparr>"
  have id: "cm_id ?c = uuid e 0" "cm_taskId ?c = tid" by (simp_all add: new_comment_def)
  from assms(1) have th: "threads_ok (map frame (comments w))" by (simp add: comments_inv_def)
  have "reply_ok (frame ` set (comments w)) ?c" by (rule resolved_parent_ok [OF th]) (simp_all add: new_comment_def)
  moreover have "quote_ok (frame ` set (comments w)) ?c" by (rule checked_quote_ok) (use qf in \<open>simp_all add: new_comment_def\<close>)
  ultimately have "threads_ok (map frame (comments w) @ [frame ?c])"
    using assms(2) id by (intro threads_ok_snoc th) (simp_all add: image_image)
  moreover have "tid \<in> t_id ` set (tasks w)" using task by (auto simp: task_or_throw_def dest: find_taskD)
  moreover have "stored_ok ?c" using no_refs_in_stored [OF s] by (simp add: stored_ok_def new_comment_def)
  moreover have "uuid e 0 \<notin> mn_commentId ` set (mentions w)"
    using assms unfolding comments_inv_def comment_refs_def by blast
  then have "distinct (map mention_key (mentions w @ new_mentions (uuid e 0) (parseMentions body)))"
    using assms(1) by (intro distinct_mentions_append) (simp add: comments_inv_def, metis image_eqI)
  moreover have "comment_refs ?w \<subseteq> cm_id ` set (comments w) \<union> {uuid e 0}"
    using assms(1) id by (auto simp: comments_inv_def comment_refs_def dest: new_mentions_comment)
  ultimately have "comments_inv ?w" using assms(1) id unfolding comments_inv_def by (auto simp: id)
  then show "comments_inv (snd (Inr ?c, emit (CommentEvent (CommentAdded_ev (cm_id ?c) tid (au_id u) (effective_visibility u task vis)
      (uniq (pm_userIds (parseMentions body) @ here_watchers w u tid (parseMentions body))) (pm_teamIds (parseMentions body))
      (length (here_watchers w u tid (parseMentions body))))) ?w))" by simp
qed

lemma comments_inv_rewrite:
  assumes "comments_inv w" and "\<And>c. frame (f c) = frame c" and "\<And>c. stored_ok c \<Longrightarrow> stored_ok (f c)"
  shows "comments_inv (w\<lparr>comments := update_where p f (comments w)\<rparr>)"
proof -
  let ?w = "w\<lparr>comments := update_where p f (comments w)\<rparr>"
  have fr: "map frame (comments ?w) = map frame (comments w)" using assms(2) by (simp add: frame_update)
  have "list_all stored_ok (update_where p f (comments w))"
    using assms(1,3) by (auto simp: comments_inv_def list_all_iff set_update_where)
  with assms(1) fr frames_kept [OF fr] show ?thesis unfolding comments_inv_def by (simp add: comment_refs_def)
qed

lemma updateComment_inv:
  assumes "comments_inv w"
  shows "comments_inv (snd (updateComment e u cid body w))"
  unfolding updateComment_def Let_def
proof (intro comment_steps assms)
  fix c x y z s v
  assume c: "comment_or_throw w cid = Inr c" and s: "validateAndRewriteInlineAttachments w body (cm_taskId c) (cm_visibility c) = Inr s"
  let ?w1 = "w\<lparr>comments := update_where (\<lambda>c. cm_id c = cid) (\<lambda>c. c\<lparr>cm_bodyMd := s\<rparr>) (comments w)\<rparr>"
  let ?rv = "\<lparr>rv_commentId = cid, rv_bodyMd = cm_bodyMd c, rv_editedById = au_id u, rv_editedAt = clk e 1\<rparr>"
  let ?ms = "delete_where (\<lambda>r. mn_commentId r = cid) (mentions w) @ new_mentions cid (parseMentions body)"
  have w1: "comments_inv ?w1"
    by (rule comments_inv_rewrite [OF assms]) (use no_refs_in_stored [OF s] in \<open>auto simp: stored_ok_def\<close>)
  have cid: "cid \<in> cm_id ` set (comments w)" using c by (auto simp: comment_or_throw_def dest: find_commentD)
  have ids: "cm_id ` set (comments ?w1) = cm_id ` set (comments w)" by (rule frames_kept) (simp add: frame_update)
  have "distinct (map mention_key ?ms)"
    using assms by (intro distinct_mentions_append) (auto simp: comments_inv_def intro: distinct_delete_where)
  moreover have "mn_commentId ` set ?ms \<subseteq> cm_id ` set (comments w)"
  proof -
    have "mn_commentId ` set ?ms \<subseteq> insert cid (mn_commentId ` set (mentions w))" by (auto dest: new_mentions_comment)
    moreover have "mn_commentId ` set (mentions w) \<subseteq> cm_id ` set (comments w)"
      using assms by (simp add: comments_inv_def comment_refs_def)
    ultimately show ?thesis using cid by blast
  qed
  ultimately have "comments_inv (w\<lparr>revisions := revisions w @ [?rv], mentions := ?ms,
      comments := update_where (\<lambda>c. cm_id c = cid) (\<lambda>c. c\<lparr>cm_bodyMd := s\<rparr>) (comments w)\<rparr>)"
    using w1 ids cid unfolding comments_inv_def by (simp add: comment_refs_def)
  then show "comments_inv (snd (Inr (c\<lparr>cm_bodyMd := s\<rparr>), emit (CommentEvent (CommentEdited_ev cid (cm_taskId c) (au_id u)))
      (w\<lparr>revisions := revisions w @ [?rv], mentions := ?ms,
         comments := update_where (\<lambda>c. cm_id c = cid) (\<lambda>c. c\<lparr>cm_bodyMd := s\<rparr>) (comments w)\<rparr>)))" by simp
qed

lemma deleteComment_inv:
  assumes "comments_inv w"
  shows "comments_inv (snd (deleteComment e u cid w))"
proof -
  have "comments_inv (w\<lparr>comments := update_where p (\<lambda>c. c\<lparr>cm_deletedAt := Some d, cm_deletedById := Some x\<rparr>) (comments w)\<rparr>)" for p d x
    by (rule comments_inv_rewrite [OF assms]) (auto simp: stored_ok_def)
  with assms show ?thesis unfolding deleteComment_def Let_def by (intro comment_steps) simp_all
qed

lemma addReaction_inv:
  assumes "comments_inv w"
  shows "comments_inv (snd (addReaction u cid emoji w))"
proof -
  have "comments_inv (w\<lparr>reactions := insert_absent reaction_key r (reactions w)\<rparr>)" if "find_comment w (rx_commentId r) = Some c" for r c
  proof -
    have "rx_commentId r \<in> cm_id ` set (comments w)" using find_commentD [OF that] by (metis image_eqI)
    with assms show ?thesis unfolding comments_inv_def
      by (auto simp: comment_refs_def distinct_insert_absent set_insert_absent)
  qed
  with assms show ?thesis unfolding addReaction_def Let_def by (intro comment_steps) simp_all
qed

lemma removeReaction_inv:
  assumes "comments_inv w"
  shows "comments_inv (snd (removeReaction u cid emoji w))"
proof -
  have "comments_inv (w\<lparr>reactions := delete_where p (reactions w)\<rparr>)" for p
    using assms unfolding comments_inv_def by (auto simp: comment_refs_def distinct_delete_where)
  with assms show ?thesis unfolding removeReaction_def by (intro comment_steps) simp_all
qed

lemma comment_of_other_task:
  assumes "distinct (map cm_id (comments w))" and "q \<in> set (comments w)" and "cm_taskId q \<noteq> tid"
  shows "cm_id q \<notin> comments_of tid w"
proof
  assume "cm_id q \<in> comments_of tid w"
  then obtain r where "r \<in> set (comments w)" "cm_taskId r = tid" "cm_id r = cm_id q" by (auto simp: comments_of_def)
  with assms(1-3) show False by (metis distinct_map inj_on_eq_iff)
qed

text \<open>A thread lies in one task: its deletion leaves the other comments as they are.\<close>

lemma cascade_comments:
  assumes "comments_inv w"
  shows "comments (cascade_task tid w) = delete_where (\<lambda>c. cm_taskId c = tid) (comments w)"
proof -
  have d: "distinct (map cm_id (comments w))" using assms by (simp add: comments_inv_def threads_ok_def comp_def)
  have "c\<lparr>cm_parentCommentId := unless_in (comments_of tid w) (cm_parentCommentId c),
      cm_quotedCommentId := unless_in (comments_of tid w) (cm_quotedCommentId c)\<rparr> = c"
    if c: "c \<in> set (comments w)" "cm_taskId c \<noteq> tid" for c
  proof -
    from assms c(1) have "reply_ok (frame ` set (comments w)) c" "quote_ok (frame ` set (comments w)) c"
      by (auto simp: comments_inv_def threads_ok_def)
    then have "unless_in (comments_of tid w) (cm_parentCommentId c) = cm_parentCommentId c"
      "unless_in (comments_of tid w) (cm_quotedCommentId c) = cm_quotedCommentId c"
      using comment_of_other_task [OF d, of _ tid] c(2)
      by (auto simp: reply_ok_def quote_ok_def unless_in_def split: option.splits)
    then show ?thesis by simp
  qed
  then show ?thesis unfolding cascade_task_def by (simp, intro map_idI) simp
qed

lemma threads_ok_delete:
  assumes "threads_ok (map frame cs)"
  shows "threads_ok (map frame (delete_where (\<lambda>c. cm_taskId c = tid) cs))"
  using assms by (fastforce simp: threads_ok_def reply_ok_def quote_ok_def comp_def split: option.splits
    intro: distinct_delete_where)

lemma removeTask_comments_inv:
  assumes "comments_inv w"
  shows "comments_inv (snd (removeTask u tid w))"
proof -
  let ?w = "cascade_task tid w" and ?gone = "comments_of tid w"
  have d: "distinct (map cm_id (comments w))" using assms by (simp add: comments_inv_def threads_ok_def comp_def)
  have kept: "x \<in> cm_id ` set (delete_where (\<lambda>c. cm_taskId c = tid) (comments w))" if "x \<in> cm_id ` set (comments w)" "x \<notin> ?gone" for x
    using that by (auto simp: comments_of_def)
  have "comment_refs ?w \<subseteq> comment_refs w - ?gone" by (auto simp: comment_refs_def cascade_task_def)
  with assms kept have "comment_refs ?w \<subseteq> cm_id ` set (comments ?w)"
    unfolding cascade_comments [OF assms] comments_inv_def by blast
  moreover have "cm_taskId ` set (comments ?w) \<subseteq> t_id ` set (tasks ?w)"
    using assms unfolding cascade_comments [OF assms] cascade_ids by (auto simp: comments_inv_def)
  moreover have "distinct (map mention_key (mentions ?w))" "distinct (map reaction_key (reactions ?w))"
    using assms by (simp_all add: comments_inv_def cascade_task_def distinct_delete_where)
  ultimately have "comments_inv ?w"
    using assms threads_ok_delete [of "comments w" tid] unfolding comments_inv_def cascade_comments [OF assms]
    by (simp add: list_all_iff)
  with assms show ?thesis unfolding removeTask_def by (intro comment_steps) simp_all
qed

datatype comment_op =
    CreateComment env auth_user string string "visibility option" "string option" "quote_input option"
  | UpdateComment env auth_user string string
  | DeleteComment env auth_user string
  | AddReaction auth_user string string
  | RemoveReaction auth_user string string
  | RemoveTaskOf auth_user string

fun exec_comment :: "comment_op \<Rightarrow> world \<Rightarrow> world" where
  "exec_comment (CreateComment e u tid body vis parent quote) w = snd (createComment e u tid body vis parent quote w)"
| "exec_comment (UpdateComment e u cid body) w = snd (updateComment e u cid body w)"
| "exec_comment (DeleteComment e u cid) w = snd (deleteComment e u cid w)"
| "exec_comment (AddReaction u cid emoji) w = snd (addReaction u cid emoji w)"
| "exec_comment (RemoveReaction u cid emoji) w = snd (removeReaction u cid emoji w)"
| "exec_comment (RemoveTaskOf u tid) w = snd (removeTask u tid w)"

fun new_comment_id :: "comment_op \<Rightarrow> world \<Rightarrow> bool" where
  "new_comment_id (CreateComment e u tid body vis parent quote) w = (uuid e 0 \<notin> cm_id ` set (comments w))"
| "new_comment_id _ w = True"

section \<open>The history of texts\<close>

text \<open>Every text a comment has had, the current one last.\<close>

definition histories :: "world \<Rightarrow> string \<Rightarrow> (string \<times> string list) option" where
  "histories w cid = map_option (\<lambda>c. (cm_taskId c, map rv_bodyMd (filter (\<lambda>r. rv_commentId r = cid) (revisions w)) @ [cm_bodyMd c]))
     (find_comment w cid)"

text \<open>
  What may happen to histories, by name: one begins on a task with a given text, one grows at its end by a given text,
  those of a task are dropped whole.
\<close>

datatype history_event = Writes string string | Edits string string | Drops string | Stays

inductive history_step :: "history_event \<Rightarrow> (string \<Rightarrow> (string \<times> string list) option) \<Rightarrow> (string \<Rightarrow> (string \<times> string list) option) \<Rightarrow> bool" where
  written: "h cid = None \<Longrightarrow> history_step (Writes tid text) h (h(cid \<mapsto> (tid, [text])))"
| edited: "h cid = Some (tid, vs) \<Longrightarrow> history_step (Edits cid text) h (h(cid \<mapsto> (tid, vs @ [text])))"
| dropped: "history_step (Drops tid) h (h |` {cid. \<forall>vs. h cid \<noteq> Some (tid, vs)})"

inductive_cases history_stepE: "history_step l h h'"

fun history_label :: "comment_op \<Rightarrow> history_event" where
  "history_label (CreateComment e u tid body vis parent quote) = Writes tid (rewrite_refs body)"
| "history_label (UpdateComment e u cid body) = Edits cid (rewrite_refs body)"
| "history_label (RemoveTaskOf u tid) = Drops tid"
| "history_label _ = Stays"

text \<open>A history that starts with given texts on a task goes on doing so until its task is dropped.\<close>

definition starts_with_texts :: "string \<Rightarrow> string \<Rightarrow> string list \<Rightarrow> (string \<Rightarrow> (string \<times> string list) option) \<Rightarrow> bool" where
  "starts_with_texts cid tid vs h \<longleftrightarrow> (\<exists>more. h cid = Some (tid, vs @ more))"

lemma history_step_starts:
  "history_step l h h' \<Longrightarrow> l \<noteq> Drops tid \<Longrightarrow> starts_with_texts cid tid vs h \<Longrightarrow> starts_with_texts cid tid vs h'"
  by (auto simp: starts_with_texts_def elim!: history_stepE)

lemma replace_none: "match_all m 0 s = [] \<Longrightarrow> replace_all m render 0 s = s"
  by (induction s) (auto split: option.splits)

lemma rewritten_body:
  "validateAndRewriteInlineAttachments w body tid vis = Inr s \<Longrightarrow> s = rewrite_refs body"
  by (auto simp: validateAndRewriteInlineAttachments_def Let_def and_then_Inr rewrite_refs_def parseAttachmentRefs_def
      uniq_def replace_none split: if_splits)

interpretation retext: row_update cm_id "\<lambda>c. c\<lparr>cm_bodyMd := b\<rparr>" for b
  by unfold_locales simp

interpretation soft_delete: row_update cm_id "\<lambda>c. c\<lparr>cm_deletedAt := d, cm_deletedById := x\<rparr>" for d x
  by unfold_locales simp

definition keeps_history :: "history_event \<Rightarrow> world \<Rightarrow> world \<Rightarrow> bool" where
  "keeps_history l w w' \<longleftrightarrow> histories w' = histories w \<or> history_step l (histories w) (histories w')"

lemma keeps_refl [simp]: "keeps_history l w w"
  by (simp add: keeps_history_def)

lemma histories_emit [simp]: "histories (emit ev w) = histories w"
  by (simp add: histories_def find_comment_def fun_eq_iff)

lemma keeps_emit [simp]: "keeps_history l w (emit ev w') = keeps_history l w w'"
  by (simp add: keeps_history_def)

lemmas history_steps = attempt_inv [where P = "keeps_history l w" for l w]

lemma createComment_history:
  assumes "comments_inv w" and "uuid e 0 \<notin> cm_id ` set (comments w)"
  shows "keeps_history (Writes tid (rewrite_refs body)) w (snd (createComment e u tid body vis parent quote w))"
proof -
  have "keeps_history (Writes tid (cm_bodyMd c)) w (w\<lparr>comments := comments w @ [c], mentions := ms\<rparr>)"
    if "cm_id c = uuid e 0" "cm_taskId c = tid" for c ms
  proof -
    have "uuid e 0 \<notin> rv_commentId ` set (revisions w)" using assms unfolding comments_inv_def comment_refs_def by blast
    then have "filter (\<lambda>r. rv_commentId r = uuid e 0) (revisions w) = []"
      by (metis (mono_tags, lifting) filter_empty_conv image_eqI)
    moreover have none: "find_comment w (uuid e 0) = None" using assms(2) by (simp add: find_comment_def find_row_None)
    ultimately have "histories (w\<lparr>comments := comments w @ [c], mentions := ms\<rparr>) = (histories w)(uuid e 0 \<mapsto> (tid, [cm_bodyMd c]))"
      using that by (auto simp: histories_def find_comment_def find_row_append fun_eq_iff split: option.splits)
    moreover have "histories w (uuid e 0) = None" using none by (simp add: histories_def)
    ultimately show ?thesis by (simp add: keeps_history_def history_step.written)
  qed
  from this [of "new_comment e u tid (rewrite_refs body) v p q" for v p q] show ?thesis
    unfolding createComment_def Let_def
    by (intro history_steps) (auto simp: new_comment_def dest!: rewritten_body)
qed

lemma updateComment_history: "keeps_history (Edits cid (rewrite_refs body)) w (snd (updateComment e u cid body w))"
proof -
  let ?vs = "\<lambda>c. map rv_bodyMd (filter (\<lambda>r. rv_commentId r = cid) (revisions w)) @ [cm_bodyMd c]"
  have "keeps_history (Edits cid s) w (w\<lparr>revisions := revisions w @ [r], mentions := ms,
      comments := update_where (\<lambda>c. cm_id c = cid) (\<lambda>c. c\<lparr>cm_bodyMd := s\<rparr>) (comments w)\<rparr>)" (is "keeps_history _ w ?w")
    if c: "find_comment w cid = Some c" and r: "rv_commentId r = cid" "rv_bodyMd r = cm_bodyMd c" for c r s ms
  proof -
    have id: "cm_id c = cid" using find_commentD [OF c] by simp
    have "find_comment ?w k = map_option (\<lambda>c. if cm_id c = cid then c\<lparr>cm_bodyMd := s\<rparr> else c) (find_comment w k)" for k
      by (simp add: find_comment_def retext.find_updated)
    moreover have "find_comment w k = Some d \<Longrightarrow> cm_id d = k" for k d by (blast dest: find_commentD)
    ultimately have "histories ?w = (histories w)(cid \<mapsto> (cm_taskId c, ?vs c @ [s]))"
      using c r id by (auto simp: histories_def fun_eq_iff option.map_comp comp_def intro!: option.map_cong)
    moreover have "history_step (Edits cid s) (histories w) ((histories w)(cid \<mapsto> (cm_taskId c, ?vs c @ [s])))"
      by (rule history_step.edited) (simp add: histories_def c)
    ultimately have "history_step (Edits cid s) (histories w) (histories ?w)" by (simp only:)
    then show ?thesis by (simp add: keeps_history_def)
  qed
  then show ?thesis unfolding updateComment_def Let_def
    by (intro history_steps) (auto simp: comment_or_throw_def dest!: rewritten_body)
qed

lemma deleteComment_history: "keeps_history l w (snd (deleteComment e u cid w))"
proof -
  have "histories (w\<lparr>comments := update_where p (\<lambda>c. c\<lparr>cm_deletedAt := d, cm_deletedById := x\<rparr>) (comments w)\<rparr>) = histories w" for p d x
    by (auto simp: histories_def find_comment_def soft_delete.find_updated option.map_comp comp_def intro!: ext option.map_cong)
  then show ?thesis unfolding deleteComment_def Let_def by (intro history_steps) (simp_all add: keeps_history_def)
qed

lemma reactions_history [simp]: "histories (w\<lparr>reactions := rs\<rparr>) = histories w"
  by (simp add: histories_def find_comment_def fun_eq_iff)

lemma find_row_delete_where:
  "distinct (map key rows) \<Longrightarrow> find_row key k (delete_where p rows) = (case find_row key k rows of None \<Rightarrow> None | Some r \<Rightarrow> if p r then None else Some r)"
  by (induction rows) (auto simp flip: find_row_None split: option.splits)

lemma removeTask_history:
  assumes "comments_inv w"
  shows "keeps_history (Drops tid) w (snd (removeTask u tid w))"
proof -
  let ?w = "cascade_task tid w" and ?gone = "comments_of tid w"
  have d: "distinct (map cm_id (comments w))" using assms by (simp add: comments_inv_def threads_ok_def comp_def)
  have f: "find_comment ?w k = (case find_comment w k of None \<Rightarrow> None | Some c \<Rightarrow> if cm_taskId c = tid then None else Some c)" for k
    by (simp add: find_comment_def cascade_comments [OF assms] find_row_delete_where [OF d])
  let ?kept = "{k. \<forall>vs. histories w k \<noteq> Some (tid, vs)}"
  have "histories ?w k = (histories w |` ?kept) k" for k
  proof (cases "find_comment w k")
    case None
    with f [of k] show ?thesis by (simp add: histories_def restrict_map_def)
  next
    case (Some c)
    then have c: "c \<in> set (comments w)" "cm_id c = k" by (auto dest: find_commentD)
    show ?thesis
    proof (cases "cm_taskId c = tid")
      case True
      with Some have "k \<notin> ?kept" by (simp add: histories_def)
      then have "(histories w |` ?kept) k = None" by (rule restrict_out)
      with f [of k] Some True show ?thesis by (simp add: histories_def)
    next
      case False
      with comment_of_other_task [OF d c(1), of tid] c(2) have k: "k \<notin> ?gone" by simp
      then have "filter (\<lambda>r. rv_commentId r = k) (revisions ?w) = filter (\<lambda>r. rv_commentId r = k) (revisions w)"
        by (auto simp: cascade_task_def delete_where_def intro!: filter_cong)
      then have "histories ?w k = histories w k" using f [of k] Some False by (simp add: histories_def)
      moreover have "k \<in> ?kept" using Some False by (simp add: histories_def)
      ultimately show ?thesis by (simp only: restrict_in)
    qed
  qed
  then have "histories ?w = histories w |` ?kept" by (rule ext)
  then have "keeps_history (Drops tid) w ?w" by (simp add: keeps_history_def history_step.dropped)
  then show ?thesis unfolding removeTask_def by (intro history_steps) simp_all
qed

interpretation comment_runs: labelled_system comments_inv new_comment_id exec_comment histories "\<lambda>op. history_step (history_label op)"
proof
  fix w op assume "comments_inv w" and "new_comment_id op w"
  then show "comments_inv (exec_comment op w)"
    by (cases op) (simp_all add: createComment_inv updateComment_inv deleteComment_inv addReaction_inv removeReaction_inv removeTask_comments_inv)
next
  fix w op assume "comments_inv w" and "new_comment_id op w"
  moreover have "keeps_history l w (snd (addReaction u cid emoji w))" "keeps_history l w (snd (removeReaction u cid emoji w))" for l u cid emoji
    unfolding addReaction_def removeReaction_def Let_def by (intro history_steps; simp add: keeps_history_def)+
  ultimately have "keeps_history (history_label op) w (exec_comment op w)"
    by (cases op) (simp_all add: createComment_history updateComment_history deleteComment_history removeTask_history)
  then show "histories (exec_comment op w) = histories w \<or> history_step (history_label op) (histories w) (histories (exec_comment op w))"
    by (simp add: keeps_history_def)
qed

section \<open>Operation by operation\<close>

lemma createComment_keeps:
  "find_comment w cid = Some c \<Longrightarrow> find_comment (snd (createComment e u tid body vis parent quote w)) cid = Some c"
  unfolding createComment_def Let_def
  by (intro attempt_inv [where P = "\<lambda>w. find_comment w cid = Some c"]) (simp_all add: find_comment_def find_row_append emit_def)

lemma reaction_keeps:
  "find_comment w cid = Some c \<Longrightarrow> find_comment (snd (addReaction u k emoji w)) cid = Some c"
  "find_comment w cid = Some c \<Longrightarrow> find_comment (snd (removeReaction u k emoji w)) cid = Some c"
  unfolding addReaction_def removeReaction_def Let_def
  by (intro attempt_inv [where P = "\<lambda>w. find_comment w cid = Some c"]; simp add: find_comment_def emit_def)+

lemma removeTask_keeps:
  assumes "comments_inv w" and "find_comment w cid = Some c" and "find_comment (snd (removeTask u tid w)) cid = Some c'"
  shows "c' = c"
proof -
  have d: "distinct (map cm_id (comments w))" using assms(1) by (simp add: comments_inv_def threads_ok_def comp_def)
  have "find_comment (snd (removeTask u tid w)) cid \<in> {None, Some c}"
    unfolding removeTask_def
    by (intro attempt_inv [where P = "\<lambda>w. find_comment w cid \<in> {None, Some c}"])
      (simp_all add: assms(2) find_comment_def cascade_comments [OF assms(1)] find_row_delete_where [OF d] assms(2) [unfolded find_comment_def])
  with assms(3) show ?thesis by simp
qed

text \<open>What an edit and a deletion do, each when it does anything.\<close>

definition edit_allowed :: "env \<Rightarrow> auth_user \<Rightarrow> comment_row \<Rightarrow> bool" where
  "edit_allowed e u c \<longleftrightarrow> cm_authorUserId c = au_id u \<and> cm_deletedAt c = None \<and> (\<forall>t. cm_editLockedAt c = Some t \<longrightarrow> clk e 0 \<le> t)"

definition delete_allowed :: "env \<Rightarrow> auth_user \<Rightarrow> comment_row \<Rightarrow> world \<Rightarrow> bool" where
  "delete_allowed e u c w \<longleftrightarrow> author_in_window e u c \<or>
     (\<exists>t r. find_task w (cm_taskId c) = Some t \<and> effectiveRole w u (t_projectId t) = Inr r \<and> admin_or_manager u r)"

lemma updateComment_effect:
  assumes "find_comment w cid = Some c"
  shows "find_comment (snd (updateComment e u k body w)) cid = Some c \<or>
    k = cid \<and> edit_allowed e u c \<and> (\<exists>s. find_comment (snd (updateComment e u k body w)) cid = Some (c\<lparr>cm_bodyMd := s\<rparr>))"
    (is "?P (snd (updateComment e u k body w))")
  unfolding updateComment_def Let_def
proof (intro attempt_inv [where P = ?P])
  fix d :: comment_row and x y z s v
  let ?w = "w\<lparr>revisions := revisions w @ [\<lparr>rv_commentId = k, rv_bodyMd = cm_bodyMd d, rv_editedById = au_id u, rv_editedAt = clk e 1\<rparr>],
      mentions := delete_where (\<lambda>r. mn_commentId r = k) (mentions w) @ new_mentions k (parseMentions body),
      comments := update_where (\<lambda>c. cm_id c = k) (\<lambda>c. c\<lparr>cm_bodyMd := s\<rparr>) (comments w)\<rparr>"
  assume d: "comment_or_throw w k = Inr d" "require (cm_deletedAt d = None) (BadRequest ''Comment deleted'') = Inr x"
    "require (cm_authorUserId d = au_id u) (Forbidden ''Only the author can edit'') = Inr y"
    "require (\<not> (case cm_editLockedAt d of None \<Rightarrow> False | Some t \<Rightarrow> t < clk e 0)) (Forbidden ''Edit window has expired'') = Inr z"
  have id: "cm_id c = cid" using find_commentD [OF assms] by simp
  have found: "find_comment ?w cid = Some (if cm_id c = k then c\<lparr>cm_bodyMd := s\<rparr> else c)"
    using assms by (simp add: find_comment_def retext.find_updated)
  have "d = c" if "k = cid" using d(1) assms that by (simp add: comment_or_throw_def)
  then have "k = cid \<Longrightarrow> edit_allowed e u c" using d by (auto simp: edit_allowed_def)
  with found id show "?P (snd (Inr (d\<lparr>cm_bodyMd := s\<rparr>), emit (CommentEvent (CommentEdited_ev k (cm_taskId d) (au_id u))) ?w))"
    by (auto simp: find_comment_def)
qed (use assms in simp_all)

lemma deleteComment_effect:
  assumes "find_comment w cid = Some c"
  shows "find_comment (snd (deleteComment e u k w)) cid = Some c \<or>
    k = cid \<and> cm_deletedAt c = None \<and> delete_allowed e u c w \<and>
    find_comment (snd (deleteComment e u k w)) cid = Some (c\<lparr>cm_deletedAt := Some (clk e 1), cm_deletedById := Some (au_id u)\<rparr>)"
    (is "?P (snd (deleteComment e u k w))")
  unfolding deleteComment_def Let_def
proof (intro attempt_inv [where P = ?P])
  fix d :: comment_row and t r x
  let ?live = "\<lambda>c. cm_id c = k \<and> cm_deletedAt c = None"
  let ?w = "w\<lparr>comments := update_where ?live (\<lambda>c. c\<lparr>cm_deletedAt := Some (clk e 1), cm_deletedById := Some (au_id u)\<rparr>) (comments w)\<rparr>"
  assume d: "comment_or_throw w k = Inr d" "task_or_throw w (cm_taskId d) = Inr t" "effectiveRole w u (t_projectId t) = Inr r"
    "require (author_in_window e u d \<or> admin_or_manager u r) (Forbidden ''Cannot delete this comment'') = Inr x"
  have id: "cm_id c = cid" using find_commentD [OF assms] by simp
  have found: "find_comment ?w cid = Some (if ?live c then c\<lparr>cm_deletedAt := Some (clk e 1), cm_deletedById := Some (au_id u)\<rparr> else c)"
    using assms by (simp add: find_comment_def soft_delete.find_updated)
  have "d = c" if "k = cid" using d(1) assms that by (simp add: comment_or_throw_def)
  then have "k = cid \<Longrightarrow> delete_allowed e u c w" using d by (auto simp: delete_allowed_def task_or_throw_def)
  with found id show "?P (snd (Inr (), if 0 < count_where ?live (comments w) then emit (CommentEvent (CommentDeleted_ev k (au_id u))) ?w else ?w))"
    by (auto simp: find_comment_def)
qed (use assms in simp_all)

lemma check_each_Inr: "check_each check xs = Inr () \<longleftrightarrow> (\<forall>x \<in> set xs. check x = Inr ())"
  by (induction xs) (auto simp: and_then_Inr)

lemma checked_attachments:
  assumes "validateAndRewriteInlineAttachments w body tid vis = Inr s" and "a \<in> set (parseAttachmentRefs body)"
  shows "\<exists>att \<in> set (attachments w). at_id att = a \<and> at_parentId att = tid \<and> at_deletedAt att = None \<and>
    (vis = VClientVisible \<longrightarrow> at_visibility att = VClientVisible)"
proof -
  from assms have "attachment_ok w tid vis a = Inr ()"
    by (auto simp: validateAndRewriteInlineAttachments_def Let_def and_then_Inr check_each_Inr split: if_splits)
  then show ?thesis by (auto simp: attachment_ok_def and_then_Inr dest!: find_row_SomeD)
qed

section \<open>Where stored texts come from\<close>

text \<open>
  A text as the request handlers store it: references rewritten, and each of them checked against the
  attachments of the moment.
\<close>

definition text_checked :: "world \<Rightarrow> comment_row \<Rightarrow> bool" where
  "text_checked w c \<longleftrightarrow> (\<exists>body. cm_bodyMd c = rewrite_refs body \<and> (\<forall>a \<in> set (parseAttachmentRefs body).
     \<exists>att \<in> set (attachments w). at_id att = a \<and> at_parentId att = cm_taskId c \<and> at_deletedAt att = None \<and>
       (cm_visibility c = VClientVisible \<longrightarrow> at_visibility att = VClientVisible)))"

definition text_key :: "comment_row \<Rightarrow> string \<times> string \<times> string \<times> visibility" where
  "text_key c = (cm_id c, cm_bodyMd c, cm_taskId c, cm_visibility c)"

definition texts_from :: "world \<Rightarrow> world \<Rightarrow> bool" where
  "texts_from w w' \<longleftrightarrow> (\<forall>c \<in> set (comments w'). text_key c \<in> text_key ` set (comments w) \<or> text_checked w c)"

lemma text_checked_key: "text_key c = text_key d \<Longrightarrow> text_checked w c = text_checked w d"
  by (simp add: text_key_def text_checked_def)

lemma texts_from_same: "map text_key (comments w') = map text_key (comments w) \<Longrightarrow> texts_from w w'"
  by (metis texts_from_def imageI list.set_map)

lemma texts_from_emit [simp]: "texts_from w (emit ev w') = texts_from w w'"
  by (simp add: texts_from_def)

lemmas text_steps = attempt_inv [where P = "texts_from w" for w]

lemma text_checkedI:
  "validateAndRewriteInlineAttachments w body (cm_taskId c) (cm_visibility c) = Inr (cm_bodyMd c) \<Longrightarrow> text_checked w c"
  unfolding text_checked_def using rewritten_body checked_attachments by blast

lemma createComment_texts: "texts_from w (snd (createComment e u tid body vis parent quote w))"
proof -
  have "texts_from w (w\<lparr>comments := comments w @ [c], mentions := ms\<rparr>)" if "text_checked w c" for c ms
    using that by (auto simp: texts_from_def)
  then show ?thesis unfolding createComment_def Let_def
    by (intro text_steps) (simp_all add: texts_from_same new_comment_def text_checkedI)
qed

lemma updateComment_texts: "comments_inv w \<Longrightarrow> texts_from w (snd (updateComment e u cid body w))"
proof -
  assume "comments_inv w"
  then have d: "distinct (map cm_id (comments w))" by (simp add: comments_inv_def threads_ok_def comp_def)
  have "texts_from w (w\<lparr>revisions := rs, mentions := ms, comments := update_where (\<lambda>c. cm_id c = cid) (\<lambda>c. c\<lparr>cm_bodyMd := s\<rparr>) (comments w)\<rparr>)"
    if c: "find_comment w cid = Some c" and s: "validateAndRewriteInlineAttachments w body (cm_taskId c) (cm_visibility c) = Inr s" for c s rs ms
  proof -
    have one: "x = c" if "x \<in> set (comments w)" "cm_id x = cid" for x
      using d find_commentD [OF c] that by (metis distinct_map inj_onD)
    have "text_checked w (c\<lparr>cm_bodyMd := s\<rparr>)" using s by (intro text_checkedI) simp
    with one show ?thesis by (auto simp: texts_from_def in_update_where)
  qed
  then show ?thesis unfolding updateComment_def Let_def
    by (intro text_steps) (simp_all add: texts_from_same comment_or_throw_def)
qed

lemma exec_comment_texts:
  assumes "comments_inv w"
  shows "texts_from w (exec_comment op w)"
proof (cases op)
  case (DeleteComment e u cid)
  have "map text_key (update_where p (\<lambda>c. c\<lparr>cm_deletedAt := d, cm_deletedById := x\<rparr>) cs) = map text_key cs" for p d x cs
    by (rule map_update_where) (simp add: text_key_def)
  then show ?thesis unfolding DeleteComment exec_comment.simps deleteComment_def Let_def
    by (intro text_steps) (simp_all add: texts_from_same)
next
  case (RemoveTaskOf u tid)
  have "texts_from w (cascade_task tid w)" by (auto simp: texts_from_def cascade_comments [OF assms])
  then show ?thesis unfolding RemoveTaskOf exec_comment.simps removeTask_def
    by (intro text_steps) (simp_all add: texts_from_same)
next
  case (AddReaction u cid emoji)
  then show ?thesis unfolding AddReaction exec_comment.simps addReaction_def Let_def
    by (intro text_steps) (simp_all add: texts_from_same)
next
  case (RemoveReaction u cid emoji)
  then show ?thesis unfolding RemoveReaction exec_comment.simps removeReaction_def Let_def
    by (intro text_steps) (simp_all add: texts_from_same)
qed (simp_all add: createComment_texts updateComment_texts [OF assms])

lemma run_texts:
  assumes "comments_inv w" and "comment_runs.run_ok ops w" and "c \<in> set (comments (fold exec_comment ops w))"
  shows "text_key c \<in> text_key ` set (comments w) \<or> (\<exists>v \<in> set (states_along exec_comment ops w). text_checked v c)"
  using assms
proof (induction ops arbitrary: w)
  case (Cons op ops)
  have inv: "comments_inv (exec_comment op w)" using Cons.prems comment_runs.exec_inv by simp
  from Cons.IH [OF this] Cons.prems consider
      (old) d where "d \<in> set (comments (exec_comment op w))" "text_key c = text_key d"
    | (new) v where "v \<in> set (states_along exec_comment ops (exec_comment op w))" "text_checked v c" by auto
  then show ?case
  proof cases
    case old
    with exec_comment_texts [OF Cons.prems(1), of op] show ?thesis
      by (auto simp: texts_from_def text_checked_key [OF old(2)])
  qed auto
qed simp

section \<open>Properties\<close>



text \<open>
  C24: the history of texts only grows. Along every sequence of comment operations and deletions of tasks, each
  one leaves the texts of all comments, past and present, as they are or takes the one step its name stands for: a
  request for a comment begins a sequence on its task with the text as rewritten, an edit appends its text to the sequence of
  that comment, and the deletion of a task drops the sequences of its comments and no other. So the texts a comment had stay, in
  order, at the front of its history, unless its task is deleted.
\<close>

theorem comment_history_append_only:
  assumes "comments_inv w" and "comment_runs.run_ok ops w"
  shows "follows_labels (\<lambda>op. history_step (history_label op)) ops (map histories (states_along exec_comment ops w)) \<and>
    (histories w cid = Some (tid, vs) \<longrightarrow> (\<forall>u. RemoveTaskOf u tid \<notin> set ops) \<longrightarrow>
       (\<exists>more. histories (fold exec_comment ops w) cid = Some (tid, vs @ more)))"
proof (intro conjI impI)
  assume "histories w cid = Some (tid, vs)" and kept: "\<forall>u. RemoveTaskOf u tid \<notin> set ops"
  then have now: "starts_with_texts cid tid vs (histories w)" by (simp add: starts_with_texts_def)
  have "history_label op \<noteq> Drops tid" if "op \<in> set ops" for op using kept that by (cases op) auto
  then have "starts_with_texts cid tid vs (histories (fold exec_comment ops w))"
    by (intro comment_runs.run_keeps [where P = "starts_with_texts cid tid vs", OF assms now]) (rule history_step_starts)
  then show "\<exists>more. histories (fold exec_comment ops w) cid = Some (tid, vs @ more)" by (simp add: starts_with_texts_def)
qed (rule comment_runs.run_follows [OF assms])

definition sample_comment :: "string \<Rightarrow> visibility \<Rightarrow> comment_row" where
  "sample_comment body vis = \<lparr>cm_id = ''c1'', cm_taskId = ''t1'', cm_authorUserId = ''A'', cm_bodyMd = body, cm_visibility = vis,
     cm_editLockedAt = Some 900000, cm_parentCommentId = None, cm_quotedCommentId = None, cm_quotedRangeStart = None,
     cm_quotedRangeEnd = None, cm_deletedAt = None, cm_deletedById = None, cm_createdAt = 0\<rparr>"

definition comment_world :: world where
  "comment_world = task_world\<lparr>comments := [sample_comment ''one'' VInternal]\<rparr>"

lemma comment_world_inv: "comments_inv comment_world"
  by (simp add: comments_inv_def threads_ok_def comment_refs_def reply_ok_def quote_ok_def stored_ok_def comment_world_def
    sample_comment_def task_samples) code_simp

theorem comment_history_append_only_witness:
  "\<exists>more. histories (fold exec_comment [UpdateComment sample_env sample_admin ''c1'' ''two'', DeleteComment sample_env sample_admin ''c1'']
     comment_world) ''c1'' = Some (''t1'', [''one''] @ more)"
proof -
  have "histories comment_world ''c1'' = Some (''t1'', [''one''])"
    by (simp add: histories_def find_comment_def comment_world_def sample_comment_def task_samples)
  then show ?thesis
    using comment_history_append_only [OF comment_world_inv, of "[UpdateComment sample_env sample_admin ''c1'' ''two'',
      DeleteComment sample_env sample_admin ''c1'']" "''c1''" "''t1''" "[''one'']"] by (simp del: exec_comment.simps fold_simps)
qed

text \<open>
  C25: who may change a comment. Between the states before and after any operation on comments or
  deletion of a task, the text of a comment differs only when its author edited it inside the edit window while it was not
  deleted, it is marked as deleted only by its author inside the window or by a manager of the project or an admin, and
  everything else in it is the same.
\<close>

theorem comment_changes_are_authorised:
  assumes "comments_inv w" and "find_comment w cid = Some c" and "find_comment (exec_comment op w) cid = Some c'"
  shows "(cm_bodyMd c' \<noteq> cm_bodyMd c \<longrightarrow> (\<exists>e u body. op = UpdateComment e u cid body \<and> edit_allowed e u c)) \<and>
    (cm_deletedAt c' \<noteq> cm_deletedAt c \<longrightarrow> (\<exists>e u. op = DeleteComment e u cid \<and> delete_allowed e u c w)) \<and> frame c' = frame c"
proof (cases op)
  case (CreateComment e u tid body vis parent quote)
  with assms createComment_keeps show ?thesis by simp
next
  case (UpdateComment e u k body)
  with assms updateComment_effect [OF assms(2), of e u k body] show ?thesis by auto
next
  case (DeleteComment e u k)
  with assms deleteComment_effect [OF assms(2), of e u k] show ?thesis by auto
next
  case (RemoveTaskOf u tid)
  with assms removeTask_keeps [OF assms(1,2), of u tid c'] show ?thesis by simp
qed (use assms reaction_keeps in simp_all)

theorem comment_changes_are_authorised_witness:
  "frame (the (find_comment (exec_comment (UpdateComment sample_env sample_admin ''c1'' ''two'') comment_world) ''c1'')) =
     frame (sample_comment ''one'' VInternal)"
proof -
  have found: "find_comment comment_world ''c1'' = Some (sample_comment ''one'' VInternal)"
    by (simp add: find_comment_def comment_world_def sample_comment_def)
  have p: "parseAttachmentRefs ''two'' = []" "pm_userIds (parseMentions ''two'') = []" "pm_teamIds (parseMentions ''two'') = []"
    by code_simp+
  have "\<exists>c'. find_comment (exec_comment (UpdateComment sample_env sample_admin ''c1'' ''two'') comment_world) ''c1'' = Some c'"
    using found p by (simp add: updateComment_def comment_or_throw_def validateAndRewriteInlineAttachments_def mention_fk_def
      new_mentions_def Let_def find_comment_def retext.find_updated sample_env_def)
      (simp add: comment_world_def sample_comment_def task_samples sample_admin_def)
  then obtain c' where c': "find_comment (exec_comment (UpdateComment sample_env sample_admin ''c1'' ''two'') comment_world) ''c1'' = Some c'"
    by blast
  show ?thesis using comment_changes_are_authorised [OF comment_world_inv found c'] c' by simp
qed

text \<open>
  A new comment. When the request succeeds the caller sees the task; a client's comment is on a task clients see and visible
  to clients, and a comment on an internal task is internal; each attachment its text refers to is a live one of the
  same task, visible to clients when the comment is; the text is stored with these references rewritten, and can be edited for a quarter of an hour; and the
  event carries who is mentioned, with the other watchers of the task when the text calls \<open>@here\<close>.
\<close>

theorem created_comment:
  assumes "createComment e u tid body vis parent quote w = (Inr c, w')"
  shows "(\<exists>task. find_task w tid = Some task \<and> canSeeTask w u (t_projectId task) (t_visibility task) = Inr True \<and>
      (au_kind u = UClient \<longrightarrow> t_visibility task = VClientVisible \<and> cm_visibility c = VClientVisible) \<and>
      (t_visibility task = VInternal \<longrightarrow> cm_visibility c = VInternal)) \<and>
    (\<forall>a \<in> set (parseAttachmentRefs body). \<exists>att \<in> set (attachments w). at_id att = a \<and> at_parentId att = tid \<and>
      at_deletedAt att = None \<and> (cm_visibility c = VClientVisible \<longrightarrow> at_visibility att = VClientVisible)) \<and>
    comments w' = comments w @ [c] \<and> cm_bodyMd c = rewrite_refs body \<and> cm_editLockedAt c = Some (clk e 0 + 900000) \<and>
    (\<exists>us ts n. emitted w' = emitted w @ [CommentEvent (CommentAdded_ev (cm_id c) tid (au_id u) (cm_visibility c) us ts n)] \<and>
      set us = set (pm_userIds (parseMentions body)) \<union>
        (if pm_hasHere (parseMentions body) then {w_userId r | r. r \<in> set (watchers w) \<and> w_taskId r = tid} - {au_id u} else {}))"
proof -
  from assms obtain task qf s where task: "task_or_throw w tid = Inr task" and see: "canSeeTask w u (t_projectId task) (t_visibility task) = Inr True"
    and client: "\<not> (au_kind u = UClient \<and> t_visibility task \<noteq> VClientVisible)"
    and s: "validateAndRewriteInlineAttachments w body tid (effective_visibility u task vis) = Inr s"
    and c: "c = new_comment e u tid s (effective_visibility u task vis) (resolved_parent w tid parent) qf"
    and w': "w' = emit (CommentEvent (CommentAdded_ev (cm_id c) tid (au_id u) (effective_visibility u task vis)
        (uniq (pm_userIds (parseMentions body) @ here_watchers w u tid (parseMentions body))) (pm_teamIds (parseMentions body))
        (length (here_watchers w u tid (parseMentions body)))))
      (w\<lparr>comments := comments w @ [c], mentions := mentions w @ new_mentions (cm_id c) (parseMentions body)\<rparr>)"
    by (auto simp: createComment_def attempt_Inr Let_def)
  have row: "cm_visibility c = effective_visibility u task vis" "cm_bodyMd c = s" "cm_editLockedAt c = Some (clk e 0 + 900000)"
    by (simp_all add: c new_comment_def EDIT_WINDOW_MS_def)
  have here: "set (here_watchers w u tid m) = (if pm_hasHere m then {w_userId r | r. r \<in> set (watchers w) \<and> w_taskId r = tid} - {au_id u} else {})" for m
    by (auto simp: here_watchers_def)
  have vis: "au_kind u = UClient \<longrightarrow> t_visibility task = VClientVisible \<and> cm_visibility c = VClientVisible"
    "t_visibility task = VInternal \<longrightarrow> cm_visibility c = VInternal"
    using client by (auto simp: row effective_visibility_def)
  have "emitted w' = emitted w @ [CommentEvent (CommentAdded_ev (cm_id c) tid (au_id u) (cm_visibility c)
      (uniq (pm_userIds (parseMentions body) @ here_watchers w u tid (parseMentions body))) (pm_teamIds (parseMentions body))
      (length (here_watchers w u tid (parseMentions body))))]" "comments w' = comments w @ [c]"
    by (simp_all add: w' row)
  with here task see vis checked_attachments [OF s] rewritten_body [OF s] row show ?thesis
    by (simp add: task_or_throw_def)
qed

theorem created_comment_witness:
  "\<exists>c w' us ts n. createComment sample_env sample_admin ''t1'' ''see @here'' (Some VClientVisible) None None task_world = (Inr c, w') \<and>
     cm_visibility c = VInternal \<and> emitted w' = [CommentEvent (CommentAdded_ev ''x'' ''t1'' ''A'' VInternal us ts n)] \<and> set us = {''U''}"
proof -
  let ?r = "createComment sample_env sample_admin ''t1'' ''see @here'' (Some VClientVisible) None None task_world"
  have p: "parseMentions ''see @here'' = \<lparr>pm_userIds = [], pm_teamIds = [], pm_hasHere = True\<rparr>" "parseAttachmentRefs ''see @here'' = []"
    by code_simp+
  have t: "find_task task_world ''t1'' = Some (sample_task ''t1'' ''Todo'')" by simp
  have "canSeeTask task_world sample_admin ''P'' VInternal = Inr True"
    by (simp add: canSeeTask_def effectiveRole_def sample_admin_def)
  then have "\<exists>c w'. ?r = (Inr c, w') \<and> cm_id c = ''x''"
    using t p by (simp add: createComment_def task_or_throw_def check_quote_def validateAndRewriteInlineAttachments_def mention_fk_def Let_def
      new_comment_def) (simp add: task_samples sample_admin_def sample_env_def)
  then obtain c w' where r: "?r = (Inr c, w')" and id: "cm_id c = ''x''" by blast
  have w: "{w_userId r | r. r \<in> set (watchers task_world) \<and> w_taskId r = ''t1''} = {''U''}" "emitted task_world = []"
    by (auto simp: task_world_def empty_world_def)
  have "cm_visibility c = VInternal" using created_comment [OF r] t by (simp add: sample_task_def)
  moreover obtain us ts n where "emitted w' = emitted task_world @ [CommentEvent (CommentAdded_ev (cm_id c) ''t1'' (au_id sample_admin) (cm_visibility c) us ts n)]"
    "set us = {''U''} - {au_id sample_admin}"
    using created_comment [OF r] by (simp only: p w) auto
  ultimately show ?thesis using r id w by (intro exI [of _ c] exI [of _ w'] exI [of _ us] exI [of _ ts] exI [of _ n]) (simp add: sample_admin_def)
qed

text \<open>
  A quote is not checked against the visibility of what it quotes: a guest who quotes an internal comment by
  its identifier reads its text in the list of comments, which hides the comment itself.
\<close>

definition leak_world :: world where
  "leak_world = guest_world\<lparr>tasks := [(sample_task ''t1'' ''Todo'')\<lparr>t_visibility := VClientVisible\<rparr>],
     users := [sample_user ''A'', sample_user ''G''], comments := [sample_comment ''one'' VInternal]\<rparr>"

theorem quote_reveals_internal_comment:
  "\<exists>c w' views. createComment sample_env sample_guest ''t1'' ''hm'' None None
       (Some \<lparr>qi_commentId = ''c1'', qi_rangeStart = Fin 0, qi_rangeEnd = Fin 3\<rparr>) leak_world = (Inr c, w') \<and>
     listByTask sample_guest ''t1'' w' = Inr views \<and> map (cm_id \<circ> vc_comment) views = [''x''] \<and>
     map (map_option qs_excerpt \<circ> vc_quotedSnippet) views = [Some ''one'']"
proof -
  have p: "parseMentions ''hm'' = \<lparr>pm_userIds = [], pm_teamIds = [], pm_hasHere = False\<rparr>" "parseAttachmentRefs ''hm'' = []"
    by code_simp+
  have role: "effectiveRole w sample_guest ''P'' = Inr (Some Client)"
    if "projects w = projects leak_world" "accessGrants w = accessGrants leak_world" "teamMembers w = teamMembers leak_world" for w
    using effectiveRole_cong [of w guest_world] guest_role that by (simp add: leak_world_def)
  let ?t = "(sample_task ''t1'' ''Todo'')\<lparr>t_visibility := VClientVisible\<rparr>" and ?s = "sample_comment ''one'' VInternal"
  let ?c = "new_comment sample_env sample_guest ''t1'' ''hm'' VClientVisible None (Some (''c1'', 0, 3))"
  let ?q = "Some \<lparr>qi_commentId = ''c1'', qi_rangeStart = Fin 0, qi_rangeEnd = Fin 3\<rparr>"
  have found: "find_task leak_world ''t1'' = Some ?t" "find_comment leak_world ''c1'' = Some ?s" "u_id ` set (users leak_world) = {''A'', ''G''}"
    by (simp_all add: find_task_def find_comment_def leak_world_def sample_task_def sample_comment_def sample_user_def)
  have made: "createComment sample_env sample_guest ''t1'' ''hm'' None None ?q leak_world =
      (Inr ?c, emit (CommentEvent (CommentAdded_ev (cm_id ?c) ''t1'' (au_id sample_guest) VClientVisible [] [] 0))
        (leak_world\<lparr>comments := comments leak_world @ [?c], mentions := mentions leak_world @ []\<rparr>))"
  proof -
    have "check_quote leak_world ''t1'' ?q = Inr (Some (''c1'', 0, 3))"
      using found by (simp add: check_quote_def quoted_range_def as_integer_def sample_comment_def)
    moreover have "canSeeTask leak_world sample_guest (t_projectId ?t) (t_visibility ?t) = Inr True"
      using role by (simp add: canSeeTask_def sample_task_def)
    moreover have "effective_visibility sample_guest ?t None = VClientVisible"
      by (simp add: effective_visibility_def sample_guest_def)
    ultimately show ?thesis using found p
      by (simp add: createComment_def task_or_throw_def validateAndRewriteInlineAttachments_def mention_fk_def Let_def
        here_watchers_def new_mentions_def uniq_def resolved_parent_def) (simp add: sample_guest_def)
  qed
  let ?w = "snd (createComment sample_env sample_guest ''t1'' ''hm'' None None ?q leak_world)"
  have rows: "comments ?w = [?s, ?c]" "find_task ?w ''t1'' = Some ?t" "effectiveRole ?w sample_guest ''P'' = Inr (Some Client)"
    using found role by (simp_all add: made find_task_def) (simp add: leak_world_def)
  have ids: "cm_id ?c = ''x''" "cm_id ?s = ''c1''" by (simp_all add: new_comment_def sample_env_def sample_comment_def)
  have "quoted_snippet_of ?w ?c = Some \<lparr>qs_commentId = ''c1'', qs_author = user_card ?w ''A'', qs_excerpt = ''one'', qs_deleted = False\<rparr>"
  proof -
    have "find_comment ?w ''c1'' = Some ?s" using rows(1) ids by (simp add: find_comment_def)
    then show ?thesis by (simp add: quoted_snippet_of_def new_comment_def excerpt_def slice_def sample_comment_def Let_def)
  qed
  moreover have "filter (\<lambda>c. cm_taskId c = ''t1'' \<and> listed_comment Client c) (comments ?w) = [?c]"
    unfolding rows(1) by (simp add: listed_comment_def new_comment_def sample_comment_def)
  ultimately have "\<exists>views. listByTask sample_guest ''t1'' ?w = Inr views \<and> map (cm_id \<circ> vc_comment) views = [''x''] \<and>
      map (map_option qs_excerpt \<circ> vc_quotedSnippet) views = [Some ''one'']"
    using rows(2,3) ids by (simp add: listByTask_def task_or_throw_def sample_task_def comment_view_of_def)
  with made show ?thesis by (metis snd_conv)
qed

end
