(* ===== verification/Automations.thy ===== *)
theory Automations
  imports Comments Labels FormulaEval "HOL-Library.AList"
begin

text \<open>
  \<^verbatim>\<open>apps/api/src/modules/automations\<close>: the rules of a project (a trigger with a filter and one or
  more actions), the engine that runs them and the listener that feeds it the events of the API. A JSON
  object is the list of its properties, the payload of an event is such an object. The URL parser, the HTTP client (\<open>fetch n\<close> is the
  outcome of the n-th attempt of a request) and the local zone of the server are parameters; requests leave the system and only their
  outcomes come back.
\<close>

section \<open>JSON values\<close>

definition json_truthy :: "json option \<Rightarrow> bool" where
  "json_truthy v = (case v of
       None \<Rightarrow> False | Some JNull \<Rightarrow> False | Some (JBool b) \<Rightarrow> b
     | Some (JNum x) \<Rightarrow> x \<noteq> NaN \<and> x \<noteq> Fin 0 | Some (JStr s) \<Rightarrow> s \<noteq> [] | _ \<Rightarrow> True)"

text \<open>\<open>===\<close> of two values that do not share objects.\<close>

fun json_same :: "json option \<Rightarrow> json option \<Rightarrow> bool" where
  "json_same None None = True"
| "json_same (Some JNull) (Some JNull) = True"
| "json_same (Some (JBool a)) (Some (JBool b)) = (a = b)"
| "json_same (Some (JNum a)) (Some (JNum b)) = js_eq a b"
| "json_same (Some (JStr a)) (Some (JStr b)) = (a = b)"
| "json_same _ _ = False"

fun json_text :: "json \<Rightarrow> string" where
  "json_text JNull = ''null''"
| "json_text (JBool b) = (if b then ''true'' else ''false'')"
| "json_text (JNum x) = number_to_string x"
| "json_text (JStr s) = s"
| "json_text (JArr vs) = join_commas (map (\<lambda>v. if v = JNull then [] else json_text v) vs)"
| "json_text (JObj ps) = ''[object Object]''"

text \<open>\<open>String(x)\<close> of a property that may be missing.\<close>

definition text_of :: "json option \<Rightarrow> string" where
  "text_of v = (case v of None \<Rightarrow> ''undefined'' | Some x \<Rightarrow> json_text x)"

definition is_text :: "json option \<Rightarrow> bool" where
  "is_text v \<longleftrightarrow> (case v of Some (JStr s) \<Rightarrow> True | _ \<Rightarrow> False)"

text \<open>The database client refuses a parameter of another type.\<close>

definition text_param :: "json_object \<Rightarrow> string \<Rightarrow> string res" where
  "text_param cfg k = (case map_of cfg k of Some (JStr s) \<Rightarrow> Inr s | _ \<Rightarrow> Inl (LibraryError (''Argument '' @ k)))"

section \<open>Validation\<close>

definition priority_of :: "string \<Rightarrow> priority option" where
  "priority_of s = map_of [(''Low'', Low), (''Medium'', Medium), (''High'', High), (''Critical'', Critical)] s"

definition need_text :: "json_object \<Rightarrow> string \<Rightarrow> unit res" where
  "need_text cfg k = require (is_text (map_of cfg k) \<and> map_of cfg k \<noteq> Some (JStr []))
     (BadRequest (''actionConfig.'' @ k @ '' is required''))"

text \<open>The message about the protocol is thrown inside the \<open>try\<close>, whose handler replaces it.\<close>

definition validate_webhook :: "(string \<Rightarrow> string option) \<Rightarrow> json_object \<Rightarrow> unit res" where
  "validate_webhook urlProtocol cfg =
     and_then (need_text cfg ''url'') (\<lambda>_.
     and_then (require (urlProtocol (text_of (map_of cfg ''url'')) \<in> {Some ''http:'', Some ''https:''})
       (BadRequest ''actionConfig.url is not a valid URL'')) (\<lambda>_.
     and_then (require (case map_of cfg ''headers'' of None \<Rightarrow> True | Some (JObj ps) \<Rightarrow> True | Some (JArr vs) \<Rightarrow> True | _ \<Rightarrow> False)
       (BadRequest ''actionConfig.headers must be an object'')) (\<lambda>_.
     require (map_of cfg ''secret'' = None \<or> is_text (map_of cfg ''secret'')) (BadRequest ''actionConfig.secret must be a string''))))"

definition validate_config :: "(string \<Rightarrow> string option) \<Rightarrow> automation_action \<Rightarrow> json_object \<Rightarrow> unit res" where
  "validate_config urlProtocol action cfg = (case action of
       DoSetPriority \<Rightarrow> require (priority_of (text_of (map_of cfg ''priority'')) \<noteq> None)
         (BadRequest ''actionConfig.priority must be Low|Medium|High|Critical'')
     | DoSetAssignee \<Rightarrow> need_text cfg ''assigneeUserId''
     | DoAddLabel \<Rightarrow> need_text cfg ''labelId''
     | DoRemoveLabel \<Rightarrow> need_text cfg ''labelId''
     | DoTransitionStatus \<Rightarrow> need_text cfg ''status''
     | DoAddComment \<Rightarrow> require (is_text (map_of cfg ''body'') \<and> trim (text_of (map_of cfg ''body'')) \<noteq> [])
         (BadRequest ''actionConfig.body is required'')
     | DoAddWatcher \<Rightarrow> need_text cfg ''userId''
     | DoNotifyUser \<Rightarrow> need_text cfg ''userId''
     | DoSetDueDate \<Rightarrow> require (case map_of cfg ''offsetDays'' of Some (JNum x) \<Rightarrow> True | _ \<Rightarrow> False)
         (BadRequest ''actionConfig.offsetDays is required (number)'')
     | DoSetSprint \<Rightarrow> require (map_of cfg ''sprintId'' = Some JNull \<or> is_text (map_of cfg ''sprintId''))
         (BadRequest ''actionConfig.sprintId must be string or null'')
     | DoSendWebhook \<Rightarrow> validate_webhook urlProtocol cfg)"

definition validate_automation :: "(string \<Rightarrow> string option) \<Rightarrow> string \<Rightarrow> automation_action \<Rightarrow> json_object \<Rightarrow> unit res" where
  "validate_automation urlProtocol nm action cfg =
     and_then (require (trim nm \<noteq> []) (BadRequest ''Name is required'')) (\<lambda>_.
     and_then (require (length nm \<le> 100) (BadRequest ''Name too long'')) (\<lambda>_.
     validate_config urlProtocol action cfg))"

section \<open>Rules\<close>

record automation_input =
  ai_name :: string
  ai_description :: "string option"
  ai_enabled :: "bool option"
  ai_trigger :: automation_trigger
  ai_triggerConfig :: "json_object option"
  ai_action :: automation_action
  ai_actionConfig :: "json_object option"

definition find_automation :: "world \<Rightarrow> string \<Rightarrow> automation_row option" where
  "find_automation w aid = find_row am_id aid (automations w)"

definition rule_order :: "automation_row \<Rightarrow> automation_row \<Rightarrow> bool" where
  "rule_order a b \<longleftrightarrow> am_enabled a \<and> \<not> am_enabled b \<or> am_enabled a = am_enabled b \<and> am_createdAt b \<le> am_createdAt a"

definition listAutomations :: "auth_user \<Rightarrow> string \<Rightarrow> world \<Rightarrow> (automation_row \<times> (string \<times> string \<times> string option) option) list res" where
  "listAutomations u pid w =
     and_then (assertAtLeast w u pid Viewer) (\<lambda>_.
     Inr (map (\<lambda>a. (a, user_card w (am_createdById a))) (order_by rule_order (filter (\<lambda>a. am_projectId a = pid) (automations w)))))"

definition runs_of :: "world \<Rightarrow> string \<Rightarrow> nat \<Rightarrow> run_row list" where
  "runs_of w aid n = take n (order_by (\<lambda>a b. ar_createdAt b \<le> ar_createdAt a) (filter (\<lambda>r. ar_automationId r = aid) (automationRuns w)))"

definition getAutomation :: "auth_user \<Rightarrow> string \<Rightarrow> world \<Rightarrow> (automation_row \<times> run_row list) res" where
  "getAutomation u aid w =
     and_then (found (NotFound ''Automation not found'') (find_automation w aid)) (\<lambda>a.
     and_then (assertAtLeast w u (am_projectId a) Viewer) (\<lambda>_.
     Inr (a, runs_of w aid 20)))"

definition new_automation :: "env \<Rightarrow> auth_user \<Rightarrow> string \<Rightarrow> automation_input \<Rightarrow> automation_row" where
  "new_automation e u pid i = \<lparr>am_id = uuid e 0, am_projectId = pid, am_name = trim (ai_name i),
     am_description = keep_truthy (map_option trim (ai_description i)), am_enabled = override (ai_enabled i) True,
     am_trigger = ai_trigger i, am_triggerConfig = override (ai_triggerConfig i) [], am_action = ai_action i,
     am_actionConfig = override (ai_actionConfig i) [], am_createdById = au_id u, am_runCount = 0, am_lastRunAt = None,
     am_createdAt = clk e 0\<rparr>"

definition createAutomation :: "(string \<Rightarrow> string option) \<Rightarrow> env \<Rightarrow> auth_user \<Rightarrow> string \<Rightarrow> automation_input \<Rightarrow> world \<Rightarrow>
    automation_row res \<times> world" where
  "createAutomation urlProtocol e u pid i w =
     attempt (assertAtLeast w u pid Manager) w (\<lambda>_.
     attempt (validate_automation urlProtocol (ai_name i) (ai_action i) (override (ai_actionConfig i) [])) w (\<lambda>_.
     attempt (require (pid \<in> p_id ` set (projects w) \<and> au_id u \<in> u_id ` set (users w)) (DbError P2003)) w (\<lambda>_.
     let a = new_automation e u pid i
     in (Inr a, emit (AutomationEvent (AutomationCreated_ev (am_id a) pid (au_id u))) (w\<lparr>automations := automations w @ [a]\<rparr>)))))"

record automation_patch =
  ap_name :: "string option"
  ap_description :: "string option"
  ap_enabled :: "bool option"
  ap_trigger :: "automation_trigger option"
  ap_triggerConfig :: "json_object option"
  ap_action :: "automation_action option"
  ap_actionConfig :: "json_object option"

definition patch_automation :: "automation_patch \<Rightarrow> automation_row \<Rightarrow> automation_row" where
  "patch_automation i a = a\<lparr>am_name := override (ap_name i) (am_name a),
     am_description := (case ap_description i of None \<Rightarrow> am_description a | Some d \<Rightarrow> Some d),
     am_enabled := override (ap_enabled i) (am_enabled a), am_trigger := override (ap_trigger i) (am_trigger a),
     am_triggerConfig := override (ap_triggerConfig i) (am_triggerConfig a), am_action := override (ap_action i) (am_action a),
     am_actionConfig := override (ap_actionConfig i) (am_actionConfig a)\<rparr>"

definition update_automation :: "string \<Rightarrow> (automation_row \<Rightarrow> automation_row) \<Rightarrow> world \<Rightarrow> world" where
  "update_automation aid f w = w\<lparr>automations := update_where (\<lambda>a. am_id a = aid) f (automations w)\<rparr>"

definition updateAutomation :: "(string \<Rightarrow> string option) \<Rightarrow> auth_user \<Rightarrow> string \<Rightarrow> automation_patch \<Rightarrow> world \<Rightarrow>
    automation_row res \<times> world" where
  "updateAutomation urlProtocol u aid i w =
     attempt (found (NotFound ''Automation not found'') (find_automation w aid)) w (\<lambda>existing.
     attempt (assertAtLeast w u (am_projectId existing) Manager) w (\<lambda>_.
     let merged = patch_automation i existing
     in attempt (validate_automation urlProtocol (am_name merged) (am_action merged) (am_actionConfig merged)) w (\<lambda>_.
        (Inr merged, update_automation aid (patch_automation i) w))))"

definition toggleAutomation :: "auth_user \<Rightarrow> string \<Rightarrow> bool \<Rightarrow> world \<Rightarrow> automation_row res \<times> world" where
  "toggleAutomation u aid enabled w =
     attempt (found (NotFound ''Automation not found'') (find_automation w aid)) w (\<lambda>existing.
     attempt (assertAtLeast w u (am_projectId existing) Manager) w (\<lambda>_.
     (Inr (existing\<lparr>am_enabled := enabled\<rparr>), update_automation aid (\<lambda>a. a\<lparr>am_enabled := enabled\<rparr>) w)))"

definition removeAutomation :: "auth_user \<Rightarrow> string \<Rightarrow> world \<Rightarrow> unit res \<times> world" where
  "removeAutomation u aid w =
     attempt (found (NotFound ''Automation not found'') (find_automation w aid)) w (\<lambda>existing.
     attempt (assertAtLeast w u (am_projectId existing) Manager) w (\<lambda>_.
     (Inr (), w\<lparr>automations := delete_where (\<lambda>a. am_id a = aid) (automations w),
        automationSteps := delete_where (\<lambda>s. st_automationId s = aid) (automationSteps w),
        automationRuns := delete_where (\<lambda>r. ar_automationId r = aid) (automationRuns w)\<rparr>)))"

definition listRuns :: "auth_user \<Rightarrow> string \<Rightarrow> world \<Rightarrow> run_row list res" where
  "listRuns u aid w =
     and_then (found (NotFound ''Automation not found'') (find_automation w aid)) (\<lambda>a.
     and_then (assertAtLeast w u (am_projectId a) Viewer) (\<lambda>_. Inr (runs_of w aid 100)))"

definition steps_of :: "world \<Rightarrow> string \<Rightarrow> step_row list" where
  "steps_of w aid = order_by (\<lambda>a b. st_position a \<le> st_position b) (filter (\<lambda>s. st_automationId s = aid) (automationSteps w))"

definition listSteps :: "auth_user \<Rightarrow> string \<Rightarrow> world \<Rightarrow> step_row list res" where
  "listSteps u aid w =
     and_then (found (NotFound ''Automation not found'') (find_automation w aid)) (\<lambda>a.
     and_then (assertAtLeast w u (am_projectId a) Viewer) (\<lambda>_. Inr (steps_of w aid)))"

definition next_step_position :: "world \<Rightarrow> string \<Rightarrow> int" where
  "next_step_position w aid = (case map st_position (filter (\<lambda>s. st_automationId s = aid) (automationSteps w)) of
     [] \<Rightarrow> 0 | p # ps \<Rightarrow> fold max ps p + 1)"

definition addStep :: "(string \<Rightarrow> string option) \<Rightarrow> env \<Rightarrow> auth_user \<Rightarrow> string \<Rightarrow> automation_action \<Rightarrow> json_object option \<Rightarrow> world \<Rightarrow>
    step_row res \<times> world" where
  "addStep urlProtocol e u aid action cfg w =
     attempt (found (NotFound ''Automation not found'') (find_automation w aid)) w (\<lambda>a.
     attempt (assertAtLeast w u (am_projectId a) Manager) w (\<lambda>_.
     attempt (validate_automation urlProtocol (am_name a) action (override cfg [])) w (\<lambda>_.
     let s = \<lparr>st_id = uuid e 0, st_automationId = aid, st_position = next_step_position w aid, st_action = action,
              st_actionConfig = override cfg []\<rparr>
     in (Inr s, w\<lparr>automationSteps := automationSteps w @ [s]\<rparr>))))"

definition removeStep :: "auth_user \<Rightarrow> string \<Rightarrow> world \<Rightarrow> unit res \<times> world" where
  "removeStep u sid w =
     attempt (found (NotFound ''Step not found'') (find_row st_id sid (automationSteps w))) w (\<lambda>step.
     attempt (found (NotFound ''Step not found'') (find_automation w (st_automationId step))) w (\<lambda>a.
     attempt (assertAtLeast w u (am_projectId a) Manager) w (\<lambda>_.
     (Inr (), w\<lparr>automationSteps := delete_where (\<lambda>s. st_id s = sid) (automationSteps w)\<rparr>))))"

section \<open>The engine\<close>

definition filter_lets :: "json_object \<Rightarrow> string \<Rightarrow> json_object \<Rightarrow> string \<Rightarrow> bool" where
  "filter_lets cfg k payload k' \<longleftrightarrow> \<not> (json_truthy (map_of cfg k) \<and> \<not> json_same (map_of cfg k) (map_of payload k'))"

definition matchesTrigger :: "automation_trigger \<Rightarrow> json_object \<Rightarrow> json_object \<Rightarrow> bool" where
  "matchesTrigger trigger cfg payload =
     (if trigger = OnStatusChanged
      then filter_lets cfg ''fromStatus'' payload ''fromStatus'' \<and> filter_lets cfg ''toStatus'' payload ''toStatus''
      else if trigger = OnLabeled then filter_lets cfg ''labelId'' payload ''labelId''
      else if trigger = OnAssigned then filter_lets cfg ''assigneeUserId'' payload ''assigneeUserId''
      else True)"

definition payload_text :: "json_object \<Rightarrow> string \<Rightarrow> string option" where
  "payload_text payload k = (case map_of payload k of Some (JStr s) \<Rightarrow> Some s | _ \<Rightarrow> None)"

text \<open>One attempt of a webhook, as the client sees it.\<close>

datatype fetch_result = Responded int | NetworkError string

definition RETRYABLE :: "int \<Rightarrow> bool" where
  "RETRYABLE status \<longleftrightarrow> status = 0 \<or> status = 408 \<or> status = 429 \<or> 500 \<le> status"

definition responded_error :: "int \<Rightarrow> api_error" where
  "responded_error status = LibraryError (''Webhook responded '' @ show_int status)"

text \<open>The loop over at most two attempts: how many were made, and the error that is left.\<close>

function webhook_loop :: "(nat \<Rightarrow> fetch_result) \<Rightarrow> nat \<Rightarrow> api_error option \<Rightarrow> nat \<times> unit res" where
  "webhook_loop fetch n lastErr =
     (if n < 2
      then (case fetch n of
          Responded status \<Rightarrow>
            if 200 \<le> status \<and> status < 300 then (n + 1, Inr ())
            else if RETRYABLE status then webhook_loop fetch (n + 1) (Some (responded_error status))
            else (n + 1, Inl (responded_error status))
        | NetworkError msg \<Rightarrow> webhook_loop fetch (n + 1) (Some (LibraryError msg)))
      else (n, case lastErr of None \<Rightarrow> Inr () | Some e \<Rightarrow> Inl e))"
  by pat_completeness auto
termination
  by (relation "measure (\<lambda>(fetch, n, lastErr). 2 - n)") auto

declare webhook_loop.simps [simp del]

definition send_webhook :: "(nat \<Rightarrow> fetch_result) \<Rightarrow> unit res" where
  "send_webhook fetch = snd (webhook_loop fetch 0 None)"

definition change_task :: "string \<Rightarrow> (task_row \<Rightarrow> task_row) \<Rightarrow> world \<Rightarrow> unit res \<times> world" where
  "change_task tid f w = attempt (task_or_throw w tid) w (\<lambda>_.
     (Inr (), w\<lparr>tasks := update_where (\<lambda>t. t_id t = tid) f (tasks w)\<rparr>))"

definition upsert_watcher :: "string \<Rightarrow> string \<Rightarrow> world \<Rightarrow> unit res \<times> world" where
  "upsert_watcher uid tid w =
     attempt (require ((uid, tid) \<in> watcher_key ` set (watchers w) \<or> user_task_fk w uid tid) (DbError P2003)) w (\<lambda>_.
     (Inr (), w\<lparr>watchers := insert_absent watcher_key \<lparr>w_userId = uid, w_taskId = tid\<rparr> (watchers w)\<rparr>))"

text \<open>What an action gets of its automation, and what it reads of its surroundings.\<close>

record action_context =
  ac_env :: env
  ac_zone :: zone
  ac_fetch :: "nat \<Rightarrow> fetch_result"
  ac_id :: string
  ac_projectId :: string
  ac_createdById :: string

definition set_assignee :: "string \<Rightarrow> string \<Rightarrow> world \<Rightarrow> unit res \<times> world" where
  "set_assignee uid tid w =
     attempt (task_or_throw w tid) w (\<lambda>_.
     attempt (require (uid \<in> u_id ` set (users w)) (DbError P2003)) w (\<lambda>_.
     upsert_watcher uid tid (w\<lparr>tasks := update_where (\<lambda>t. t_id t = tid) (\<lambda>t. t\<lparr>t_assigneeUserId := Some uid\<rparr>) (tasks w)\<rparr>)))"

definition add_label :: "action_context \<Rightarrow> string \<Rightarrow> string \<Rightarrow> world \<Rightarrow> unit res \<times> world" where
  "add_label c lid tid w =
     attempt (require ((tid, lid) \<in> task_label_key ` set (taskLabels w) \<or>
         tid \<in> t_id ` set (tasks w) \<and> lid \<in> lb_id ` set (labels w) \<and> ac_createdById c \<in> u_id ` set (users w)) (DbError P2003)) w (\<lambda>_.
     (Inr (), w\<lparr>taskLabels := insert_absent task_label_key
        \<lparr>tl_taskId = tid, tl_labelId = lid, tl_addedById = ac_createdById c, tl_addedAt = clk (ac_env c) 0\<rparr> (taskLabels w)\<rparr>))"

definition transition_status :: "action_context \<Rightarrow> json_object \<Rightarrow> string \<Rightarrow> string \<Rightarrow> world \<Rightarrow> unit res \<times> world" where
  "transition_status c payload status tid w =
     attempt (task_or_throw w tid) w (\<lambda>_.
     let before = (case map_of payload ''toStatus'' of
           Some v \<Rightarrow> if v \<noteq> JNull then v else override (map_of payload ''fromStatus'') JNull
         | None \<Rightarrow> override (map_of payload ''fromStatus'') JNull)
     in (Inr (), emit (AutomationEvent (StatusMoved_ev tid before status (ac_createdById c) (ac_projectId c) (ac_id c)))
          (w\<lparr>tasks := update_where (\<lambda>t. t_id t = tid) (\<lambda>t. t\<lparr>t_status := status\<rparr>) (tasks w)\<rparr>)))"

definition automation_comment :: "action_context \<Rightarrow> string \<Rightarrow> string \<Rightarrow> comment_row" where
  "automation_comment c body tid = \<lparr>cm_id = uuid (ac_env c) 0, cm_taskId = tid, cm_authorUserId = ac_createdById c, cm_bodyMd = body,
     cm_visibility = VInternal, cm_editLockedAt = None, cm_parentCommentId = None, cm_quotedCommentId = None,
     cm_quotedRangeStart = None, cm_quotedRangeEnd = None, cm_deletedAt = None, cm_deletedById = None, cm_createdAt = clk (ac_env c) 0\<rparr>"

definition add_comment :: "action_context \<Rightarrow> string \<Rightarrow> string \<Rightarrow> world \<Rightarrow> unit res \<times> world" where
  "add_comment c body tid w =
     attempt (require (user_task_fk w (ac_createdById c) tid) (DbError P2003)) w (\<lambda>_.
     (Inr (), emit (AutomationEvent (Commented_ev tid (ac_projectId c) (ac_createdById c) (ac_id c)))
        (w\<lparr>comments := comments w @ [automation_comment c body tid]\<rparr>)))"

definition notify_user :: "action_context \<Rightarrow> json option \<Rightarrow> string \<Rightarrow> string \<Rightarrow> world \<Rightarrow> unit res \<times> world" where
  "notify_user c message uid tid w =
     attempt (require (uid \<in> u_id ` set (users w)) (DbError P2003)) w (\<lambda>_.
     (Inr (), w\<lparr>notifications := notifications w @ [\<lparr>nt_id = uuid (ac_env c) 0, nt_recipientUserId = uid, nt_type = ''AutomationNotify'',
        nt_payload = [(''automationId'', JStr (ac_id c)), (''taskId'', JStr tid),
          (''message'', case message of None \<Rightarrow> JStr ''Automation triggered'' | Some JNull \<Rightarrow> JStr ''Automation triggered'' | Some v \<Rightarrow> v)],
        nt_relatedTaskId = Some tid, nt_relatedProjectId = Some (ac_projectId c), nt_readAt = None, nt_createdAt = clk (ac_env c) 0\<rparr>]\<rparr>))"

text \<open>A due date some days from now; \<open>None\<close> when it is beyond the range of dates.\<close>

definition due_in :: "zone \<Rightarrow> int \<Rightarrow> jsnum \<Rightarrow> int option" where
  "due_in z now days = (case js_add (of_int_js (getDate z now)) days of
       Fin q \<Rightarrow> time_clip (Fin (of_int (setDate z (truncate_rat q) now)))
     | _ \<Rightarrow> None)"

definition executeAction :: "action_context \<Rightarrow> automation_action \<Rightarrow> json_object \<Rightarrow> json_object \<Rightarrow> world \<Rightarrow> unit res \<times> world" where
  "executeAction c action cfg payload w =
     attempt (require (truthy (payload_text payload ''taskId'')) (LibraryError ''No taskId in trigger payload'')) w (\<lambda>_.
     let tid = the (payload_text payload ''taskId'')
     in case action of
          DoSetPriority \<Rightarrow> attempt (text_param cfg ''priority'') w (\<lambda>p.
            attempt (found (LibraryError ''Argument priority'') (priority_of p)) w (\<lambda>p.
            change_task tid (\<lambda>t. t\<lparr>t_priority := p\<rparr>) w))
        | DoSetAssignee \<Rightarrow> attempt (text_param cfg ''assigneeUserId'') w (\<lambda>uid. set_assignee uid tid w)
        | DoAddLabel \<Rightarrow> attempt (text_param cfg ''labelId'') w (\<lambda>lid. add_label c lid tid w)
        | DoRemoveLabel \<Rightarrow> (Inr (), case text_param cfg ''labelId'' of Inl e \<Rightarrow> w
            | Inr lid \<Rightarrow> w\<lparr>taskLabels := delete_where (\<lambda>r. task_label_key r = (tid, lid)) (taskLabels w)\<rparr>)
        | DoTransitionStatus \<Rightarrow> attempt (text_param cfg ''status'') w (\<lambda>st. transition_status c payload st tid w)
        | DoAddComment \<Rightarrow> add_comment c (text_of (map_of cfg ''body'')) tid w
        | DoAddWatcher \<Rightarrow> attempt (text_param cfg ''userId'') w (\<lambda>uid. upsert_watcher uid tid w)
        | DoNotifyUser \<Rightarrow> attempt (text_param cfg ''userId'') w (\<lambda>uid. notify_user c (map_of cfg ''message'') uid tid w)
        | DoSetDueDate \<Rightarrow> attempt (found (LibraryError ''Argument dueDate'')
            (case map_of cfg ''offsetDays'' of Some (JNum x) \<Rightarrow> due_in (ac_zone c) (clk (ac_env c) 0) x | _ \<Rightarrow> None)) w (\<lambda>d.
            change_task tid (\<lambda>t. t\<lparr>t_dueDate := Some d\<rparr>) w)
        | DoSetSprint \<Rightarrow> attempt (case map_of cfg ''sprintId'' of
              Some JNull \<Rightarrow> Inr None | None \<Rightarrow> Inr None | _ \<Rightarrow> and_then (text_param cfg ''sprintId'') (\<lambda>s. Inr (Some s))) w (\<lambda>sp.
            attempt (task_or_throw w tid) w (\<lambda>_.
            attempt (require (fk_ok sp_id (sprints w) sp) (DbError P2003)) w (\<lambda>_.
            change_task tid (\<lambda>t. t\<lparr>t_sprintId := sp\<rparr>) w)))
        | DoSendWebhook \<Rightarrow> (send_webhook (ac_fetch c), w))"

definition recordRun :: "env \<Rightarrow> string \<Rightarrow> run_status \<Rightarrow> run_message option \<Rightarrow> json_object \<Rightarrow> world \<Rightarrow> world" where
  "recordRun e aid status message payload w =
     (if aid \<notin> am_id ` set (automations w) then w
      else w\<lparr>automationRuns := automationRuns w @ [\<lparr>ar_id = uuid e 0, ar_automationId = aid, ar_taskId = payload_text payload ''taskId'',
        ar_status = status, ar_message = message, ar_payload = payload, ar_createdAt = clk e 0\<rparr>]\<rparr>)"

text \<open>The surroundings of a run: one environment for the row it leaves, one for each of its actions.\<close>

record engine_env =
  ee_run :: env
  ee_action :: "nat \<Rightarrow> env"
  ee_zone :: zone
  ee_fetch :: "nat \<Rightarrow> nat \<Rightarrow> fetch_result"

fun run_actions :: "engine_env \<Rightarrow> automation_row \<Rightarrow> nat \<Rightarrow> (automation_action \<times> json_object) list \<Rightarrow> json_object \<Rightarrow> world \<Rightarrow> unit res \<times> world" where
  "run_actions ee a k [] payload w = (Inr (), w)"
| "run_actions ee a k ((action, cfg) # rest) payload w =
     (case executeAction \<lparr>ac_env = ee_action ee k, ac_zone = ee_zone ee, ac_fetch = ee_fetch ee k, ac_id = am_id a,
         ac_projectId = am_projectId a, ac_createdById = am_createdById a\<rparr> action cfg payload w of
        (Inl e, w') \<Rightarrow> (Inl e, w')
      | (Inr _, w') \<Rightarrow> run_actions ee a (Suc k) rest payload w')"

definition run_automation :: "engine_env \<Rightarrow> automation_trigger \<Rightarrow> json_object \<Rightarrow> automation_row \<times> step_row list \<Rightarrow> world \<Rightarrow> world" where
  "run_automation ee trigger payload rule w =
     (let a = fst rule
      in if \<not> matchesTrigger trigger (am_triggerConfig a) payload
         then recordRun (ee_run ee) (am_id a) RunSkipped (Some (RunText ''Trigger filter did not match'')) payload w
         else case run_actions ee a 0 ((am_action a, am_actionConfig a) # map (\<lambda>s. (st_action s, st_actionConfig s)) (snd rule)) payload w of
             (Inl e, w') \<Rightarrow> recordRun (ee_run ee) (am_id a) RunFailed (Some (RunError e)) payload w'
           | (Inr _, w') \<Rightarrow>
               let w'' = recordRun (ee_run ee) (am_id a) RunSucceeded None payload w'
               in if am_id a \<in> am_id ` set (automations w'')
                  then update_automation (am_id a) (\<lambda>x. x\<lparr>am_runCount := am_runCount x + 1, am_lastRunAt := Some (clk (ee_run ee) 1)\<rparr>) w''
                  else recordRun (ee_run ee) (am_id a) RunFailed (Some (RunError (DbError P2025))) payload w'')"

text \<open>The rules that are read, each with its further steps, before any of them runs.\<close>

definition matching_rules :: "world \<Rightarrow> string \<Rightarrow> automation_trigger \<Rightarrow> (automation_row \<times> step_row list) list" where
  "matching_rules w pid trigger = map (\<lambda>a. (a, steps_of w (am_id a)))
     (filter (\<lambda>a. am_projectId a = pid \<and> am_trigger a = trigger \<and> am_enabled a) (automations w))"

fun run_rules :: "(nat \<Rightarrow> engine_env) \<Rightarrow> nat \<Rightarrow> automation_trigger \<Rightarrow> json_object \<Rightarrow> (automation_row \<times> step_row list) list \<Rightarrow> world \<Rightarrow> world" where
  "run_rules es i trigger payload [] w = w"
| "run_rules es i trigger payload (rule # rules) w =
     run_rules es (Suc i) trigger payload rules (run_automation (es i) trigger payload rule w)"

definition runMatchingAutomations :: "(nat \<Rightarrow> engine_env) \<Rightarrow> string \<Rightarrow> automation_trigger \<Rightarrow> json_object \<Rightarrow> world \<Rightarrow> world" where
  "runMatchingAutomations es pid trigger payload w = run_rules es 0 trigger payload (matching_rules w pid trigger) w"

section \<open>The listener\<close>

definition resolveProjectId :: "json_object \<Rightarrow> world \<Rightarrow> string option" where
  "resolveProjectId payload w = (case payload_text payload ''projectId'' of
       Some p \<Rightarrow> Some p
     | None \<Rightarrow> if truthy (payload_text payload ''taskId'')
         then map_option t_projectId (find_task w (the (payload_text payload ''taskId''))) else None)"

definition listen :: "(nat \<Rightarrow> engine_env) \<Rightarrow> automation_trigger \<Rightarrow> json_object \<Rightarrow> world \<Rightarrow> world" where
  "listen es trigger payload w =
     (if json_truthy (map_of payload ''viaAutomation'') then w
      else let pid = resolveProjectId payload w
        in if truthy pid then runMatchingAutomations es (the pid) trigger (AList.update ''projectId'' (JStr (the pid)) payload) w else w)"

text \<open>An update that names the assignee is an assignment, or the end of one.\<close>

definition changed_assignee :: "json_object \<Rightarrow> json option" where
  "changed_assignee payload = (case map_of payload ''changes'' of Some (JObj ch) \<Rightarrow> map_of ch ''assigneeUserId'' | _ \<Rightarrow> None)"

definition onAutomationTaskUpdated :: "(nat \<Rightarrow> engine_env) \<Rightarrow> json_object \<Rightarrow> world \<Rightarrow> world" where
  "onAutomationTaskUpdated es payload w = (case changed_assignee payload of
       None \<Rightarrow> w
     | Some v \<Rightarrow> if json_truthy (Some v)
         then listen es OnAssigned (AList.update ''assigneeUserId'' v payload) w
         else listen es OnUnassigned payload w)"

datatype listened = TaskCreatedMsg | StatusChangedMsg | TaskUpdatedMsg | TaskBlockedMsg | TaskLabeledMsg | CommentAddedMsg | DueSoonMsg

fun onEvent :: "(nat \<Rightarrow> engine_env) \<Rightarrow> listened \<Rightarrow> json_object \<Rightarrow> world \<Rightarrow> world" where
  "onEvent es TaskCreatedMsg payload w = listen es OnTaskCreated payload w"
| "onEvent es StatusChangedMsg payload w = listen es OnStatusChanged payload w"
| "onEvent es TaskUpdatedMsg payload w = onAutomationTaskUpdated es payload w"
| "onEvent es TaskBlockedMsg payload w = listen es OnBlocked payload w"
| "onEvent es TaskLabeledMsg payload w = listen es OnLabeled payload w"
| "onEvent es CommentAddedMsg payload w = listen es OnCommentAdded payload w"
| "onEvent es DueSoonMsg payload w = listen es OnDueSoon payload w"

end
