(* ===== verification/AutomationLaws.thy ===== *)
theory AutomationLaws
  imports Automations
begin

text \<open>
  Laws of automations: stored configurations have the shape their action needs, the engine leaves one
  record per rule it looks at, touches nothing but the task it is about, sets off no further rule, and tries
  a webhook twice at most; and what it does past the rules of other services.
\<close>

section \<open>The invariant of the rules\<close>

definition config_ok :: "(string \<Rightarrow> string option) \<Rightarrow> automation_action \<times> json_object \<Rightarrow> bool" where
  "config_ok p ac \<longleftrightarrow> validate_config p (fst ac) (snd ac) = Inr ()"

definition step_key :: "step_row \<Rightarrow> string \<times> int" where
  "step_key s = (st_automationId s, st_position s)"

definition rule_config :: "automation_row \<Rightarrow> automation_action \<times> json_object" where
  "rule_config a = (am_action a, am_actionConfig a)"

definition step_config :: "step_row \<Rightarrow> automation_action \<times> json_object" where
  "step_config s = (st_action s, st_actionConfig s)"

definition automations_inv :: "(string \<Rightarrow> string option) \<Rightarrow> world \<Rightarrow> bool" where
  "automations_inv p w \<longleftrightarrow> distinct (map am_id (automations w)) \<and> list_all (config_ok p) (map rule_config (automations w)) \<and>
     list_all (config_ok p) (map step_config (automationSteps w)) \<and> distinct (map step_key (automationSteps w)) \<and>
     st_automationId ` set (automationSteps w) \<subseteq> am_id ` set (automations w) \<and>
     ar_automationId ` set (automationRuns w) \<subseteq> am_id ` set (automations w)"

lemmas automation_steps = attempt_inv [where P = "automations_inv p" for p]

lemma automations_inv_emit [simp]: "automations_inv p (emit ev w) = automations_inv p w"
  by (simp add: automations_inv_def)

lemma validated_config: "validate_automation p nm action cfg = Inr x \<Longrightarrow> config_ok p (action, cfg)"
  by (auto simp: validate_automation_def and_then_Inr config_ok_def)

lemma automations_inv_rewrite:
  assumes "automations_inv p w" and "\<And>a. am_id (f a) = am_id a"
    and "\<And>a. a \<in> set (automations w) \<Longrightarrow> am_id a = aid \<Longrightarrow> config_ok p (rule_config (f a))"
  shows "automations_inv p (update_automation aid f w)"
proof -
  let ?as = "update_where (\<lambda>a. am_id a = aid) f (automations w)"
  have "map am_id ?as = map am_id (automations w)" by (rule map_update_where) (rule assms(2))
  moreover from this have "am_id ` set ?as = am_id ` set (automations w)" by (metis list.set_map)
  moreover have "list_all (config_ok p) (map rule_config ?as)"
    using assms(1,3) by (auto simp: automations_inv_def list_all_iff set_update_where)
  ultimately show ?thesis using assms(1) by (simp add: automations_inv_def update_automation_def)
qed

lemma createAutomation_inv:
  assumes "automations_inv p w" and "uuid e 0 \<notin> am_id ` set (automations w)"
  shows "automations_inv p (snd (createAutomation p e u pid i w))"
  unfolding createAutomation_def Let_def
  by (intro automation_steps assms(1)) (use assms in \<open>auto simp: automations_inv_def new_automation_def rule_config_def dest: validated_config\<close>)

lemma updateAutomation_inv:
  assumes "automations_inv p w"
  shows "automations_inv p (snd (updateAutomation p u aid i w))"
  unfolding updateAutomation_def Let_def
proof (intro automation_steps assms)
  fix existing x y
  assume ex: "found (NotFound ''Automation not found'') (find_automation w aid) = Inr existing"
    and ok: "validate_automation p (am_name (patch_automation i existing)) (am_action (patch_automation i existing))
      (am_actionConfig (patch_automation i existing)) = Inr y"
  have "a = existing" if "a \<in> set (automations w)" "am_id a = aid" for a
    using that ex assms find_row_distinct [of am_id "automations w" a] by (simp add: automations_inv_def find_automation_def)
  with validated_config [OF ok] have "automations_inv p (update_automation aid (patch_automation i) w)"
    by (intro automations_inv_rewrite assms) (auto simp: patch_automation_def rule_config_def)
  then show "automations_inv p (snd (Inr (patch_automation i existing), update_automation aid (patch_automation i) w))" by simp
qed

lemma toggleAutomation_inv:
  assumes "automations_inv p w"
  shows "automations_inv p (snd (toggleAutomation u aid b w))"
proof -
  have "automations_inv p (update_automation aid (\<lambda>a. a\<lparr>am_enabled := b\<rparr>) w)"
    by (rule automations_inv_rewrite [OF assms])
      (use assms in \<open>auto simp: automations_inv_def list_all_iff rule_config_def\<close>)
  with assms show ?thesis unfolding toggleAutomation_def by (intro automation_steps) simp_all
qed

lemma removeAutomation_inv:
  assumes "automations_inv p w"
  shows "automations_inv p (snd (removeAutomation u aid w))"
proof -
  have "automations_inv p (w\<lparr>automations := delete_where (\<lambda>a. am_id a = aid) (automations w),
        automationSteps := delete_where (\<lambda>s. st_automationId s = aid) (automationSteps w),
        automationRuns := delete_where (\<lambda>r. ar_automationId r = aid) (automationRuns w)\<rparr>)"
    using assms unfolding automations_inv_def by (auto simp: list_all_iff distinct_delete_where)
  with assms show ?thesis unfolding removeAutomation_def by (intro automation_steps) simp_all
qed

lemma next_position_free:
  "s \<in> set (automationSteps w) \<Longrightarrow> st_automationId s = aid \<Longrightarrow> st_position s < next_step_position w aid"
proof -
  assume "s \<in> set (automationSteps w)" "st_automationId s = aid"
  then have m: "st_position s \<in> set (map st_position (filter (\<lambda>s. st_automationId s = aid) (automationSteps w)))" (is "_ \<in> set ?ps")
    by simp
  then obtain q qs where ps: "?ps = q # qs" by (cases ?ps) simp_all
  have "fold max qs q = Max (set ?ps)" unfolding ps by (rule Max.set_eq_fold [symmetric])
  then have "st_position s \<le> fold max qs q" using m by simp
  then show ?thesis using ps by (simp add: next_step_position_def)
qed

lemma addStep_inv:
  assumes "automations_inv p w"
  shows "automations_inv p (snd (addStep p e u aid action cfg w))"
  unfolding addStep_def Let_def
proof (intro automation_steps assms)
  fix a x y
  let ?s = "\<lparr>st_id = uuid e 0, st_automationId = aid, st_position = next_step_position w aid, st_action = action,
    st_actionConfig = override cfg []\<rparr>"
  assume a: "found (NotFound ''Automation not found'') (find_automation w aid) = Inr a"
    and ok: "validate_automation p (am_name a) action (override cfg []) = Inr y"
  have "step_key ?s \<notin> step_key ` set (automationSteps w)"
    using next_position_free [of _ w aid] by (force simp: step_key_def)
  moreover have "aid \<in> am_id ` set (automations w)" using a find_row_SomeD [of am_id aid] by (auto simp: find_automation_def)
  ultimately show "automations_inv p (snd (Inr ?s, w\<lparr>automationSteps := automationSteps w @ [?s]\<rparr>))"
    using assms validated_config [OF ok] by (simp add: automations_inv_def step_config_def)
qed

lemma removeStep_inv:
  assumes "automations_inv p w"
  shows "automations_inv p (snd (removeStep u sid w))"
proof -
  have "automations_inv p (w\<lparr>automationSteps := delete_where q (automationSteps w)\<rparr>)" for q
    using assms unfolding automations_inv_def by (auto simp: list_all_iff distinct_delete_where)
  with assms show ?thesis unfolding removeStep_def by (intro automation_steps) simp_all
qed

section \<open>What the engine touches\<close>

text \<open>The events the engine emits, as the payloads a listener gets.\<close>

fun engine_payload :: "event \<Rightarrow> (listened \<times> json_object) option" where
  "engine_payload (AutomationEvent (StatusMoved_ev tid before status actor pid aid)) = Some (StatusChangedMsg,
     [(''taskId'', JStr tid), (''fromStatus'', before), (''toStatus'', JStr status), (''triggeredBy'', JStr ''system''),
      (''actorUserId'', JStr actor), (''projectId'', JStr pid), (''viaAutomation'', JStr aid)])"
| "engine_payload (AutomationEvent (Commented_ev tid pid actor aid)) = Some (CommentAddedMsg,
     [(''taskId'', JStr tid), (''projectId'', JStr pid), (''actorUserId'', JStr actor), (''viaAutomation'', JStr aid)])"
| "engine_payload _ = None"

definition sent_by :: "string set \<Rightarrow> event \<Rightarrow> bool" where
  "sent_by ids ev \<longleftrightarrow> (\<exists>m p aid. engine_payload ev = Some (m, p) \<and> aid \<in> ids \<and> map_of p ''viaAutomation'' = Some (JStr aid))"

text \<open>The columns of a task that actions write, blanked out.\<close>

definition task_core :: "task_row \<Rightarrow> task_row" where
  "task_core t = t\<lparr>t_priority := Low, t_status := [], t_sprintId := None, t_assigneeUserId := None, t_dueDate := None\<rparr>"

definition others_kept :: "string \<Rightarrow> task_row list \<Rightarrow> task_row list \<Rightarrow> bool" where
  "others_kept tid ts ts' \<longleftrightarrow> map task_core ts' = map task_core ts \<and> filter (\<lambda>t. t_id t \<noteq> tid) ts' = filter (\<lambda>t. t_id t \<noteq> tid) ts"

text \<open>Rows that are only added, each with a property.\<close>

definition added :: "('r \<Rightarrow> bool) \<Rightarrow> 'r list \<Rightarrow> 'r list \<Rightarrow> bool" where
  "added p xs ys \<longleftrightarrow> (\<exists>zs. ys = xs @ zs \<and> list_all p zs)"

lemma added_refl [simp]: "added p xs xs"
  by (simp add: added_def)

lemma added_snoc [simp]: "added p xs (xs @ [z]) = p z"
  by (auto simp: added_def)

lemma added_trans: "added p xs ys \<Longrightarrow> added p ys zs \<Longrightarrow> added p xs zs"
  by (auto simp: added_def)

lemma added_insert_absent: "p r \<Longrightarrow> added p xs (insert_absent key r xs)"
  by (simp add: insert_absent_def)

text \<open>
  What may differ when something was done about one task: five columns of that task, its labels, and watchers,
  comments and notifications that were added for it.
\<close>

definition about_task :: "string \<Rightarrow> world \<Rightarrow> world \<Rightarrow> bool" where
  "about_task tid w w' \<longleftrightarrow> others_kept tid (tasks w) (tasks w') \<and>
     filter (\<lambda>r. tl_taskId r \<noteq> tid) (taskLabels w') = filter (\<lambda>r. tl_taskId r \<noteq> tid) (taskLabels w) \<and>
     added (\<lambda>r. w_taskId r = tid) (watchers w) (watchers w') \<and>
     added (\<lambda>c. cm_taskId c = tid) (comments w) (comments w') \<and>
     added (\<lambda>n. nt_relatedTaskId n = Some tid) (notifications w) (notifications w')"

text \<open>Actions about a task write tasks, watchers, labels of tasks, comments and notifications, and emit events that name their rule.\<close>

definition acted :: "string set \<Rightarrow> string \<Rightarrow> world \<Rightarrow> world \<Rightarrow> bool" where
  "acted ids tid w w' \<longleftrightarrow> (\<exists>ts ws ls cs ns es.
     w' = w\<lparr>tasks := ts, watchers := ws, taskLabels := ls, comments := cs, notifications := ns, emitted := emitted w @ es\<rparr> \<and>
     about_task tid w w' \<and> list_all (sent_by ids) es)"

lemma others_kept_refl [simp]: "others_kept tid ts ts"
  by (simp add: others_kept_def)

lemma others_kept_trans: "others_kept tid a b \<Longrightarrow> others_kept tid b c \<Longrightarrow> others_kept tid a c"
  by (simp add: others_kept_def)

lemma others_kept_update:
  "(\<And>t. task_core (f t) = task_core t) \<Longrightarrow> others_kept tid ts (update_where (\<lambda>t. t_id t = tid) f ts)"
proof -
  assume f: "\<And>t. task_core (f t) = task_core t"
  have "t_id (f t) = t_id t" for t using arg_cong [OF f [of t], of t_id] by (simp add: task_core_def)
  then have "filter (\<lambda>t. t_id t \<noteq> tid) (update_where (\<lambda>t. t_id t = tid) f ts) =
      update_where (\<lambda>t. t_id t = tid) f (filter (\<lambda>t. t_id t \<noteq> tid) ts)"
    by (intro filter_update_where) simp
  moreover have "update_where (\<lambda>t. t_id t = tid) f (filter (\<lambda>t. t_id t \<noteq> tid) ts) = filter (\<lambda>t. t_id t \<noteq> tid) ts"
    by (rule update_where_none) simp
  ultimately show ?thesis using f by (simp add: others_kept_def map_update_where)
qed

lemma about_task_refl [simp]: "about_task tid w w"
  by (simp add: about_task_def)

lemma about_task_trans: "about_task tid a b \<Longrightarrow> about_task tid b c \<Longrightarrow> about_task tid a c"
  by (auto simp: about_task_def intro: others_kept_trans added_trans)

lemma acted_refl [simp]: "acted ids tid w w"
  unfolding acted_def by (intro exI [of _ "tasks w"] exI [of _ "watchers w"] exI [of _ "taskLabels w"] exI [of _ "comments w"]
    exI [of _ "notifications w"] exI [of _ "[]"]) simp

lemma acted_trans: "acted ids tid a b \<Longrightarrow> acted ids tid b c \<Longrightarrow> acted ids tid a c"
proof -
  assume "acted ids tid a b" and "acted ids tid b c"
  then obtain ts ws ls cs ns es ts' ws' ls' cs' ns' es' where
    b: "b = a\<lparr>tasks := ts, watchers := ws, taskLabels := ls, comments := cs, notifications := ns, emitted := emitted a @ es\<rparr>"
      "about_task tid a b" "list_all (sent_by ids) es" and
    c: "c = b\<lparr>tasks := ts', watchers := ws', taskLabels := ls', comments := cs', notifications := ns', emitted := emitted b @ es'\<rparr>"
      "about_task tid b c" "list_all (sent_by ids) es'"
    unfolding acted_def by blast
  have "c = a\<lparr>tasks := ts', watchers := ws', taskLabels := ls', comments := cs', notifications := ns', emitted := emitted a @ (es @ es')\<rparr>"
    unfolding c(1) b(1) by simp
  moreover have "about_task tid a c" by (rule about_task_trans [OF b(2) c(2)])
  moreover have "list_all (sent_by ids) (es @ es')" using b(3) c(3) by simp
  ultimately show ?thesis unfolding acted_def by blast
qed

lemma sent_by_mono: "sent_by ids ev \<Longrightarrow> ids \<subseteq> ids' \<Longrightarrow> sent_by ids' ev"
  by (auto simp: sent_by_def)

lemma acted_mono: "acted ids tid w w' \<Longrightarrow> ids \<subseteq> ids' \<Longrightarrow> acted ids' tid w w'"
  unfolding acted_def by (metis (no_types, lifting) list.pred_mono_strong sent_by_mono)

lemma acted_write:
  assumes "w' = w\<lparr>tasks := ts, watchers := ws, taskLabels := ls, comments := cs, notifications := ns, emitted := emitted w @ es\<rparr>"
    and "about_task tid w w'" and "list_all (sent_by ids) es"
  shows "acted ids tid w w'"
  using assms unfolding acted_def by blast

lemma acted_tasks: "others_kept tid (tasks w) ts \<Longrightarrow> acted ids tid w (w\<lparr>tasks := ts\<rparr>)"
  by (rule acted_write [where ts = ts and ws = "watchers w" and ls = "taskLabels w" and cs = "comments w" and ns = "notifications w" and es = "[]"]) (simp_all add: about_task_def)

lemma acted_rows:
  "added (\<lambda>r. w_taskId r = tid) (watchers w) ws \<Longrightarrow> acted ids tid w (w\<lparr>watchers := ws\<rparr>)"
  "filter (\<lambda>r. tl_taskId r \<noteq> tid) ls = filter (\<lambda>r. tl_taskId r \<noteq> tid) (taskLabels w) \<Longrightarrow> acted ids tid w (w\<lparr>taskLabels := ls\<rparr>)"
  "added (\<lambda>c. cm_taskId c = tid) (comments w) cs \<Longrightarrow> acted ids tid w (w\<lparr>comments := cs\<rparr>)"
  "added (\<lambda>n. nt_relatedTaskId n = Some tid) (notifications w) ns \<Longrightarrow> acted ids tid w (w\<lparr>notifications := ns\<rparr>)"
proof -
  show "added (\<lambda>r. w_taskId r = tid) (watchers w) ws \<Longrightarrow> acted ids tid w (w\<lparr>watchers := ws\<rparr>)"
    by (rule acted_write [where ts = "tasks w" and ws = ws and ls = "taskLabels w" and cs = "comments w" and ns = "notifications w" and es = "[]"]) (simp_all add: about_task_def)
  show "filter (\<lambda>r. tl_taskId r \<noteq> tid) ls = filter (\<lambda>r. tl_taskId r \<noteq> tid) (taskLabels w) \<Longrightarrow> acted ids tid w (w\<lparr>taskLabels := ls\<rparr>)"
    by (rule acted_write [where ts = "tasks w" and ws = "watchers w" and ls = ls and cs = "comments w" and ns = "notifications w" and es = "[]"]) (simp_all add: about_task_def)
  show "added (\<lambda>c. cm_taskId c = tid) (comments w) cs \<Longrightarrow> acted ids tid w (w\<lparr>comments := cs\<rparr>)"
    by (rule acted_write [where ts = "tasks w" and ws = "watchers w" and ls = "taskLabels w" and cs = cs and ns = "notifications w" and es = "[]"]) (simp_all add: about_task_def)
  show "added (\<lambda>n. nt_relatedTaskId n = Some tid) (notifications w) ns \<Longrightarrow> acted ids tid w (w\<lparr>notifications := ns\<rparr>)"
    by (rule acted_write [where ts = "tasks w" and ws = "watchers w" and ls = "taskLabels w" and cs = "comments w" and ns = ns and es = "[]"]) (simp_all add: about_task_def)
qed

lemma acted_emit: "acted ids tid w w' \<Longrightarrow> sent_by ids ev \<Longrightarrow> acted ids tid w (emit ev w')"
  by (rule acted_trans, assumption,
      rule acted_write [where ts = "tasks w'" and ws = "watchers w'" and ls = "taskLabels w'" and cs = "comments w'" and ns = "notifications w'" and es = "[ev]"])
    (simp_all add: emit_def about_task_def)

lemma labels_of_others:
  "tl_taskId r = tid \<Longrightarrow> filter (\<lambda>r. tl_taskId r \<noteq> tid) (insert_absent key r ls) = filter (\<lambda>r. tl_taskId r \<noteq> tid) ls"
  "filter (\<lambda>r. tl_taskId r \<noteq> tid) (delete_where (\<lambda>r. task_label_key r = (tid, lid)) ls) = filter (\<lambda>r. tl_taskId r \<noteq> tid) ls"
  by (simp add: insert_absent_def) (induction ls; simp add: task_label_key_def)

lemmas acted_steps = attempt_inv [where P = "acted ids tid w" for ids tid w]

lemma executeAction_acted:
  "acted {ac_id c} (the (payload_text payload ''taskId'')) w (snd (executeAction c action cfg payload w))"
proof -
  let ?A = "acted {ac_id c}"
  have ct: "?A tid w (snd (change_task tid f w))" if "\<And>t. task_core (f t) = task_core t" for tid f
    unfolding change_task_def by (intro acted_steps) (simp_all add: acted_tasks others_kept_update that)
  have uw: "?A tid w (snd (upsert_watcher uid tid w))" for uid tid w
    unfolding upsert_watcher_def by (intro acted_steps) (simp_all add: acted_rows added_insert_absent)
  have sa: "?A tid w (snd (set_assignee uid tid w))" for uid tid
    unfolding set_assignee_def
    by (intro acted_steps acted_refl, rule acted_trans [OF acted_tasks uw]) (simp add: others_kept_update task_core_def)
  have al: "?A tid w (snd (add_label c lid tid w))" for lid tid
    unfolding add_label_def by (intro acted_steps) (simp_all add: acted_rows labels_of_others)
  have tr: "?A tid w (snd (transition_status c payload st tid w))" for st tid
    unfolding transition_status_def Let_def
    by (intro acted_steps) (simp_all add: acted_emit acted_tasks others_kept_update task_core_def sent_by_def)
  have co: "?A tid w (snd (add_comment c body tid w))" for body tid
    unfolding add_comment_def by (intro acted_steps) (simp_all add: acted_emit acted_rows automation_comment_def sent_by_def)
  have nu: "?A tid w (snd (notify_user c m uid tid w))" for m uid tid
    unfolding notify_user_def by (intro acted_steps) (simp_all add: acted_rows)
  show ?thesis
    unfolding executeAction_def Let_def
    by (intro acted_steps acted_refl, cases action)
      (auto intro!: acted_steps ct uw sa al tr co nu acted_rows simp: task_core_def labels_of_others split: sum.splits)
qed

lemma run_actions_acted:
  "acted {am_id a} (the (payload_text payload ''taskId'')) w (snd (run_actions ee a k acts payload w))"
proof (induction ee a k acts payload w rule: run_actions.induct)
  case (2 ee a k action cfg rest payload w)
  let ?c = "\<lparr>ac_env = ee_action ee k, ac_zone = ee_zone ee, ac_fetch = ee_fetch ee k, ac_id = am_id a,
    ac_projectId = am_projectId a, ac_createdById = am_createdById a\<rparr>"
  obtain r w' where x: "executeAction ?c action cfg payload w = (r, w')" by fastforce
  with executeAction_acted [of ?c payload w action cfg] have first: "acted {am_id a} (the (payload_text payload ''taskId'')) w w'" by simp
  show ?case
  proof (cases r)
    case Inl
    with x first show ?thesis by simp
  next
    case (Inr u)
    with 2 x have "acted {am_id a} (the (payload_text payload ''taskId'')) w' (snd (run_actions ee a (Suc k) rest payload w'))" by auto
    with first x Inr show ?thesis using acted_trans by simp
  qed
qed simp

lemma acted_fields:
  "acted ids tid w w' \<Longrightarrow> automations w' = automations w \<and> automationSteps w' = automationSteps w \<and>
    automationRuns w' = automationRuns w \<and> projects w' = projects w \<and> map task_core (tasks w') = map task_core (tasks w)"
  by (auto simp: acted_def about_task_def others_kept_def)

definition counted :: "int \<Rightarrow> automation_row \<Rightarrow> automation_row" where
  "counted d a = a\<lparr>am_runCount := am_runCount a + 1, am_lastRunAt := Some d\<rparr>"

interpretation counting: row_update am_id "counted d" for d
  by unfold_locales (simp add: counted_def)

text \<open>The record a rule leaves, and the rule afterwards.\<close>

definition left_record :: "automation_trigger \<Rightarrow> json_object \<Rightarrow> automation_row \<Rightarrow> run_row \<Rightarrow> bool" where
  "left_record trigger payload a r \<longleftrightarrow> ar_automationId r = am_id a \<and> ar_taskId r = payload_text payload ''taskId'' \<and> ar_payload r = payload \<and>
     (ar_status r = RunSkipped \<longleftrightarrow> \<not> matchesTrigger trigger (am_triggerConfig a) payload) \<and> (ar_status r = RunSucceeded \<longleftrightarrow> ar_message r = None)"

lemma run_automation_effect:
  assumes "am_id a \<in> am_id ` set (automations w)"
  shows "\<exists>w1 r d. acted {am_id a} (the (payload_text payload ''taskId'')) w w1 \<and> left_record trigger payload a r \<and>
    run_automation ee trigger payload (a, ss) w = w1\<lparr>automationRuns := automationRuns w @ [r],
      automations := (if ar_status r = RunSucceeded then update_where (\<lambda>x. am_id x = am_id a) (counted d) (automations w) else automations w)\<rparr>"
proof (cases "matchesTrigger trigger (am_triggerConfig a) payload")
  case False
  let ?r = "\<lparr>ar_id = uuid (ee_run ee) 0, ar_automationId = am_id a, ar_taskId = payload_text payload ''taskId'', ar_status = RunSkipped,
    ar_message = Some (RunText ''Trigger filter did not match''), ar_payload = payload, ar_createdAt = clk (ee_run ee) 0\<rparr>"
  have "left_record trigger payload a ?r" using False by (simp add: left_record_def)
  moreover have "run_automation ee trigger payload (a, ss) w = w\<lparr>automationRuns := automationRuns w @ [?r], automations := automations w\<rparr>"
    using False assms by (simp add: run_automation_def recordRun_def)
  ultimately show ?thesis by (intro exI [of _ w] exI [of _ ?r]) simp
next
  case True
  let ?acts = "(am_action a, am_actionConfig a) # map (\<lambda>s. (st_action s, st_actionConfig s)) ss"
  obtain res w1 where run: "run_actions ee a 0 ?acts payload w = (res, w1)" by fastforce
  with run_actions_acted [of a payload w ee 0 ?acts] have acted: "acted {am_id a} (the (payload_text payload ''taskId'')) w w1" by simp
  note same = acted_fields [OF acted]
  let ?r = "\<lparr>ar_id = uuid (ee_run ee) 0, ar_automationId = am_id a, ar_taskId = payload_text payload ''taskId'',
    ar_status = (case res of Inl e \<Rightarrow> RunFailed | Inr _ \<Rightarrow> RunSucceeded), ar_message = (case res of Inl e \<Rightarrow> Some (RunError e) | Inr _ \<Rightarrow> None),
    ar_payload = payload, ar_createdAt = clk (ee_run ee) 0\<rparr>"
  have "left_record trigger payload a ?r" using True by (cases res) (simp_all add: left_record_def)
  moreover have "run_automation ee trigger payload (a, ss) w = w1\<lparr>automationRuns := automationRuns w @ [?r],
      automations := (if ar_status ?r = RunSucceeded then update_where (\<lambda>x. am_id x = am_id a) (counted (clk (ee_run ee) 1)) (automations w) else automations w)\<rparr>"
    using True run assms same
    by (cases res) (simp_all add: run_automation_def recordRun_def update_automation_def counted_def [abs_def] Let_def)
  ultimately show ?thesis using acted by blast
qed

definition successes :: "run_row list \<Rightarrow> string \<Rightarrow> int" where
  "successes rs aid = int (count_where (\<lambda>r. ar_automationId r = aid \<and> ar_status r = RunSucceeded) rs)"

definition rule_count :: "automation_row \<Rightarrow> string \<times> int" where
  "rule_count a = (am_id a, am_runCount a)"

text \<open>What a run of some rules amounts to.\<close>

definition engine_effect :: "automation_trigger \<Rightarrow> json_object \<Rightarrow> automation_row list \<Rightarrow> world \<Rightarrow> world \<Rightarrow> bool" where
  "engine_effect trigger payload as w w' \<longleftrightarrow> (\<exists>w1 rs bs.
     acted (am_id ` set as) (the (payload_text payload ''taskId'')) w w1 \<and> list_all2 (left_record trigger payload) as rs \<and>
     w' = w1\<lparr>automationRuns := automationRuns w @ rs, automations := bs\<rparr> \<and>
     map rule_config bs = map rule_config (automations w) \<and>
     map rule_count bs = map (\<lambda>a. (am_id a, am_runCount a + successes rs (am_id a))) (automations w))"

lemma successes_simps:
  "successes [] aid = 0"
  "successes (r # rs) aid = (if ar_automationId r = aid \<and> ar_status r = RunSucceeded then 1 else 0) + successes rs aid"
  by (simp_all add: successes_def count_where_def)

lemma acted_unrecorded:
  assumes "acted ids tid (w1\<lparr>automationRuns := rs, automations := bs\<rparr>) w2"
  shows "\<exists>w3. acted ids tid w1 w3 \<and> w2 = w3\<lparr>automationRuns := rs, automations := bs\<rparr>"
proof -
  from assms obtain ts ws ls cs ns es where w2: "w2 = w1\<lparr>automationRuns := rs, automations := bs, tasks := ts, watchers := ws, taskLabels := ls,
      comments := cs, notifications := ns, emitted := emitted w1 @ es\<rparr>" "about_task tid (w1\<lparr>automationRuns := rs, automations := bs\<rparr>) w2"
      "list_all (sent_by ids) es"
    by (auto simp: acted_def)
  let ?w3 = "w1\<lparr>tasks := ts, watchers := ws, taskLabels := ls, comments := cs, notifications := ns, emitted := emitted w1 @ es\<rparr>"
  have "about_task tid w1 ?w3" using w2(2) by (simp add: about_task_def w2(1))
  then have "acted ids tid w1 ?w3" using w2(3) by (intro acted_write [OF refl])
  then show ?thesis using w2(1) by (intro exI [of _ ?w3]) simp
qed

lemma run_rules_effect:
  "am_id ` fst ` set rules \<subseteq> am_id ` set (automations w) \<Longrightarrow> engine_effect trigger payload (map fst rules) w (run_rules es i trigger payload rules w)"
proof (induction rules arbitrary: i w)
  case Nil
  have "run_rules es i trigger payload [] w = w\<lparr>automationRuns := automationRuns w @ [], automations := automations w\<rparr>" by simp
  moreover have "map rule_count (automations w) = map (\<lambda>a. (am_id a, am_runCount a + successes [] (am_id a))) (automations w)"
    by (simp add: successes_simps rule_count_def)
  moreover have "list_all2 (left_record trigger payload) (map fst []) []" by simp
  ultimately show ?case unfolding engine_effect_def using acted_refl by blast
next
  case (Cons rule rules)
  obtain a ss where rule: "rule = (a, ss)" by fastforce
  let ?tid = "the (payload_text payload ''taskId'')"
  from Cons.prems have "am_id a \<in> am_id ` set (automations w)" by (simp add: rule)
  from run_automation_effect [OF this] obtain w1 r d where 1: "acted {am_id a} ?tid w w1" "left_record trigger payload a r"
    "run_automation (es i) trigger payload (a, ss) w = w1\<lparr>automationRuns := automationRuns w @ [r],
      automations := (if ar_status r = RunSucceeded then update_where (\<lambda>x. am_id x = am_id a) (counted d) (automations w) else automations w)\<rparr>"
      (is "_ = ?w2") by blast
  have "map am_id (automations ?w2) = map am_id (automations w)" by (simp add: counting.keys_kept)
  then have ids: "am_id ` set (automations ?w2) = am_id ` set (automations w)" by (metis list.set_map)
  with Cons.prems rule have "am_id ` fst ` set rules \<subseteq> am_id ` set (automations ?w2)" by simp
  from Cons.IH [OF this, of "Suc i"] obtain w3 rs bs where 2: "acted (am_id ` set (map fst rules)) ?tid ?w2 w3"
    "list_all2 (left_record trigger payload) (map fst rules) rs"
    "run_rules es (Suc i) trigger payload rules ?w2 = w3\<lparr>automationRuns := automationRuns ?w2 @ rs, automations := bs\<rparr>"
    "map rule_config bs = map rule_config (automations ?w2)"
    "map rule_count bs = map (\<lambda>a. (am_id a, am_runCount a + successes rs (am_id a))) (automations ?w2)"
    unfolding engine_effect_def by blast
  from acted_unrecorded [OF 2(1)] obtain w4 where 4: "acted (am_id ` set (map fst rules)) ?tid w1 w4"
    "w3 = w4\<lparr>automationRuns := automationRuns w @ [r],
      automations := (if ar_status r = RunSucceeded then update_where (\<lambda>x. am_id x = am_id a) (counted d) (automations w) else automations w)\<rparr>" by blast
  have "acted (am_id ` set (map fst (rule # rules))) ?tid w w4"
    by (rule acted_trans [OF acted_mono [OF 1(1)] acted_mono [OF 4(1)]]) (auto simp: rule)
  moreover have "list_all2 (left_record trigger payload) (map fst (rule # rules)) (r # rs)" using 1(2) 2(2) by (simp add: rule)
  moreover have "run_rules es i trigger payload (rule # rules) w = w4\<lparr>automationRuns := automationRuns w @ (r # rs), automations := bs\<rparr>"
    using 2(3) 4(2) by (simp add: rule 1(3))
  moreover have "map rule_config bs = map rule_config (automations w)"
    unfolding 2(4) by (simp add: map_update_where counted_def rule_config_def)
  moreover have "map rule_count bs = map (\<lambda>a. (am_id a, am_runCount a + successes (r # rs) (am_id a))) (automations w)"
    unfolding 2(5) using 1(2) by (simp add: successes_simps update_where_def counted_def left_record_def)
  ultimately show ?case unfolding engine_effect_def by blast
qed

lemma engine_effects:
  "engine_effect trigger payload (map fst (matching_rules w pid trigger)) w (runMatchingAutomations es pid trigger payload w)"
  unfolding runMatchingAutomations_def by (rule run_rules_effect) (auto simp: matching_rules_def)

section \<open>Consequences\<close>

lemma engine_inv:
  assumes "automations_inv p w" and "engine_effect trigger payload as w w'" and "am_id ` set as \<subseteq> am_id ` set (automations w)"
  shows "automations_inv p w'"
proof -
  from assms(2) obtain w1 rs bs where e: "acted (am_id ` set as) (the (payload_text payload ''taskId'')) w w1"
    "list_all2 (left_record trigger payload) as rs" "w' = w1\<lparr>automationRuns := automationRuns w @ rs, automations := bs\<rparr>"
    "map rule_config bs = map rule_config (automations w)"
    "map rule_count bs = map (\<lambda>a. (am_id a, am_runCount a + successes rs (am_id a))) (automations w)"
    unfolding engine_effect_def by blast
  have ids: "map am_id bs = map am_id (automations w)"
    using arg_cong [OF e(5), of "map fst"] by (simp add: rule_count_def comp_def)
  then have "am_id ` set bs = am_id ` set (automations w)" by (metis list.set_map)
  moreover have "ar_automationId ` set rs \<subseteq> am_id ` set as"
    using e(2) by (auto simp: list_all2_conv_all_nth left_record_def in_set_conv_nth image_iff) force
  then have "ar_automationId ` set rs \<subseteq> am_id ` set (automations w)" using assms(3) by (rule subset_trans)
  ultimately show ?thesis using assms(1) ids e(4) acted_fields [OF e(1)] unfolding automations_inv_def e(3) by (simp add: image_Un)
qed

lemma matching_rules_ids: "am_id ` set (map fst (matching_rules w pid trigger)) \<subseteq> am_id ` set (automations w)"
  by (auto simp: matching_rules_def)

lemma runMatching_inv: "automations_inv p w \<Longrightarrow> automations_inv p (runMatchingAutomations es pid trigger payload w)"
  by (rule engine_inv [OF _ engine_effects matching_rules_ids])

lemma listen_inv: "automations_inv p w \<Longrightarrow> automations_inv p (listen es trigger payload w)"
  by (simp add: listen_def Let_def runMatching_inv)

lemma onEvent_inv: "automations_inv p w \<Longrightarrow> automations_inv p (onEvent es m payload w)"
  by (cases m) (auto simp: listen_inv onAutomationTaskUpdated_def split: option.splits)

datatype automation_op =
    CreateAutomation env auth_user string automation_input
  | UpdateAutomation auth_user string automation_patch
  | ToggleAutomation auth_user string bool
  | RemoveAutomation auth_user string
  | AddStep env auth_user string automation_action "json_object option"
  | RemoveStep auth_user string
  | Heard "nat \<Rightarrow> engine_env" listened json_object

fun exec_automation :: "(string \<Rightarrow> string option) \<Rightarrow> automation_op \<Rightarrow> world \<Rightarrow> world" where
  "exec_automation p (CreateAutomation e u pid i) w = snd (createAutomation p e u pid i w)"
| "exec_automation p (UpdateAutomation u aid i) w = snd (updateAutomation p u aid i w)"
| "exec_automation p (ToggleAutomation u aid b) w = snd (toggleAutomation u aid b w)"
| "exec_automation p (RemoveAutomation u aid) w = snd (removeAutomation u aid w)"
| "exec_automation p (AddStep e u aid action cfg) w = snd (addStep p e u aid action cfg w)"
| "exec_automation p (RemoveStep u sid) w = snd (removeStep u sid w)"
| "exec_automation p (Heard es m payload) w = onEvent es m payload w"

fun new_automation_id :: "automation_op \<Rightarrow> world \<Rightarrow> bool" where
  "new_automation_id (CreateAutomation e u pid i) w = (uuid e 0 \<notin> am_id ` set (automations w))"
| "new_automation_id _ w = True"

interpretation automation_runs: operation_system "automations_inv p" new_automation_id "exec_automation p" for p
proof
  fix w op assume "automations_inv p w" and "new_automation_id op w"
  then show "automations_inv p (exec_automation p op w)"
    by (cases op) (simp_all add: createAutomation_inv updateAutomation_inv toggleAutomation_inv removeAutomation_inv addStep_inv
      removeStep_inv onEvent_inv)
qed

section \<open>Properties\<close>

text \<open>
  C26: whatever operations on rules run and whatever events the listener hears, the configuration of every stored action passes the validation of its action,
  rules have unique identifiers, the further steps of a rule have different positions, and steps and records belong to existing rules.
\<close>

theorem stored_configurations_valid:
  assumes "automations_inv p w" and "automation_runs.run_ok p ops w"
  shows "automations_inv p (fold (exec_automation p) ops w)"
  using assms by (rule automation_runs.run_inv)

definition sample_rule :: "automation_action \<Rightarrow> json_object \<Rightarrow> automation_row" where
  "sample_rule action cfg = \<lparr>am_id = ''r1'', am_projectId = ''P'', am_name = ''rule'', am_description = None, am_enabled = True,
     am_trigger = OnTaskCreated, am_triggerConfig = [], am_action = action, am_actionConfig = cfg, am_createdById = ''A'',
     am_runCount = 0, am_lastRunAt = None, am_createdAt = 0\<rparr>"

definition rule_world :: "automation_action \<Rightarrow> json_object \<Rightarrow> world" where
  "rule_world action cfg = task_world\<lparr>automations := [sample_rule action cfg]\<rparr>"

definition sample_engine :: "nat \<Rightarrow> engine_env" where
  "sample_engine i = \<lparr>ee_run = sample_env, ee_action = (\<lambda>k. sample_env), ee_zone = fixed_zone 0, ee_fetch = (\<lambda>k n. Responded 200)\<rparr>"

definition created_payload :: json_object where
  "created_payload = [(''taskId'', JStr ''t1''), (''projectId'', JStr ''P'')]"

theorem stored_configurations_valid_witness:
  "automations_inv Map.empty (fold (exec_automation Map.empty)
     [Heard sample_engine TaskCreatedMsg created_payload, AddStep sample_env sample_admin ''r1'' DoAddWatcher (Some [(''userId'', JStr ''U'')])]
     (rule_world DoSetPriority [(''priority'', JStr ''High'')]))"
  by (rule stored_configurations_valid)
    (simp_all add: automations_inv_def rule_world_def sample_rule_def rule_config_def config_ok_def validate_config_def text_of_def
      priority_of_def task_world_def empty_world_def)

text \<open>
  C27: a validated action does not get stuck on its configuration, when a priority is stored as a text (which the
  validation does not ask for): when the action fails for a task, the database misses a row it refers to, or
  the due date its number of days leads to is beyond the range of dates, or its webhook was not accepted and the error is the one of
  the webhook.
\<close>

theorem valid_action_fails_only_outside:
  assumes "config_ok p (action, cfg)" and "truthy (payload_text payload ''taskId'')"
    and "action = DoSetPriority \<longrightarrow> is_text (map_of cfg ''priority'')"
    and "fst (executeAction c action cfg payload w) = Inl err"
  shows "(\<exists>code. err = DbError code) \<or>
    (action = DoSetDueDate \<and> (\<exists>days. map_of cfg ''offsetDays'' = Some (JNum days) \<and> due_in (ac_zone c) (clk (ac_env c) 0) days = None)) \<or>
    (action = DoSendWebhook \<and> send_webhook (ac_fetch c) = Inl err)"
proof -
  have is_str: "\<exists>s. text_param cfg k = Inr s" if "is_text (map_of cfg k)" for k
    using that by (auto simp: text_param_def is_text_def split: option.splits json.splits)
  have prio: "\<exists>s q. text_param cfg ''priority'' = Inr s \<and> priority_of s = Some q" if "action = DoSetPriority"
    using assms(1,3) that by (auto simp: config_ok_def validate_config_def text_param_def is_text_def text_of_def split: option.splits json.splits)
  have need: "is_text (map_of cfg k)" if "need_text cfg k = Inr ()" for k using that by (simp add: need_text_def)
  have sprint: "\<exists>sp. (case map_of cfg ''sprintId'' of Some JNull \<Rightarrow> Inr None | None \<Rightarrow> Inr None | _ \<Rightarrow> and_then (text_param cfg ''sprintId'') (\<lambda>s. Inr (Some s))) = Inr sp"
    if "action = DoSetSprint"
    using assms(1) that by (auto simp: config_ok_def validate_config_def text_param_def is_text_def split: option.splits json.splits)
  have step: "fst (attempt m v k) = Inl err \<Longrightarrow> (m = Inl err) \<or> (\<exists>a. m = Inr a \<and> fst (k a) = Inl err)"
    for m :: "'x res" and v :: world and k :: "'x \<Rightarrow> unit res \<times> world" by (cases m) auto
  note parts = change_task_def set_assignee_def upsert_watcher_def add_label_def transition_status_def add_comment_def notify_user_def
    task_or_throw_def Let_def
  have db: "fst (change_task tid f v) = Inl err \<Longrightarrow> \<exists>code. err = DbError code" "fst (set_assignee uid tid v) = Inl err \<Longrightarrow> \<exists>code. err = DbError code"
    "fst (upsert_watcher uid tid v) = Inl err \<Longrightarrow> \<exists>code. err = DbError code" "fst (add_label c lid tid v) = Inl err \<Longrightarrow> \<exists>code. err = DbError code"
    "fst (transition_status c payload st tid v) = Inl err \<Longrightarrow> \<exists>code. err = DbError code"
    "fst (add_comment c body tid v) = Inl err \<Longrightarrow> \<exists>code. err = DbError code"
    "fst (notify_user c m uid tid v) = Inl err \<Longrightarrow> \<exists>code. err = DbError code" for tid f v uid lid st body m
    unfolding parts by (auto simp: attempt_def require_def found_def split: if_splits sum.splits option.splits)
  show ?thesis
  proof (cases action)
    case DoSetPriority
    with prio assms(2,4) db(1) show ?thesis by (auto simp: executeAction_def Let_def)
  next
    case DoSetSprint
    with sprint obtain sp where "(case map_of cfg ''sprintId'' of Some JNull \<Rightarrow> Inr None | None \<Rightarrow> Inr None | _ \<Rightarrow> and_then (text_param cfg ''sprintId'') (\<lambda>s. Inr (Some s))) = Inr sp"
      by blast
    with DoSetSprint assms(2,4) db(1) show ?thesis
      by (auto simp: executeAction_def Let_def task_or_throw_def dest!: step)
  next
    case DoSetDueDate
    then obtain days where days: "map_of cfg ''offsetDays'' = Some (JNum days)"
      using assms(1) by (auto simp: config_ok_def validate_config_def split: option.splits json.splits)
    with DoSetDueDate assms(2,4) db(1) show ?thesis
      by (cases "due_in (ac_zone c) (clk (ac_env c) 0) days") (auto simp: executeAction_def Let_def)
  next
    case DoSendWebhook
    with assms(2,4) show ?thesis by (simp add: executeAction_def Let_def)
  qed (use assms need is_str db in \<open>auto simp: config_ok_def validate_config_def executeAction_def Let_def dest!: need is_str\<close>)
qed

theorem valid_action_fails_only_outside_witness:
  "\<exists>code. fst (executeAction \<lparr>ac_env = sample_env, ac_zone = fixed_zone 0, ac_fetch = (\<lambda>n. Responded 200), ac_id = ''r1'', ac_projectId = ''P'',
     ac_createdById = ''A''\<rparr> DoSetAssignee [(''assigneeUserId'', JStr ''gone'')] created_payload task_world) = Inl (DbError code)"
proof -
  let ?r = "fst (executeAction \<lparr>ac_env = sample_env, ac_zone = fixed_zone 0, ac_fetch = (\<lambda>n. Responded 200), ac_id = ''r1'', ac_projectId = ''P'',
     ac_createdById = ''A''\<rparr> DoSetAssignee [(''assigneeUserId'', JStr ''gone'')] created_payload task_world)"
  have "\<exists>err. ?r = Inl err"
    by (simp add: executeAction_def payload_text_def created_payload_def text_param_def set_assignee_def task_or_throw_def)
      (simp add: task_samples)
  then obtain err where err: "?r = Inl err" by blast
  have "config_ok Map.empty (DoSetAssignee, [(''assigneeUserId'', JStr ''gone'')])" "truthy (payload_text created_payload ''taskId'')"
    by (simp_all add: config_ok_def validate_config_def need_text_def is_text_def payload_text_def created_payload_def)
  from valid_action_fails_only_outside [OF this _ err] have "\<exists>code. err = DbError code" by simp
  with err show ?thesis by auto
qed

text \<open>
  The engine keeps its books. Hearing a trigger appends exactly one record per enabled rule of the project with this trigger, in order, each with the
  payload; the record says that the rule was skipped exactly when its filter does not let the payload
  pass, and carries a message unless the rule succeeded; the counter of every rule grows by its successes; configurations stay as they are.
\<close>

theorem engine_leaves_one_record_per_rule:
  "\<exists>rs. automationRuns (runMatchingAutomations es pid trigger payload w) = automationRuns w @ rs \<and>
    list_all2 (left_record trigger payload) (filter (\<lambda>a. am_projectId a = pid \<and> am_trigger a = trigger \<and> am_enabled a) (automations w)) rs \<and>
    map rule_count (automations (runMatchingAutomations es pid trigger payload w)) =
      map (\<lambda>a. (am_id a, am_runCount a + successes rs (am_id a))) (automations w) \<and>
    map rule_config (automations (runMatchingAutomations es pid trigger payload w)) = map rule_config (automations w)"
proof -
  let ?rules = "filter (\<lambda>a. am_projectId a = pid \<and> am_trigger a = trigger \<and> am_enabled a) (automations w)"
  have "map fst (matching_rules w pid trigger) = ?rules" by (simp add: matching_rules_def comp_def)
  with engine_effects [of trigger payload w pid es] obtain w1 rs bs where
    "list_all2 (left_record trigger payload) ?rules rs"
    "runMatchingAutomations es pid trigger payload w = w1\<lparr>automationRuns := automationRuns w @ rs, automations := bs\<rparr>"
    "map rule_config bs = map rule_config (automations w)"
    "map rule_count bs = map (\<lambda>a. (am_id a, am_runCount a + successes rs (am_id a))) (automations w)"
    unfolding engine_effect_def by auto
  then show ?thesis by (intro exI [of _ rs]) simp
qed

text \<open>
  C28: what the rules of a project can touch. Hearing a trigger about a task writes, of the tasks, only that
  one and only its priority, status, sprint, assignee and due date: numbers, identifiers and the hierarchy keep their
  invariant. It adds or removes labels of that task only, adds watchers of it, comments on it and notifications about it, and
  takes none away; it adds records of runs, and of the rules it changes no more than their counters and times. Users, projects, grants,
  sprints, workflows and every other table are as before.
\<close>

theorem engine_touches_only_its_task:
  assumes "payload_text payload ''taskId'' = Some tid" and "tasks_inv w"
    and "w' = runMatchingAutomations es pid trigger payload w"
  shows "tasks_inv w' \<and> about_task tid w w' \<and> map am_id (automations w') = map am_id (automations w) \<and>
    map rule_config (automations w') = map rule_config (automations w) \<and> (\<exists>rs. automationRuns w' = automationRuns w @ rs) \<and>
    w'\<lparr>tasks := tasks w, watchers := watchers w, taskLabels := taskLabels w, comments := comments w, notifications := notifications w,
       emitted := emitted w, automations := automations w, automationRuns := automationRuns w\<rparr> = w"
proof -
  obtain w1 rs bs where e: "acted (am_id ` set (map fst (matching_rules w pid trigger))) tid w w1"
    "w' = w1\<lparr>automationRuns := automationRuns w @ rs, automations := bs\<rparr>" "map rule_config bs = map rule_config (automations w)"
    "map rule_count bs = map (\<lambda>a. (am_id a, am_runCount a + successes rs (am_id a))) (automations w)"
    using engine_effects [of trigger payload w pid es] assms(1) unfolding engine_effect_def assms(3) by auto
  have ids: "map am_id bs = map am_id (automations w)"
    using arg_cong [OF e(4), of "map fst"] by (simp add: rule_count_def comp_def)
  from e(1) obtain ts ws ls cs ns es where w1: "w1 = w\<lparr>tasks := ts, watchers := ws, taskLabels := ls, comments := cs, notifications := ns,
      emitted := emitted w @ es\<rparr>" "about_task tid w w1" unfolding acted_def by blast
  have about: "about_task tid w w'" using w1(2) by (simp add: about_task_def e(2))
  have "place t = place (task_core t)" for t by (simp add: place_def task_core_def ident_def)
  then have "map place (tasks w') = map place (tasks w)"
    using arg_cong [of _ _ "map place"] about
    by (simp add: about_task_def others_kept_def) (metis (no_types, lifting) list.map_comp comp_def map_eq_conv)
  then have "tasks_inv w'" using tasks_inv_kept [OF assms(2)] by (simp add: e(2) w1(1))
  with w1 e(2,3) about ids show ?thesis by simp
qed

theorem engine_touches_only_its_task_witness:
  "about_task ''t1'' (rule_world DoTransitionStatus [(''status'', JStr ''Done'')])
     (runMatchingAutomations sample_engine ''P'' OnTaskCreated created_payload (rule_world DoTransitionStatus [(''status'', JStr ''Done'')]))"
proof -
  let ?w = "rule_world DoTransitionStatus [(''status'', JStr ''Done'')]"
  have "tasks_inv ?w" by (rule tasks_inv_kept [OF task_world_inv]) (simp_all add: rule_world_def)
  moreover have "payload_text created_payload ''taskId'' = Some ''t1''" by (simp add: payload_text_def created_payload_def)
  ultimately show ?thesis using engine_touches_only_its_task by blast
qed

text \<open>
  C29: rules do not set each other off. Every event the engine emits names the rule it comes from, and the
  listener ignores it, whatever rules there are.
\<close>

theorem engine_events_do_not_cascade:
  assumes "[] \<notin> am_id ` set (automations w)"
  shows "\<exists>evs. emitted (runMatchingAutomations es pid trigger payload w) = emitted w @ evs \<and>
    (\<forall>ev \<in> set evs. \<exists>m p. engine_payload ev = Some (m, p) \<and> (\<forall>es' v. onEvent es' m p v = v))"
proof -
  let ?ids = "am_id ` set (map fst (matching_rules w pid trigger))"
  have ignored: "onEvent es' m p v = v" if "engine_payload ev = Some (m, p)" "map_of p ''viaAutomation'' = Some (JStr aid)" "aid \<noteq> []" for ev m p aid es' v
  proof -
    from that(1) have "m \<in> {StatusChangedMsg, CommentAddedMsg}" by (cases ev rule: engine_payload.cases) auto
    with that show ?thesis by (auto simp: listen_def json_truthy_def)
  qed
  obtain w1 rs bs where e: "acted ?ids (the (payload_text payload ''taskId'')) w w1"
    "runMatchingAutomations es pid trigger payload w = w1\<lparr>automationRuns := automationRuns w @ rs, automations := bs\<rparr>"
    using engine_effects [of trigger payload w pid es] unfolding engine_effect_def by auto
  then obtain evs where "emitted w1 = emitted w @ evs" and evs: "list_all (sent_by ?ids) evs" unfolding acted_def by auto
  moreover have "\<exists>m p. engine_payload ev = Some (m, p) \<and> (\<forall>es' v. onEvent es' m p v = v)" if "ev \<in> set evs" for ev
  proof -
    from that evs have "sent_by ?ids ev" by (simp add: list_all_iff)
    then obtain m p aid where "engine_payload ev = Some (m, p)" "aid \<in> ?ids" "map_of p ''viaAutomation'' = Some (JStr aid)"
      unfolding sent_by_def by blast
    moreover have "aid \<noteq> []" using assms matching_rules_ids [of w pid trigger] calculation(2) by blast
    ultimately show ?thesis using ignored by blast
  qed
  ultimately show ?thesis using e(2) by (intro exI [of _ evs]) simp
qed

theorem engine_events_do_not_cascade_witness:
  "\<exists>ev. emitted (runMatchingAutomations sample_engine ''P'' OnTaskCreated created_payload (rule_world DoTransitionStatus [(''status'', JStr ''Done'')])) = [ev] \<and>
    (\<exists>m p. engine_payload ev = Some (m, p) \<and> (\<forall>es' v. onEvent es' m p v = v))"
proof -
  let ?w = "rule_world DoTransitionStatus [(''status'', JStr ''Done'')]"
  have "[] \<notin> am_id ` set (automations ?w)" "emitted ?w = []" by (simp_all add: rule_world_def sample_rule_def task_world_def empty_world_def)
  from engine_events_do_not_cascade [OF this(1), of sample_engine "''P''" OnTaskCreated created_payload] this(2) obtain evs where
    evs: "emitted (runMatchingAutomations sample_engine ''P'' OnTaskCreated created_payload ?w) = evs"
      "\<forall>ev \<in> set evs. \<exists>m p. engine_payload ev = Some (m, p) \<and> (\<forall>es' v. onEvent es' m p v = v)" by auto
  have "length (emitted (runMatchingAutomations sample_engine ''P'' OnTaskCreated created_payload ?w)) = 1"
    by (simp add: runMatchingAutomations_def matching_rules_def rule_world_def sample_rule_def steps_of_def run_automation_def matchesTrigger_def
      executeAction_def payload_text_def created_payload_def text_param_def transition_status_def task_or_throw_def find_task_def
      recordRun_def update_automation_def Let_def)
     (simp add: task_samples recordRun_def update_automation_def Let_def)
  with evs show ?thesis by (cases evs) auto
qed

fun transient :: "fetch_result \<Rightarrow> bool" where
  "transient (Responded status) = RETRYABLE status"
| "transient (NetworkError msg) = True"

fun accepted :: "fetch_result \<Rightarrow> bool" where
  "accepted (Responded status) \<longleftrightarrow> 200 \<le> status \<and> status < 300"
| "accepted (NetworkError msg) = False"

text \<open>
  A webhook is tried once or twice. The second attempt is made exactly when the first ended in a network error or
  a transient status; the action succeeds exactly when the last attempt was answered with a status of success.
\<close>

theorem webhook_tried_at_most_twice:
  "fst (webhook_loop fetch 0 None) = (if transient (fetch 0) then 2 else 1) \<and>
   (send_webhook fetch = Inr () \<longleftrightarrow> accepted (fetch (fst (webhook_loop fetch 0 None) - 1)))"
proof -
  have last: "webhook_loop fetch 2 e = (2, case e of None \<Rightarrow> Inr () | Some e \<Rightarrow> Inl e)" for e
    by (simp add: webhook_loop.simps [of fetch 2])
  have second: "webhook_loop fetch 1 (Some e) = (2, if accepted (fetch 1) then Inr () else Inl (case fetch 1 of Responded s \<Rightarrow> responded_error s | NetworkError m \<Rightarrow> LibraryError m))" for e
    by (subst webhook_loop.simps) (simp add: last [simplified numeral_2_eq_2] numeral_2_eq_2 split: fetch_result.split)
  show ?thesis
    unfolding send_webhook_def
    by (subst (1 2 3) webhook_loop.simps) (auto simp: second [simplified] RETRYABLE_def split: fetch_result.splits)
qed

section \<open>What the engine does past the rules\<close>

definition sample_context :: action_context where
  "sample_context = \<lparr>ac_env = sample_env, ac_zone = fixed_zone 0, ac_fetch = (\<lambda>n. Responded 200), ac_id = ''r1'', ac_projectId = ''P'',
     ac_createdById = ''A''\<rparr>"

text \<open>An action moves a task to a status the project does not have, which \<open>changeStatus\<close> refuses.\<close>

theorem automation_skips_workflow:
  "\<exists>w' t. executeAction sample_context DoTransitionStatus [(''status'', JStr ''Nowhere'')] created_payload task_world = (Inr (), w') \<and>
     find_task w' ''t1'' = Some t \<and> \<not> valid_status w' (sample_project\<lparr>p_nextTaskNumber := 4\<rparr>) (t_status t) \<and>
     fst (changeStatus sample_env sample_admin ''t1'' ''Nowhere'' ByUser task_world) = Inl (unknown_status ''Nowhere'')"
proof -
  let ?w = "emit (AutomationEvent (StatusMoved_ev ''t1'' JNull ''Nowhere'' ''A'' ''P'' ''r1''))
    (task_world\<lparr>tasks := update_where (\<lambda>t. t_id t = ''t1'') (\<lambda>t. t\<lparr>t_status := ''Nowhere''\<rparr>) (tasks task_world)\<rparr>)"
  have "executeAction sample_context DoTransitionStatus [(''status'', JStr ''Nowhere'')] created_payload task_world = (Inr (), ?w)"
    by (simp add: executeAction_def payload_text_def created_payload_def text_param_def transition_status_def task_or_throw_def sample_context_def Let_def)
  moreover have "find_task ?w ''t1'' = Some ((sample_task ''t1'' ''Todo'')\<lparr>t_status := ''Nowhere''\<rparr>)"
    by (simp add: find_task_def task_samples)
  moreover have "\<not> valid_status w (sample_project\<lparr>p_nextTaskNumber := 4\<rparr>) ''Nowhere''" if "statuses w = statuses task_world" for w
    using that by (simp add: valid_status_def project_statuses_def task_samples Let_def del: set_filter)
  moreover have "fst (changeStatus sample_env sample_admin ''t1'' ''Nowhere'' ByUser task_world) = Inl (unknown_status ''Nowhere'')"
    using calculation(3) [of task_world]
    by (simp add: changeStatus_def task_or_throw_def project_or_throw_def Let_def) (simp add: sample_task_def)
  ultimately show ?thesis by (intro exI [of _ ?w]) simp
qed

text \<open>An action puts a label of one project on a task of another, which \<open>attach\<close> refuses.\<close>

definition foreign_label_world :: world where
  "foreign_label_world = task_world\<lparr>labels := [\<lparr>lb_id = ''L'', lb_projectId = ''Q'', lb_name = ''x'', lb_color = ''AAAAAA''\<rparr>]\<rparr>"

theorem automation_labels_across_projects:
  "labels_inv foreign_label_world \<and>
   \<not> labels_inv (snd (executeAction sample_context DoAddLabel [(''labelId'', JStr ''L'')] created_payload foreign_label_world))"
proof
  show "labels_inv foreign_label_world"
    by (simp add: labels_inv_def foreign_label_world_def label_key_def task_world_def empty_world_def hex6_def is_hex_def)
  let ?r = "\<lparr>tl_taskId = ''t1'', tl_labelId = ''L'', tl_addedById = ''A'', tl_addedAt = 0\<rparr>"
  have refs: "''t1'' \<in> t_id ` set (tasks foreign_label_world)" "''L'' \<in> lb_id ` set (labels foreign_label_world)"
    "''A'' \<in> u_id ` set (users foreign_label_world)" "taskLabels foreign_label_world = []"
    "label_ref ` set (labels foreign_label_world) = {(''L'', ''Q'')}"
    "task_ref ` set (tasks foreign_label_world) = {(''t1'', ''P''), (''t2'', ''P''), (''t3'', ''P'')}"
    by (simp_all add: foreign_label_world_def task_world_def empty_world_def sample_user_def sample_task_def label_ref_def task_ref_def)
  then have "executeAction sample_context DoAddLabel [(''labelId'', JStr ''L'')] created_payload foreign_label_world =
      (Inr (), foreign_label_world\<lparr>taskLabels := [?r]\<rparr>)"
    by (simp add: executeAction_def payload_text_def created_payload_def text_param_def add_label_def sample_context_def Let_def
      insert_absent_def sample_env_def)
  with refs show "\<not> labels_inv (snd (executeAction sample_context DoAddLabel [(''labelId'', JStr ''L'')] created_payload foreign_label_world))"
    by (simp add: labels_inv_def task_label_key_def same_project_def)
qed

end
