(* ===== verification/Auth.thy ===== *)
theory Auth
  imports Permissions JsDate
begin

text \<open>
  Signing in, after \<^verbatim>\<open>apps/api/src/modules/auth\<close>: \<^verbatim>\<open>auth.service.ts\<close>,
  \<^verbatim>\<open>session.service.ts\<close>, \<^verbatim>\<open>sessions.service.ts\<close>,
  \<^verbatim>\<open>audit-log.service.ts\<close> and the \<open>validate\<close> of \<^verbatim>\<open>jwt.strategy.ts\<close>.

  The configuration holds the variables of \<^verbatim>\<open>config/env.ts\<close> these read, and what they take from
  libraries: the hash, the signature of an access token and the folding of a \<open>citext\<close> column. A
  request moreover draws random texts, may fail to hand a mail over, and gets an identifier for its
  access token. Each read of the clock and each identifier drawn has an index of its own, also when a
  branch skips it. Long dashes of messages are written \<open>--\<close>.
\<close>

section \<open>Texts\<close>

text \<open>The parts of \<open>email.split('@')\<close>.\<close>

definition email_local :: "string \<Rightarrow> string" where
  "email_local s = takeWhile (\<lambda>c. c \<noteq> CHR ''@'') s"

definition email_domain :: "string \<Rightarrow> string option" where
  "email_domain s = (case dropWhile (\<lambda>c. c \<noteq> CHR ''@'') s of [] \<Rightarrow> None
     | _ # rest \<Rightarrow> Some (takeWhile (\<lambda>c. c \<noteq> CHR ''@'') rest))"

text \<open>\<open>encodeURIComponent\<close>: the UTF-8 bytes of all but the unreserved characters.\<close>

definition unreserved :: "char \<Rightarrow> bool" where
  "unreserved c \<longleftrightarrow> (let n = of_char c :: nat
     in 48 \<le> n \<and> n \<le> 57 \<or> 65 \<le> n \<and> n \<le> 90 \<or> 97 \<le> n \<and> n \<le> 122 \<or> c \<in> set ''-_.!~*()'' \<or> n = 39)"

definition hex_digit :: "nat \<Rightarrow> char" where
  "hex_digit d = (if d < 10 then char_of (48 + d) else char_of (55 + d))"

definition percent_byte :: "nat \<Rightarrow> string" where
  "percent_byte b = [CHR ''%'', hex_digit (b div 16), hex_digit (b mod 16)]"

definition encodeURIComponent :: "string \<Rightarrow> string" where
  "encodeURIComponent s = concat (map (\<lambda>c. let n = of_char c :: nat
     in if unreserved c then [c]
        else if n < 128 then percent_byte n
        else percent_byte (192 + n div 64) @ percent_byte (128 + n mod 64)) s)"

section \<open>Configuration, tokens and requests\<close>

record jwt_payload =
  jp_sub :: string
  jp_kind :: user_kind
  jp_email :: string
  jp_role :: "company_role option"
  jp_jti :: string

record auth_config =
  GOOGLE_OAUTH_ALLOWED_DOMAIN :: string
  JWT_ACCESS_TTL_SECONDS :: int
  JWT_REFRESH_TTL_SECONDS :: int
  MAGIC_LINK_TTL_SECONDS :: int
  PROJECT_INVITE_TTL_SECONDS :: int
  MAGIC_LINK_BASE_URL :: string
  DEV_AUTH_ENABLED :: bool
  sha256 :: "string \<Rightarrow> string"
  signJwt :: "jwt_payload \<Rightarrow> int \<Rightarrow> string"
  citext :: "string \<Rightarrow> string"

record auth_env = env +
  randomBytes :: "nat \<Rightarrow> string"
  mailAccepted :: bool
  ulid :: string

record token_pair =
  accessToken :: string
  refreshToken :: string
  accessTokenExpiresAt :: string
  refreshTokenExpiresAt :: string

record token_input =
  tk_sub :: string
  tk_email :: string
  tk_kind :: user_kind
  tk_role :: "company_role option"
  tk_ip :: "string option"
  tk_userAgent :: "string option"

record google_profile =
  gp_id :: string
  gp_email :: string
  gp_name :: string
  gp_avatarUrl :: "string option"

record project_invite =
  pi_email :: string
  pi_projectId :: string
  pi_projectName :: string
  pi_inviterUserId :: string
  pi_inviterName :: string
  pi_role :: string
  pi_ip :: "string option"

definition find_email :: "auth_config \<Rightarrow> world \<Rightarrow> string \<Rightarrow> user_row option" where
  "find_email cfg w email = find_row (\<lambda>u. citext cfg (u_email u)) (citext cfg email) (users w)"

text \<open>A new row of the user table with its defaults.\<close>

definition new_user :: "string \<Rightarrow> int \<Rightarrow> string \<Rightarrow> string \<Rightarrow> user_kind \<Rightarrow> company_role option \<Rightarrow> user_row" where
  "new_user uid now email nm kind role = \<lparr>u_id = uid, u_name = nm, u_email = email, u_kind = kind,
     u_companyRole = role, u_avatarUrl = None, u_googleId = None, u_archivedAt = None, u_createdAt = now,
     u_lastSeenAt = now, u_weeklyHoursTarget = None, u_pomodoroEnabled = False,
     u_digestEnabled = False, u_digestChannel = ''email''\<rparr>"

text \<open>The unique keys of the table: the identifier, the email and the Google account, where nulls differ.\<close>

definition google_ids :: "user_row list \<Rightarrow> string list" where
  "google_ids us = concat (map (\<lambda>u. case u_googleId u of None \<Rightarrow> [] | Some g \<Rightarrow> [g]) us)"

definition unique_users :: "auth_config \<Rightarrow> user_row list \<Rightarrow> user_row list res" where
  "unique_users cfg us = and_then (unique_rows u_id us) (\<lambda>us.
     and_then (unique_rows (\<lambda>u. citext cfg (u_email u)) us) (\<lambda>us.
     if distinct (google_ids us) then Inr us else Inl (DbError P2002)))"

definition upsert_user :: "auth_config \<Rightarrow> string \<Rightarrow> (user_row \<Rightarrow> user_row) \<Rightarrow> user_row \<Rightarrow> world \<Rightarrow> user_row res \<times> world" where
  "upsert_user cfg email upd new w = (case find_email cfg w email of
     Some u \<Rightarrow> attempt (unique_users cfg (update_where (\<lambda>r. u_id r = u_id u) upd (users w))) w (\<lambda>us.
       (Inr (upd u), w\<lparr>users := us\<rparr>))
   | None \<Rightarrow> attempt (unique_users cfg (users w @ [new])) w (\<lambda>us. (Inr new, w\<lparr>users := us\<rparr>)))"

definition record_audit :: "string \<Rightarrow> audit_action \<Rightarrow> string option \<Rightarrow> string option \<Rightarrow> json_object option \<Rightarrow>
    int \<Rightarrow> world \<Rightarrow> world" where
  "record_audit uid action ip userAgent metadata now w = w\<lparr>auditLog := auditLog w @
     [\<lparr>al_userId = Some uid, al_action = action, al_ip = ip, al_userAgent = userAgent,
       al_metadata = metadata, al_createdAt = now\<rparr>]\<rparr>"

definition audit_order :: "audit_row list \<Rightarrow> audit_row list" where
  "audit_order = order_by (\<lambda>a b. al_createdAt b \<le> al_createdAt a)"

definition listAudit :: "string \<Rightarrow> int \<Rightarrow> world \<Rightarrow> audit_row list" where
  "listAudit uid limit w = take (nat (min (max limit 1) 200))
     (audit_order (filter (\<lambda>r. al_userId r = Some uid) (auditLog w)))"

definition send_mail :: "auth_env \<Rightarrow> mail \<Rightarrow> world \<Rightarrow> unit res \<times> world" where
  "send_mail e letter w = (if mailAccepted e then (Inr (), w\<lparr>outbox := outbox w @ [letter]\<rparr>)
     else (Inl (LibraryError ''sendMail''), w))"

section \<open>Issuing tokens\<close>

text \<open>
  The clock is read \<open>n\<close> times before and \<open>i\<close> identifiers were drawn; a row is created unless its
  primary key, its hash or its user is refused.
\<close>

definition refresh_of :: "auth_config \<Rightarrow> auth_env \<Rightarrow> nat \<Rightarrow> nat \<Rightarrow> token_input \<Rightarrow> refresh_row" where
  "refresh_of cfg e n i input = \<lparr>rt_id = uuid e i, rt_userId = tk_sub input,
     rt_tokenHash = sha256 cfg (randomBytes e 0), rt_expiresAt = clk e (n + 1) + JWT_REFRESH_TTL_SECONDS cfg * 1000,
     rt_rotatedToId = None, rt_revokedAt = None, rt_ip = if_truthy (tk_ip input),
     rt_userAgent = if_truthy (tk_userAgent input), rt_createdAt = clk e (n + 2)\<rparr>"

definition insert_refresh :: "refresh_row \<Rightarrow> world \<Rightarrow> unit res \<times> world" where
  "insert_refresh r w =
     attempt (unique_rows rt_id (refreshTokens w @ [r])) w (\<lambda>_.
     attempt (unique_rows rt_tokenHash (refreshTokens w @ [r])) w (\<lambda>rows.
     attempt (require (rt_userId r \<in> u_id ` set (users w)) (DbError P2003)) w (\<lambda>_.
     (Inr (), w\<lparr>refreshTokens := rows\<rparr>))))"

definition payload_of :: "auth_env \<Rightarrow> token_input \<Rightarrow> jwt_payload" where
  "payload_of e input = \<lparr>jp_sub = tk_sub input, jp_kind = tk_kind input, jp_email = tk_email input,
     jp_role = tk_role input, jp_jti = ulid e\<rparr>"

definition issueTokens :: "auth_config \<Rightarrow> auth_env \<Rightarrow> nat \<Rightarrow> nat \<Rightarrow> token_input \<Rightarrow> world \<Rightarrow> token_pair res \<times> world" where
  "issueTokens cfg e n i input w =
     (let row = refresh_of cfg e n i input
      in then_do (insert_refresh row w) (\<lambda>_ w1.
        (Inr \<lparr>accessToken = signJwt cfg (payload_of e input) (JWT_ACCESS_TTL_SECONDS cfg),
              refreshToken = randomBytes e 0,
              accessTokenExpiresAt = toISOString (clk e n + JWT_ACCESS_TTL_SECONDS cfg * 1000),
              refreshTokenExpiresAt = toISOString (rt_expiresAt row)\<rparr>, w1)))"

definition input_of :: "user_row \<Rightarrow> string option \<Rightarrow> string option \<Rightarrow> token_input" where
  "input_of u ip userAgent = \<lparr>tk_sub = u_id u, tk_email = u_email u, tk_kind = u_kind u,
     tk_role = u_companyRole u, tk_ip = ip, tk_userAgent = userAgent\<rparr>"

definition issueTokensForUser :: "auth_config \<Rightarrow> auth_env \<Rightarrow> string \<Rightarrow> string option \<Rightarrow> string option \<Rightarrow> world \<Rightarrow>
    token_pair res \<times> world" where
  "issueTokensForUser cfg e uid ip userAgent w =
     attempt (found (DbError P2025) (find_user w uid)) w (\<lambda>user.
     attempt (require (u_archivedAt user = None) (Unauthorized ''User is archived'')) w (\<lambda>_.
     issueTokens cfg e 0 0 (input_of user (if_truthy ip) (if_truthy userAgent)) w))"

section \<open>Google sign-in\<close>

text \<open>\<open>login_as\<close>: what every sign-in ends with, once the user is known.\<close>

definition login_as :: "auth_config \<Rightarrow> auth_env \<Rightarrow> nat \<Rightarrow> nat \<Rightarrow> string \<Rightarrow> audit_action \<Rightarrow> string option \<Rightarrow>
    json_object option \<Rightarrow> string option \<Rightarrow> user_row \<Rightarrow> world \<Rightarrow> token_pair res \<times> world" where
  "login_as cfg e n i label action persona metadata ip user w =
     issueTokens cfg e (n + 1) i (input_of user ip None)
       (record_audit (u_id user) action ip None metadata (clk e n)
         (emit (AccountEvent (UserLogin_ev (u_id user) ip label persona)) w))"

definition loginWithGoogle :: "auth_config \<Rightarrow> auth_env \<Rightarrow> google_profile \<Rightarrow> string option \<Rightarrow> world \<Rightarrow>
    token_pair res \<times> world" where
  "loginWithGoogle cfg e profile ip w =
     then_do (upsert_user cfg (gp_email profile)
       (\<lambda>u. u\<lparr>u_name := gp_name profile,
              u_avatarUrl := (if truthy (gp_avatarUrl profile) then gp_avatarUrl profile else u_avatarUrl u),
              u_googleId := Some (gp_id profile)\<rparr>)
       ((new_user (uuid e 0) (clk e 0) (gp_email profile) (gp_name profile) UInternal (Some Member))
          \<lparr>u_googleId := Some (gp_id profile), u_avatarUrl := if_truthy (gp_avatarUrl profile)\<rparr>) w) (\<lambda>user w1.
     attempt (require (u_archivedAt user = None) (Unauthorized ''User is archived'')) w1 (\<lambda>_.
     login_as cfg e 1 1 ''google'' LoginGoogle None None ip user w1))"

section \<open>Magic links\<close>

definition on_company_domain :: "auth_config \<Rightarrow> string option \<Rightarrow> bool" where
  "on_company_domain cfg domain \<longleftrightarrow> domain = Some (GOOGLE_OAUTH_ALLOWED_DOMAIN cfg)"

definition insert_link :: "magic_row \<Rightarrow> world \<Rightarrow> unit res \<times> world" where
  "insert_link l w =
     attempt (unique_rows ml_id (magicLinks w @ [l])) w (\<lambda>_.
     attempt (unique_rows ml_tokenHash (magicLinks w @ [l])) w (\<lambda>rows.
     attempt (require (fk_ok p_id (projects w) (ml_projectId l) \<and> fk_ok u_id (users w) (ml_invitedByUserId l))
       (DbError P2003)) w (\<lambda>_.
     (Inr (), w\<lparr>magicLinks := rows\<rparr>))))"

definition link_url :: "auth_config \<Rightarrow> string \<Rightarrow> string \<Rightarrow> string" where
  "link_url cfg raw email = MAGIC_LINK_BASE_URL cfg @ ''?token='' @ raw @ ''&email='' @ encodeURIComponent email"

text \<open>\<open>Math.round(a / b)\<close> on integers.\<close>

definition round_div :: "int \<Rightarrow> int \<Rightarrow> int" where
  "round_div a b = (2 * a + b) div (2 * b)"

definition requestMagicLink :: "auth_config \<Rightarrow> auth_env \<Rightarrow> nat \<Rightarrow> nat \<Rightarrow> string \<Rightarrow> string option \<Rightarrow> world \<Rightarrow>
    unit res \<times> world" where
  "requestMagicLink cfg e n i email ip w =
     attempt (require (\<not> on_company_domain cfg (map_option lower (email_domain email)))
       (BadRequest (''Internal accounts must sign in via Google. Email '' @ email @ '' is on the company domain.''))) w (\<lambda>_.
     let raw = randomBytes e 0;
         link = \<lparr>ml_id = uuid e i, ml_email = email, ml_tokenHash = sha256 cfg raw,
           ml_intent = (if find_email cfg w email \<noteq> None then ClientLogin else ClientSignup),
           ml_expiresAt = clk e n + MAGIC_LINK_TTL_SECONDS cfg * 1000, ml_usedAt = None, ml_ip = if_truthy ip,
           ml_projectId = None, ml_invitedByUserId = None, ml_createdAt = clk e (n + 1)\<rparr>
     in then_do (insert_link link w) (\<lambda>_ w1.
        then_do (send_mail e \<lparr>mail_to = email, mail_subject = ''Your Nockta Flow sign-in link'',
           mail_text = ''Sign in to Nockta Flow:'' @ newline @ newline @ link_url cfg raw email @ newline @ newline @
             ''This link expires in '' @ show_int (round_div (MAGIC_LINK_TTL_SECONDS cfg) 60) @ '' minutes.''\<rparr> w1) (\<lambda>_ w2.
        (Inr (), emit (AccountEvent (MagicLinkSent_ev email ip)) w2))))"

text \<open>The invitations that a new one for the same address and project expires.\<close>

definition outstanding_invite :: "auth_config \<Rightarrow> string \<Rightarrow> string \<Rightarrow> int \<Rightarrow> magic_row \<Rightarrow> bool" where
  "outstanding_invite cfg email pid now l \<longleftrightarrow> citext cfg (ml_email l) = citext cfg email \<and>
     ml_projectId l = Some pid \<and> ml_intent l = ProjectInvite \<and> ml_usedAt l = None \<and> now < ml_expiresAt l"

definition expire_invites :: "auth_config \<Rightarrow> string \<Rightarrow> string \<Rightarrow> int \<Rightarrow> int \<Rightarrow> world \<Rightarrow> world" where
  "expire_invites cfg email pid now now' w = w\<lparr>magicLinks :=
     update_where (outstanding_invite cfg email pid now) (\<lambda>l. l\<lparr>ml_expiresAt := now'\<rparr>) (magicLinks w)\<rparr>"

definition invite_mail :: "auth_config \<Rightarrow> project_invite \<Rightarrow> string \<Rightarrow> string \<Rightarrow> mail" where
  "invite_mail cfg args email raw =
     (let days = round_div (PROJECT_INVITE_TTL_SECONDS cfg) 86400
      in \<lparr>mail_to = email,
          mail_subject = pi_inviterName args @ '' invited you to collaborate on '' @ pi_projectName args,
          mail_text = ''Hi,'' @ newline @ newline @
            pi_inviterName args @ '' has invited you to collaborate on the '' @ pi_projectName args @ '' '' @
            ''project in Nockta Flow as a '' @ pi_role args @ ''.'' @ newline @ newline @
            ''Click the link below to accept and sign in:'' @ newline @ newline @ link_url cfg raw email @
            newline @ newline @
            ''The invitation expires in '' @ show_int days @ '' day'' @ (if days = 1 then [] else ''s'') @
            ''. If you weren't '' @ ''expecting this email you can safely ignore it.''\<rparr>)"

definition sendProjectInvite :: "auth_config \<Rightarrow> auth_env \<Rightarrow> nat \<Rightarrow> nat \<Rightarrow> project_invite \<Rightarrow> world \<Rightarrow> unit res \<times> world" where
  "sendProjectInvite cfg e n i args w =
     (let email = lower (pi_email args)
      in attempt (require (\<not> on_company_domain cfg (email_domain email))
           (BadRequest (''Project invitations are for external collaborators. '' @ email @
              '' is on the company domain -- they sign in via Google OAuth and don't need an invitation link.''))) w (\<lambda>_.
         let w0 = expire_invites cfg email (pi_projectId args) (clk e n) (clk e (n + 1)) w;
             raw = randomBytes e 0;
             link = \<lparr>ml_id = uuid e i, ml_email = email, ml_tokenHash = sha256 cfg raw, ml_intent = ProjectInvite,
               ml_expiresAt = clk e (n + 2) + PROJECT_INVITE_TTL_SECONDS cfg * 1000, ml_usedAt = None,
               ml_ip = if_truthy (pi_ip args), ml_projectId = Some (pi_projectId args),
               ml_invitedByUserId = Some (pi_inviterUserId args), ml_createdAt = clk e (n + 3)\<rparr>
         in then_do (insert_link link w0) (\<lambda>_ w1.
            then_do (send_mail e (invite_mail cfg args email raw) w1) (\<lambda>_ w2.
            (Inr (), emit (AccountEvent (MagicLinkSent_ev email (pi_ip args))) w2)))))"

text \<open>
  Verification: what is read and checked, then one transaction that consumes the link and finds or
  creates the user, then the tokens.
\<close>

definition check_link :: "auth_config \<Rightarrow> int \<Rightarrow> string \<Rightarrow> string \<Rightarrow> world \<Rightarrow> magic_row res" where
  "check_link cfg now email raw w = (case find_row ml_tokenHash (sha256 cfg raw) (magicLinks w) of
     None \<Rightarrow> Inl (Unauthorized ''Invalid or expired link'')
   | Some link \<Rightarrow>
       if lower (ml_email link) \<noteq> lower email then Inl (Unauthorized ''Invalid or expired link'')
       else if ml_usedAt link \<noteq> None then Inl (Unauthorized ''Link already used'')
       else if ml_expiresAt link < now then Inl (Unauthorized ''Link expired'')
       else Inr link)"

definition consume_link :: "string \<Rightarrow> int \<Rightarrow> world \<Rightarrow> world option" where
  "consume_link lid now w =
     (if count_where (\<lambda>l. ml_id l = lid \<and> ml_usedAt l = None) (magicLinks w) = 0 then None
      else Some (w\<lparr>magicLinks := update_where (\<lambda>l. ml_id l = lid \<and> ml_usedAt l = None)
             (\<lambda>l. l\<lparr>ml_usedAt := Some now\<rparr>) (magicLinks w)\<rparr>))"

definition accept_link :: "auth_config \<Rightarrow> auth_env \<Rightarrow> magic_row \<Rightarrow> string \<Rightarrow> world \<Rightarrow> user_row res \<times> world" where
  "accept_link cfg e link email w = (case consume_link (ml_id link) (clk e 1) w of
     None \<Rightarrow> (Inl (Unauthorized ''Link already used''), w)
   | Some w1 \<Rightarrow> atomically w (upsert_user cfg email id
       (new_user (uuid e 0) (clk e 2) email (email_local email) UClient None) w1))"

definition redirectPath :: "magic_row \<Rightarrow> string option" where
  "redirectPath link = (if ml_intent link = ProjectInvite
     then (case ml_projectId link of None \<Rightarrow> None | Some pid \<Rightarrow>
             if pid = [] then None else Some (''/projects/'' @ pid @ ''/board'')) else None)"

definition finish_link :: "auth_config \<Rightarrow> auth_env \<Rightarrow> magic_row \<Rightarrow> string option \<Rightarrow> user_row \<Rightarrow> world \<Rightarrow>
    (token_pair \<times> string option) res \<times> world" where
  "finish_link cfg e link ip user w =
     attempt (require (u_archivedAt user = None) (Unauthorized ''User is archived'')) w (\<lambda>_.
     then_do (login_as cfg e 3 1 ''magic_link'' LoginMagicLink None None ip user w) (\<lambda>tokens w1.
     (Inr (tokens, redirectPath link), w1)))"

definition verifyMagicLink :: "auth_config \<Rightarrow> auth_env \<Rightarrow> string \<Rightarrow> string \<Rightarrow> string option \<Rightarrow> world \<Rightarrow>
    (token_pair \<times> string option) res \<times> world" where
  "verifyMagicLink cfg e email raw ip w =
     attempt (check_link cfg (clk e 0) email raw w) w (\<lambda>link.
     then_do (accept_link cfg e link email w) (\<lambda>user w1.
     finish_link cfg e link ip user w1))"

section \<open>Refresh tokens\<close>

definition revokeAllRefreshTokens :: "string \<Rightarrow> int \<Rightarrow> world \<Rightarrow> world" where
  "revokeAllRefreshTokens uid now w = w\<lparr>refreshTokens :=
     update_where (\<lambda>r. rt_userId r = uid \<and> rt_revokedAt r = None) (\<lambda>r. r\<lparr>rt_revokedAt := Some now\<rparr>) (refreshTokens w)\<rparr>"

text \<open>The row and its user, read together, and the checks on them before the reuse branch.\<close>

definition read_refresh :: "auth_config \<Rightarrow> int \<Rightarrow> string \<Rightarrow> world \<Rightarrow> (refresh_row \<times> user_row) res" where
  "read_refresh cfg now raw w =
     and_then (found (Unauthorized ''Invalid refresh token'')
       (find_row rt_tokenHash (sha256 cfg raw) (refreshTokens w))) (\<lambda>stored.
     and_then (require (rt_revokedAt stored = None) (Unauthorized ''Refresh token revoked'')) (\<lambda>_.
     and_then (require (\<not> rt_expiresAt stored < now) (Unauthorized ''Refresh token expired'')) (\<lambda>_.
     and_then (found (DbError P2025) (find_user w (rt_userId stored))) (\<lambda>user. Inr (stored, user)))))"

definition reuse_error :: api_error where
  "reuse_error = Unauthorized ''Refresh token reuse detected -- please sign in again''"

definition reuse_detected :: "auth_env \<Rightarrow> refresh_row \<Rightarrow> string option \<Rightarrow> string option \<Rightarrow> world \<Rightarrow> token_pair res \<times> world" where
  "reuse_detected e stored ip userAgent w =
     (let w1 = emit (AccountEvent (RefreshReuse_ev (rt_userId stored) ip))
                 (revokeAllRefreshTokens (rt_userId stored) (clk e 1) w)
      in (Inl reuse_error, record_audit (rt_userId stored) RefreshReuse ip userAgent None (clk e 2) w1))"

text \<open>The conditional update that lets one of several requests rotate the token.\<close>

definition claim_refresh :: "string \<Rightarrow> int \<Rightarrow> world \<Rightarrow> world option" where
  "claim_refresh rid now w =
     (if count_where (\<lambda>r. rt_id r = rid \<and> rt_rotatedToId r = None \<and> rt_revokedAt r = None) (refreshTokens w) = 0 then None
      else Some (w\<lparr>refreshTokens := update_where (\<lambda>r. rt_id r = rid \<and> rt_rotatedToId r = None \<and> rt_revokedAt r = None)
             (\<lambda>r. r\<lparr>rt_revokedAt := Some now\<rparr>) (refreshTokens w)\<rparr>))"

definition race_lost :: "auth_env \<Rightarrow> refresh_row \<Rightarrow> string option \<Rightarrow> world \<Rightarrow> token_pair res \<times> world" where
  "race_lost e stored ip w =
     (Inl reuse_error, emit (AccountEvent (RefreshReuse_ev (rt_userId stored) ip))
        (revokeAllRefreshTokens (rt_userId stored) (clk e 2) w))"

text \<open>Reading the new token back and pointing the old one at it.\<close>

definition link_successor :: "auth_config \<Rightarrow> refresh_row \<Rightarrow> token_pair \<Rightarrow> world \<Rightarrow> token_pair res \<times> world" where
  "link_successor cfg stored pair w =
     attempt (found (DbError P2025) (find_row rt_tokenHash (sha256 cfg (refreshToken pair)) (refreshTokens w))) w (\<lambda>successor.
     attempt (found (DbError P2025) (find_row rt_id (rt_id stored) (refreshTokens w))) w (\<lambda>_.
     (Inr pair, w\<lparr>refreshTokens := update_where (\<lambda>r. rt_id r = rt_id stored)
        (\<lambda>r. r\<lparr>rt_rotatedToId := Some (rt_id successor)\<rparr>) (refreshTokens w)\<rparr>)))"

definition refresh :: "auth_config \<Rightarrow> auth_env \<Rightarrow> string \<Rightarrow> string option \<Rightarrow> string option \<Rightarrow> world \<Rightarrow> token_pair res \<times> world" where
  "refresh cfg e raw ip userAgent w =
     attempt (read_refresh cfg (clk e 0) raw w) w (\<lambda>(stored, user).
     if truthy (rt_rotatedToId stored) then reuse_detected e stored ip userAgent w
     else attempt (require (u_archivedAt user = None) (Unauthorized ''User is archived'')) w (\<lambda>_.
     case claim_refresh (rt_id stored) (clk e 1) w of
       None \<Rightarrow> race_lost e stored ip w
     | Some w1 \<Rightarrow> then_do (issueTokens cfg e 2 0 (input_of user ip userAgent) w1) (\<lambda>pair w2.
         link_successor cfg stored pair w2)))"

text \<open>
  \<open>logout\<close> revokes the access token in Redis until a minute after it expires, and a refresh token
  that is not found is ignored.
\<close>

definition revokeJti :: "auth_config \<Rightarrow> int \<Rightarrow> string \<Rightarrow> world \<Rightarrow> world" where
  "revokeJti cfg now jti w = w\<lparr>revokedJtis :=
     delete_where (\<lambda>r. rj_jti r = jti) (revokedJtis w) @ [\<lparr>rj_jti = jti, rj_until = now + (JWT_ACCESS_TTL_SECONDS cfg + 60) * 1000\<rparr>]\<rparr>"

definition isJtiRevoked :: "int \<Rightarrow> string \<Rightarrow> world \<Rightarrow> bool" where
  "isJtiRevoked now jti w = list_ex (\<lambda>r. rj_jti r = jti \<and> now < rj_until r) (revokedJtis w)"

definition revoke_hash :: "string \<Rightarrow> int \<Rightarrow> world \<Rightarrow> world" where
  "revoke_hash h now w = w\<lparr>refreshTokens :=
     update_where (\<lambda>r. rt_tokenHash r = h) (\<lambda>r. r\<lparr>rt_revokedAt := Some now\<rparr>) (refreshTokens w)\<rparr>"

definition logout :: "auth_config \<Rightarrow> auth_env \<Rightarrow> string \<Rightarrow> string option \<Rightarrow> string option \<Rightarrow> string option \<Rightarrow> world \<Rightarrow>
    unit res \<times> world" where
  "logout cfg e jti raw uid ip w =
     (let w1 = revokeJti cfg (clk e 0) jti w;
          w2 = (case raw of None \<Rightarrow> w1 | Some r \<Rightarrow> if r = [] then w1 else revoke_hash (sha256 cfg r) (clk e 1) w1);
          w3 = (case uid of None \<Rightarrow> w2 | Some u \<Rightarrow> if u = [] then w2 else record_audit u LoggedOut ip None None (clk e 2) w2)
      in (Inr (), w3))"

section \<open>Development logins\<close>

definition assertDevAuthAllowed :: "auth_config \<Rightarrow> unit res" where
  "assertDevAuthAllowed cfg = require (DEV_AUTH_ENABLED cfg)
     (Unauthorized ''Dev login is disabled. Set DEV_AUTH_ENABLED=true to enable.'')"

definition devLoginFor :: "auth_config \<Rightarrow> auth_env \<Rightarrow> string \<Rightarrow> world \<Rightarrow> token_pair res \<times> world" where
  "devLoginFor cfg e uid w =
     attempt (assertDevAuthAllowed cfg) w (\<lambda>_.
     attempt (found (DbError P2025) (find_user w uid)) w (\<lambda>user.
     issueTokens cfg e 0 0 (input_of user None None) w))"

definition devLoginByEmail :: "auth_config \<Rightarrow> auth_env \<Rightarrow> string \<Rightarrow> string option \<Rightarrow> world \<Rightarrow> token_pair res \<times> world" where
  "devLoginByEmail cfg e email ip w =
     attempt (assertDevAuthAllowed cfg) w (\<lambda>_.
     let normalized = lower email
     in attempt (require (on_company_domain cfg (email_domain normalized))
          (BadRequest (''Dev login requires an @'' @ GOOGLE_OAUTH_ALLOWED_DOMAIN cfg @ '' email''))) w (\<lambda>_.
        then_do (upsert_user cfg normalized id
          (new_user (uuid e 0) (clk e 0) normalized (email_local normalized) UInternal (Some Admin)) w) (\<lambda>user w1.
        attempt (require (u_archivedAt user = None) (Unauthorized ''User is archived'')) w1 (\<lambda>_.
        login_as cfg e 1 1 ''dev_login'' LoginDev None None ip user w1))))"

datatype persona =
    PersonaAdmin | PersonaEngineering | PersonaDesign | PersonaGuest | PersonaGuestContributor
  | PersonaGuestViewer | PersonaGuestClient

fun persona_name :: "persona \<Rightarrow> string" where
  "persona_name PersonaAdmin = ''admin''"
| "persona_name PersonaEngineering = ''engineering''"
| "persona_name PersonaDesign = ''design''"
| "persona_name PersonaGuest = ''guest''"
| "persona_name PersonaGuestContributor = ''guest-contributor''"
| "persona_name PersonaGuestViewer = ''guest-viewer''"
| "persona_name PersonaGuestClient = ''guest-client''"

record persona_spec =
  ps_email :: string
  ps_name :: string
  ps_kind :: user_kind
  ps_companyRole :: "company_role option"
  ps_team :: "(string \<times> string) option"
  ps_guestRole :: "project_role option"

definition persona_key :: "persona \<Rightarrow> persona" where
  "persona_key p = (if p = PersonaGuest then PersonaGuestClient else p)"

fun persona_specs :: "string \<Rightarrow> persona \<Rightarrow> persona_spec" where
  "persona_specs domain PersonaAdmin = \<lparr>ps_email = ''admin@'' @ domain, ps_name = ''Dev Admin'', ps_kind = UInternal,
     ps_companyRole = Some Admin, ps_team = None, ps_guestRole = None\<rparr>"
| "persona_specs domain PersonaEngineering = \<lparr>ps_email = ''engineer@'' @ domain, ps_name = ''Dev Engineer'',
     ps_kind = UInternal, ps_companyRole = Some Member, ps_team = Some (''engineering'', ''Engineering''), ps_guestRole = None\<rparr>"
| "persona_specs domain PersonaDesign = \<lparr>ps_email = ''designer@'' @ domain, ps_name = ''Dev Designer'',
     ps_kind = UInternal, ps_companyRole = Some Member, ps_team = Some (''design'', ''Design''), ps_guestRole = None\<rparr>"
| "persona_specs domain PersonaGuestContributor = \<lparr>ps_email = ''guest-contributor@external.test'',
     ps_name = ''Dev Guest (Contributor)'', ps_kind = UClient, ps_companyRole = None, ps_team = None,
     ps_guestRole = Some Contributor\<rparr>"
| "persona_specs domain PersonaGuestViewer = \<lparr>ps_email = ''guest-viewer@external.test'',
     ps_name = ''Dev Guest (Viewer)'', ps_kind = UClient, ps_companyRole = None, ps_team = None,
     ps_guestRole = Some Viewer\<rparr>"
| "persona_specs domain _ = \<lparr>ps_email = ''guest@external.test'',
     ps_name = ''Dev Guest (Client)'', ps_kind = UClient, ps_companyRole = None, ps_team = None,
     ps_guestRole = Some Client\<rparr>"

text \<open>The team of a persona, created when missing, and the membership in it.\<close>

definition join_team :: "string \<Rightarrow> user_row \<Rightarrow> string \<times> string \<Rightarrow> world \<Rightarrow> unit res \<times> world" where
  "join_team newId user team w =
     (let (slug, label) = team;
          t = (case find_row te_slug slug (teams w) of Some t \<Rightarrow> t
               | None \<Rightarrow> \<lparr>te_id = newId, te_name = label, te_slug = slug, te_description = None, te_createdById = u_id user\<rparr>)
      in attempt (unique_rows te_id (insert_absent te_slug t (teams w))) w (\<lambda>ts.
         (Inr (), w\<lparr>teams := ts,
           teamMembers := insert_absent (\<lambda>m. (tm_teamId m, tm_userId m))
             \<lparr>tm_teamId = te_id t, tm_userId = u_id user\<rparr> (teamMembers w)\<rparr>)))"

text \<open>
  A guest persona is granted its role on every live project, where a row that breaks a unique key is
  skipped, and every internal task of these becomes visible to clients.
\<close>

definition grant_of_persona :: "user_row \<Rightarrow> project_role \<Rightarrow> string \<times> project_row \<Rightarrow> access_row" where
  "grant_of_persona user role x = \<lparr>a_id = fst x, a_projectId = p_id (snd x), a_subjectKind = SubjUser,
     a_userId = Some (u_id user), a_teamId = None, a_role = role, a_grantedById = u_id user\<rparr>"

definition same_grant :: "access_row \<Rightarrow> access_row \<Rightarrow> bool" where
  "same_grant g h \<longleftrightarrow> a_id g = a_id h \<or> a_projectId g = a_projectId h \<and> a_userId g \<noteq> None \<and> a_userId g = a_userId h"

definition add_grant :: "access_row \<Rightarrow> access_row list \<Rightarrow> access_row list" where
  "add_grant g gs = (if list_ex (same_grant g) gs then gs else gs @ [g])"

definition open_projects :: "(nat \<Rightarrow> string) \<Rightarrow> user_row \<Rightarrow> project_role \<Rightarrow> world \<Rightarrow> world" where
  "open_projects newId user role w =
     (let live = filter (\<lambda>p. p_archivedAt p = None) (projects w);
          wanted = map (grant_of_persona user role) (zip (map newId [0..<length live]) live)
      in if live = [] then w
         else w\<lparr>accessGrants := fold add_grant wanted (accessGrants w),
              tasks := update_where (\<lambda>t. t_projectId t \<in> p_id ` set live \<and> t_visibility t = VInternal)
                (\<lambda>t. t\<lparr>t_visibility := VClientVisible\<rparr>) (tasks w)\<rparr>)"

definition devLoginAsPersona :: "auth_config \<Rightarrow> auth_env \<Rightarrow> persona \<Rightarrow> string option \<Rightarrow> world \<Rightarrow> token_pair res \<times> world" where
  "devLoginAsPersona cfg e persona ip w =
     attempt (assertDevAuthAllowed cfg) w (\<lambda>_.
     let spec = persona_specs (GOOGLE_OAUTH_ALLOWED_DOMAIN cfg) (persona_key persona)
     in then_do (upsert_user cfg (ps_email spec) id
          (new_user (uuid e 0) (clk e 0) (ps_email spec) (ps_name spec) (ps_kind spec) (ps_companyRole spec)) w) (\<lambda>user w1.
        attempt (require (u_archivedAt user = None) (Unauthorized ''User is archived'')) w1 (\<lambda>_.
        then_do (case ps_team spec of None \<Rightarrow> (Inr (), w1) | Some team \<Rightarrow> join_team (uuid e 1) user team w1) (\<lambda>_ w2.
        let w3 = (case ps_guestRole spec of
             None \<Rightarrow> w2
           | Some role \<Rightarrow> if ps_kind spec = UClient then open_projects (\<lambda>k. uuid e (k + 3)) user role w2 else w2)
        in login_as cfg e 1 2 ''dev_login'' LoginDev (Some (persona_name persona))
          (Some [(''persona'', JStr (persona_name persona))]) ip user w3))))"

section \<open>Sessions of a user\<close>

record session_info =
  si_id :: string
  si_createdAt :: int
  si_lastSeenAt :: int
  si_ip :: "string option"
  si_userAgent :: "string option"
  si_current :: bool
  si_expiresAt :: int

definition current_hash :: "auth_config \<Rightarrow> string option \<Rightarrow> string option" where
  "current_hash cfg raw = (if truthy raw then map_option (sha256 cfg) raw else None)"

definition listSessions :: "auth_config \<Rightarrow> int \<Rightarrow> string \<Rightarrow> string option \<Rightarrow> world \<Rightarrow> session_info list" where
  "listSessions cfg now uid raw w =
     map (\<lambda>r. \<lparr>si_id = rt_id r, si_createdAt = rt_createdAt r, si_lastSeenAt = rt_createdAt r, si_ip = rt_ip r,
               si_userAgent = rt_userAgent r,
               si_current = (current_hash cfg raw \<noteq> None \<and> Some (rt_tokenHash r) = current_hash cfg raw),
               si_expiresAt = rt_expiresAt r\<rparr>)
       (order_by (\<lambda>a b. rt_createdAt b \<le> rt_createdAt a)
         (filter (\<lambda>r. rt_userId r = uid \<and> rt_revokedAt r = None \<and> now < rt_expiresAt r) (refreshTokens w)))"

definition revokeSession :: "auth_env \<Rightarrow> string \<Rightarrow> string \<Rightarrow> string option \<Rightarrow> string option \<Rightarrow> world \<Rightarrow> unit res \<times> world" where
  "revokeSession e uid sid ip userAgent w =
     attempt (found (NotFound ''Session not found'') (find_row rt_id sid (refreshTokens w))) w (\<lambda>row.
     attempt (require (rt_userId row = uid) (Forbidden ''Forbidden'')) w (\<lambda>_.
     if rt_revokedAt row \<noteq> None then (Inr (), w)
     else (Inr (), record_audit uid SessionRevoked ip userAgent (Some [(''sessionId'', JStr sid)]) (clk e 1)
       (w\<lparr>refreshTokens := update_where (\<lambda>r. rt_id r = sid) (\<lambda>r. r\<lparr>rt_revokedAt := Some (clk e 0)\<rparr>) (refreshTokens w)\<rparr>))))"

definition other_session :: "auth_config \<Rightarrow> string \<Rightarrow> string option \<Rightarrow> refresh_row \<Rightarrow> bool" where
  "other_session cfg uid raw r \<longleftrightarrow> rt_userId r = uid \<and> rt_revokedAt r = None \<and>
     Some (rt_tokenHash r) \<noteq> current_hash cfg raw"

definition revokeOthers :: "auth_config \<Rightarrow> auth_env \<Rightarrow> string \<Rightarrow> string option \<Rightarrow> string option \<Rightarrow> string option \<Rightarrow> world \<Rightarrow>
    nat res \<times> world" where
  "revokeOthers cfg e uid raw ip userAgent w =
     (let n = count_where (other_session cfg uid raw) (refreshTokens w)
      in (Inr n, record_audit uid SessionRevokedOthers ip userAgent (Some [(''count'', JNum (Fin (of_nat n)))]) (clk e 1)
        (w\<lparr>refreshTokens := update_where (other_session cfg uid raw) (\<lambda>r. r\<lparr>rt_revokedAt := Some (clk e 0)\<rparr>) (refreshTokens w)\<rparr>)))"

section \<open>Requests with an access token\<close>

text \<open>
  \<open>validate\<close> runs after the signature and the expiry were checked: the user is read anew, and the
  heartbeat is at most one write every five minutes.
\<close>

definition touchLastSeen :: "int \<Rightarrow> int \<Rightarrow> string \<Rightarrow> world \<Rightarrow> world" where
  "touchLastSeen now now' uid w = w\<lparr>users :=
     update_where (\<lambda>u. u_id u = uid \<and> u_lastSeenAt u < now - 5 * 60 * 1000) (\<lambda>u. u\<lparr>u_lastSeenAt := now'\<rparr>) (users w)\<rparr>"

definition validateJwt :: "auth_env \<Rightarrow> jwt_payload \<Rightarrow> world \<Rightarrow> auth_user res \<times> world" where
  "validateJwt e payload w =
     attempt (require (\<not> isJtiRevoked (clk e 0) (jp_jti payload) w) (Unauthorized ''Token revoked'')) w (\<lambda>_.
     case find_user w (jp_sub payload) of
       None \<Rightarrow> (Inl (Unauthorized ''User not found or archived''), w)
     | Some user \<Rightarrow>
         if u_archivedAt user \<noteq> None then (Inl (Unauthorized ''User not found or archived''), w)
         else (Inr \<lparr>au_id = u_id user, au_email = u_email user, au_kind = u_kind user,
                   au_companyRole = u_companyRole user, au_jti = jp_jti payload\<rparr>,
               touchLastSeen (clk e 1) (clk e 2) (u_id user) w))"

end
