(* ===== verification/Pagination.thy ===== *)
theory Pagination
  imports Prelude JsNumber
begin

text \<open>
  \<^verbatim>\<open>apps/api/src/common/pagination/cursor-pagination.ts\<close>: pages of a list by the key of the
  last row seen, and that following the cursors gives the whole list.
\<close>

section \<open>Pages\<close>

text \<open>A limit that is absent, zero or not a number is the default.\<close>

definition DEFAULT_LIMIT :: nat where
  "DEFAULT_LIMIT = 50"

definition MAX_LIMIT :: nat where
  "MAX_LIMIT = 200"

definition normalizeLimit :: "jsnum option \<Rightarrow> nat" where
  "normalizeLimit limit = (case limit of
     None \<Rightarrow> DEFAULT_LIMIT
   | Some NaN \<Rightarrow> DEFAULT_LIMIT
   | Some PosInf \<Rightarrow> MAX_LIMIT
   | Some NegInf \<Rightarrow> 1
   | Some (Fin q) \<Rightarrow> if q = 0 then DEFAULT_LIMIT else nat (min (max 1 \<lfloor>q\<rfloor>) (int MAX_LIMIT)))"

definition paginate :: "'a list \<Rightarrow> nat \<Rightarrow> ('a \<Rightarrow> string) \<Rightarrow> 'a list \<times> string option" where
  "paginate items limit cursorFor =
     (let hasMore = length items > limit;
          sliced = (if hasMore then take limit items else items)
      in (sliced, if hasMore then Some (cursorFor (last sliced)) else None))"

text \<open>\<open>cursor\<close> with \<open>skip: 1\<close>: the rows after the one with the key, none when there is no such row.\<close>

definition after_cursor :: "('r \<Rightarrow> string) \<Rightarrow> string option \<Rightarrow> 'r list \<Rightarrow> 'r list" where
  "after_cursor key cursor rows = (case cursor of None \<Rightarrow> rows
     | Some c \<Rightarrow> if c = [] then rows else drop 1 (dropWhile (\<lambda>r. key r \<noteq> c) rows))"

text \<open>Following the cursors from the first page on, for at most \<open>n\<close> further pages.\<close>

fun follow_pages :: "(string option \<Rightarrow> 'a list \<times> string option) \<Rightarrow> nat \<Rightarrow> string option \<Rightarrow> 'a list" where
  "follow_pages page n cursor = (case page cursor of (items, next_cursor) \<Rightarrow>
     items @ (case (next_cursor, n) of (Some c, Suc m) \<Rightarrow> follow_pages page m (Some c) | _ \<Rightarrow> []))"

declare follow_pages.simps [simp del]

lemma normalizeLimit_bounds: "1 \<le> normalizeLimit l \<and> normalizeLimit l \<le> MAX_LIMIT"
  by (auto simp: normalizeLimit_def DEFAULT_LIMIT_def MAX_LIMIT_def split: option.split jsnum.split)

lemma after_cursor_at:
  assumes "distinct (map key xs)" and "k < length xs" and "key (xs ! k) \<noteq> []"
  shows "after_cursor key (Some (key (xs ! k))) xs = drop (Suc k) xs"
proof -
  have "dropWhile (\<lambda>r. key r \<noteq> key (xs ! k)) xs = drop k xs"
    using assms(1,2)
  proof (induction xs arbitrary: k)
    case (Cons x xs)
    show ?case
    proof (cases k)
      case (Suc j)
      then have "key x \<noteq> key (xs ! j)" using Cons.prems by (auto simp: image_iff)
      with Suc Cons show ?thesis by simp
    qed simp
  qed simp
  then show ?thesis using assms(3) by (simp add: after_cursor_def)
qed

text \<open>A page of a list \<open>xs\<close> of rows with distinct keys that is not empty.\<close>

definition page_of :: "('a \<Rightarrow> string) \<Rightarrow> nat \<Rightarrow> ('a \<Rightarrow> 'b) \<Rightarrow> ('b \<Rightarrow> string) \<Rightarrow> 'a list \<Rightarrow> string option \<Rightarrow> 'b list \<times> string option" where
  "page_of key limit f key' xs cursor = paginate (map f (take (limit + 1) (after_cursor key cursor xs))) limit key'"

lemma page_shape:
  assumes "after_cursor key cursor xs = drop k xs" and "1 \<le> limit" and "\<And>x. key' (f x) = key x"
  shows "page_of key limit f key' xs cursor =
     (map f (take limit (drop k xs)),
      if k + limit < length xs then Some (key (xs ! (k + limit - 1))) else None)"
proof (cases "k + limit < length xs")
  case True
  have "last (map f (take limit (drop k xs))) = f (xs ! (k + limit - 1))"
    using True assms(2) by (subst last_conv_nth) (auto simp: nth_append)
  moreover have "limit < length xs - k" using True by simp
  ultimately show ?thesis
    using True by (simp add: page_of_def paginate_def assms(1,3) take_map Let_def min_def)
next
  case False
  then show ?thesis by (simp add: page_of_def paginate_def assms(1) Let_def)
qed

lemma follow_pages_suffix:
  assumes d: "distinct (map key xs)" and ne: "[] \<notin> key ` set xs" and l: "1 \<le> limit" and k': "\<And>x. key' (f x) = key x"
    and c: "after_cursor key cursor xs = drop k xs" and n: "length xs \<le> k + n"
  shows "follow_pages (page_of key limit f key' xs) n cursor = map f (drop k xs)"
  using c n
proof (induction n arbitrary: cursor k)
  case 0
  then show ?case using page_shape [where key' = key' and f = f and key = key, OF 0(1) l k'] l by (subst follow_pages.simps) simp
next
  case (Suc n)
  note shape = page_shape [where key' = key' and f = f and key = key, OF Suc.prems(1) l k']
  show ?case
  proof (cases "k + limit < length xs")
    case True
    let ?j = "k + limit - 1"
    have j: "?j < length xs" using True by simp
    have "key (xs ! ?j) \<noteq> []" using ne nth_mem [OF j] by (metis image_eqI)
    then have "after_cursor key (Some (key (xs ! ?j))) xs = drop (k + limit) xs"
      using after_cursor_at [OF d j] l by simp
    then have "follow_pages (page_of key limit f key' xs) n (Some (key (xs ! ?j))) = map f (drop (k + limit) xs)"
      using Suc.prems l by (intro Suc.IH) simp_all
    moreover have "take limit (drop k xs) @ drop (k + limit) xs = drop k xs"
      by (metis append_take_drop_id add.commute drop_drop)
    ultimately show ?thesis using True shape by (subst follow_pages.simps) (simp flip: map_append)
  next
    case False
    with shape show ?thesis by (subst follow_pages.simps) simp
  qed
qed

end
