(* ===== verification/Users.thy ===== *)
theory Users
  imports Auth Projects JsText Pagination
begin

text \<open>
  Accounts and teams, after \<^verbatim>\<open>apps/api/src/modules/users/users.service.ts\<close>,
  \<^verbatim>\<open>teams/teams.service.ts\<close>, with the invitation of a guest to a project of \<^verbatim>\<open>projects/projects.service.ts\<close>.
\<close>

section \<open>Inviting guests\<close>

text \<open>The pattern \<^verbatim>\<open>^[^\s@]+@[^\s@]+\.[^\s@]+$\<close>.\<close>

definition valid_email :: "string \<Rightarrow> bool" where
  "valid_email s \<longleftrightarrow> list_all (\<lambda>c. \<not> is_space c) s \<and> email_local s \<noteq> [] \<and>
     (case dropWhile (\<lambda>c. c \<noteq> CHR ''@'') s of [] \<Rightarrow> False
      | _ # d \<Rightarrow> CHR ''@'' \<notin> set d \<and> CHR ''.'' \<in> set (butlast (tl d)))"

definition guest_name :: "string option \<Rightarrow> string \<Rightarrow> string" where
  "guest_name given email = take 120
     (let t = (case given of None \<Rightarrow> [] | Some n \<Rightarrow> trim n)
      in if t \<noteq> [] then t else if email_local email \<noteq> [] then email_local email else ''Guest'')"

definition require_admin :: "auth_user \<Rightarrow> unit res" where
  "require_admin u = require (au_companyRole u = Some Admin) (Forbidden ''Admin only'')"

record invited_guest =
  ig_id :: string
  ig_email :: string
  ig_name :: string
  ig_invitedAt :: int
  ig_alreadyExisted :: bool

definition guest_row :: "auth_env \<Rightarrow> string \<Rightarrow> string \<Rightarrow> user_row" where
  "guest_row e email nm = new_user (uuid e 0) (clk e 0) email nm UClient None"

definition inviteGuest :: "auth_config \<Rightarrow> auth_env \<Rightarrow> auth_user \<Rightarrow> string \<Rightarrow> string option \<Rightarrow> world \<Rightarrow> invited_guest res \<times> world" where
  "inviteGuest cfg e actor address given w =
     attempt (require_admin actor) w (\<lambda>_.
     let email = lower (trim address)
     in attempt (require (valid_email email) (BadRequest ''Invalid email'')) w (\<lambda>_.
        attempt (require (\<not> on_company_domain cfg (email_domain email))
          (BadRequest (''Invite-guest is for external clients. '' @ email @
            '' is on the company domain -- they sign in via Google OAuth automatically.''))) w (\<lambda>_.
        let existing = find_email cfg w email
        in attempt (require (map_option u_kind existing \<noteq> Some UInternal)
             (BadRequest (email @ '' is already an internal user; can't also invite as guest.''))) w (\<lambda>_.
           then_do (upsert_user cfg email id (guest_row e email (guest_name given email)) w) (\<lambda>user w1.
           let w2 = (if existing = None then emit (AccountEvent (UserGuestInvited_ev (u_id user) (au_id actor) email)) w1 else w1)
           in then_do (requestMagicLink cfg e 1 1 email None w2) (\<lambda>_ w3.
              (Inr \<lparr>ig_id = u_id user, ig_email = u_email user, ig_name = u_name user,
                    ig_invitedAt = clk e 3, ig_alreadyExisted = (existing \<noteq> None)\<rparr>, w3)))))))"

text \<open>\<open>ProjectsService.inviteGuest\<close>: the user and the grant in one transaction, then the invitation.\<close>

definition upsert_access :: "string \<Rightarrow> string \<Rightarrow> string \<Rightarrow> project_role \<Rightarrow> string \<Rightarrow> world \<Rightarrow> access_row res \<times> world" where
  "upsert_access newId pid uid role grantor w =
     (case List.find (\<lambda>g. a_projectId g = pid \<and> a_userId g = Some uid) (accessGrants w) of
        Some g \<Rightarrow> (Inr (g\<lparr>a_role := role, a_grantedById := grantor\<rparr>), w\<lparr>accessGrants :=
            update_where (\<lambda>h. a_id h = a_id g) (\<lambda>h. h\<lparr>a_role := role, a_grantedById := grantor\<rparr>) (accessGrants w)\<rparr>)
      | None \<Rightarrow>
          let g = \<lparr>a_id = newId, a_projectId = pid, a_subjectKind = SubjUser, a_userId = Some uid,
                   a_teamId = None, a_role = role, a_grantedById = grantor\<rparr>
          in attempt (unique_rows a_id (accessGrants w @ [g])) w (\<lambda>gs. (Inr g, w\<lparr>accessGrants := gs\<rparr>)))"

record project_guest =
  pg_userId :: string
  pg_email :: string
  pg_name :: string
  pg_role :: project_role
  pg_grantId :: string
  pg_invitedAt :: int

definition or_else :: "string \<Rightarrow> string \<Rightarrow> string" where
  "or_else a b = (if a = [] then b else a)"

definition grant_guest :: "auth_config \<Rightarrow> auth_env \<Rightarrow> auth_user \<Rightarrow> string \<Rightarrow> string \<Rightarrow> string \<Rightarrow> project_role \<Rightarrow> world \<Rightarrow>
    (user_row \<times> access_row) res \<times> world" where
  "grant_guest cfg e actor pid email nm role w =
     then_do (upsert_user cfg email id (guest_row e email nm) w) (\<lambda>user w1.
     then_do (upsert_access (uuid e 1) pid (u_id user) role (au_id actor) w1) (\<lambda>access w2.
     (Inr (user, access), w2)))"

definition send_invitation :: "auth_config \<Rightarrow> auth_env \<Rightarrow> auth_user \<Rightarrow> project_row \<Rightarrow> user_row \<Rightarrow> string \<Rightarrow> string \<Rightarrow>
    project_role \<Rightarrow> user_row \<times> access_row \<Rightarrow> world \<Rightarrow> project_guest res \<times> world" where
  "send_invitation cfg e actor project actorRow email nm role granted w =
     (let (user, access) = granted
      in then_do (sendProjectInvite cfg e 1 2 \<lparr>pi_email = email, pi_projectId = p_id project,
            pi_projectName = p_name project, pi_inviterUserId = u_id actorRow,
            pi_inviterName = or_else (u_name actorRow) (u_email actorRow),
            pi_role = role_name role, pi_ip = None\<rparr> w) (\<lambda>_ w1.
         (Inr \<lparr>pg_userId = u_id user, pg_email = email, pg_name = nm, pg_role = role,
               pg_grantId = a_id access, pg_invitedAt = clk e 5\<rparr>,
          emit (AccountEvent (ProjectGuestInvited_ev (p_id project) (u_id user) (a_id access) role (au_id actor))) w1)))"

definition inviteProjectGuest :: "auth_config \<Rightarrow> auth_env \<Rightarrow> auth_user \<Rightarrow> string \<Rightarrow> string \<Rightarrow> string option \<Rightarrow>
    project_role \<Rightarrow> world \<Rightarrow> project_guest res \<times> world" where
  "inviteProjectGuest cfg e actor pid address given role w =
     attempt (assertAtLeast w actor pid Manager) w (\<lambda>_.
     let email = lower (trim address)
     in attempt (require (valid_email email) (BadRequest ''Invalid email'')) w (\<lambda>_.
        attempt (require (\<not> on_company_domain cfg (email_domain email))
          (BadRequest (''Invite-guest is for external collaborators. '' @ email @
            '' is on the company domain -- they sign in via Google OAuth and don't need an invitation link.''))) w (\<lambda>_.
        attempt (found (NotFound ''Project not found'') (find_project w pid)) w (\<lambda>project.
        attempt (found (NotFound ''Actor not found'') (find_user w (au_id actor))) w (\<lambda>actorRow.
        attempt (require (map_option u_kind (find_email cfg w email) \<noteq> Some UInternal)
          (BadRequest (email @ '' is already an internal user and can't be invited as a guest.''))) w (\<lambda>_.
        let nm = guest_name given email
        in then_do (atomically w (grant_guest cfg e actor pid email nm role w))
             (send_invitation cfg e actor project actorRow email nm role)))))))"

section \<open>Pending invitations\<close>

record pending_invite =
  pv_id :: string
  pv_email :: string
  pv_invitee :: "(string \<times> string \<times> user_kind) option"
  pv_project :: "(string \<times> string \<times> string) option"
  pv_invitedBy :: "(string \<times> string \<times> string) option"
  pv_role :: "project_role option"
  pv_invitedAt :: int
  pv_expiresAt :: int

definition role_on :: "string option \<Rightarrow> user_row option \<Rightarrow> access_row list \<Rightarrow> project_role option" where
  "role_on pid invitee gs = (case (pid, invitee) of
     (Some p, Some u) \<Rightarrow> map_option a_role (List.find (\<lambda>g. a_projectId g = p \<and> a_subjectKind g = SubjUser \<and>
        a_userId g = Some (u_id u)) gs)
   | _ \<Rightarrow> None)"

definition pending_invite_of :: "world \<Rightarrow> user_row list \<Rightarrow> magic_row \<Rightarrow> pending_invite" where
  "pending_invite_of w invitees l =
     (let invitee = find_row (\<lambda>u. lower (u_email u)) (lower (ml_email l)) (rev invitees)
      in \<lparr>pv_id = ml_id l, pv_email = ml_email l,
          pv_invitee = map_option (\<lambda>u. (u_id u, u_name u, u_kind u)) invitee,
          pv_project = map_option (\<lambda>p. (p_id p, p_name p, p_key p)) (Option.bind (ml_projectId l) (find_project w)),
          pv_invitedBy = map_option (\<lambda>u. (u_id u, u_name u, u_email u)) (Option.bind (ml_invitedByUserId l) (find_user w)),
          pv_role = role_on (ml_projectId l) invitee (rev (accessGrants w)),
          pv_invitedAt = ml_createdAt l, pv_expiresAt = ml_expiresAt l\<rparr>)"

definition listPendingInvites :: "auth_config \<Rightarrow> int \<Rightarrow> auth_user \<Rightarrow> world \<Rightarrow> pending_invite list res" where
  "listPendingInvites cfg now actor w =
     and_then (require_admin actor) (\<lambda>_.
     let found_links = take 200 (order_by (\<lambda>a b. ml_createdAt b \<le> ml_createdAt a)
           (filter (\<lambda>l. ml_intent l = ProjectInvite \<and> ml_usedAt l = None \<and> now < ml_expiresAt l) (magicLinks w)));
         emails = map (\<lambda>l. citext cfg (lower (ml_email l))) found_links;
         invitees = filter (\<lambda>u. citext cfg (u_email u) \<in> set emails) (users w)
     in Inr (map (pending_invite_of w invitees) found_links))"

definition resendPendingInvite :: "auth_config \<Rightarrow> auth_env \<Rightarrow> auth_user \<Rightarrow> string \<Rightarrow> world \<Rightarrow> string res \<times> world" where
  "resendPendingInvite cfg e actor linkId w =
     attempt (require_admin actor) w (\<lambda>_.
     attempt (found (BadRequest ''Not a pending project invite'') (find_row ml_id linkId (magicLinks w))) w (\<lambda>link.
     attempt (require (ml_intent link = ProjectInvite \<and> truthy (ml_projectId link))
       (BadRequest ''Not a pending project invite'')) w (\<lambda>_.
     attempt (require (ml_usedAt link = None) (BadRequest ''Invitation already accepted'')) w (\<lambda>_.
     let pid = override (ml_projectId link) [];
         inviter = Option.bind (ml_invitedByUserId link) (find_user w)
     in attempt (found (BadRequest ''Project access for this invitation was revoked -- invite again from project settings.'')
          (role_on (ml_projectId link) (find_email cfg w (ml_email link)) (accessGrants w))) w (\<lambda>role.
        then_do (sendProjectInvite cfg e 0 0 \<lparr>pi_email = ml_email link, pi_projectId = pid,
            pi_projectName = (case find_project w pid of None \<Rightarrow> ''Project'' | Some p \<Rightarrow> p_name p),
            pi_inviterUserId = au_id actor,
            pi_inviterName = (case inviter of None \<Rightarrow> au_email actor
               | Some i \<Rightarrow> or_else (u_name i) (or_else (u_email i) (au_email actor))),
            pi_role = role_name role, pi_ip = None\<rparr> w) (\<lambda>_ w1.
        (Inr (ml_email link), w1)))))))"

definition revokePendingInvite :: "auth_config \<Rightarrow> auth_env \<Rightarrow> auth_user \<Rightarrow> string \<Rightarrow> world \<Rightarrow> unit res \<times> world" where
  "revokePendingInvite cfg e actor linkId w =
     attempt (require_admin actor) w (\<lambda>_.
     attempt (found (BadRequest ''Not a project invitation'') (find_row ml_id linkId (magicLinks w))) w (\<lambda>link.
     attempt (require (ml_intent link = ProjectInvite) (BadRequest ''Not a project invitation'')) w (\<lambda>_.
     attempt (require (ml_usedAt link = None)
       (BadRequest ''Invitation already accepted; revoke the project access instead.'')) w (\<lambda>_.
     let w1 = w\<lparr>magicLinks := update_where (\<lambda>l. ml_id l = ml_id link) (\<lambda>l. l\<lparr>ml_expiresAt := clk e 0\<rparr>) (magicLinks w)\<rparr>
     in (Inr (), case (ml_projectId link, find_email cfg w1 (ml_email link)) of
          (Some pid, Some invitee) \<Rightarrow> if pid = [] then w1
             else w1\<lparr>accessGrants := delete_where (\<lambda>g. a_projectId g = pid \<and> a_subjectKind g = SubjUser \<and>
               a_userId g = Some (u_id invitee)) (accessGrants w1)\<rparr>
        | _ \<Rightarrow> w1)))))"

section \<open>Profiles\<close>

text \<open>The pattern \<^verbatim>\<open>^https?:\/\/\<close>, in any case.\<close>

definition http_url :: "string \<Rightarrow> bool" where
  "http_url s \<longleftrightarrow> starts_with ''http://'' (lower s) \<or> starts_with ''https://'' (lower s)"

definition checked_name :: "string option \<Rightarrow> string option res" where
  "checked_name given = (case given of None \<Rightarrow> Inr None
     | Some n \<Rightarrow> if trim n = [] \<or> length (trim n) > 120 then Inl (BadRequest ''Name must be 1--120 characters'')
                 else Inr (Some (trim n)))"

definition checked_avatar :: "string option option \<Rightarrow> string option option res" where
  "checked_avatar given = (case given of None \<Rightarrow> Inr None
     | Some url \<Rightarrow> if \<not> truthy url then Inr (Some None)
         else if \<not> http_url (override url []) \<or> length (override url []) > 2048 then Inl (BadRequest ''Invalid avatar URL'')
         else Inr (Some url))"

definition write_user :: "string \<Rightarrow> (user_row \<Rightarrow> user_row) \<Rightarrow> world \<Rightarrow> user_row res \<times> world" where
  "write_user uid f w = (case find_user w uid of
     None \<Rightarrow> (Inl (DbError P2025), w)
   | Some u \<Rightarrow> (Inr (f u), w\<lparr>users := update_where (\<lambda>r. u_id r = uid) f (users w)\<rparr>))"

definition patch_profile :: "string option \<Rightarrow> string option option \<Rightarrow> user_row \<Rightarrow> user_row" where
  "patch_profile nm avatar u = u\<lparr>u_name := override nm (u_name u), u_avatarUrl := override avatar (u_avatarUrl u)\<rparr>"

definition updateMyProfile :: "auth_user \<Rightarrow> string option \<Rightarrow> string option option \<Rightarrow> world \<Rightarrow> user_row res \<times> world" where
  "updateMyProfile actor given url w =
     attempt (checked_name given) w (\<lambda>nm.
     attempt (checked_avatar url) w (\<lambda>avatar.
     if nm = None \<and> avatar = None then (found (DbError P2025) (find_user w (au_id actor)), w)
     else then_do (write_user (au_id actor) (patch_profile nm avatar) w) (\<lambda>u w1.
       (Inr u, emit (AccountEvent (OwnProfileUpdated_ev (au_id actor)
          ((if nm \<noteq> None then [''name''] else []) @ (if avatar \<noteq> None then [''avatarUrl''] else [])))) w1))))"

text \<open>\<open>updateProfile\<close>: what the administrator really changes, with the checks on it.\<close>

definition new_name :: "user_row \<Rightarrow> string option \<Rightarrow> string option res" where
  "new_name user given = (case given of None \<Rightarrow> Inr None
     | Some n \<Rightarrow> if trim n = [] then Inl (BadRequest ''Name cannot be empty'')
         else if length (trim n) > 120 then Inl (BadRequest ''Name too long (max 120)'')
         else Inr (if trim n \<noteq> u_name user then Some (trim n) else None))"

definition new_email :: "auth_config \<Rightarrow> world \<Rightarrow> user_row \<Rightarrow> string option \<Rightarrow> string option res" where
  "new_email cfg w user given = (case given of None \<Rightarrow> Inr None
     | Some a \<Rightarrow>
         let address = lower (trim a)
         in if \<not> valid_email address then Inl (BadRequest ''Invalid email'')
            else if address = lower (u_email user) then Inr None
            else if u_kind user = UClient \<and> on_company_domain cfg (email_domain address)
              then Inl (BadRequest (''Clients can't use the company-domain email '' @ address @
                     ''. Promote the user to internal first.''))
            else if (case find_email cfg w address of None \<Rightarrow> False | Some c \<Rightarrow> u_id c \<noteq> u_id user)
              then Inl (BadRequest (''Email '' @ address @ '' is already in use''))
            else Inr (Some address))"

definition updateProfile :: "auth_config \<Rightarrow> auth_user \<Rightarrow> string \<Rightarrow> string option \<Rightarrow> string option \<Rightarrow> world \<Rightarrow> user_row res \<times> world" where
  "updateProfile cfg actor uid given address w =
     attempt (require_admin actor) w (\<lambda>_.
     attempt (found (NotFound ''User not found'') (find_user w uid)) w (\<lambda>user.
     attempt (new_name user given) w (\<lambda>nm.
     attempt (new_email cfg w user address) w (\<lambda>email.
     if nm = None \<and> email = None then (Inr user, w)
     else let upd = (\<lambda>u. u\<lparr>u_name := override nm (u_name u), u_email := override email (u_email u)\<rparr>)
          in attempt (unique_users cfg (update_where (\<lambda>r. u_id r = uid) upd (users w))) w (\<lambda>us.
             (Inr (upd user), emit (AccountEvent (ProfileUpdated_ev uid (au_id actor) nm email)) (w\<lparr>users := us\<rparr>)))))))"

text \<open>Preferences; \<open>Math.trunc\<close> of the hours.\<close>

definition checked_hours :: "jsnum option option \<Rightarrow> int option option res" where
  "checked_hours given = (case given of None \<Rightarrow> Inr None
     | Some None \<Rightarrow> Inr (Some None)
     | Some (Some x) \<Rightarrow> (case x of
         Fin q \<Rightarrow> if truncate_rat q < 1 \<or> 168 < truncate_rat q
           then Inl (BadRequest ''weeklyHoursTarget must be between 1 and 168'') else Inr (Some (Some (truncate_rat q)))
       | _ \<Rightarrow> Inl (BadRequest ''weeklyHoursTarget must be between 1 and 168'')))"

definition updateMyPreferences :: "auth_user \<Rightarrow> jsnum option option \<Rightarrow> bool option \<Rightarrow> world \<Rightarrow> user_row res \<times> world" where
  "updateMyPreferences actor hours pomodoro w =
     attempt (checked_hours hours) w (\<lambda>h.
     write_user (au_id actor) (\<lambda>u. u\<lparr>u_weeklyHoursTarget := override h (u_weeklyHoursTarget u),
       u_pomodoroEnabled := override pomodoro (u_pomodoroEnabled u)\<rparr>) w)"

definition getMyPreferences :: "auth_user \<Rightarrow> world \<Rightarrow> int option \<times> bool" where
  "getMyPreferences actor w = (case find_user w (au_id actor) of
     None \<Rightarrow> (None, False) | Some u \<Rightarrow> (u_weeklyHoursTarget u, u_pomodoroEnabled u))"

section \<open>Roles, kinds and archiving\<close>

definition changeRole :: "auth_config \<Rightarrow> auth_user \<Rightarrow> string \<Rightarrow> company_role \<Rightarrow> world \<Rightarrow> user_row res \<times> world" where
  "changeRole cfg actor uid role w =
     attempt (require_admin actor) w (\<lambda>_.
     attempt (found (NotFound ''User not found'') (find_user w uid)) w (\<lambda>target.
     let fromClient = (u_kind target = UClient)
     in attempt (require (\<not> (fromClient \<and> GOOGLE_OAUTH_ALLOWED_DOMAIN cfg \<noteq> [] \<and>
            \<not> on_company_domain cfg (email_domain (u_email target))))
          (BadRequest (u_email target @ '' is not on the company domain ('' @ GOOGLE_OAUTH_ALLOWED_DOMAIN cfg @ ''). '' @
            ''Update the user's email first, then promote them.''))) w (\<lambda>_.
        then_do (write_user uid (\<lambda>u. u\<lparr>u_companyRole := Some role, u_kind := (if fromClient then UInternal else u_kind u)\<rparr>) w) (\<lambda>u w1.
        (Inr u, emit (AccountEvent (UserRoleChanged_ev uid role (au_id actor) fromClient)) w1)))))"

definition leave_teams :: "string \<Rightarrow> world \<Rightarrow> world" where
  "leave_teams uid w = w\<lparr>teamMembers := delete_where (\<lambda>m. tm_userId m = uid) (teamMembers w)\<rparr>"

definition changeKind :: "auth_config \<Rightarrow> auth_user \<Rightarrow> string \<Rightarrow> user_kind \<Rightarrow> world \<Rightarrow> user_row res \<times> world" where
  "changeKind cfg actor uid kind w =
     attempt (require_admin actor) w (\<lambda>_.
     attempt (require (au_id actor \<noteq> uid) (Forbidden ''Can't change your own kind'')) w (\<lambda>_.
     attempt (found (NotFound ''User not found'') (find_user w uid)) w (\<lambda>user.
     if u_kind user = kind then (Inr user, w)
     else if kind = UClient then
       attempt (require (\<not> (GOOGLE_OAUTH_ALLOWED_DOMAIN cfg \<noteq> [] \<and> on_company_domain cfg (email_domain (u_email user))))
         (BadRequest (u_email user @ '' is on the company domain -- it must stay internal. '' @
            ''Change the email to an external address before converting to Guest.''))) w (\<lambda>_.
       then_do (write_user uid (\<lambda>u. u\<lparr>u_kind := UClient, u_companyRole := None\<rparr>) (leave_teams uid w)) (\<lambda>u w1.
       (Inr u, emit (AccountEvent (UserKindChanged_ev uid UClient (au_id actor))) w1)))
     else
       then_do (write_user uid (\<lambda>u. u\<lparr>u_kind := UInternal, u_companyRole := Some Member\<rparr>) w) (\<lambda>u w1.
       (Inr u, emit (AccountEvent (UserKindChanged_ev uid UInternal (au_id actor))) w1)))))"

definition archiveUser :: "auth_env \<Rightarrow> auth_user \<Rightarrow> string \<Rightarrow> world \<Rightarrow> unit res \<times> world" where
  "archiveUser e actor uid w =
     attempt (require_admin actor) w (\<lambda>_.
     attempt (require (au_id actor \<noteq> uid) (Forbidden ''Cannot archive yourself'')) w (\<lambda>_.
     then_do (write_user uid (\<lambda>u. u\<lparr>u_archivedAt := Some (clk e 0)\<rparr>) w) (\<lambda>_ w1.
     (Inr (), emit (AccountEvent (UserArchived_ev uid (au_id actor))) (revokeAllRefreshTokens uid (clk e 1) w1)))))"

definition unarchiveUser :: "auth_user \<Rightarrow> string \<Rightarrow> world \<Rightarrow> unit res \<times> world" where
  "unarchiveUser actor uid w =
     attempt (require_admin actor) w (\<lambda>_.
     then_do (write_user uid (\<lambda>u. u\<lparr>u_archivedAt := None\<rparr>) w) (\<lambda>_ w1.
     (Inr (), emit (AccountEvent (UserUnarchived_ev uid (au_id actor))) w1)))"

section \<open>Team membership\<close>

definition membership_key :: "team_member_row \<Rightarrow> string \<times> string" where
  "membership_key m = (tm_teamId m, tm_userId m)"

definition setTeams :: "auth_user \<Rightarrow> string \<Rightarrow> string list \<Rightarrow> world \<Rightarrow> string list res \<times> world" where
  "setTeams actor uid ids w =
     attempt (require_admin actor) w (\<lambda>_.
     attempt (found (NotFound ''User not found'') (find_user w uid)) w (\<lambda>user.
     attempt (require (\<not> (u_kind user = UClient \<and> ids \<noteq> [])) (Forbidden ''Clients cannot belong to Teams'')) w (\<lambda>_.
     let unique = uniq ids
     in attempt (require (length (filter (\<lambda>t. te_id t \<in> set unique) (teams w)) = length unique)
          (NotFound ''One or more teams not found'')) w (\<lambda>_.
        let w1 = leave_teams uid w
        in (Inr unique, emit (AccountEvent (UserTeamsChanged_ev uid unique (au_id actor)))
             (w1\<lparr>teamMembers := fold (insert_absent membership_key)
                (map (\<lambda>t. \<lparr>tm_teamId = t, tm_userId = uid\<rparr>) unique) (teamMembers w1)\<rparr>))))))"

definition listTeams :: "env \<Rightarrow> world \<Rightarrow> (team_row \<times> nat) list" where
  "listTeams e w = map (\<lambda>t. (t, count_where (\<lambda>m. tm_teamId m = te_id t) (teamMembers w)))
     (order_by (\<lambda>a b. coll e (te_name a) (te_name b)) (teams w))"

definition getTeam :: "string \<Rightarrow> world \<Rightarrow> (team_row \<times> user_row list) res" where
  "getTeam tid w = and_then (found (NotFound ''Team not found'') (find_row te_id tid (teams w))) (\<lambda>t.
     Inr (t, List.map_filter (\<lambda>m. find_user w (tm_userId m)) (filter (\<lambda>m. tm_teamId m = tid) (teamMembers w))))"

definition createTeam :: "env \<Rightarrow> auth_user \<Rightarrow> string \<Rightarrow> string \<Rightarrow> string option \<Rightarrow> world \<Rightarrow> team_row res \<times> world" where
  "createTeam e actor slug label descr w =
     attempt (require_admin actor) w (\<lambda>_.
     let t = \<lparr>te_id = uuid e 0, te_name = label, te_slug = slug, te_description = descr, te_createdById = au_id actor\<rparr>
     in attempt (unique_rows te_id (teams w @ [t])) w (\<lambda>_.
        attempt (unique_rows te_slug (teams w @ [t])) w (\<lambda>ts.
        attempt (require (au_id actor \<in> u_id ` set (users w)) (DbError P2003)) w (\<lambda>_.
        (Inr t, emit (AccountEvent (TeamCreated_ev (te_id t) (au_id actor))) (w\<lparr>teams := ts\<rparr>))))))"

definition updateTeam :: "auth_user \<Rightarrow> string \<Rightarrow> string option \<Rightarrow> string option \<Rightarrow> world \<Rightarrow> team_row res \<times> world" where
  "updateTeam actor tid label descr w =
     attempt (require_admin actor) w (\<lambda>_.
     attempt (found (DbError P2025) (find_row te_id tid (teams w))) w (\<lambda>team.
     let upd = (\<lambda>t. t\<lparr>te_name := override label (te_name t),
                      te_description := (case descr of None \<Rightarrow> te_description t | Some d \<Rightarrow> Some d)\<rparr>)
     in (Inr (upd team), w\<lparr>teams := update_where (\<lambda>t. te_id t = tid) upd (teams w)\<rparr>)))"

text \<open>Deleting a team deletes its memberships, its grants on projects and dashboards and the mentions of it.\<close>

definition deleteTeam :: "auth_user \<Rightarrow> string \<Rightarrow> world \<Rightarrow> unit res \<times> world" where
  "deleteTeam actor tid w =
     attempt (require_admin actor) w (\<lambda>_.
     attempt (found (DbError P2025) (find_row te_id tid (teams w))) w (\<lambda>_.
     (Inr (), emit (AccountEvent (TeamDeleted_ev tid (au_id actor)))
        (w\<lparr>teams := delete_where (\<lambda>t. te_id t = tid) (teams w),
           teamMembers := delete_where (\<lambda>m. tm_teamId m = tid) (teamMembers w),
           accessGrants := delete_where (\<lambda>g. a_teamId g = Some tid) (accessGrants w),
           mentions := delete_where (\<lambda>m. mn_teamId m = Some tid) (mentions w),
           dashboardAccess := delete_where (\<lambda>a. da_teamId a = Some tid) (dashboardAccess w)\<rparr>))))"

definition addMember :: "auth_user \<Rightarrow> string \<Rightarrow> string \<Rightarrow> world \<Rightarrow> unit res \<times> world" where
  "addMember actor tid uid w =
     attempt (require_admin actor) w (\<lambda>_.
     attempt (require (tid \<in> te_id ` set (teams w) \<and> uid \<in> u_id ` set (users w)) (DbError P2003)) w (\<lambda>_.
     (Inr (), emit (AccountEvent (TeamMemberAdded_ev tid uid (au_id actor)))
        (w\<lparr>teamMembers := insert_absent membership_key \<lparr>tm_teamId = tid, tm_userId = uid\<rparr> (teamMembers w)\<rparr>))))"

definition removeMember :: "auth_user \<Rightarrow> string \<Rightarrow> string \<Rightarrow> world \<Rightarrow> unit res \<times> world" where
  "removeMember actor tid uid w =
     attempt (require_admin actor) w (\<lambda>_.
     attempt (require ((tid, uid) \<in> membership_key ` set (teamMembers w)) (DbError P2025)) w (\<lambda>_.
     (Inr (), emit (AccountEvent (TeamMemberRemoved_ev tid uid (au_id actor)))
        (w\<lparr>teamMembers := delete_where (\<lambda>m. membership_key m = (tid, uid)) (teamMembers w)\<rparr>))))"

section \<open>Reading accounts\<close>

text \<open>\<open>matches\<close> stands for the case-insensitive \<open>contains\<close> of the database.\<close>

definition user_matches :: "(string \<Rightarrow> string \<Rightarrow> bool) \<Rightarrow> user_kind option \<Rightarrow> bool \<Rightarrow> string option \<Rightarrow> user_row \<Rightarrow> bool" where
  "user_matches contains kind archived q u \<longleftrightarrow> (case kind of None \<Rightarrow> True | Some k \<Rightarrow> u_kind u = k) \<and>
     (u_archivedAt u \<noteq> None) = archived \<and>
     (case q of None \<Rightarrow> True | Some t \<Rightarrow> t = [] \<or> contains t (u_email u) \<or> contains t (u_name u))"

definition teams_of :: "string \<Rightarrow> world \<Rightarrow> team_row list" where
  "teams_of uid w = List.map_filter (\<lambda>m. find_row te_id (tm_teamId m) (teams w))
     (filter (\<lambda>m. tm_userId m = uid) (teamMembers w))"

definition matching_users :: "(string \<Rightarrow> string \<Rightarrow> bool) \<Rightarrow> user_kind option \<Rightarrow> bool \<Rightarrow> string option \<Rightarrow> world \<Rightarrow> user_row list" where
  "matching_users contains kind archived q w = order_by (\<lambda>a b. u_createdAt b \<le> u_createdAt a)
     (filter (user_matches contains kind archived q) (users w))"

text \<open>Without a kind only internal users are listed.\<close>

datatype kind_filter = AllKinds | OnlyKind user_kind

definition kind_of_filter :: "kind_filter option \<Rightarrow> user_kind option" where
  "kind_of_filter f = (case f of None \<Rightarrow> Some UInternal | Some AllKinds \<Rightarrow> None | Some (OnlyKind k) \<Rightarrow> Some k)"

definition listInternal :: "(string \<Rightarrow> string \<Rightarrow> bool) \<Rightarrow> string option \<Rightarrow> jsnum option \<Rightarrow> kind_filter option \<Rightarrow> bool \<Rightarrow>
    string option \<Rightarrow> world \<Rightarrow> (user_row \<times> team_row list) list \<times> string option" where
  "listInternal contains cursor given kf archived q w =
     (let limit = normalizeLimit given; kind = kind_of_filter kf;
          rows = take (limit + 1) (after_cursor u_id cursor (matching_users contains kind archived q w))
      in paginate (map (\<lambda>u. (u, teams_of (u_id u) w)) rows) limit (\<lambda>x. u_id (fst x)))"

datatype access_source = FromAdmin | FromUser | FromTeam | FromPublic

record access_view =
  av_projectId :: string
  av_role :: project_role
  av_source :: access_source
  av_grantId :: "string option"

definition my_team_ids :: "string \<Rightarrow> world \<Rightarrow> string list" where
  "my_team_ids uid w = map tm_teamId (filter (\<lambda>m. tm_userId m = uid) (teamMembers w))"

definition grant_for :: "string \<Rightarrow> world \<Rightarrow> access_row \<Rightarrow> bool" where
  "grant_for uid w g \<longleftrightarrow> a_subjectKind g = SubjUser \<and> a_userId g = Some uid \<or>
     a_subjectKind g = SubjTeam \<and> (\<exists>t \<in> set (my_team_ids uid w). a_teamId g = Some t)"

definition better_grant :: "project_role \<times> access_source \<times> string option \<Rightarrow> access_row \<Rightarrow>
    project_role \<times> access_source \<times> string option" where
  "better_grant best g =
     (if role_rank (a_role g) > role_rank (fst best)
      then (a_role g, if a_subjectKind g = SubjTeam then FromTeam else FromUser,
            if a_subjectKind g = SubjTeam then None else Some (a_id g))
      else if role_rank (a_role g) = role_rank (fst best) \<and> a_subjectKind g = SubjUser \<and> snd (snd best) = None
      then (a_role g, FromUser, Some (a_id g))
      else best)"

definition seed_access :: "user_kind \<Rightarrow> project_role \<times> access_source \<times> string option" where
  "seed_access kind = (if kind = UClient then (Client, FromUser, None) else (Viewer, FromPublic, None))"

definition resolveProjectAccess :: "env \<Rightarrow> string \<Rightarrow> user_kind \<Rightarrow> company_role option \<Rightarrow> world \<Rightarrow> access_view list" where
  "resolveProjectAccess e uid kind role w =
     (let live = order_by (\<lambda>a b. coll e (p_key a) (p_key b)) (filter (\<lambda>p. p_archivedAt p = None) (projects w));
          grants = (\<lambda>p. filter (\<lambda>g. a_projectId g = p_id p \<and> grant_for uid w g) (accessGrants w))
      in if kind = UInternal \<and> role = Some Admin
         then map (\<lambda>p. \<lparr>av_projectId = p_id p, av_role = Manager, av_source = FromAdmin, av_grantId = None\<rparr>) live
         else map (\<lambda>p. let best = foldl better_grant (seed_access kind) (grants p)
                    in \<lparr>av_projectId = p_id p, av_role = fst best, av_source = fst (snd best), av_grantId = snd (snd best)\<rparr>)
                (filter (\<lambda>p. grants p \<noteq> [] \<or> kind = UInternal \<and> p_visibility p = PPublic) live))"

definition getUser :: "env \<Rightarrow> string \<Rightarrow> world \<Rightarrow> (user_row \<times> team_row list \<times> access_view list) res" where
  "getUser e uid w = and_then (found (NotFound ''User not found'') (find_user w uid)) (\<lambda>u.
     Inr (u, teams_of uid w, resolveProjectAccess e uid (u_kind u) (u_companyRole u) w))"

end
