(* ===== verification/AccountLaws.thy ===== *)
theory AccountLaws
  imports Users
begin

text \<open>
  What signing in and the administration of accounts keep: the invariant of the account tables over
  any sequence of operations, and what each way of signing in asks for.
\<close>

section \<open>The invariant\<close>

definition users_ok :: "auth_config \<Rightarrow> user_row list \<Rightarrow> bool" where
  "users_ok cfg us \<longleftrightarrow> distinct (map u_id us) \<and> distinct (map (\<lambda>u. citext cfg (u_email u)) us) \<and>
     distinct (google_ids us) \<and> (\<forall>u \<in> set us. u_kind u = UClient \<longleftrightarrow> u_companyRole u = None)"

definition tokens_ok :: "string set \<Rightarrow> refresh_row list \<Rightarrow> bool" where
  "tokens_ok uids ts \<longleftrightarrow> distinct (map rt_id ts) \<and> distinct (map rt_tokenHash ts) \<and>
     (\<forall>r \<in> set ts. rt_userId r \<in> uids \<and> (rt_rotatedToId r \<noteq> None \<longrightarrow> rt_revokedAt r \<noteq> None))"

definition links_ok :: "magic_row list \<Rightarrow> bool" where
  "links_ok ls \<longleftrightarrow> distinct (map ml_id ls) \<and> distinct (map ml_tokenHash ls)"

definition internal_ids :: "user_row list \<Rightarrow> string set" where
  "internal_ids us = u_id ` {u \<in> set us. u_kind u = UInternal}"

definition teams_ok :: "string set \<Rightarrow> team_row list \<Rightarrow> team_member_row list \<Rightarrow> bool" where
  "teams_ok internals ts ms \<longleftrightarrow> distinct (map te_id ts) \<and> distinct (map te_slug ts) \<and>
     distinct (map membership_key ms) \<and>
     (\<forall>m \<in> set ms. tm_teamId m \<in> te_id ` set ts \<and> tm_userId m \<in> internals)"

definition account_inv :: "auth_config \<Rightarrow> world \<Rightarrow> bool" where
  "account_inv cfg w \<longleftrightarrow> users_ok cfg (users w) \<and> tokens_ok (u_id ` set (users w)) (refreshTokens w) \<and>
     links_ok (magicLinks w) \<and> teams_ok (internal_ids (users w)) (teams w) (teamMembers w)"

lemma account_invI:
  assumes "account_inv cfg w" and "users w' = users w" and "refreshTokens w' = refreshTokens w"
    and "magicLinks w' = magicLinks w" and "teams w' = teams w" and "teamMembers w' = teamMembers w"
  shows "account_inv cfg w'"
  using assms by (simp add: account_inv_def)

lemma account_inv_frame [simp]:
  "account_inv cfg (emit ev w) = account_inv cfg w"
  "account_inv cfg (record_audit uid act ip ua md now w) = account_inv cfg w"
  "account_inv cfg (w\<lparr>outbox := ms\<rparr>) = account_inv cfg w"
  "account_inv cfg (w\<lparr>revokedJtis := js\<rparr>) = account_inv cfg w"
  "account_inv cfg (w\<lparr>accessGrants := gs\<rparr>) = account_inv cfg w"
  "account_inv cfg (w\<lparr>accessGrants := gs, tasks := ts\<rparr>) = account_inv cfg w"
  by (simp_all add: account_inv_def record_audit_def)

lemmas account_attempt = attempt_inv [where P = "account_inv cfg" for cfg]

lemmas account_atomically = atomically_inv [where P = "account_inv cfg" for cfg]

lemmas account_then_do = then_do_inv [where P = "account_inv cfg" for cfg]

subsection \<open>Writes to the table of users\<close>

text \<open>An update that leaves alone what the invariant speaks about.\<close>

definition same_account :: "user_row \<Rightarrow> user_row \<Rightarrow> bool" where
  "same_account u v \<longleftrightarrow> u_id v = u_id u \<and> u_email v = u_email u \<and> u_kind v = u_kind u \<and>
     u_companyRole v = u_companyRole u"

lemma internal_ids_update:
  assumes "\<And>u. u \<in> set us \<Longrightarrow> P u \<Longrightarrow> u_id (f u) = u_id u \<and> (u_kind u = UInternal \<longrightarrow> u_kind (f u) = UInternal)"
  shows "internal_ids us \<subseteq> internal_ids (update_where P f us)"
proof
  fix i assume "i \<in> internal_ids us"
  then obtain u where u: "u \<in> set us" "u_kind u = UInternal" "i = u_id u" by (auto simp: internal_ids_def)
  let ?v = "if P u then f u else u"
  have "?v \<in> set (update_where P f us)" using u(1) by (simp add: set_update_where)
  moreover have "u_id ?v = i" "u_kind ?v = UInternal" using assms [OF u(1)] u by auto
  ultimately show "i \<in> internal_ids (update_where P f us)" by (force simp: internal_ids_def)
qed

lemma ids_update:
  assumes "\<And>u. u \<in> set us \<Longrightarrow> P u \<Longrightarrow> u_id (f u) = u_id u"
  shows "map u_id (update_where P f us) = map u_id us"
  using assms by (induction us) auto

lemma tokens_ok_mono: "tokens_ok A ts \<Longrightarrow> A \<subseteq> B \<Longrightarrow> tokens_ok B ts"
  by (auto simp: tokens_ok_def)

lemma teams_ok_mono: "teams_ok A ts ms \<Longrightarrow> A \<subseteq> B \<Longrightarrow> teams_ok B ts ms"
  by (auto simp: teams_ok_def)

lemma account_inv_users:
  assumes "account_inv cfg w" and "users_ok cfg us" and "u_id ` set (users w) \<subseteq> u_id ` set us"
    and "internal_ids (users w) \<subseteq> internal_ids us"
  shows "account_inv cfg (w\<lparr>users := us\<rparr>)"
  using assms tokens_ok_mono teams_ok_mono unfolding account_inv_def by auto

lemma unique_users_Inr:
  "unique_users cfg us = Inr us' \<longleftrightarrow> us' = us \<and> distinct (map u_id us) \<and>
     distinct (map (\<lambda>u. citext cfg (u_email u)) us) \<and> distinct (google_ids us)"
  by (auto simp: unique_users_def and_then_Inr)

lemma find_emailD: "find_email cfg w email = Some u \<Longrightarrow> u \<in> set (users w) \<and> citext cfg (u_email u) = citext cfg email"
  by (auto simp: find_email_def dest: find_row_SomeD)

lemma find_userD: "find_user w uid = Some u \<Longrightarrow> u \<in> set (users w) \<and> u_id u = uid"
  by (auto simp: find_user_def dest: find_row_SomeD)

lemma upsert_inv:
  assumes inv: "account_inv cfg w" and upd: "\<And>u. same_account u (upd u)"
    and new: "u_kind new = UClient \<longleftrightarrow> u_companyRole new = None"
  shows "account_inv cfg (snd (upsert_user cfg email upd new w))"
proof (cases "find_email cfg w email")
  case None
  then show ?thesis
  proof (cases "unique_users cfg (users w @ [new])")
    case (Inr us)
    then have us: "us = users w @ [new]" by (simp add: unique_users_Inr)
    have "users_ok cfg us"
      using Inr inv new by (auto simp: unique_users_Inr users_ok_def account_inv_def)
    then have "account_inv cfg (w\<lparr>users := us\<rparr>)"
      by (rule account_inv_users [OF inv]) (auto simp: us internal_ids_def)
    with Inr None show ?thesis by (simp add: upsert_user_def)
  qed (simp add: upsert_user_def inv)
next
  case (Some u)
  let ?us = "update_where (\<lambda>r. u_id r = u_id u) upd (users w)"
  show ?thesis
  proof (cases "unique_users cfg ?us")
    case (Inr us)
    have ids: "u_id ` set ?us = u_id ` set (users w)"
      by (metis (no_types, lifting) ids_update upd same_account_def list.set_map)
    have "users_ok cfg us"
      using Inr inv upd by (auto simp: unique_users_Inr users_ok_def account_inv_def in_update_where same_account_def)
    moreover have "us = ?us" using Inr by (simp add: unique_users_Inr)
    moreover have "internal_ids (users w) \<subseteq> internal_ids ?us"
      using upd by (intro internal_ids_update) (simp add: same_account_def)
    ultimately have "account_inv cfg (w\<lparr>users := us\<rparr>)"
      using ids by (intro account_inv_users [OF inv]) simp_all
    with Inr Some show ?thesis by (simp add: upsert_user_def)
  qed (simp add: upsert_user_def Some inv)
qed

lemma upsert_find:
  assumes "upsert_user cfg email upd new w = (Inr u, w')" and "\<And>u. same_account u (upd u)"
  shows "u_id u \<in> u_id ` set (users w')"
    and "find_email cfg w email = None \<longrightarrow> u = new"
    and "find_email cfg w email = Some x \<longrightarrow> u = upd x"
  using assms by (auto simp: upsert_user_def attempt_Inr unique_users_Inr same_account_def set_update_where
      dest!: find_emailD split: option.splits intro: rev_image_eqI)

subsection \<open>Tokens and links\<close>

lemma insert_refresh_inv:
  assumes "account_inv cfg w" and "rt_rotatedToId r = None"
  shows "account_inv cfg (snd (insert_refresh r w))"
  using assms by (cases "distinct (map rt_id (refreshTokens w @ [r]))";
      cases "distinct (map rt_tokenHash (refreshTokens w @ [r]))"; cases "rt_userId r \<in> u_id ` set (users w)")
    (auto simp: insert_refresh_def unique_rows_def account_inv_def tokens_ok_def)

lemma issue_inv: "account_inv cfg w \<Longrightarrow> account_inv cfg (snd (issueTokens cfg' e n i input w))"
  unfolding issueTokens_def Let_def
  by (rule account_then_do) (auto intro: insert_refresh_inv simp: refresh_of_def)

lemma login_as_inv: "account_inv cfg w \<Longrightarrow> account_inv cfg (snd (login_as cfg' e n i label act pn md ip user w))"
  by (simp add: login_as_def issue_inv)

lemma insert_link_inv: "account_inv cfg w \<Longrightarrow> account_inv cfg (snd (insert_link l w))"
  by (cases "distinct (map ml_id (magicLinks w @ [l]))"; cases "distinct (map ml_tokenHash (magicLinks w @ [l]))";
      cases "fk_ok p_id (projects w) (ml_projectId l) \<and> fk_ok u_id (users w) (ml_invitedByUserId l)")
    (auto simp: insert_link_def unique_rows_def account_inv_def links_ok_def)

lemma send_mail_inv: "account_inv cfg w \<Longrightarrow> account_inv cfg (snd (send_mail e m w))"
  by (simp add: send_mail_def)

text \<open>Revoking keeps the table as it is but for the column \<open>revokedAt\<close>, which is never cleared.\<close>

interpretation revoking: row_update rt_id "\<lambda>r. r\<lparr>rt_revokedAt := x\<rparr>" for x
  by unfold_locales simp

interpretation revoking_hash: row_update rt_tokenHash "\<lambda>r. r\<lparr>rt_revokedAt := x\<rparr>" for x
  by unfold_locales simp

interpretation rotating: row_update rt_id "\<lambda>r. r\<lparr>rt_rotatedToId := x\<rparr>" for x
  by unfold_locales simp

interpretation rotating_hash: row_update rt_tokenHash "\<lambda>r. r\<lparr>rt_rotatedToId := x\<rparr>" for x
  by unfold_locales simp

interpretation using_link: row_update ml_id "\<lambda>l. l\<lparr>ml_usedAt := x\<rparr>" for x
  by unfold_locales simp

interpretation using_link_hash: row_update ml_tokenHash "\<lambda>l. l\<lparr>ml_usedAt := x\<rparr>" for x
  by unfold_locales simp

interpretation expiring_link: row_update ml_id "\<lambda>l. l\<lparr>ml_expiresAt := x\<rparr>" for x
  by unfold_locales simp

interpretation expiring_link_hash: row_update ml_tokenHash "\<lambda>l. l\<lparr>ml_expiresAt := x\<rparr>" for x
  by unfold_locales simp

lemma tokens_ok_revoke:
  "tokens_ok A ts \<Longrightarrow> tokens_ok A (update_where P (\<lambda>r. r\<lparr>rt_revokedAt := Some x\<rparr>) ts)"
  by (auto simp: tokens_ok_def revoking.keys_kept revoking_hash.keys_kept in_update_where)

lemma revoke_inv:
  "account_inv cfg w \<Longrightarrow> account_inv cfg (w\<lparr>refreshTokens := update_where P (\<lambda>r. r\<lparr>rt_revokedAt := Some x\<rparr>) (refreshTokens w)\<rparr>)"
  by (simp add: account_inv_def tokens_ok_revoke)

lemma revokeAll_inv: "account_inv cfg w \<Longrightarrow> account_inv cfg (revokeAllRefreshTokens uid now w)"
  by (simp add: revokeAllRefreshTokens_def revoke_inv)

lemma claim_refreshE:
  assumes "claim_refresh rid now w = Some w'"
  obtains r where "r \<in> set (refreshTokens w)" and "rt_id r = rid" and "rt_revokedAt r = None"
    and "w' = w\<lparr>refreshTokens := update_where (\<lambda>r. rt_id r = rid \<and> rt_rotatedToId r = None \<and> rt_revokedAt r = None)
             (\<lambda>r. r\<lparr>rt_revokedAt := Some now\<rparr>) (refreshTokens w)\<rparr>"
  using assms by (auto simp: claim_refresh_def split: if_splits)

lemma claim_inv: "account_inv cfg w \<Longrightarrow> claim_refresh rid now w = Some w' \<Longrightarrow> account_inv cfg w'"
  by (auto elim!: claim_refreshE intro: revoke_inv)

lemma claim_revokes:
  assumes "claim_refresh rid now w = Some w'" and "distinct (map rt_id (refreshTokens w))"
    and "r \<in> set (refreshTokens w')" and "rt_id r = rid"
  shows "rt_revokedAt r \<noteq> None"
proof -
  obtain c where c: "c \<in> set (refreshTokens w)" "rt_id c = rid" "rt_revokedAt c = None" "rt_rotatedToId c = None"
    and w': "refreshTokens w' = update_where (\<lambda>r. rt_id r = rid \<and> rt_rotatedToId r = None \<and> rt_revokedAt r = None)
             (\<lambda>r. r\<lparr>rt_revokedAt := Some now\<rparr>) (refreshTokens w)"
    using assms(1) by (auto simp: claim_refresh_def split: if_splits)
  then obtain r0 where r0: "r0 \<in> set (refreshTokens w)" "rt_id r0 = rid"
    "r = (if rt_rotatedToId r0 = None \<and> rt_revokedAt r0 = None then r0\<lparr>rt_revokedAt := Some now\<rparr> else r0)"
    using assms(3,4) by (auto simp: in_update_where)
  have "r0 = c" using assms(2) r0(1,2) c(1,2) by (metis inj_on_def distinct_map)
  with r0(3) c show ?thesis by simp
qed

lemma link_successor_inv:
  assumes "account_inv cfg w" and "\<And>r. r \<in> set (refreshTokens w) \<Longrightarrow> rt_id r = rt_id stored \<Longrightarrow> rt_revokedAt r \<noteq> None"
  shows "account_inv cfg (snd (link_successor cfg' stored pair w))"
  unfolding link_successor_def
  using assms by (intro account_attempt)
    (auto simp: account_inv_def tokens_ok_def rotating.keys_kept rotating_hash.keys_kept in_update_where)

lemma insert_refresh_tokens:
  "insert_refresh r w = (Inr u, w') \<Longrightarrow> refreshTokens w' = refreshTokens w @ [r] \<and>
     distinct (map rt_id (refreshTokens w @ [r])) \<and> distinct (map rt_tokenHash (refreshTokens w @ [r]))"
  by (cases "distinct (map rt_id (refreshTokens w @ [r]))";
      cases "distinct (map rt_tokenHash (refreshTokens w @ [r]))"; cases "rt_userId r \<in> u_id ` set (users w)")
    (auto simp: insert_refresh_def unique_rows_def)

lemma issue_tokens:
  "issueTokens cfg e n i input w = (Inr pair, w') \<Longrightarrow>
     refreshTokens w' = refreshTokens w @ [refresh_of cfg e n i input] \<and>
     distinct (map rt_id (refreshTokens w')) \<and> distinct (map rt_tokenHash (refreshTokens w')) \<and>
     refreshToken pair = randomBytes e 0"
  unfolding issueTokens_def Let_def by (auto simp: then_do_Inr dest!: insert_refresh_tokens)

lemma refresh_inv:
  assumes inv: "account_inv cfg w"
  shows "account_inv cfg (snd (refresh cfg' e raw ip ua w))"
proof -
  have rot: "account_inv cfg (snd (then_do (issueTokens cfg' e 2 0 inp w1) (link_successor cfg' stored)))"
    if claim: "claim_refresh (rt_id stored) (clk e 1) w = Some w1" for stored inp w1
  proof (rule account_then_do)
    show "account_inv cfg (snd (issueTokens cfg' e 2 0 inp w1))"
      by (rule issue_inv [OF claim_inv [OF inv claim]])
    fix pair w2
    assume issued: "issueTokens cfg' e 2 0 inp w1 = (Inr pair, w2)" and w2: "account_inv cfg w2"
    have dist: "distinct (map rt_id (refreshTokens w))" using inv by (simp add: account_inv_def tokens_ok_def)
    have "rt_id stored \<in> set (map rt_id (refreshTokens w1))"
      using claim by (elim claim_refreshE) (simp add: revoking.keys_kept, metis image_eqI)
    then obtain c where c: "c \<in> set (refreshTokens w1)" "rt_id c = rt_id stored" by auto
    show "account_inv cfg (snd (link_successor cfg' stored pair w2))"
    proof (rule link_successor_inv [OF w2])
      fix r assume r: "r \<in> set (refreshTokens w2)" "rt_id r = rt_id stored"
      then have "r \<in> set (refreshTokens w1)"
        using issue_tokens [OF issued] c by (auto simp: rev_image_eqI)
      then show "rt_revokedAt r \<noteq> None" using claim_revokes [OF claim dist] r(2) by blast
    qed
  qed
  show ?thesis
    unfolding refresh_def
  proof (rule account_attempt [OF inv])
    fix x assume "read_refresh cfg' (clk e 0) raw w = Inr x"
    obtain stored user where x: "x = (stored, user)" by (cases x)
    show "account_inv cfg (snd (case x of (stored, user) \<Rightarrow>
        if truthy (rt_rotatedToId stored) then reuse_detected e stored ip ua w
        else attempt (require (u_archivedAt user = None) (Unauthorized ''User is archived'')) w (\<lambda>_.
        case claim_refresh (rt_id stored) (clk e 1) w of None \<Rightarrow> race_lost e stored ip w
        | Some w1 \<Rightarrow> then_do (issueTokens cfg' e 2 0 (input_of user ip ua) w1) (\<lambda>pair w2. link_successor cfg' stored pair w2))))"
      using inv rot unfolding x
      by (auto simp: reuse_detected_def race_lost_def Let_def revokeAll_inv split: option.split intro!: account_attempt)
  qed
qed

lemma links_ok_update:
  "links_ok ls \<Longrightarrow> links_ok (update_where P (\<lambda>l. l\<lparr>ml_usedAt := x\<rparr>) ls)"
  "links_ok ls \<Longrightarrow> links_ok (update_where P (\<lambda>l. l\<lparr>ml_expiresAt := y\<rparr>) ls)"
  by (simp_all add: links_ok_def using_link.keys_kept using_link_hash.keys_kept expiring_link.keys_kept
      expiring_link_hash.keys_kept)

lemma links_inv: "account_inv cfg w \<Longrightarrow> links_ok ls \<Longrightarrow> account_inv cfg (w\<lparr>magicLinks := ls\<rparr>)"
  by (simp add: account_inv_def)

lemma consume_inv: "account_inv cfg w \<Longrightarrow> consume_link lid now w = Some w' \<Longrightarrow> account_inv cfg w'"
  by (auto simp: consume_link_def account_inv_def links_ok_update split: if_splits)

lemma new_user_kind [simp]:
  "u_kind (new_user i n em nm k r) = k" "u_companyRole (new_user i n em nm k r) = r"
  "u_id (new_user i n em nm k r) = i" "u_email (new_user i n em nm k r) = em"
  "u_archivedAt (new_user i n em nm k r) = None" "u_googleId (new_user i n em nm k r) = None"
  by (simp_all add: new_user_def)

lemma same_account_refl [simp]: "same_account u u" "same_account u (id u)"
  by (simp_all add: same_account_def)

lemma accept_inv:
  assumes "account_inv cfg w"
  shows "account_inv cfg (snd (accept_link cfg e link email w))"
proof (cases "consume_link (ml_id link) (clk e 1) w")
  case (Some w1)
  let ?r = "upsert_user cfg email id (new_user (uuid e 0) (clk e 2) email (email_local email) UClient None) w1"
  have "account_inv cfg (snd ?r)" by (rule upsert_inv [OF consume_inv [OF assms Some]]) simp_all
  with Some assms show ?thesis by (simp add: accept_link_def atomically_inv [where P = "account_inv cfg"])
qed (simp add: accept_link_def assms)

lemma verify_inv: "account_inv cfg w \<Longrightarrow> account_inv cfg (snd (verifyMagicLink cfg e email raw ip w))"
  by (auto simp: verifyMagicLink_def finish_link_def intro!: account_attempt account_then_do accept_inv login_as_inv)

lemma request_inv: "account_inv cfg w \<Longrightarrow> account_inv cfg (snd (requestMagicLink cfg' e n i email ip w))"
  unfolding requestMagicLink_def Let_def
  by (intro account_attempt account_then_do insert_link_inv send_mail_inv) simp_all

lemma invite_inv: "account_inv cfg w \<Longrightarrow> account_inv cfg (snd (sendProjectInvite cfg' e n i args w))"
  unfolding sendProjectInvite_def Let_def expire_invites_def
  by (intro account_attempt account_then_do insert_link_inv send_mail_inv)
    (auto intro!: links_inv links_ok_update simp: account_inv_def)

lemma google_inv: "account_inv cfg w \<Longrightarrow> account_inv cfg (snd (loginWithGoogle cfg e profile ip w))"
  unfolding loginWithGoogle_def
  by (intro account_then_do upsert_inv account_attempt login_as_inv) (simp_all add: same_account_def)

subsection \<open>Development logins and sessions\<close>

lemma dev_login_inv:
  "account_inv cfg w \<Longrightarrow> account_inv cfg (snd (devLoginFor cfg' e uid w))"
  "account_inv cfg w \<Longrightarrow> account_inv cfg (snd (issueTokensForUser cfg' e uid ip ua w))"
  "account_inv cfg w \<Longrightarrow> account_inv cfg (snd (devLoginByEmail cfg e email ip w))"
  unfolding devLoginFor_def issueTokensForUser_def devLoginByEmail_def Let_def
  by (intro account_attempt account_then_do upsert_inv login_as_inv issue_inv; simp)+

lemma insert_member_ok:
  assumes "teams_ok A ts ms" and "tid \<in> te_id ` set ts" and "uid \<in> A"
  shows "teams_ok A ts (insert_absent membership_key \<lparr>tm_teamId = tid, tm_userId = uid\<rparr> ms)"
  using assms by (auto simp: teams_ok_def set_insert_absent intro: distinct_insert_absent)

lemma membership_key_eq: "(\<lambda>m. (tm_teamId m, tm_userId m)) = membership_key"
  by (simp add: membership_key_def fun_eq_iff)

lemma join_team_inv:
  assumes inv: "account_inv cfg w" and u: "u_id user \<in> internal_ids (users w)"
  shows "account_inv cfg (snd (join_team newId user team w))"
proof -
  obtain slug label where team: "team = (slug, label)" by (cases team)
  define t where "t = (case find_row te_slug slug (teams w) of Some t \<Rightarrow> t
     | None \<Rightarrow> \<lparr>te_id = newId, te_name = label, te_slug = slug, te_description = None, te_createdById = u_id user\<rparr>)"
  let ?ts = "insert_absent te_slug t (teams w)"
  have tm: "teams_ok (internal_ids (users w)) (teams w) (teamMembers w)" using inv by (simp add: account_inv_def)
  have t_in: "te_id t \<in> te_id ` set ?ts"
  proof (cases "find_row te_slug slug (teams w)")
    case None
    then have "slug \<notin> te_slug ` set (teams w)" by (simp add: find_row_None)
    moreover have "te_slug t = slug" by (simp add: t_def None)
    ultimately show ?thesis by (simp add: set_insert_absent)
  next
    case (Some x)
    then have "t \<in> set (teams w)" by (auto simp: t_def dest: find_row_SomeD)
    then show ?thesis by (simp add: set_insert_absent)
  qed
  show ?thesis
  proof (cases "distinct (map te_id ?ts)")
    case True
    have "teams_ok (internal_ids (users w)) ?ts (teamMembers w)"
      using tm True by (auto simp: teams_ok_def set_insert_absent intro: distinct_insert_absent)
    from insert_member_ok [OF this t_in u] show ?thesis
      using inv True by (simp add: join_team_def team t_def [symmetric] unique_rows_def membership_key_eq account_inv_def)
  qed (simp add: join_team_def team t_def [symmetric] unique_rows_def inv)
qed

lemma open_projects_inv: "account_inv cfg w \<Longrightarrow> account_inv cfg (open_projects newId user role w)"
  by (simp add: open_projects_def Let_def)

text \<open>The account a persona signs in as is new or has the kind of the persona.\<close>

definition persona_fits :: "auth_config \<Rightarrow> persona \<Rightarrow> world \<Rightarrow> bool" where
  "persona_fits cfg p w \<longleftrightarrow> (let spec = persona_specs (GOOGLE_OAUTH_ALLOWED_DOMAIN cfg) (persona_key p)
     in case find_email cfg w (ps_email spec) of None \<Rightarrow> True | Some u \<Rightarrow> u_kind u = ps_kind spec)"

lemma persona_specs_kind:
  "ps_kind (persona_specs d p) = UClient \<longleftrightarrow> ps_companyRole (persona_specs d p) = None"
  "ps_team (persona_specs d p) \<noteq> None \<Longrightarrow> ps_kind (persona_specs d p) = UInternal"
  by (cases p; simp)+

lemma upsert_internal:
  assumes up: "upsert_user cfg email id new w = (Inr u, w')"
    and fits: "case find_email cfg w email of None \<Rightarrow> True | Some x \<Rightarrow> u_kind x = u_kind new" and new: "u_kind new = UInternal"
  shows "u_id u \<in> internal_ids (users w')"
proof (cases "find_email cfg w email")
  case None
  with up new show ?thesis by (auto simp: upsert_user_def attempt_Inr unique_users_Inr internal_ids_def)
next
  case (Some x)
  with fits new have "u_kind x = UInternal" by simp
  moreover have "x \<in> set (users w)" using find_emailD [OF Some] by simp
  ultimately have "u_id x \<in> internal_ids (update_where (\<lambda>r. u_id r = u_id x) id (users w))"
    using subsetD [OF internal_ids_update] by (force simp: internal_ids_def)
  with Some up show ?thesis by (auto simp: upsert_user_def attempt_Inr unique_users_Inr)
qed

lemma persona_inv:
  assumes inv: "account_inv cfg w" and fits: "persona_fits cfg p w"
  shows "account_inv cfg (snd (devLoginAsPersona cfg e p ip w))"
proof -
  let ?spec = "persona_specs (GOOGLE_OAUTH_ALLOWED_DOMAIN cfg) (persona_key p)"
  let ?new = "new_user (uuid e 0) (clk e 0) (ps_email ?spec) (ps_name ?spec) (ps_kind ?spec) (ps_companyRole ?spec)"
  have up: "account_inv cfg (snd (upsert_user cfg (ps_email ?spec) id ?new w))"
    by (rule upsert_inv [OF inv]) (simp_all add: persona_specs_kind)
  have team: "account_inv cfg (snd (case ps_team ?spec of None \<Rightarrow> (Inr (), w1) | Some t \<Rightarrow> join_team i u t w1))"
    if "upsert_user cfg (ps_email ?spec) id ?new w = (Inr u, w1)" "account_inv cfg w1" for u w1 i
  proof (cases "ps_team ?spec")
    case (Some t)
    have "u_id u \<in> internal_ids (users w1)"
      by (rule upsert_internal [OF that(1)]) (use fits Some persona_specs_kind(2) [of "GOOGLE_OAUTH_ALLOWED_DOMAIN cfg" "persona_key p"]
        in \<open>auto simp: persona_fits_def Let_def split: option.splits\<close>)
    with that Some show ?thesis by (simp add: join_team_inv)
  qed (simp add: that)
  show ?thesis
    unfolding devLoginAsPersona_def Let_def
    by (intro account_attempt account_then_do login_as_inv up team inv)
      (auto intro: open_projects_inv inv split: option.split)
qed

lemma session_inv:
  "account_inv cfg w \<Longrightarrow> account_inv cfg (snd (logout cfg' e jti raw who ip w))"
  "account_inv cfg w \<Longrightarrow> account_inv cfg (snd (revokeSession e uid sid ip ua w))"
  "account_inv cfg w \<Longrightarrow> account_inv cfg (snd (revokeOthers cfg' e uid raw ip ua w))"
proof -
  assume inv: "account_inv cfg w"
  have jti: "account_inv cfg (revokeJti cfg' now jti w)" for now using inv by (simp add: revokeJti_def)
  show "account_inv cfg (snd (logout cfg' e jti raw who ip w))"
    by (auto simp: logout_def Let_def revoke_hash_def jti intro!: revoke_inv split: option.split)
  show "account_inv cfg (snd (revokeSession e uid sid ip ua w))"
    unfolding revokeSession_def using inv by (intro account_attempt) (auto intro: revoke_inv)
  show "account_inv cfg (snd (revokeOthers cfg' e uid raw ip ua w))"
    using inv by (simp add: revokeOthers_def Let_def revoke_inv)
qed

subsection \<open>Administration\<close>

lemma google_ids_update:
  "(\<And>u. u \<in> set us \<Longrightarrow> P u \<Longrightarrow> u_googleId (f u) = u_googleId u) \<Longrightarrow> google_ids (update_where P f us) = google_ids us"
  by (induction us) (auto simp: google_ids_def)

lemma emails_update:
  "(\<And>u. u \<in> set us \<Longrightarrow> P u \<Longrightarrow> u_email (f u) = u_email u) \<Longrightarrow>
     map (\<lambda>u. citext cfg (u_email u)) (update_where P f us) = map (\<lambda>u. citext cfg (u_email u)) us"
  by (induction us) auto

text \<open>An update that keeps the unique columns and leaves kind and role in step.\<close>

lemma users_ok_update:
  assumes "users_ok cfg us"
    and "\<And>u. u \<in> set us \<Longrightarrow> P u \<Longrightarrow> u_id (f u) = u_id u \<and> u_email (f u) = u_email u \<and> u_googleId (f u) = u_googleId u"
    and "\<And>u. u \<in> set us \<Longrightarrow> P u \<Longrightarrow> u_kind (f u) = UClient \<longleftrightarrow> u_companyRole (f u) = None"
  shows "users_ok cfg (update_where P f us)"
proof -
  have "map (\<lambda>u. citext cfg (u_email u)) (update_where P f us) = map (\<lambda>u. citext cfg (u_email u)) us"
    using assms(2) by (intro emails_update) simp
  moreover have "map u_id (update_where P f us) = map u_id us" using assms(2) by (intro ids_update) simp
  moreover have "google_ids (update_where P f us) = google_ids us" using assms(2) by (intro google_ids_update) simp
  moreover have "\<forall>v \<in> set (update_where P f us). u_kind v = UClient \<longleftrightarrow> u_companyRole v = None"
    using assms(1,3) by (auto simp: users_ok_def in_update_where)
  ultimately show ?thesis using assms(1) by (simp only: users_ok_def)
qed

lemma write_users_inv:
  assumes "account_inv cfg w"
    and "\<And>u. u \<in> set (users w) \<Longrightarrow> P u \<Longrightarrow> u_id (f u) = u_id u \<and> u_email (f u) = u_email u \<and> u_googleId (f u) = u_googleId u"
    and "\<And>u. u \<in> set (users w) \<Longrightarrow> P u \<Longrightarrow> u_kind (f u) = UClient \<longleftrightarrow> u_companyRole (f u) = None"
    and "\<And>u. u \<in> set (users w) \<Longrightarrow> P u \<Longrightarrow> u_kind u = UInternal \<longrightarrow> u_kind (f u) = UInternal"
  shows "account_inv cfg (w\<lparr>users := update_where P f (users w)\<rparr>)"
proof (rule account_inv_users [OF assms(1)])
  show "users_ok cfg (update_where P f (users w))"
    using assms by (intro users_ok_update) (simp_all add: account_inv_def)
  show "u_id ` set (users w) \<subseteq> u_id ` set (update_where P f (users w))"
    using ids_update [of "users w" P f] assms(2) by (metis list.set_map order_refl)
  show "internal_ids (users w) \<subseteq> internal_ids (update_where P f (users w))"
    using assms by (intro internal_ids_update) simp
qed

lemma write_user_inv:
  assumes "account_inv cfg w"
    and "\<And>u. u_id (f u) = u_id u \<and> u_email (f u) = u_email u \<and> u_googleId (f u) = u_googleId u"
    and "\<And>u. u \<in> set (users w) \<Longrightarrow> u_id u = uid \<Longrightarrow> u_kind (f u) = UClient \<longleftrightarrow> u_companyRole (f u) = None"
    and "\<And>u. u \<in> set (users w) \<Longrightarrow> u_id u = uid \<Longrightarrow> u_kind u = UInternal \<longrightarrow> u_kind (f u) = UInternal"
  shows "account_inv cfg (snd (write_user uid f w))"
  using assms by (auto simp: write_user_def split: option.split intro!: write_users_inv)

lemma account_kinds: "account_inv cfg w \<Longrightarrow> u \<in> set (users w) \<Longrightarrow> u_kind u = UClient \<longleftrightarrow> u_companyRole u = None"
  by (simp add: account_inv_def users_ok_def)

lemma profile_inv:
  "account_inv cfg w \<Longrightarrow> account_inv cfg (snd (updateMyProfile actor nm url w))"
  "account_inv cfg w \<Longrightarrow> account_inv cfg (snd (updateMyPreferences actor h p w))"
  "account_inv cfg w \<Longrightarrow> account_inv cfg (snd (archiveUser e actor uid w))"
  "account_inv cfg w \<Longrightarrow> account_inv cfg (snd (unarchiveUser actor uid w))"
  "account_inv cfg w \<Longrightarrow> account_inv cfg (snd (validateJwt e payload w))"
proof -
  assume inv: "account_inv cfg w"
  note kinds = account_kinds [OF inv]
  show "account_inv cfg (snd (updateMyProfile actor nm url w))"
    unfolding updateMyProfile_def using inv
    by (intro account_attempt) (auto intro!: account_then_do write_user_inv simp: patch_profile_def kinds)
  show "account_inv cfg (snd (updateMyPreferences actor h p w))"
    unfolding updateMyPreferences_def using inv by (intro account_attempt write_user_inv) (auto simp: kinds)
  show "account_inv cfg (snd (archiveUser e actor uid w))"
    unfolding archiveUser_def using inv
    by (intro account_attempt account_then_do write_user_inv) (auto simp: kinds revokeAll_inv)
  show "account_inv cfg (snd (unarchiveUser actor uid w))"
    unfolding unarchiveUser_def using inv by (intro account_attempt account_then_do write_user_inv) (auto simp: kinds)
  have "account_inv cfg (touchLastSeen a b uid' w)" for a b uid'
    unfolding touchLastSeen_def using inv by (rule write_users_inv) (auto simp: kinds)
  then show "account_inv cfg (snd (validateJwt e payload w))"
    unfolding validateJwt_def using inv by (intro account_attempt) (auto split: option.split)
qed

lemma update_profile_inv:
  assumes inv: "account_inv cfg w"
  shows "account_inv cfg (snd (updateProfile cfg actor uid nm email w))"
proof -
  have "account_inv cfg (w\<lparr>users := us\<rparr>)"
    if "unique_users cfg (update_where (\<lambda>r. u_id r = uid) (\<lambda>u. u\<lparr>u_name := g u, u_email := h u\<rparr>) (users w)) = Inr us" for us g h
  proof (rule account_inv_users [OF inv])
    let ?us = "update_where (\<lambda>r. u_id r = uid) (\<lambda>u. u\<lparr>u_name := g u, u_email := h u\<rparr>) (users w)"
    have us: "us = ?us" using that by (simp add: unique_users_Inr)
    show "users_ok cfg us" using that account_kinds [OF inv] by (auto simp: unique_users_Inr users_ok_def in_update_where)
    show "u_id ` set (users w) \<subseteq> u_id ` set us"
      unfolding us list.set_map [symmetric] by (subst ids_update) simp_all
    show "internal_ids (users w) \<subseteq> internal_ids us" unfolding us by (rule internal_ids_update) simp
  qed
  then show ?thesis
    unfolding updateProfile_def Let_def using inv by (intro account_attempt) (auto intro!: account_attempt)
qed

lemma change_role_inv:
  assumes inv: "account_inv cfg w"
  shows "account_inv cfg (snd (changeRole cfg' actor uid role w))"
proof -
  have one: "u = v" if "u \<in> set (users w)" "v \<in> set (users w)" "u_id u = u_id v" for u v
    using inv that by (metis account_inv_def users_ok_def distinct_map inj_onD)
  have kind: "u_kind u \<noteq> UClient" if "find_user w (u_id u) = Some t" "u_kind t \<noteq> UClient" "u \<in> set (users w)" for t u
    using find_userD [OF that(1)] one [of t u] that by auto
  show ?thesis
    unfolding changeRole_def Let_def using inv
    by (intro account_attempt account_then_do write_user_inv) (auto dest: kind)
qed

lemma demote_inv:
  assumes inv: "account_inv cfg w"
  shows "account_inv cfg (snd (write_user uid (\<lambda>u. u\<lparr>u_kind := UClient, u_companyRole := None\<rparr>) (leave_teams uid w)))"
proof -
  let ?f = "\<lambda>u. u\<lparr>u_kind := UClient, u_companyRole := None\<rparr>"
  let ?us = "update_where (\<lambda>r. u_id r = uid) ?f (users w)"
  have ids: "u_id ` set ?us = u_id ` set (users w)" unfolding list.set_map [symmetric] by (subst ids_update) simp_all
  have keep: "internal_ids (users w) - {uid} \<subseteq> internal_ids ?us"
  proof
    fix i assume "i \<in> internal_ids (users w) - {uid}"
    then obtain u where u: "u \<in> set (users w)" "u_kind u = UInternal" "i = u_id u" "u_id u \<noteq> uid"
      by (auto simp: internal_ids_def)
    then have "u \<in> set ?us" by (auto simp: in_update_where)
    with u show "i \<in> internal_ids ?us" by (auto simp: internal_ids_def)
  qed
  have u1: "users_ok cfg ?us" using inv account_kinds [OF inv]
    by (intro users_ok_update) (simp_all add: account_inv_def)
  have t1: "teams_ok (internal_ids (users w) - {uid}) (teams w) (delete_where (\<lambda>m. tm_userId m = uid) (teamMembers w))"
    using inv by (auto simp: account_inv_def teams_ok_def intro: distinct_delete_where)
  have "account_inv cfg (leave_teams uid w\<lparr>users := ?us\<rparr>)"
    using inv ids u1 teams_ok_mono [OF t1 keep] by (simp add: account_inv_def leave_teams_def)
  moreover have "account_inv cfg (leave_teams uid w)"
    using inv teams_ok_mono [OF t1] by (simp add: account_inv_def leave_teams_def)
  ultimately show ?thesis by (simp add: write_user_def leave_teams_def split: option.split)
qed

lemma change_kind_inv: "account_inv cfg w \<Longrightarrow> account_inv cfg (snd (changeKind cfg' actor uid kind w))"
  unfolding changeKind_def
  by (intro account_attempt) (auto intro!: account_attempt account_then_do demote_inv write_user_inv)

lemma leave_inv: "account_inv cfg w \<Longrightarrow> account_inv cfg (leave_teams uid w)"
  by (auto simp: account_inv_def leave_teams_def teams_ok_def intro: distinct_delete_where)

lemma fold_members_ok:
  "teams_ok A ts ms \<Longrightarrow> set ids \<subseteq> te_id ` set ts \<Longrightarrow> uid \<in> A \<or> ids = [] \<Longrightarrow>
     teams_ok A ts (fold (insert_absent membership_key) (map (\<lambda>t. \<lparr>tm_teamId = t, tm_userId = uid\<rparr>) ids) ms)"
  by (induction ids arbitrary: ms) (auto intro: insert_member_ok)

lemma count_distinct_keys:
  assumes "distinct (map k rows)" and "distinct ids" and "length (filter (\<lambda>r. k r \<in> set ids) rows) = length ids"
  shows "set ids \<subseteq> k ` set rows"
proof -
  let ?ks = "map k (filter (\<lambda>r. k r \<in> set ids) rows)"
  have "distinct ?ks" using assms(1) by (rule distinct_map_filter)
  moreover have "set ?ks \<subseteq> set ids" by auto
  moreover have "card (set ?ks) = card (set ids)"
    using \<open>distinct ?ks\<close> assms(2,3) by (metis distinct_card length_map)
  ultimately have "set ?ks = set ids" by (metis card_subset_eq List.finite_set)
  then show ?thesis by auto
qed

lemma find_user_internal:
  "find_user w uid = Some u \<Longrightarrow> u_kind u \<noteq> UClient \<Longrightarrow> uid \<in> internal_ids (users w)"
  by (cases "u_kind u") (auto simp: internal_ids_def dest: find_userD)

lemma set_teams_inv:
  assumes inv: "account_inv cfg w"
  shows "account_inv cfg (snd (setTeams actor uid ids w))"
proof -
  have "account_inv cfg (leave_teams uid w\<lparr>teamMembers := fold (insert_absent membership_key)
      (map (\<lambda>t. \<lparr>tm_teamId = t, tm_userId = uid\<rparr>) (uniq ids)) (teamMembers (leave_teams uid w))\<rparr>)"
    if u: "find_user w uid = Some u" "\<not> (u_kind u = UClient \<and> ids \<noteq> [])"
      and n: "length (filter (\<lambda>t. te_id t \<in> set (uniq ids)) (teams w)) = length (uniq ids)" for u
  proof -
    have l: "account_inv cfg (leave_teams uid w)" by (rule leave_inv [OF inv])
    have "set (uniq ids) \<subseteq> te_id ` set (teams w)"
      using inv n by (intro count_distinct_keys) (simp_all add: account_inv_def teams_ok_def)
    moreover have "uid \<in> internal_ids (users w) \<or> uniq ids = []"
      using u find_user_internal [OF u(1)] by (auto simp: uniq_def)
    ultimately show ?thesis
      using l fold_members_ok [of "internal_ids (users w)" "teams w" "teamMembers (leave_teams uid w)" "uniq ids" uid]
      by (simp add: account_inv_def leave_teams_def)
  qed
  then show ?thesis
    unfolding setTeams_def Let_def using inv by (intro account_attempt) auto
qed

lemma team_inv:
  assumes inv: "account_inv cfg w"
  shows "account_inv cfg (snd (createTeam e actor slug label descr w))"
    and "account_inv cfg (snd (updateTeam actor tid label' descr' w))"
    and "account_inv cfg (snd (deleteTeam actor tid w))"
    and "account_inv cfg (snd (removeMember actor tid uid w))"
proof -
  have t: "teams_ok (internal_ids (users w)) (teams w) (teamMembers w)" using inv by (simp add: account_inv_def)
  have put: "account_inv cfg (w\<lparr>teams := ts\<rparr>)" if "teams_ok (internal_ids (users w)) ts (teamMembers w)" for ts
    using inv that by (simp add: account_inv_def)
  have "teams_ok (internal_ids (users w)) ts (teamMembers w)"
    if "ts = teams w @ [r]" "distinct (map te_id ts)" "distinct (map te_slug ts)" for ts r
    using t that by (auto simp: teams_ok_def)
  then show "account_inv cfg (snd (createTeam e actor slug label descr w))"
    unfolding createTeam_def Let_def using inv
    by (intro account_attempt) (auto intro!: put simp del: map_append)
  have "teams_ok (internal_ids (users w)) (update_where (\<lambda>t. te_id t = tid) (\<lambda>t. t\<lparr>te_name := f t, te_description := g t\<rparr>) (teams w)) (teamMembers w)" for f g
  proof -
    let ?ts = "update_where (\<lambda>t. te_id t = tid) (\<lambda>t. t\<lparr>te_name := f t, te_description := g t\<rparr>) (teams w)"
    have "map te_id ?ts = map te_id (teams w)" "map te_slug ?ts = map te_slug (teams w)"
      by (rule map_update_where, simp)+
    moreover from this(1) have "te_id ` set ?ts = te_id ` set (teams w)" by (metis list.set_map)
    ultimately show ?thesis using t by (simp add: teams_ok_def)
  qed
  then show "account_inv cfg (snd (updateTeam actor tid label' descr' w))"
    unfolding updateTeam_def Let_def using inv by (intro account_attempt) (auto intro!: put)
  have "teams_ok (internal_ids (users w)) (delete_where (\<lambda>t. te_id t = tid) (teams w)) (delete_where (\<lambda>m. tm_teamId m = tid) (teamMembers w))"
    using t by (auto simp: teams_ok_def intro: distinct_delete_where)
  then show "account_inv cfg (snd (deleteTeam actor tid w))"
    unfolding deleteTeam_def using inv by (intro account_attempt) (auto simp: account_inv_def)
  have "teams_ok (internal_ids (users w)) (teams w) (delete_where P (teamMembers w))" for P
    using t by (auto simp: teams_ok_def intro: distinct_delete_where)
  then show "account_inv cfg (snd (removeMember actor tid uid w))"
    unfolding removeMember_def using inv by (intro account_attempt) (auto simp: account_inv_def)
qed

lemma add_member_inv:
  assumes inv: "account_inv cfg w" and ok: "\<forall>u \<in> set (users w). u_id u = uid \<longrightarrow> u_kind u = UInternal"
  shows "account_inv cfg (snd (addMember actor tid uid w))"
proof -
  have "teams_ok (internal_ids (users w)) (teams w) (insert_absent membership_key \<lparr>tm_teamId = tid, tm_userId = uid\<rparr> (teamMembers w))"
    if "tid \<in> te_id ` set (teams w)" "uid \<in> u_id ` set (users w)"
    using inv ok that by (intro insert_member_ok) (auto simp: account_inv_def internal_ids_def)
  then show ?thesis
    unfolding addMember_def using inv by (intro account_attempt) (auto simp: account_inv_def)
qed

subsection \<open>Invitations\<close>

lemma guest_row_kind: "u_kind (guest_row e email nm) = UClient \<longleftrightarrow> u_companyRole (guest_row e email nm) = None"
  by (simp add: guest_row_def)

lemma invite_guest_inv: "account_inv cfg w \<Longrightarrow> account_inv cfg (snd (inviteGuest cfg e actor address given w))"
  unfolding inviteGuest_def Let_def
  by (intro account_attempt account_then_do upsert_inv request_inv) (simp_all add: guest_row_kind)

lemma upsert_access_inv: "account_inv cfg w \<Longrightarrow> account_inv cfg (snd (upsert_access newId pid uid role grantor w))"
  unfolding upsert_access_def Let_def by (cases "List.find (\<lambda>g. a_projectId g = pid \<and> a_userId g = Some uid) (accessGrants w)")
    (auto intro!: account_attempt)

lemma grant_guest_inv: "account_inv cfg w \<Longrightarrow> account_inv cfg (snd (grant_guest cfg e actor pid email nm role w))"
  unfolding grant_guest_def
  by (intro account_then_do upsert_inv upsert_access_inv) (simp_all add: guest_row_kind)

lemma send_invitation_inv:
  "account_inv cfg w \<Longrightarrow> account_inv cfg (snd (send_invitation cfg' e actor p a email nm role granted w))"
  by (cases granted) (auto simp: send_invitation_def intro!: account_then_do invite_inv)

lemma invite_project_inv:
  "account_inv cfg w \<Longrightarrow> account_inv cfg (snd (inviteProjectGuest cfg e actor pid address given role w))"
  unfolding inviteProjectGuest_def Let_def
  by (intro account_attempt account_then_do account_atomically grant_guest_inv send_invitation_inv) simp_all

lemma pending_inv:
  assumes inv: "account_inv cfg w"
  shows "account_inv cfg (snd (resendPendingInvite cfg' e actor lid w))"
    and "account_inv cfg (snd (revokePendingInvite cfg' e actor lid w))"
proof -
  show "account_inv cfg (snd (resendPendingInvite cfg' e actor lid w))"
    unfolding resendPendingInvite_def Let_def using inv
    by (intro account_attempt account_then_do invite_inv) simp_all
  have "account_inv cfg (w\<lparr>magicLinks := update_where P (\<lambda>l. l\<lparr>ml_expiresAt := x\<rparr>) (magicLinks w)\<rparr>)" for P x
    using inv by (auto intro!: links_inv links_ok_update simp: account_inv_def)
  then show "account_inv cfg (snd (revokePendingInvite cfg' e actor lid w))"
    unfolding revokePendingInvite_def Let_def using inv
    by (intro account_attempt) (auto split: option.split)
qed

section \<open>Sequences of operations\<close>

datatype account_op =
    OpGoogle auth_env google_profile "string option"
  | OpRequestLink auth_env string "string option"
  | OpVerifyLink auth_env string string "string option"
  | OpRefresh auth_env string "string option" "string option"
  | OpLogout auth_env string "string option" "string option" "string option"
  | OpDevLogin auth_env string
  | OpIssueFor auth_env string "string option" "string option"
  | OpDevLoginByEmail auth_env string "string option"
  | OpDevPersona auth_env persona "string option"
  | OpRevokeSession auth_env string string "string option" "string option"
  | OpRevokeOthers auth_env string "string option" "string option" "string option"
  | OpRequest auth_env jwt_payload
  | OpInviteGuest auth_env auth_user string "string option"
  | OpInviteToProject auth_env auth_user string string "string option" project_role
  | OpResendInvite auth_env auth_user string
  | OpRevokeInvite auth_env auth_user string
  | OpMyProfile auth_user "string option" "string option option"
  | OpMyPreferences auth_user "jsnum option option" "bool option"
  | OpProfile auth_user string "string option" "string option"
  | OpRole auth_user string company_role
  | OpKind auth_user string user_kind
  | OpArchive auth_env auth_user string
  | OpUnarchive auth_user string
  | OpSetTeams auth_user string "string list"
  | OpCreateTeam auth_env auth_user string string "string option"
  | OpUpdateTeam auth_user string "string option" "string option"
  | OpDeleteTeam auth_user string
  | OpAddMember auth_user string string
  | OpRemoveMember auth_user string string

fun exec_account :: "auth_config \<Rightarrow> account_op \<Rightarrow> world \<Rightarrow> world" where
  "exec_account cfg (OpGoogle e pr ip) w = snd (loginWithGoogle cfg e pr ip w)"
| "exec_account cfg (OpRequestLink e em ip) w = snd (requestMagicLink cfg e 0 0 em ip w)"
| "exec_account cfg (OpVerifyLink e em raw ip) w = snd (verifyMagicLink cfg e em raw ip w)"
| "exec_account cfg (OpRefresh e raw ip ua) w = snd (refresh cfg e raw ip ua w)"
| "exec_account cfg (OpLogout e jti raw who ip) w = snd (logout cfg e jti raw who ip w)"
| "exec_account cfg (OpDevLogin e who) w = snd (devLoginFor cfg e who w)"
| "exec_account cfg (OpIssueFor e who ip ua) w = snd (issueTokensForUser cfg e who ip ua w)"
| "exec_account cfg (OpDevLoginByEmail e em ip) w = snd (devLoginByEmail cfg e em ip w)"
| "exec_account cfg (OpDevPersona e p ip) w = snd (devLoginAsPersona cfg e p ip w)"
| "exec_account cfg (OpRevokeSession e who sid ip ua) w = snd (revokeSession e who sid ip ua w)"
| "exec_account cfg (OpRevokeOthers e who raw ip ua) w = snd (revokeOthers cfg e who raw ip ua w)"
| "exec_account cfg (OpRequest e payload) w = snd (validateJwt e payload w)"
| "exec_account cfg (OpInviteGuest e actor em nm) w = snd (inviteGuest cfg e actor em nm w)"
| "exec_account cfg (OpInviteToProject e actor pid em nm role) w = snd (inviteProjectGuest cfg e actor pid em nm role w)"
| "exec_account cfg (OpResendInvite e actor lid) w = snd (resendPendingInvite cfg e actor lid w)"
| "exec_account cfg (OpRevokeInvite e actor lid) w = snd (revokePendingInvite cfg e actor lid w)"
| "exec_account cfg (OpMyProfile actor nm url) w = snd (updateMyProfile actor nm url w)"
| "exec_account cfg (OpMyPreferences actor h p) w = snd (updateMyPreferences actor h p w)"
| "exec_account cfg (OpProfile actor who nm em) w = snd (updateProfile cfg actor who nm em w)"
| "exec_account cfg (OpRole actor who role) w = snd (changeRole cfg actor who role w)"
| "exec_account cfg (OpKind actor who kind) w = snd (changeKind cfg actor who kind w)"
| "exec_account cfg (OpArchive e actor who) w = snd (archiveUser e actor who w)"
| "exec_account cfg (OpUnarchive actor who) w = snd (unarchiveUser actor who w)"
| "exec_account cfg (OpSetTeams actor who ids) w = snd (setTeams actor who ids w)"
| "exec_account cfg (OpCreateTeam e actor slug nm d) w = snd (createTeam (env.truncate e) actor slug nm d w)"
| "exec_account cfg (OpUpdateTeam actor tid nm d) w = snd (updateTeam actor tid nm d w)"
| "exec_account cfg (OpDeleteTeam actor tid) w = snd (deleteTeam actor tid w)"
| "exec_account cfg (OpAddMember actor tid who) w = snd (addMember actor tid who w)"
| "exec_account cfg (OpRemoveMember actor tid who) w = snd (removeMember actor tid who w)"

text \<open>Two operations can put a client into a team: they are allowed for internal users only.\<close>

fun account_ok :: "auth_config \<Rightarrow> account_op \<Rightarrow> world \<Rightarrow> bool" where
  "account_ok cfg (OpAddMember actor tid who) w \<longleftrightarrow> (\<forall>u \<in> set (users w). u_id u = who \<longrightarrow> u_kind u = UInternal)"
| "account_ok cfg (OpDevPersona e p ip) w \<longleftrightarrow> persona_fits cfg p w"
| "account_ok cfg _ w \<longleftrightarrow> True"

lemmas account_operation_inv = google_inv request_inv verify_inv refresh_inv session_inv dev_login_inv persona_inv
  profile_inv invite_guest_inv invite_project_inv pending_inv update_profile_inv change_role_inv change_kind_inv
  set_teams_inv team_inv add_member_inv

interpretation accounts: operation_system "account_inv cfg" "account_ok cfg" "exec_account cfg" for cfg
  by unfold_locales (rename_tac w op, case_tac op; simp add: account_operation_inv)

end
