(* ===== verification/Interleaving.thy ===== *)
theory Interleaving
  imports Prelude
begin

text \<open>
  Requests that run at the same time: each does one database statement (or one transaction) at a
  time, and other operations run in between. The interface \<open>single_use\<close> states what a table of
  secrets must promise so that of all requests that present the same secret at most one gets past
  the statement that claims its row, however the statements interleave.
\<close>

inductive interleaved :: "('q \<Rightarrow> 'w \<Rightarrow> 'q \<times> 'w) \<Rightarrow> ('o \<Rightarrow> 'w \<Rightarrow> 'w) \<Rightarrow> 'q list \<times> 'w \<Rightarrow> 'q list \<times> 'w \<Rightarrow> bool"
  for serve :: "'q \<Rightarrow> 'w \<Rightarrow> 'q \<times> 'w" and other :: "'o \<Rightarrow> 'w \<Rightarrow> 'w" where
  request: "i < length qs \<Longrightarrow> serve (qs ! i) w = (q', w') \<Longrightarrow> interleaved serve other (qs, w) (qs[i := q'], w')"
| between: "interleaved serve other (qs, w) (qs, other op w)"

inductive_cases interleavedE: "interleaved serve other (qs, w) (qs', w')"

locale single_use =
  fixes ok :: "'w \<Rightarrow> bool" and advance :: "'w \<Rightarrow> 'w \<Rightarrow> bool"
    and used :: "'w \<Rightarrow> 'k \<Rightarrow> bool" and key_of :: "'w \<Rightarrow> 's \<Rightarrow> 'k option"
    and serve :: "'q \<Rightarrow> 'w \<Rightarrow> 'q \<times> 'w" and other :: "'o \<Rightarrow> 'w \<Rightarrow> 'w"
    and secret :: "'q \<Rightarrow> 's" and held :: "'q \<Rightarrow> 'k option" and past :: "'q \<Rightarrow> bool"
  assumes advance_ok: "ok w \<Longrightarrow> advance w w' \<Longrightarrow> ok w'"
    and advance_used: "ok w \<Longrightarrow> advance w w' \<Longrightarrow> used w k \<Longrightarrow> used w' k"
    and advance_key: "ok w \<Longrightarrow> advance w w' \<Longrightarrow> key_of w s = Some k \<Longrightarrow> key_of w' s = Some k"
    and other_advance: "ok w \<Longrightarrow> advance w (other op w)"
    and serve_advance: "ok w \<Longrightarrow> serve q w = (q', w') \<Longrightarrow> advance w w'"
    and serve_secret: "serve q w = (q', w') \<Longrightarrow> secret q' = secret q"
    and serve_held: "ok w \<Longrightarrow> serve q w = (q', w') \<Longrightarrow> held q' = Some k \<Longrightarrow>
          held q = Some k \<or> key_of w (secret q) = Some k"
    and serve_past: "ok w \<Longrightarrow> serve q w = (q', w') \<Longrightarrow> past q \<Longrightarrow> past q' \<Longrightarrow> held q' = held q"
    and serve_claims: "ok w \<Longrightarrow> serve q w = (q', w') \<Longrightarrow> \<not> past q \<Longrightarrow> past q' \<Longrightarrow>
          \<exists>k. held q' = Some k \<and> \<not> used w k \<and> used w' k"
begin

definition consistent :: "'q list \<times> 'w \<Rightarrow> bool" where
  "consistent c \<longleftrightarrow> (case c of (qs, w) \<Rightarrow> ok w \<and>
     (\<forall>i < length qs. \<forall>k. held (qs ! i) = Some k \<longrightarrow> key_of w (secret (qs ! i)) = Some k) \<and>
     (\<forall>i < length qs. past (qs ! i) \<longrightarrow> (\<exists>k. held (qs ! i) = Some k \<and> used w k)) \<and>
     (\<forall>i < length qs. \<forall>j < length qs. i \<noteq> j \<longrightarrow> past (qs ! i) \<longrightarrow> past (qs ! j) \<longrightarrow> held (qs ! i) \<noteq> held (qs ! j)))"

lemma consistent_between: "consistent (qs, w) \<Longrightarrow> consistent (qs, other op w)"
  unfolding consistent_def using other_advance advance_ok advance_used advance_key by (simp; metis)

lemma consistent_request:
  assumes c: "consistent (qs, w)" and i: "i < length qs" and s: "serve (qs ! i) w = (q', w')"
  shows "consistent (qs[i := q'], w')"
proof -
  have ok: "ok w" using c by (simp add: consistent_def)
  have adv: "advance w w'" using serve_advance [OF ok s] .
  have ok': "ok w'" using advance_ok [OF ok adv] .
  have held_old: "held (qs ! j) = Some k \<Longrightarrow> key_of w (secret (qs ! j)) = Some k" if "j < length qs" for j k
    using c that by (simp add: consistent_def)
  have used_old: "past (qs ! j) \<Longrightarrow> \<exists>k. held (qs ! j) = Some k \<and> used w k" if "j < length qs" for j
    using c that by (simp add: consistent_def)
  have apart: "held (qs ! j) \<noteq> held (qs ! l)" if "j < length qs" "l < length qs" "j \<noteq> l" "past (qs ! j)" "past (qs ! l)" for j l
    using c that by (simp add: consistent_def)
  have past': "\<exists>k. held q' = Some k \<and> used w' k \<and> (\<forall>j < length qs. j \<noteq> i \<longrightarrow> past (qs ! j) \<longrightarrow> held (qs ! j) \<noteq> Some k)"
    if p: "past q'"
  proof (cases "past (qs ! i)")
    case True
    then obtain k where k: "held (qs ! i) = Some k" "used w k" using used_old [OF i] by blast
    moreover have "held q' = Some k" using serve_past [OF ok s True p] k by simp
    moreover have "\<forall>j < length qs. j \<noteq> i \<longrightarrow> past (qs ! j) \<longrightarrow> held (qs ! j) \<noteq> Some k"
      using apart [OF _ i _ _ True] k(1) by auto
    ultimately show ?thesis using advance_used [OF ok adv] by blast
  next
    case False
    then obtain k where k: "held q' = Some k" "\<not> used w k" "used w' k" using serve_claims [OF ok s] p by blast
    have "held (qs ! j) \<noteq> Some k" if "j < length qs" "past (qs ! j)" for j
      using used_old [OF that] k(2) by auto
    with k show ?thesis by blast
  qed
  have key': "held q' = Some k \<Longrightarrow> key_of w' (secret q') = Some k" for k
    using serve_held [OF ok s] held_old [OF i] advance_key [OF ok adv] serve_secret [OF s] by auto
  have key_old: "held (qs ! j) = Some k \<Longrightarrow> key_of w' (secret (qs ! j)) = Some k" if "j < length qs" for j k
    using held_old that advance_key [OF ok adv] by blast
  have used': "past (qs ! j) \<Longrightarrow> \<exists>k. held (qs ! j) = Some k \<and> used w' k" if "j < length qs" for j
    using used_old [OF that] advance_used [OF ok adv] by blast
  have new: "(qs[i := q']) ! j = (if j = i then q' else qs ! j)" for j using i by simp
  show ?thesis
    unfolding consistent_def prod.case length_list_update new
  proof (intro conjI allI impI)
    show "ok w'" by (rule ok')
    show "key_of w' (secret (if j = i then q' else qs ! j)) = Some k"
      if "j < length qs" "held (if j = i then q' else qs ! j) = Some k" for j k
      using that key' key_old by (simp split: if_splits)
    show "\<exists>k. held (if j = i then q' else qs ! j) = Some k \<and> used w' k"
      if "j < length qs" "past (if j = i then q' else qs ! j)" for j
      using that past' used' by (cases "j = i") (simp, blast, simp)
    show "held (if j = i then q' else qs ! j) \<noteq> held (if l = i then q' else qs ! l)"
      if "j < length qs" "l < length qs" "j \<noteq> l" "past (if j = i then q' else qs ! j)" "past (if l = i then q' else qs ! l)" for j l
    proof (cases "j = i \<or> l = i")
      case True
      with that(4,5) have "past q'" by (auto split: if_splits)
      then obtain k where k: "held q' = Some k" "\<forall>j < length qs. j \<noteq> i \<longrightarrow> past (qs ! j) \<longrightarrow> held (qs ! j) \<noteq> Some k"
        using past' by blast
      show ?thesis using True that k by (metis (full_types))
    next
      case False
      with apart that show ?thesis by simp
    qed
  qed
qed

lemma consistent_run: "(interleaved serve other)\<^sup>*\<^sup>* c c' \<Longrightarrow> consistent c \<Longrightarrow> consistent c'"
proof (induction rule: rtranclp_induct)
  case (step y z)
  obtain qs w where y: "y = (qs, w)" by (cases y)
  obtain qs' w' where z: "z = (qs', w')" by (cases z)
  have c: "consistent (qs, w)" using step y by simp
  show ?case
    using step.hyps(2) unfolding y z
    by (rule interleavedE) (use c consistent_request consistent_between in auto)
qed

lemma at_most_one_past:
  assumes run: "(interleaved serve other)\<^sup>*\<^sup>* (qs, w) (qs', w')" and ok: "ok w"
    and fresh: "\<forall>q \<in> set qs. held q = None \<and> \<not> past q"
    and ij: "i < length qs'" "j < length qs'" "past (qs' ! i)" "past (qs' ! j)" and same: "secret (qs' ! i) = secret (qs' ! j)"
  shows "i = j"
proof -
  have "consistent (qs, w)" using ok fresh by (auto simp: consistent_def)
  then have c: "consistent (qs', w')" by (rule consistent_run [OF run])
  have "past (qs' ! n) \<Longrightarrow> n < length qs' \<Longrightarrow> \<exists>k. held (qs' ! n) = Some k" for n
    using c by (auto simp: consistent_def)
  then obtain k l where k: "held (qs' ! i) = Some k" and l: "held (qs' ! j) = Some l"
    using ij(1-4) by blast
  have "key_of w' (secret (qs' ! i)) = Some k" "key_of w' (secret (qs' ! j)) = Some l"
    using c ij(1,2) k l by (simp_all add: consistent_def)
  with same k l have "held (qs' ! i) = held (qs' ! j)" by simp
  moreover have "i \<noteq> j \<longrightarrow> held (qs' ! i) \<noteq> held (qs' ! j)" using c ij by (simp add: consistent_def)
  ultimately show ?thesis by blast
qed

end

end
