(* ===== verification/SignInLaws.thy ===== *)
theory SignInLaws
  imports AccountLaws Interleaving
begin

text \<open>
  The secrets of a sign-in over time: a refresh token and a mailed link are never un-revoked and
  never change hands, whatever operation runs, so each works at most once even when several
  requests present it together.
\<close>

section \<open>Secrets are kept\<close>

definition tokens_kept :: "refresh_row list \<Rightarrow> refresh_row list \<Rightarrow> bool" where
  "tokens_kept ts ts' \<longleftrightarrow> (distinct (map rt_id ts) \<longrightarrow> distinct (map rt_id ts')) \<and>
     (distinct (map rt_tokenHash ts) \<longrightarrow> distinct (map rt_tokenHash ts')) \<and>
     (\<forall>r \<in> set ts. \<exists>r' \<in> set ts'. rt_id r' = rt_id r \<and> rt_tokenHash r' = rt_tokenHash r \<and> rt_userId r' = rt_userId r \<and>
        (rt_revokedAt r \<noteq> None \<longrightarrow> rt_revokedAt r' \<noteq> None))"

definition links_kept :: "magic_row list \<Rightarrow> magic_row list \<Rightarrow> bool" where
  "links_kept ls ls' \<longleftrightarrow> (distinct (map ml_id ls) \<longrightarrow> distinct (map ml_id ls')) \<and>
     (distinct (map ml_tokenHash ls) \<longrightarrow> distinct (map ml_tokenHash ls')) \<and>
     (\<forall>l \<in> set ls. \<exists>l' \<in> set ls'. ml_id l' = ml_id l \<and> ml_tokenHash l' = ml_tokenHash l \<and> ml_email l' = ml_email l \<and>
        (ml_usedAt l \<noteq> None \<longrightarrow> ml_usedAt l' \<noteq> None))"

definition secrets_kept :: "world \<Rightarrow> world \<Rightarrow> bool" where
  "secrets_kept w w' \<longleftrightarrow> tokens_kept (refreshTokens w) (refreshTokens w') \<and> links_kept (magicLinks w) (magicLinks w')"

lemma tokens_kept_refl [simp]: "tokens_kept ts ts"
  unfolding tokens_kept_def by blast

lemma links_kept_refl [simp]: "links_kept ls ls"
  unfolding links_kept_def by blast

lemma tokens_kept_trans: "tokens_kept a b \<Longrightarrow> tokens_kept b c \<Longrightarrow> tokens_kept a c"
proof -
  assume ab: "tokens_kept a b" and bc: "tokens_kept b c"
  have "\<exists>r' \<in> set c. rt_id r' = rt_id r \<and> rt_tokenHash r' = rt_tokenHash r \<and> rt_userId r' = rt_userId r \<and>
      (rt_revokedAt r \<noteq> None \<longrightarrow> rt_revokedAt r' \<noteq> None)" if "r \<in> set a" for r
  proof -
    from ab that obtain x where x: "x \<in> set b" "rt_id x = rt_id r" "rt_tokenHash x = rt_tokenHash r"
      "rt_userId x = rt_userId r" "rt_revokedAt r \<noteq> None \<longrightarrow> rt_revokedAt x \<noteq> None"
      unfolding tokens_kept_def by blast
    from bc x(1) obtain y where "y \<in> set c" "rt_id y = rt_id x" "rt_tokenHash y = rt_tokenHash x"
      "rt_userId y = rt_userId x" "rt_revokedAt x \<noteq> None \<longrightarrow> rt_revokedAt y \<noteq> None"
      unfolding tokens_kept_def by blast
    with x show ?thesis by auto
  qed
  with ab bc show ?thesis by (simp only: tokens_kept_def) blast
qed

lemma links_kept_trans: "links_kept a b \<Longrightarrow> links_kept b c \<Longrightarrow> links_kept a c"
proof -
  assume ab: "links_kept a b" and bc: "links_kept b c"
  have "\<exists>l' \<in> set c. ml_id l' = ml_id l \<and> ml_tokenHash l' = ml_tokenHash l \<and> ml_email l' = ml_email l \<and>
      (ml_usedAt l \<noteq> None \<longrightarrow> ml_usedAt l' \<noteq> None)" if "l \<in> set a" for l
  proof -
    from ab that obtain x where x: "x \<in> set b" "ml_id x = ml_id l" "ml_tokenHash x = ml_tokenHash l"
      "ml_email x = ml_email l" "ml_usedAt l \<noteq> None \<longrightarrow> ml_usedAt x \<noteq> None"
      unfolding links_kept_def by blast
    from bc x(1) obtain y where "y \<in> set c" "ml_id y = ml_id x" "ml_tokenHash y = ml_tokenHash x"
      "ml_email y = ml_email x" "ml_usedAt x \<noteq> None \<longrightarrow> ml_usedAt y \<noteq> None"
      unfolding links_kept_def by blast
    with x show ?thesis by auto
  qed
  with ab bc show ?thesis by (simp only: links_kept_def) blast
qed

lemma secrets_kept_refl [simp]: "secrets_kept w w"
  by (simp add: secrets_kept_def)

lemma tokens_kept_update:
  assumes "\<And>r. rt_id (f r) = rt_id r \<and> rt_tokenHash (f r) = rt_tokenHash r \<and> rt_userId (f r) = rt_userId r \<and>
     (rt_revokedAt r \<noteq> None \<longrightarrow> rt_revokedAt (f r) \<noteq> None)"
  shows "tokens_kept ts (update_where P f ts)"
proof -
  have "map rt_id (update_where P f ts) = map rt_id ts" "map rt_tokenHash (update_where P f ts) = map rt_tokenHash ts"
    using assms by (auto intro: map_update_where)
  moreover have "\<exists>r' \<in> set (update_where P f ts). rt_id r' = rt_id r \<and> rt_tokenHash r' = rt_tokenHash r \<and>
      rt_userId r' = rt_userId r \<and> (rt_revokedAt r \<noteq> None \<longrightarrow> rt_revokedAt r' \<noteq> None)" if "r \<in> set ts" for r
    using assms that by (intro bexI [of _ "if P r then f r else r"]) (auto simp: set_update_where)
  ultimately show ?thesis by (simp only: tokens_kept_def) blast
qed

lemma links_kept_update:
  assumes "\<And>l. ml_id (f l) = ml_id l \<and> ml_tokenHash (f l) = ml_tokenHash l \<and> ml_email (f l) = ml_email l \<and>
     (ml_usedAt l \<noteq> None \<longrightarrow> ml_usedAt (f l) \<noteq> None)"
  shows "links_kept ls (update_where P f ls)"
proof -
  have "map ml_id (update_where P f ls) = map ml_id ls" "map ml_tokenHash (update_where P f ls) = map ml_tokenHash ls"
    using assms by (auto intro: map_update_where)
  moreover have "\<exists>l' \<in> set (update_where P f ls). ml_id l' = ml_id l \<and> ml_tokenHash l' = ml_tokenHash l \<and>
      ml_email l' = ml_email l \<and> (ml_usedAt l \<noteq> None \<longrightarrow> ml_usedAt l' \<noteq> None)" if "l \<in> set ls" for l
    using assms that by (intro bexI [of _ "if P l then f l else l"]) (auto simp: set_update_where)
  ultimately show ?thesis by (simp only: links_kept_def) blast
qed

lemma kept_frame:
  "secrets_kept w0 w \<Longrightarrow> refreshTokens w' = refreshTokens w \<Longrightarrow> magicLinks w' = magicLinks w \<Longrightarrow> secrets_kept w0 w'"
  by (simp add: secrets_kept_def)

lemma kept_tokens:
  "secrets_kept w0 w \<Longrightarrow> tokens_kept (refreshTokens w) ts \<Longrightarrow> secrets_kept w0 (w\<lparr>refreshTokens := ts\<rparr>)"
  using tokens_kept_trans by (auto simp: secrets_kept_def)

lemma kept_links:
  "secrets_kept w0 w \<Longrightarrow> links_kept (magicLinks w) ls \<Longrightarrow> secrets_kept w0 (w\<lparr>magicLinks := ls\<rparr>)"
  using links_kept_trans by (auto simp: secrets_kept_def)

lemma kept_simps [simp]:
  "secrets_kept w0 (emit ev w) = secrets_kept w0 w"
  "secrets_kept w0 (record_audit uid act ip ua md now w) = secrets_kept w0 w"
  "secrets_kept w0 (w\<lparr>users := us\<rparr>) = secrets_kept w0 w"
  "secrets_kept w0 (w\<lparr>teams := tms\<rparr>) = secrets_kept w0 w"
  "secrets_kept w0 (w\<lparr>teamMembers := ms\<rparr>) = secrets_kept w0 w"
  "secrets_kept w0 (w\<lparr>accessGrants := gs\<rparr>) = secrets_kept w0 w"
  "secrets_kept w0 (w\<lparr>mentions := mns\<rparr>) = secrets_kept w0 w"
  "secrets_kept w0 (w\<lparr>dashboardAccess := das\<rparr>) = secrets_kept w0 w"
  "secrets_kept w0 (w\<lparr>outbox := bs\<rparr>) = secrets_kept w0 w"
  "secrets_kept w0 (w\<lparr>revokedJtis := js\<rparr>) = secrets_kept w0 w"
  by (simp_all add: secrets_kept_def record_audit_def)

lemmas kept_attempt = attempt_inv [where P = "secrets_kept w0" for w0]

lemmas kept_then_do = then_do_inv [where P = "secrets_kept w0" for w0]

lemmas kept_atomically = atomically_inv [where P = "secrets_kept w0" for w0]

subsection \<open>By the steps of a sign-in\<close>

lemma tokens_kept_append:
  "distinct (map rt_id (ts @ [r])) \<Longrightarrow> distinct (map rt_tokenHash (ts @ [r])) \<Longrightarrow> tokens_kept ts (ts @ [r])"
  unfolding tokens_kept_def by auto

lemma insert_refresh_kept:
  assumes "secrets_kept w0 w"
  shows "secrets_kept w0 (snd (insert_refresh r w))"
  using assms kept_tokens [OF assms, of "refreshTokens w @ [r]"] tokens_kept_append [of "refreshTokens w" r]
  by (cases "distinct (map rt_id (refreshTokens w @ [r]))"; cases "distinct (map rt_tokenHash (refreshTokens w @ [r]))";
      cases "rt_userId r \<in> u_id ` set (users w)")
    (auto simp: insert_refresh_def unique_rows_def)

lemma issue_kept: "secrets_kept w0 w \<Longrightarrow> secrets_kept w0 (snd (issueTokens cfg e n i input w))"
  unfolding issueTokens_def Let_def by (rule kept_then_do) (auto intro: insert_refresh_kept)

lemma login_kept: "secrets_kept w0 w \<Longrightarrow> secrets_kept w0 (snd (login_as cfg e n i label act pn md ip user w))"
  by (simp add: login_as_def issue_kept)

lemma upsert_kept: "secrets_kept w0 w \<Longrightarrow> secrets_kept w0 (snd (upsert_user cfg email upd new w))"
  by (cases "find_email cfg w email") (auto simp: upsert_user_def intro!: kept_attempt)

lemma links_kept_append:
  "distinct (map ml_id (ls @ [l])) \<Longrightarrow> distinct (map ml_tokenHash (ls @ [l])) \<Longrightarrow> links_kept ls (ls @ [l])"
  unfolding links_kept_def by auto

lemma insert_link_kept:
  assumes "secrets_kept w0 w"
  shows "secrets_kept w0 (snd (insert_link l w))"
  using assms kept_links [OF assms, of "magicLinks w @ [l]"] links_kept_append [of "magicLinks w" l]
  by (cases "distinct (map ml_id (magicLinks w @ [l]))"; cases "distinct (map ml_tokenHash (magicLinks w @ [l]))";
      cases "fk_ok p_id (projects w) (ml_projectId l) \<and> fk_ok u_id (users w) (ml_invitedByUserId l)")
    (auto simp: insert_link_def unique_rows_def)

lemma send_mail_kept: "secrets_kept w0 w \<Longrightarrow> secrets_kept w0 (snd (send_mail e m w))"
  by (simp add: send_mail_def)

lemma kept_revoke:
  "secrets_kept w0 w \<Longrightarrow> secrets_kept w0 (w\<lparr>refreshTokens := update_where P (\<lambda>r. r\<lparr>rt_revokedAt := Some x\<rparr>) (refreshTokens w)\<rparr>)"
  by (erule kept_tokens) (rule tokens_kept_update, simp)

lemma kept_rotate:
  "secrets_kept w0 w \<Longrightarrow> secrets_kept w0 (w\<lparr>refreshTokens := update_where P (\<lambda>r. r\<lparr>rt_rotatedToId := Some x\<rparr>) (refreshTokens w)\<rparr>)"
  by (erule kept_tokens) (rule tokens_kept_update, simp)

lemma kept_use:
  "secrets_kept w0 w \<Longrightarrow> secrets_kept w0 (w\<lparr>magicLinks := update_where P (\<lambda>l. l\<lparr>ml_usedAt := Some x\<rparr>) (magicLinks w)\<rparr>)"
  by (erule kept_links) (rule links_kept_update, simp)

lemma kept_expire:
  "secrets_kept w0 w \<Longrightarrow> secrets_kept w0 (w\<lparr>magicLinks := update_where P (\<lambda>l. l\<lparr>ml_expiresAt := x\<rparr>) (magicLinks w)\<rparr>)"
  by (erule kept_links) (rule links_kept_update, simp)

lemma revokeAll_kept: "secrets_kept w0 w \<Longrightarrow> secrets_kept w0 (revokeAllRefreshTokens uid now w)"
  by (simp add: revokeAllRefreshTokens_def kept_revoke)

lemma claim_kept: "secrets_kept w0 w \<Longrightarrow> claim_refresh rid now w = Some w' \<Longrightarrow> secrets_kept w0 w'"
  by (auto elim!: claim_refreshE intro: kept_revoke)

lemma race_kept: "secrets_kept w0 w \<Longrightarrow> secrets_kept w0 (snd (race_lost e stored ip w))"
  by (simp add: race_lost_def revokeAll_kept)

lemma reuse_kept: "secrets_kept w0 w \<Longrightarrow> secrets_kept w0 (snd (reuse_detected e stored ip ua w))"
  by (simp add: reuse_detected_def Let_def revokeAll_kept)

lemma successor_kept: "secrets_kept w0 w \<Longrightarrow> secrets_kept w0 (snd (link_successor cfg stored pair w))"
  unfolding link_successor_def by (intro kept_attempt) (auto intro: kept_rotate)

lemma refresh_kept:
  assumes "secrets_kept w0 w"
  shows "secrets_kept w0 (snd (refresh cfg e raw ip ua w))"
  unfolding refresh_def
proof (rule kept_attempt [OF assms])
  fix x assume "read_refresh cfg (clk e 0) raw w = Inr x"
  obtain stored user where x: "x = (stored, user)" by (cases x)
  show "secrets_kept w0 (snd (case x of (stored, user) \<Rightarrow>
      if truthy (rt_rotatedToId stored) then reuse_detected e stored ip ua w
      else attempt (require (u_archivedAt user = None) (Unauthorized ''User is archived'')) w (\<lambda>_.
      case claim_refresh (rt_id stored) (clk e 1) w of None \<Rightarrow> race_lost e stored ip w
      | Some w1 \<Rightarrow> then_do (issueTokens cfg e 2 0 (input_of user ip ua) w1) (\<lambda>pair w2. link_successor cfg stored pair w2))))"
    using assms unfolding x
    by (auto split: option.split intro!: kept_attempt kept_then_do reuse_kept race_kept issue_kept successor_kept
        dest: claim_kept [OF assms])
qed

lemma consume_kept: "secrets_kept w0 w \<Longrightarrow> consume_link lid now w = Some w' \<Longrightarrow> secrets_kept w0 w'"
  by (auto simp: consume_link_def intro: kept_use split: if_splits)

lemma accept_kept: "secrets_kept w0 w \<Longrightarrow> secrets_kept w0 (snd (accept_link cfg e link email w))"
  by (auto simp: accept_link_def split: option.split intro!: kept_atomically upsert_kept dest: consume_kept)

lemma finish_kept: "secrets_kept w0 w \<Longrightarrow> secrets_kept w0 (snd (finish_link cfg e link ip user w))"
  unfolding finish_link_def by (intro kept_attempt kept_then_do login_kept) simp_all

lemma verify_kept: "secrets_kept w0 w \<Longrightarrow> secrets_kept w0 (snd (verifyMagicLink cfg e email raw ip w))"
  unfolding verifyMagicLink_def by (intro kept_attempt kept_then_do accept_kept finish_kept)

lemma request_kept: "secrets_kept w0 w \<Longrightarrow> secrets_kept w0 (snd (requestMagicLink cfg e n i email ip w))"
  unfolding requestMagicLink_def Let_def
  by (intro kept_attempt kept_then_do insert_link_kept send_mail_kept) simp_all

lemma invite_kept: "secrets_kept w0 w \<Longrightarrow> secrets_kept w0 (snd (sendProjectInvite cfg e n i args w))"
  unfolding sendProjectInvite_def Let_def expire_invites_def
  by (intro kept_attempt kept_then_do insert_link_kept send_mail_kept kept_expire) simp_all

subsection \<open>By every operation on accounts\<close>

lemma login_operations_kept:
  "secrets_kept w0 w \<Longrightarrow> secrets_kept w0 (snd (loginWithGoogle cfg e profile ip w))"
  "secrets_kept w0 w \<Longrightarrow> secrets_kept w0 (snd (devLoginFor cfg e uid w))"
  "secrets_kept w0 w \<Longrightarrow> secrets_kept w0 (snd (issueTokensForUser cfg e uid ip ua w))"
  "secrets_kept w0 w \<Longrightarrow> secrets_kept w0 (snd (devLoginByEmail cfg e email ip w))"
  unfolding loginWithGoogle_def devLoginFor_def issueTokensForUser_def devLoginByEmail_def Let_def
  by (intro kept_attempt kept_then_do upsert_kept login_kept issue_kept; simp)+

lemma join_team_kept: "secrets_kept w0 w \<Longrightarrow> secrets_kept w0 (snd (join_team i user team w))"
  by (cases team) (auto simp: join_team_def Let_def intro!: kept_attempt)

lemma persona_kept:
  assumes "secrets_kept w0 w"
  shows "secrets_kept w0 (snd (devLoginAsPersona cfg e p ip w))"
proof -
  have team: "secrets_kept w0 (snd (case t of None \<Rightarrow> (Inr (), w1) | Some x \<Rightarrow> join_team i u x w1))"
    if "secrets_kept w0 w1" for t i u w1
    using that by (auto split: option.split intro: join_team_kept)
  have opened: "secrets_kept w0 (case r of None \<Rightarrow> w1 | Some x \<Rightarrow> if b then open_projects f u x w1 else w1)"
    if "secrets_kept w0 w1" for r b f u w1
    using that by (auto simp: open_projects_def Let_def secrets_kept_def split: option.split)
  show ?thesis
    unfolding devLoginAsPersona_def Let_def
    by (intro kept_attempt kept_then_do upsert_kept login_kept team opened) (use assms in simp_all)
qed

lemma session_kept:
  "secrets_kept w0 w \<Longrightarrow> secrets_kept w0 (snd (logout cfg e jti raw who ip w))"
  "secrets_kept w0 w \<Longrightarrow> secrets_kept w0 (snd (revokeSession e uid sid ip ua w))"
  "secrets_kept w0 w \<Longrightarrow> secrets_kept w0 (snd (revokeOthers cfg e uid raw ip ua w))"
  "secrets_kept w0 w \<Longrightarrow> secrets_kept w0 (snd (validateJwt e payload w))"
proof -
  assume k: "secrets_kept w0 w"
  have jti: "secrets_kept w0 (revokeJti cfg now jti w)" for now using k by (simp add: revokeJti_def)
  show "secrets_kept w0 (snd (logout cfg e jti raw who ip w))"
    by (auto simp: logout_def Let_def revoke_hash_def jti intro!: kept_revoke split: option.split)
  show "secrets_kept w0 (snd (revokeSession e uid sid ip ua w))"
    unfolding revokeSession_def using k by (intro kept_attempt) (auto intro: kept_revoke)
  show "secrets_kept w0 (snd (revokeOthers cfg e uid raw ip ua w))"
    using k by (simp add: revokeOthers_def Let_def kept_revoke)
  show "secrets_kept w0 (snd (validateJwt e payload w))"
    unfolding validateJwt_def using k by (intro kept_attempt) (auto simp: touchLastSeen_def split: option.split)
qed

lemma write_user_kept: "secrets_kept w0 w \<Longrightarrow> secrets_kept w0 (snd (write_user uid f w))"
  by (simp add: write_user_def split: option.split)

lemma leave_kept: "secrets_kept w0 (leave_teams uid w) = secrets_kept w0 w"
  by (simp add: leave_teams_def)

lemma user_operations_kept:
  assumes "secrets_kept w0 w"
  shows "secrets_kept w0 (snd (updateMyProfile actor nm url w))"
    and "secrets_kept w0 (snd (updateMyPreferences actor h p w))"
    and "secrets_kept w0 (snd (updateProfile cfg actor uid nm' em w))"
    and "secrets_kept w0 (snd (changeRole cfg actor uid role w))"
    and "secrets_kept w0 (snd (changeKind cfg actor uid kind w))"
    and "secrets_kept w0 (snd (archiveUser e actor uid w))"
    and "secrets_kept w0 (snd (unarchiveUser actor uid w))"
  unfolding updateMyProfile_def updateMyPreferences_def updateProfile_def changeRole_def changeKind_def
    archiveUser_def unarchiveUser_def Let_def
  using assms by (auto intro!: kept_attempt kept_then_do write_user_kept revokeAll_kept simp: leave_kept)

lemma team_operations_kept:
  assumes "secrets_kept w0 w"
  shows "secrets_kept w0 (snd (setTeams actor uid ids w))"
    and "secrets_kept w0 (snd (createTeam e actor slug label descr w))"
    and "secrets_kept w0 (snd (updateTeam actor tid label' descr' w))"
    and "secrets_kept w0 (snd (deleteTeam actor tid w))"
    and "secrets_kept w0 (snd (addMember actor tid uid w))"
    and "secrets_kept w0 (snd (removeMember actor tid uid w))"
  unfolding setTeams_def createTeam_def updateTeam_def deleteTeam_def addMember_def removeMember_def Let_def
  using assms by (auto intro!: kept_attempt simp: leave_kept)

lemma grant_guest_kept: "secrets_kept w0 w \<Longrightarrow> secrets_kept w0 (snd (grant_guest cfg e actor pid email nm role w))"
  unfolding grant_guest_def upsert_access_def Let_def
  by (auto intro!: kept_then_do kept_attempt upsert_kept split: option.split)

lemma send_invitation_kept:
  "secrets_kept w0 w \<Longrightarrow> secrets_kept w0 (snd (send_invitation cfg e actor p a email nm role granted w))"
  by (cases granted) (auto simp: send_invitation_def intro!: kept_then_do invite_kept)

lemma invitation_operations_kept:
  assumes "secrets_kept w0 w"
  shows "secrets_kept w0 (snd (inviteGuest cfg e actor address given w))"
    and "secrets_kept w0 (snd (inviteProjectGuest cfg e actor pid address given role w))"
    and "secrets_kept w0 (snd (resendPendingInvite cfg e actor lid w))"
    and "secrets_kept w0 (snd (revokePendingInvite cfg e actor lid w))"
proof -
  show "secrets_kept w0 (snd (inviteGuest cfg e actor address given w))"
    unfolding inviteGuest_def Let_def
    by (intro kept_attempt kept_then_do upsert_kept request_kept) (simp_all add: assms)
  show "secrets_kept w0 (snd (inviteProjectGuest cfg e actor pid address given role w))"
    unfolding inviteProjectGuest_def Let_def
    by (intro kept_attempt kept_then_do kept_atomically grant_guest_kept send_invitation_kept) (simp_all add: assms)
  show "secrets_kept w0 (snd (resendPendingInvite cfg e actor lid w))"
    unfolding resendPendingInvite_def Let_def
    by (intro kept_attempt kept_then_do invite_kept) (simp_all add: assms)
  show "secrets_kept w0 (snd (revokePendingInvite cfg e actor lid w))"
    unfolding revokePendingInvite_def Let_def
    using assms by (intro kept_attempt) (auto intro!: kept_expire split: option.split)
qed

lemma account_operations_kept: "secrets_kept w (exec_account cfg op w)"
  by (cases op) (simp_all add: login_operations_kept persona_kept session_kept user_operations_kept team_operations_kept
      invitation_operations_kept request_kept verify_kept refresh_kept)

end
