(* ===== verification/SignIn.thy ===== *)
theory SignIn
  imports SignInLaws
begin

text \<open>
  Sign-ins that run at the same time: \<open>refresh\<close> and \<open>verifyMagicLink\<close> as requests that do one
  statement or transaction at a time (served alone they are the handlers), with the properties of
  refresh tokens, mailed links and archived accounts.
\<close>

section \<open>Refreshing, one statement at a time\<close>

datatype refresh_phase =
    RefreshStart
  | RefreshClaim refresh_row user_row
  | RefreshIssue refresh_row user_row
  | RefreshLink refresh_row token_pair
  | RefreshWon refresh_row token_pair
  | RefreshFailed api_error

record refresh_request =
  rq_env :: auth_env
  rq_raw :: string
  rq_ip :: "string option"
  rq_userAgent :: "string option"
  rq_phase :: refresh_phase

definition enter :: "refresh_phase \<Rightarrow> refresh_request \<Rightarrow> refresh_request" where
  "enter p q = q\<lparr>rq_phase := p\<rparr>"

definition refresh_serve :: "auth_config \<Rightarrow> refresh_request \<Rightarrow> world \<Rightarrow> refresh_request \<times> world" where
  "refresh_serve cfg q w = (case rq_phase q of
     RefreshStart \<Rightarrow> (case read_refresh cfg (clk (rq_env q) 0) (rq_raw q) w of
         Inl err \<Rightarrow> (enter (RefreshFailed err) q, w)
       | Inr (stored, user) \<Rightarrow>
           if truthy (rt_rotatedToId stored)
           then (enter (RefreshFailed reuse_error) q, snd (reuse_detected (rq_env q) stored (rq_ip q) (rq_userAgent q) w))
           else if u_archivedAt user \<noteq> None then (enter (RefreshFailed (Unauthorized ''User is archived'')) q, w)
           else (enter (RefreshClaim stored user) q, w))
   | RefreshClaim stored user \<Rightarrow> (case claim_refresh (rt_id stored) (clk (rq_env q) 1) w of
         None \<Rightarrow> (enter (RefreshFailed reuse_error) q, snd (race_lost (rq_env q) stored (rq_ip q) w))
       | Some w1 \<Rightarrow> (enter (RefreshIssue stored user) q, w1))
   | RefreshIssue stored user \<Rightarrow>
       (case issueTokens cfg (rq_env q) 2 0 (input_of user (rq_ip q) (rq_userAgent q)) w of
         (Inl err, w1) \<Rightarrow> (enter (RefreshFailed err) q, w1)
       | (Inr pair, w1) \<Rightarrow> (enter (RefreshLink stored pair) q, w1))
   | RefreshLink stored pair \<Rightarrow> (case link_successor cfg stored pair w of
         (Inl err, w1) \<Rightarrow> (enter (RefreshFailed err) q, w1)
       | (Inr pair', w1) \<Rightarrow> (enter (RefreshWon stored pair') q, w1))
   | RefreshWon _ _ \<Rightarrow> (q, w)
   | RefreshFailed _ \<Rightarrow> (q, w))"

definition refresh_outcome :: "refresh_request \<Rightarrow> token_pair res option" where
  "refresh_outcome q = (case rq_phase q of RefreshWon _ pair \<Rightarrow> Some (Inr pair)
     | RefreshFailed err \<Rightarrow> Some (Inl err) | _ \<Rightarrow> None)"

lemma enter_simps [simp]:
  "rq_phase (enter p q) = p" "rq_env (enter p q) = rq_env q" "rq_raw (enter p q) = rq_raw q"
  "rq_ip (enter p q) = rq_ip q" "rq_userAgent (enter p q) = rq_userAgent q" "enter p (enter p' q) = enter p q"
  by (simp_all add: enter_def)

text \<open>Four statements of a request that runs alone are the handler.\<close>

lemma refresh_served_alone:
  assumes "rq_phase q = RefreshStart"
    and "((\<lambda>(q, w). refresh_serve cfg q w) ^^ 4) (q, w) = (q', w')"
  shows "refresh_outcome q' = Some (fst (refresh cfg (rq_env q) (rq_raw q) (rq_ip q) (rq_userAgent q) w))"
    and "w' = snd (refresh cfg (rq_env q) (rq_raw q) (rq_ip q) (rq_userAgent q) w)"
proof -
  let ?e = "rq_env q"
  let ?r = "refresh cfg ?e (rq_raw q) (rq_ip q) (rq_userAgent q) w"
  let ?s = "\<lambda>c. case c of (q, w) \<Rightarrow> refresh_serve cfg q w"
  have four: "(q', w') = ?s (?s (?s (?s (q, w))))" using assms(2) by (simp add: numeral_eq_Suc)
  have stop: "refresh_serve cfg (enter (RefreshWon stored pair) q) w = (enter (RefreshWon stored pair) q, w)"
    "refresh_serve cfg (enter (RefreshFailed err) q) w = (enter (RefreshFailed err) q, w)" for stored pair err w
    by (simp_all add: refresh_serve_def)
  have start: "refresh_serve cfg q w = (case read_refresh cfg (clk ?e 0) (rq_raw q) w of
         Inl err \<Rightarrow> (enter (RefreshFailed err) q, w)
       | Inr (stored, user) \<Rightarrow>
           if truthy (rt_rotatedToId stored)
           then (enter (RefreshFailed reuse_error) q, snd (reuse_detected ?e stored (rq_ip q) (rq_userAgent q) w))
           else if u_archivedAt user \<noteq> None then (enter (RefreshFailed (Unauthorized ''User is archived'')) q, w)
           else (enter (RefreshClaim stored user) q, w))"
    using assms(1) by (simp add: refresh_serve_def)
  have run: "refresh_outcome q' = Some (fst ?r) \<and> w' = snd ?r"
  proof (cases "read_refresh cfg (clk ?e 0) (rq_raw q) w")
    case (Inl err)
    with four start stop show ?thesis by (simp add: refresh_def refresh_outcome_def)
  next
    case (Inr x)
    obtain stored user where x: "x = (stored, user)" by (cases x)
    consider "truthy (rt_rotatedToId stored)" | "\<not> truthy (rt_rotatedToId stored)" "u_archivedAt user \<noteq> None"
      | "\<not> truthy (rt_rotatedToId stored)" "u_archivedAt user = None" by blast
    then show ?thesis
    proof cases
      case 1
      with four start stop Inr x show ?thesis by (simp add: refresh_def refresh_outcome_def reuse_detected_def Let_def)
    next
      case 2
      with four start stop Inr x show ?thesis by (auto simp: refresh_def refresh_outcome_def require_def)
    next
      case 3
      show ?thesis
      proof (cases "claim_refresh (rt_id stored) (clk ?e 1) w")
        case None
        with four start stop Inr x 3 show ?thesis
          by (simp add: refresh_def refresh_outcome_def refresh_serve_def race_lost_def)
      next
        case (Some w1)
        obtain r1 w2 where issued: "issueTokens cfg ?e 2 0 (input_of user (rq_ip q) (rq_userAgent q)) w1 = (r1, w2)"
          by (cases "issueTokens cfg ?e 2 0 (input_of user (rq_ip q) (rq_userAgent q)) w1")
        show ?thesis
        proof (cases r1)
          case (Inl err)
          with four start stop \<open>read_refresh cfg (clk ?e 0) (rq_raw q) w = Inr x\<close> x 3 Some issued show ?thesis
            by (simp add: refresh_def refresh_outcome_def refresh_serve_def)
        next
          case (Inr pair)
          obtain r2 w3 where last: "link_successor cfg stored pair w2 = (r2, w3)"
            by (cases "link_successor cfg stored pair w2")
          with four start stop \<open>read_refresh cfg (clk ?e 0) (rq_raw q) w = Inr x\<close> x 3 Some issued Inr show ?thesis
            by (cases r2) (simp_all add: refresh_def refresh_outcome_def refresh_serve_def)
        qed
      qed
    qed
  qed
  then show "refresh_outcome q' = Some (fst ?r)" and "w' = snd ?r" by simp_all
qed

fun refresh_held :: "refresh_phase \<Rightarrow> string option" where
  "refresh_held (RefreshClaim stored _) = Some (rt_id stored)"
| "refresh_held (RefreshIssue stored _) = Some (rt_id stored)"
| "refresh_held (RefreshLink stored _) = Some (rt_id stored)"
| "refresh_held (RefreshWon stored _) = Some (rt_id stored)"
| "refresh_held _ = None"

fun refresh_past :: "refresh_phase \<Rightarrow> bool" where
  "refresh_past (RefreshIssue _ _) = True"
| "refresh_past (RefreshLink _ _) = True"
| "refresh_past (RefreshWon _ _) = True"
| "refresh_past _ = False"

definition token_used :: "world \<Rightarrow> string \<Rightarrow> bool" where
  "token_used w k \<longleftrightarrow> (\<exists>r \<in> set (refreshTokens w). rt_id r = k \<and> rt_revokedAt r \<noteq> None)"

definition token_key :: "world \<Rightarrow> string \<Rightarrow> string option" where
  "token_key w h = map_option rt_id (find_row rt_tokenHash h (refreshTokens w))"

definition unique_secrets :: "world \<Rightarrow> bool" where
  "unique_secrets w \<longleftrightarrow> distinct (map rt_id (refreshTokens w)) \<and> distinct (map rt_tokenHash (refreshTokens w)) \<and>
     distinct (map ml_id (magicLinks w)) \<and> distinct (map ml_tokenHash (magicLinks w))"

lemma kept_unique: "unique_secrets w \<Longrightarrow> secrets_kept w w' \<Longrightarrow> unique_secrets w'"
  by (auto simp: unique_secrets_def secrets_kept_def tokens_kept_def links_kept_def)

lemma kept_used: "secrets_kept w w' \<Longrightarrow> token_used w k \<Longrightarrow> token_used w' k"
  unfolding token_used_def secrets_kept_def tokens_kept_def by metis

lemma find_by_hash: "distinct (map key rows) \<Longrightarrow> r \<in> set rows \<Longrightarrow> key r = h \<Longrightarrow> find_row key h rows = Some r"
  using find_row_distinct by metis

lemma kept_key:
  assumes "unique_secrets w" and kept: "secrets_kept w w'" and "token_key w h = Some k"
  shows "token_key w' h = Some k"
proof -
  obtain r where r: "r \<in> set (refreshTokens w)" "rt_tokenHash r = h" "rt_id r = k"
    using assms(3) by (auto simp: token_key_def dest: find_row_SomeD)
  then obtain r' where r': "r' \<in> set (refreshTokens w')" "rt_tokenHash r' = h" "rt_id r' = k"
    using kept unfolding secrets_kept_def tokens_kept_def by metis
  have "distinct (map rt_tokenHash (refreshTokens w'))"
    using kept_unique [OF assms(1) kept] by (simp add: unique_secrets_def)
  from find_by_hash [OF this r'(1,2)] r'(3) show ?thesis by (simp add: token_key_def)
qed

lemma read_refresh_key:
  "read_refresh cfg now raw w = Inr (stored, user) \<Longrightarrow> token_key w (sha256 cfg raw) = Some (rt_id stored)"
  by (auto simp: read_refresh_def and_then_Inr token_key_def)

lemma serve_kept: "refresh_serve cfg q w = (q', w') \<Longrightarrow> secrets_kept w w'"
  using issue_kept [of w w cfg "rq_env q" 2 0] successor_kept [of w w cfg] race_kept [of w w] reuse_kept [of w w]
    claim_kept [of w w]
  by (auto simp: refresh_serve_def split: refresh_phase.splits sum.splits option.splits prod.splits if_splits; metis snd_conv)

lemma claim_token_used:
  assumes "unique_secrets w" and c: "claim_refresh k now w = Some w'"
  shows "\<not> token_used w k" and "token_used w' k"
proof -
  obtain r where r: "r \<in> set (refreshTokens w)" "rt_id r = k" "rt_revokedAt r = None"
    and w': "w' = w\<lparr>refreshTokens := update_where (\<lambda>r. rt_id r = k \<and> rt_rotatedToId r = None \<and> rt_revokedAt r = None)
             (\<lambda>r. r\<lparr>rt_revokedAt := Some now\<rparr>) (refreshTokens w)\<rparr>"
    using c by (rule claim_refreshE)
  have d: "distinct (map rt_id (refreshTokens w))" using assms(1) by (simp add: unique_secrets_def)
  show "\<not> token_used w k" using d r by (auto simp: token_used_def distinct_map dest: inj_onD)
  have "map rt_id (refreshTokens w') = map rt_id (refreshTokens w)" by (simp add: w' revoking.keys_kept)
  then have "k \<in> rt_id ` set (refreshTokens w')" using r by (metis image_eqI list.set_map)
  then show "token_used w' k" using claim_revokes [OF c d] by (auto simp: token_used_def)
qed

interpretation refreshing: single_use unique_secrets secrets_kept token_used token_key "refresh_serve cfg" "exec_account cfg"
  "\<lambda>q. sha256 cfg (rq_raw q)" "\<lambda>q. refresh_held (rq_phase q)" "\<lambda>q. refresh_past (rq_phase q)" for cfg
proof
  fix w w' k s op q q'
  show "unique_secrets w \<Longrightarrow> secrets_kept w w' \<Longrightarrow> unique_secrets w'" by (rule kept_unique)
  show "unique_secrets w \<Longrightarrow> secrets_kept w w' \<Longrightarrow> token_used w k \<Longrightarrow> token_used w' k" by (rule kept_used)
  show "unique_secrets w \<Longrightarrow> secrets_kept w w' \<Longrightarrow> token_key w s = Some k \<Longrightarrow> token_key w' s = Some k" by (rule kept_key)
  show "unique_secrets w \<Longrightarrow> secrets_kept w (exec_account cfg op w)" by (rule account_operations_kept)
  show "unique_secrets w \<Longrightarrow> refresh_serve cfg q w = (q', w') \<Longrightarrow> secrets_kept w w'" by (rule serve_kept)
  assume s: "refresh_serve cfg q w = (q', w')"
  show "sha256 cfg (rq_raw q') = sha256 cfg (rq_raw q)"
    using s by (auto simp: refresh_serve_def split: refresh_phase.splits sum.splits option.splits prod.splits if_splits)
  show "refresh_held (rq_phase q') = Some k \<Longrightarrow> refresh_held (rq_phase q) = Some k \<or> token_key w (sha256 cfg (rq_raw q)) = Some k"
    using s read_refresh_key [of cfg _ "rq_raw q" w]
    by (auto simp: refresh_serve_def split: refresh_phase.splits sum.splits option.splits prod.splits if_splits)
  show "refresh_past (rq_phase q) \<Longrightarrow> refresh_past (rq_phase q') \<Longrightarrow> refresh_held (rq_phase q') = refresh_held (rq_phase q)"
    using s by (auto simp: refresh_serve_def split: refresh_phase.splits sum.splits option.splits prod.splits if_splits)
  show "unique_secrets w \<Longrightarrow> \<not> refresh_past (rq_phase q) \<Longrightarrow> refresh_past (rq_phase q') \<Longrightarrow>
      \<exists>k. refresh_held (rq_phase q') = Some k \<and> \<not> token_used w k \<and> token_used w' k"
    using s claim_token_used [of w]
    by (auto simp: refresh_serve_def split: refresh_phase.splits sum.splits option.splits prod.splits if_splits)
qed

section \<open>Following a mailed link, one transaction at a time\<close>

datatype link_phase =
    LinkStart
  | LinkTake magic_row
  | LinkFinish magic_row user_row
  | LinkWon magic_row "token_pair \<times> string option"
  | LinkFailed api_error

record link_request =
  lq_env :: auth_env
  lq_email :: string
  lq_raw :: string
  lq_ip :: "string option"
  lq_phase :: link_phase

definition proceed :: "link_phase \<Rightarrow> link_request \<Rightarrow> link_request" where
  "proceed p q = q\<lparr>lq_phase := p\<rparr>"

definition link_serve :: "auth_config \<Rightarrow> link_request \<Rightarrow> world \<Rightarrow> link_request \<times> world" where
  "link_serve cfg q w = (case lq_phase q of
     LinkStart \<Rightarrow> (case check_link cfg (clk (lq_env q) 0) (lq_email q) (lq_raw q) w of
         Inl err \<Rightarrow> (proceed (LinkFailed err) q, w)
       | Inr link \<Rightarrow> (proceed (LinkTake link) q, w))
   | LinkTake link \<Rightarrow> (case accept_link cfg (lq_env q) link (lq_email q) w of
         (Inl err, w1) \<Rightarrow> (proceed (LinkFailed err) q, w1)
       | (Inr user, w1) \<Rightarrow> (proceed (LinkFinish link user) q, w1))
   | LinkFinish link user \<Rightarrow> (case finish_link cfg (lq_env q) link (lq_ip q) user w of
         (Inl err, w1) \<Rightarrow> (proceed (LinkFailed err) q, w1)
       | (Inr result, w1) \<Rightarrow> (proceed (LinkWon link result) q, w1))
   | LinkWon _ _ \<Rightarrow> (q, w)
   | LinkFailed _ \<Rightarrow> (q, w))"

lemma proceed_simps [simp]:
  "lq_phase (proceed p q) = p" "lq_env (proceed p q) = lq_env q" "lq_raw (proceed p q) = lq_raw q"
  "lq_email (proceed p q) = lq_email q" "lq_ip (proceed p q) = lq_ip q" "proceed p (proceed p' q) = proceed p q"
  by (simp_all add: proceed_def)

definition link_outcome :: "link_request \<Rightarrow> (token_pair \<times> string option) res option" where
  "link_outcome q = (case lq_phase q of LinkWon _ result \<Rightarrow> Some (Inr result)
     | LinkFailed err \<Rightarrow> Some (Inl err) | _ \<Rightarrow> None)"

lemma link_served_alone:
  assumes "lq_phase q = LinkStart" and "((\<lambda>(q, w). link_serve cfg q w) ^^ 3) (q, w) = (q', w')"
  shows "link_outcome q' = Some (fst (verifyMagicLink cfg (lq_env q) (lq_email q) (lq_raw q) (lq_ip q) w))"
    and "w' = snd (verifyMagicLink cfg (lq_env q) (lq_email q) (lq_raw q) (lq_ip q) w)"
proof -
  let ?r = "verifyMagicLink cfg (lq_env q) (lq_email q) (lq_raw q) (lq_ip q) w"
  have run: "link_outcome q' = Some (fst ?r) \<and> w' = snd ?r"
    using assms
    by (auto simp: numeral_eq_Suc link_serve_def link_outcome_def verifyMagicLink_def attempt_def then_do_def
        split: sum.splits prod.splits)
  then show "link_outcome q' = Some (fst ?r)" and "w' = snd ?r" by simp_all
qed

fun link_held :: "link_phase \<Rightarrow> string option" where
  "link_held (LinkTake link) = Some (ml_id link)"
| "link_held (LinkFinish link _) = Some (ml_id link)"
| "link_held (LinkWon link _) = Some (ml_id link)"
| "link_held _ = None"

fun link_past :: "link_phase \<Rightarrow> bool" where
  "link_past (LinkFinish _ _) = True"
| "link_past (LinkWon _ _) = True"
| "link_past _ = False"

definition link_used :: "world \<Rightarrow> string \<Rightarrow> bool" where
  "link_used w k \<longleftrightarrow> (\<exists>l \<in> set (magicLinks w). ml_id l = k \<and> ml_usedAt l \<noteq> None)"

definition link_row_key :: "world \<Rightarrow> string \<Rightarrow> string option" where
  "link_row_key w h = map_option ml_id (find_row ml_tokenHash h (magicLinks w))"

lemma kept_link_used: "secrets_kept w w' \<Longrightarrow> link_used w k \<Longrightarrow> link_used w' k"
  unfolding link_used_def secrets_kept_def links_kept_def by metis

lemma kept_link_key:
  assumes "unique_secrets w" and kept: "secrets_kept w w'" and "link_row_key w h = Some k"
  shows "link_row_key w' h = Some k"
proof -
  obtain l where l: "l \<in> set (magicLinks w)" "ml_tokenHash l = h" "ml_id l = k"
    using assms(3) by (auto simp: link_row_key_def dest: find_row_SomeD)
  then obtain l' where l': "l' \<in> set (magicLinks w')" "ml_tokenHash l' = h" "ml_id l' = k"
    using kept unfolding secrets_kept_def links_kept_def by metis
  have "distinct (map ml_tokenHash (magicLinks w'))"
    using kept_unique [OF assms(1) kept] by (simp add: unique_secrets_def)
  from find_by_hash [OF this l'(1,2)] l'(3) show ?thesis by (simp add: link_row_key_def)
qed

lemma check_link_key: "check_link cfg now email raw w = Inr link \<Longrightarrow> link_row_key w (sha256 cfg raw) = Some (ml_id link)"
  by (auto simp: check_link_def link_row_key_def split: option.splits if_splits)

lemma link_serve_kept: "link_serve cfg q w = (q', w') \<Longrightarrow> secrets_kept w w'"
  using accept_kept [of w w cfg "lq_env q"] finish_kept [of w w cfg "lq_env q"]
  by (auto simp: link_serve_def split: link_phase.splits sum.splits prod.splits; metis snd_conv secrets_kept_refl)

lemma upsert_links: "magicLinks (snd (upsert_user cfg email upd new w)) = magicLinks w"
  by (auto simp: upsert_user_def attempt_def split: option.split sum.split)

lemma accept_link_uses:
  assumes "unique_secrets w" and "accept_link cfg e link email w = (Inr user, w')"
  shows "\<not> link_used w (ml_id link)" and "link_used w' (ml_id link)"
proof -
  obtain w1 where c: "consume_link (ml_id link) (clk e 1) w = Some w1"
    and u: "upsert_user cfg email id (new_user (uuid e 0) (clk e 2) email (email_local email) UClient None) w1 = (Inr user, w')"
    using assms(2) by (auto simp: accept_link_def split: option.splits)
  have links: "magicLinks w' = magicLinks w1" using u upsert_links by (metis snd_conv)
  obtain l where l: "l \<in> set (magicLinks w)" "ml_id l = ml_id link" "ml_usedAt l = None"
    and w1: "magicLinks w1 = update_where (\<lambda>x. ml_id x = ml_id link \<and> ml_usedAt x = None)
       (\<lambda>x. x\<lparr>ml_usedAt := Some (clk e 1)\<rparr>) (magicLinks w)"
    using c by (auto simp: consume_link_def split: if_splits)
  have "distinct (map ml_id (magicLinks w))" using assms(1) by (simp add: unique_secrets_def)
  then have "x = l" if "x \<in> set (magicLinks w)" "ml_id x = ml_id link" for x
    using that l(1,2) by (metis distinct_map inj_onD)
  with l(3) show "\<not> link_used w (ml_id link)" by (auto simp: link_used_def)
  have "l\<lparr>ml_usedAt := Some (clk e 1)\<rparr> \<in> set (magicLinks w1)" using l by (auto simp: w1 in_update_where)
  then show "link_used w' (ml_id link)"
    unfolding link_used_def links using l(2) by (intro bexI [of _ "l\<lparr>ml_usedAt := Some (clk e 1)\<rparr>"]) simp_all
qed

interpretation following: single_use unique_secrets secrets_kept link_used link_row_key "link_serve cfg" "exec_account cfg"
  "\<lambda>q. sha256 cfg (lq_raw q)" "\<lambda>q. link_held (lq_phase q)" "\<lambda>q. link_past (lq_phase q)" for cfg
proof
  fix w w' k s op q q'
  show "unique_secrets w \<Longrightarrow> secrets_kept w w' \<Longrightarrow> unique_secrets w'" by (rule kept_unique)
  show "unique_secrets w \<Longrightarrow> secrets_kept w w' \<Longrightarrow> link_used w k \<Longrightarrow> link_used w' k" by (rule kept_link_used)
  show "unique_secrets w \<Longrightarrow> secrets_kept w w' \<Longrightarrow> link_row_key w s = Some k \<Longrightarrow> link_row_key w' s = Some k" by (rule kept_link_key)
  show "unique_secrets w \<Longrightarrow> secrets_kept w (exec_account cfg op w)" by (rule account_operations_kept)
  show "unique_secrets w \<Longrightarrow> link_serve cfg q w = (q', w') \<Longrightarrow> secrets_kept w w'" by (rule link_serve_kept)
  assume s: "link_serve cfg q w = (q', w')"
  show "sha256 cfg (lq_raw q') = sha256 cfg (lq_raw q)"
    using s by (auto simp: link_serve_def split: link_phase.splits sum.splits prod.splits)
  show "link_held (lq_phase q') = Some k \<Longrightarrow> link_held (lq_phase q) = Some k \<or> link_row_key w (sha256 cfg (lq_raw q)) = Some k"
    using s check_link_key [of cfg _ "lq_email q" "lq_raw q" w]
    by (auto simp: link_serve_def split: link_phase.splits sum.splits prod.splits)
  show "link_past (lq_phase q) \<Longrightarrow> link_past (lq_phase q') \<Longrightarrow> link_held (lq_phase q') = link_held (lq_phase q)"
    using s by (auto simp: link_serve_def split: link_phase.splits sum.splits prod.splits)
  show "unique_secrets w \<Longrightarrow> \<not> link_past (lq_phase q) \<Longrightarrow> link_past (lq_phase q') \<Longrightarrow>
      \<exists>k. link_held (lq_phase q') = Some k \<and> \<not> link_used w k \<and> link_used w' k"
    using s accept_link_uses [of w cfg]
    by (auto simp: link_serve_def split: link_phase.splits sum.splits prod.splits)
qed

section \<open>A small state\<close>

definition sample_config :: auth_config where
  "sample_config = \<lparr>GOOGLE_OAUTH_ALLOWED_DOMAIN = ''nockta.com'', JWT_ACCESS_TTL_SECONDS = 900,
     JWT_REFRESH_TTL_SECONDS = 2592000, MAGIC_LINK_TTL_SECONDS = 900, PROJECT_INVITE_TTL_SECONDS = 604800,
     MAGIC_LINK_BASE_URL = ''http://app/auth/magic'', DEV_AUTH_ENABLED = True, sha256 = (\<lambda>s. CHR ''h'' # s),
     signJwt = (\<lambda>_ _. ''jwt''), citext = (\<lambda>s. s)\<rparr>"

definition sample_request :: "char \<Rightarrow> auth_env" where
  "sample_request c = \<lparr>clk = (\<lambda>n. 1000 + int n), uuid = (\<lambda>n. c # replicate n CHR ''x''), coll = (\<lambda>a b. True),
     keyBetween = (\<lambda>a b. Some ''a1''), randomBytes = (\<lambda>n. c # ''raw''), mailAccepted = True, ulid = c # ''jti''\<rparr>"

definition sample_refresh :: "string \<Rightarrow> string \<Rightarrow> string \<Rightarrow> refresh_row" where
  "sample_refresh rid who h = \<lparr>rt_id = rid, rt_userId = who, rt_tokenHash = h, rt_expiresAt = 5000,
     rt_rotatedToId = None, rt_revokedAt = None, rt_ip = None, rt_userAgent = None, rt_createdAt = 0\<rparr>"

definition sample_link :: "string \<Rightarrow> string \<Rightarrow> string \<Rightarrow> magic_row" where
  "sample_link lid email h = \<lparr>ml_id = lid, ml_email = email, ml_tokenHash = h, ml_intent = ClientLogin,
     ml_expiresAt = 5000, ml_usedAt = None, ml_ip = None, ml_projectId = None, ml_invitedByUserId = None, ml_createdAt = 0\<rparr>"

definition session_world :: world where
  "session_world = empty_world\<lparr>users := [sample_user ''U''],
     refreshTokens := [sample_refresh ''t1'' ''U'' ''hold''], magicLinks := [sample_link ''l1'' ''u@x'' ''hmail'']\<rparr>"

definition asking :: "char \<Rightarrow> refresh_request" where
  "asking c = \<lparr>rq_env = sample_request c, rq_raw = ''old'', rq_ip = None, rq_userAgent = None, rq_phase = RefreshStart\<rparr>"

definition visiting :: "char \<Rightarrow> link_request" where
  "visiting c = \<lparr>lq_env = sample_request c, lq_email = ''u@x'', lq_raw = ''mail'', lq_ip = None, lq_phase = LinkStart\<rparr>"

text \<open>The requests are served in the order of a list of their positions.\<close>

fun serve_all :: "('q \<Rightarrow> 'w \<Rightarrow> 'q \<times> 'w) \<Rightarrow> nat list \<Rightarrow> 'q list \<times> 'w \<Rightarrow> 'q list \<times> 'w" where
  "serve_all serve [] c = c"
| "serve_all serve (i # is) (qs, w) = (case serve (qs ! i) w of (q', w') \<Rightarrow> serve_all serve is (qs[i := q'], w'))"

lemma serve_all_run:
  "\<forall>i \<in> set is. i < length (fst c) \<Longrightarrow> (interleaved serve other)\<^sup>*\<^sup>* c (serve_all serve is c)"
proof (induction "is" arbitrary: c)
  case (Cons i "is")
  obtain qs w where c: "c = (qs, w)" by (cases c)
  obtain q' w' where s: "serve (qs ! i) w = (q', w')" by (cases "serve (qs ! i) w")
  have "interleaved serve other (qs, w) (qs[i := q'], w')"
    using Cons.prems c s by (intro interleaved.request) auto
  moreover have "(interleaved serve other)\<^sup>*\<^sup>* (qs[i := q'], w') (serve_all serve is (qs[i := q'], w'))"
    using Cons.prems c by (intro Cons.IH) simp
  ultimately show ?case using c s by simp
qed simp

lemmas session_defs = session_world_def sample_config_def sample_request_def sample_refresh_def sample_link_def
  sample_user_def empty_world_def asking_def visiting_def

section \<open>Properties\<close>

text \<open>
  C30: however the statements of any number of refresh requests interleave, with each other and with
  any other operations on accounts, of the requests that present the same token at most one gets a
  new pair.
\<close>

theorem refresh_token_rotates_once:
  assumes "(interleaved (refresh_serve cfg) (exec_account cfg))\<^sup>*\<^sup>* (qs, w) (qs', w')"
    and "unique_secrets w" and "\<forall>q \<in> set qs. rq_phase q = RefreshStart"
    and "i < length qs'" and "j < length qs'" and "rq_raw (qs' ! i) = rq_raw (qs' ! j)"
    and "rq_phase (qs' ! i) = RefreshWon stored pair" and "rq_phase (qs' ! j) = RefreshWon stored' pair'"
  shows "i = j"
  by (rule refreshing.at_most_one_past [OF assms(1,2)]) (use assms in simp_all)

lemmas session_eval = session_defs enter_def proceed_def refresh_serve_def read_refresh_def find_user_def claim_refresh_def
  count_where_def race_lost_def revokeAllRefreshTokens_def issueTokens_def Let_def insert_refresh_def refresh_of_def
  input_of_def if_truthy_def unique_rows_def link_successor_def emit_def

theorem refresh_token_rotates_once_witness:
  "(case serve_all (refresh_serve sample_config) [0, 1, 0, 1, 0, 0] ([asking CHR ''a'', asking CHR ''b''], session_world) of
     (qs, w) \<Rightarrow> (\<exists>stored pair. rq_phase (qs ! 0) = RefreshWon stored pair) \<and>
       (\<nexists>stored pair. rq_phase (qs ! 1) = RefreshWon stored pair))"
proof -
  let ?c = "serve_all (refresh_serve sample_config) [0, 1, 0, 1, 0, 0] ([asking CHR ''a'', asking CHR ''b''], session_world)"
  obtain qs w where c: "?c = (qs, w)" by (cases ?c)
  have run: "(interleaved (refresh_serve sample_config) (exec_account sample_config))\<^sup>*\<^sup>*
      ([asking CHR ''a'', asking CHR ''b''], session_world) (qs, w)"
    unfolding c [symmetric] by (rule serve_all_run) simp
  have won: "\<exists>stored pair. rq_phase (fst ?c ! 0) = RefreshWon stored pair"
    and raws: "rq_raw (fst ?c ! 0) = rq_raw (fst ?c ! 1)" and len: "length (fst ?c) = 2"
    by (simp_all add: session_eval)
  have u: "unique_secrets session_world" by (simp add: unique_secrets_def session_defs)
  have "\<nexists>stored pair. rq_phase (qs ! 1) = RefreshWon stored pair"
  proof
    assume "\<exists>stored pair. rq_phase (qs ! 1) = RefreshWon stored pair"
    then obtain s p where p1: "rq_phase (qs ! 1) = RefreshWon s p" by blast
    obtain s' p' where p0: "rq_phase (qs ! 0) = RefreshWon s' p'" using won c by auto
    have "(0::nat) = 1"
      by (rule refresh_token_rotates_once [OF run u _ _ _ _ p0 p1]) (use raws len c in \<open>simp_all add: asking_def\<close>)
    then show False by simp
  qed
  with won c show ?thesis by simp
qed

text \<open>
  C31: however requests that follow a mailed link interleave, with each other and with any other
  operations on accounts, at most one request with the same secret signs in.
\<close>

theorem magic_link_signs_in_once:
  assumes "(interleaved (link_serve cfg) (exec_account cfg))\<^sup>*\<^sup>* (qs, w) (qs', w')"
    and "unique_secrets w" and "\<forall>q \<in> set qs. lq_phase q = LinkStart"
    and "i < length qs'" and "j < length qs'" and "lq_raw (qs' ! i) = lq_raw (qs' ! j)"
    and "lq_phase (qs' ! i) = LinkWon link result" and "lq_phase (qs' ! j) = LinkWon link' result'"
  shows "i = j"
  by (rule following.at_most_one_past [OF assms(1,2)]) (use assms in simp_all)

lemmas following_eval = session_defs proceed_def link_serve_def check_link_def lower_def lower_char_def accept_link_def
  consume_link_def count_where_def upsert_user_def find_email_def unique_users_def unique_rows_def google_ids_def
  new_user_def email_local_def finish_link_def login_as_def record_audit_def emit_def issueTokens_def Let_def
  insert_refresh_def refresh_of_def input_of_def if_truthy_def redirectPath_def atomically_def and_then_def

theorem magic_link_signs_in_once_witness:
  "(case serve_all (link_serve sample_config) [0, 1, 0, 1, 0] ([visiting CHR ''a'', visiting CHR ''b''], session_world) of
     (qs, w) \<Rightarrow> (\<exists>link result. lq_phase (qs ! 0) = LinkWon link result) \<and>
       (\<nexists>link result. lq_phase (qs ! 1) = LinkWon link result))"
proof -
  let ?c = "serve_all (link_serve sample_config) [0, 1, 0, 1, 0] ([visiting CHR ''a'', visiting CHR ''b''], session_world)"
  obtain qs w where c: "?c = (qs, w)" by (cases ?c)
  have run: "(interleaved (link_serve sample_config) (exec_account sample_config))\<^sup>*\<^sup>*
      ([visiting CHR ''a'', visiting CHR ''b''], session_world) (qs, w)"
    unfolding c [symmetric] by (rule serve_all_run) simp
  have won: "\<exists>link result. lq_phase (fst ?c ! 0) = LinkWon link result"
    and raws: "lq_raw (fst ?c ! 0) = lq_raw (fst ?c ! 1)" and len: "length (fst ?c) = 2"
    by (simp_all add: following_eval)
  have u: "unique_secrets session_world" by (simp add: unique_secrets_def session_defs)
  have "\<nexists>link result. lq_phase (qs ! 1) = LinkWon link result"
  proof
    assume "\<exists>link result. lq_phase (qs ! 1) = LinkWon link result"
    then obtain s p where p1: "lq_phase (qs ! 1) = LinkWon s p" by blast
    obtain s' p' where p0: "lq_phase (qs ! 0) = LinkWon s' p'" using won c by auto
    have "(0::nat) = 1"
      by (rule magic_link_signs_in_once [OF run u _ _ _ _ p0 p1]) (use raws len c in \<open>simp_all add: visiting_def\<close>)
    then show False by simp
  qed
  with won c show ?thesis by simp
qed

text \<open>
  What reuse detection misses. A rotated token is revoked, so it is refused before the branch that
  would revoke the others; and when two requests race for a token, the loser revokes what there is
  before the winner stores its new one, which stays good.
\<close>

theorem rotated_token_raises_no_alarm:
  assumes "account_inv cfg w" and "find_row rt_tokenHash (sha256 cfg raw) (refreshTokens w) = Some stored"
    and "rt_rotatedToId stored \<noteq> None"
  shows "refresh cfg e raw ip ua w = (Inl (Unauthorized ''Refresh token revoked''), w)"
proof -
  have "stored \<in> set (refreshTokens w)" using find_row_SomeD [OF assms(2)] by simp
  then have "rt_revokedAt stored \<noteq> None" using assms(1,3) by (auto simp: account_inv_def tokens_ok_def)
  then show ?thesis using assms(2) by (auto simp: refresh_def read_refresh_def require_def)
qed

theorem race_leaves_a_live_token:
  "case serve_all (refresh_serve sample_config) [0, 1, 0, 1, 0, 0] ([asking CHR ''a'', asking CHR ''b''], session_world) of
     (qs, w) \<Rightarrow> rq_phase (qs ! 1) = RefreshFailed reuse_error \<and>
       list_ex (\<lambda>r. rt_userId r = ''U'' \<and> rt_revokedAt r = None \<and> rt_createdAt r < rt_expiresAt r) (refreshTokens w)"
  by (simp add: session_eval)

section \<open>What a sign-in needs\<close>

text \<open>The new token is stored by its hash, and no other account gets a live token.\<close>

definition live_for :: "string \<Rightarrow> world \<Rightarrow> bool" where
  "live_for uid w \<longleftrightarrow> (\<exists>r \<in> set (refreshTokens w). rt_userId r = uid \<and> rt_revokedAt r = None)"

definition issued :: "auth_config \<Rightarrow> user_row \<Rightarrow> token_pair \<Rightarrow> world \<Rightarrow> world \<Rightarrow> bool" where
  "issued cfg u pair w w' \<longleftrightarrow>
     (\<exists>r \<in> set (refreshTokens w'). rt_id r \<notin> rt_id ` set (refreshTokens w) \<and>
       rt_userId r = u_id u \<and> rt_tokenHash r = sha256 cfg (refreshToken pair) \<and> rt_revokedAt r = None) \<and>
     (\<forall>uid. live_for uid w' \<longrightarrow> uid = u_id u \<or> live_for uid w)"

definition sign_in_result :: "auth_config \<Rightarrow> account_op \<Rightarrow> world \<Rightarrow> token_pair res option" where
  "sign_in_result cfg op w = (case op of
     OpGoogle e profile ip \<Rightarrow> Some (fst (loginWithGoogle cfg e profile ip w))
   | OpVerifyLink e email raw ip \<Rightarrow> Some (and_then (fst (verifyMagicLink cfg e email raw ip w)) (\<lambda>r. Inr (fst r)))
   | OpRefresh e raw ip ua \<Rightarrow> Some (fst (refresh cfg e raw ip ua w))
   | OpIssueFor e who ip ua \<Rightarrow> Some (fst (issueTokensForUser cfg e who ip ua w))
   | OpDevLogin e who \<Rightarrow> Some (fst (devLoginFor cfg e who w))
   | OpDevLoginByEmail e email ip \<Rightarrow> Some (fst (devLoginByEmail cfg e email ip w))
   | OpDevPersona e p ip \<Rightarrow> Some (fst (devLoginAsPersona cfg e p ip w))
   | _ \<Rightarrow> None)"

definition sign_in_grounds :: "auth_config \<Rightarrow> account_op \<Rightarrow> world \<Rightarrow> user_row \<Rightarrow> bool" where
  "sign_in_grounds cfg op w u \<longleftrightarrow> (case op of
     OpGoogle e profile ip \<Rightarrow> citext cfg (u_email u) = citext cfg (gp_email profile)
   | OpVerifyLink e email raw ip \<Rightarrow> citext cfg (u_email u) = citext cfg email \<and>
       (\<exists>l \<in> set (magicLinks w). ml_tokenHash l = sha256 cfg raw \<and> lower (ml_email l) = lower email \<and>
          ml_usedAt l = None \<and> clk e 0 \<le> ml_expiresAt l)
   | OpRefresh e raw ip ua \<Rightarrow>
       (\<exists>r \<in> set (refreshTokens w). rt_tokenHash r = sha256 cfg raw \<and> rt_userId r = u_id u \<and>
          rt_revokedAt r = None \<and> clk e 0 \<le> rt_expiresAt r)
   | OpIssueFor e who ip ua \<Rightarrow> u_id u = who
   | OpDevLogin e who \<Rightarrow> u_id u = who \<and> DEV_AUTH_ENABLED cfg
   | OpDevLoginByEmail e email ip \<Rightarrow> citext cfg (u_email u) = citext cfg (lower email) \<and> DEV_AUTH_ENABLED cfg
   | _ \<Rightarrow> DEV_AUTH_ENABLED cfg)"

text \<open>The development login by id is the one way in that does not look at \<open>archivedAt\<close>.\<close>

definition skips_archive_check :: "account_op \<Rightarrow> bool" where
  "skips_archive_check op = (case op of OpDevLogin _ _ \<Rightarrow> True | _ \<Rightarrow> False)"

lemma issue_issued:
  assumes "issueTokens cfg e n i (input_of u ip ua) w = (Inr pair, w')"
  shows "issued cfg u pair w w' \<and> users w' = users w"
proof -
  note t = issue_tokens [OF assms]
  have "users w' = users w"
    using assms unfolding issueTokens_def Let_def by (auto simp: then_do_Inr insert_refresh_def attempt_Inr)
  moreover have "refresh_of cfg e n i (input_of u ip ua) \<in> set (refreshTokens w')" using t by simp
  moreover have "distinct (map rt_id (refreshTokens w @ [refresh_of cfg e n i (input_of u ip ua)]))" using t by metis
  then have "rt_id (refresh_of cfg e n i (input_of u ip ua)) \<notin> rt_id ` set (refreshTokens w)" by simp
  moreover have "live_for uid w' \<longrightarrow> uid = u_id u \<or> live_for uid w" for uid
    using t by (auto simp: live_for_def refresh_of_def input_of_def)
  ultimately show ?thesis
    using t unfolding issued_def
    by (intro conjI allI bexI [of _ "refresh_of cfg e n i (input_of u ip ua)"]) (simp_all add: refresh_of_def input_of_def)
qed

lemma login_issued:
  "login_as cfg e n i label act pn md ip u w = (Inr pair, w') \<Longrightarrow> issued cfg u pair w w' \<and> users w' = users w"
  using issue_issued [of cfg e "n + 1" i u ip None] by (fastforce simp: login_as_def issued_def live_for_def record_audit_def)

lemma upsert_ok:
  assumes "upsert_user cfg email upd new w = (Inr u, w')" and "\<And>x. u_email (upd x) = u_email x"
    and "citext cfg (u_email new) = citext cfg email"
  shows "u \<in> set (users w') \<and> citext cfg (u_email u) = citext cfg email \<and>
     refreshTokens w' = refreshTokens w \<and> magicLinks w' = magicLinks w"
proof (cases "find_email cfg w email")
  case None
  with assms show ?thesis by (auto simp: upsert_user_def attempt_Inr unique_users_Inr)
next
  case (Some x)
  then have "x \<in> set (users w)" "citext cfg (u_email x) = citext cfg email" by (simp_all add: find_emailD)
  with Some assms show ?thesis
    by (auto simp: upsert_user_def attempt_Inr unique_users_Inr set_update_where)
qed

lemma join_team_frame:
  "join_team i user team w = (r, w') \<Longrightarrow> users w' = users w \<and> refreshTokens w' = refreshTokens w"
  by (cases team) (auto simp: join_team_def Let_def attempt_def split: sum.splits)

lemma open_projects_frame:
  "users (open_projects f u r w) = users w" "refreshTokens (open_projects f u r w) = refreshTokens w"
  by (simp_all add: open_projects_def Let_def)

lemma issued_frame: "issued cfg u pair w w' \<Longrightarrow> refreshTokens w0 = refreshTokens w \<Longrightarrow> issued cfg u pair w0 w'"
  by (simp add: issued_def live_for_def)

definition signed_in :: "auth_config \<Rightarrow> account_op \<Rightarrow> token_pair \<Rightarrow> world \<Rightarrow> world \<Rightarrow> bool" where
  "signed_in cfg op pair w w' \<longleftrightarrow> (\<exists>u \<in> set (users w'). (u_archivedAt u = None \<or> skips_archive_check op) \<and>
     sign_in_grounds cfg op w u \<and> issued cfg u pair w w')"

lemma signed_inI:
  "u \<in> set (users w') \<Longrightarrow> u_archivedAt u = None \<or> skips_archive_check op \<Longrightarrow> sign_in_grounds cfg op w u \<Longrightarrow> issued cfg u pair w w' \<Longrightarrow>
     signed_in cfg op pair w w'"
  unfolding signed_in_def by blast

lemma issue_for_signed_in:
  assumes "issueTokensForUser cfg e who ip ua w = (Inr pair, w')"
  shows "signed_in cfg (OpIssueFor e who ip ua) pair w w'"
proof -
  obtain u where u: "find_user w who = Some u" "u_archivedAt u = None"
    and i: "issueTokens cfg e 0 0 (input_of u (if_truthy ip) (if_truthy ua)) w = (Inr pair, w')"
    using assms by (auto simp: issueTokensForUser_def attempt_Inr)
  from issue_issued [OF i] find_userD [OF u(1)] u(2) show ?thesis
    by (intro signed_inI [of u]) (simp_all add: sign_in_grounds_def)
qed

lemma dev_login_signed_in:
  assumes "devLoginFor cfg e who w = (Inr pair, w')"
  shows "signed_in cfg (OpDevLogin e who) pair w w'"
proof -
  obtain u where u: "find_user w who = Some u" and d: "DEV_AUTH_ENABLED cfg"
    and i: "issueTokens cfg e 0 0 (input_of u None None) w = (Inr pair, w')"
    using assms by (auto simp: devLoginFor_def attempt_Inr assertDevAuthAllowed_def)
  from issue_issued [OF i] find_userD [OF u] d show ?thesis
    by (intro signed_inI [of u]) (simp_all add: sign_in_grounds_def skips_archive_check_def)
qed

lemma google_signed_in:
  assumes "loginWithGoogle cfg e profile ip w = (Inr pair, w')"
  shows "signed_in cfg (OpGoogle e profile ip) pair w w'"
proof -
  obtain u w1 upd new where up: "upsert_user cfg (gp_email profile) upd new w = (Inr u, w1)" "u_archivedAt u = None"
      "\<And>x. u_email (upd x) = u_email x" "u_email new = gp_email profile"
    and l: "login_as cfg e 1 1 ''google'' LoginGoogle None None ip u w1 = (Inr pair, w')"
    using assms by (fastforce simp: loginWithGoogle_def then_do_Inr attempt_Inr)
  from up have "u \<in> set (users w1) \<and> citext cfg (u_email u) = citext cfg (gp_email profile) \<and> refreshTokens w1 = refreshTokens w"
    using upsert_ok [OF up(1)] by simp
  with login_issued [OF l] up(2) show ?thesis
    by (intro signed_inI [of u]) (auto simp: sign_in_grounds_def intro: issued_frame)
qed

lemma dev_email_signed_in:
  assumes "devLoginByEmail cfg e email ip w = (Inr pair, w')"
  shows "signed_in cfg (OpDevLoginByEmail e email ip) pair w w'"
proof -
  obtain u w1 new where up: "upsert_user cfg (lower email) id new w = (Inr u, w1)" "u_archivedAt u = None" "u_email new = lower email"
    and l: "login_as cfg e 1 1 ''dev_login'' LoginDev None None ip u w1 = (Inr pair, w')" and d: "DEV_AUTH_ENABLED cfg"
    using assms by (fastforce simp: devLoginByEmail_def Let_def then_do_Inr attempt_Inr assertDevAuthAllowed_def)
  from up have "u \<in> set (users w1) \<and> citext cfg (u_email u) = citext cfg (lower email) \<and> refreshTokens w1 = refreshTokens w"
    using upsert_ok [OF up(1)] by simp
  with login_issued [OF l] up(2) d show ?thesis
    by (intro signed_inI [of u]) (auto simp: sign_in_grounds_def intro: issued_frame)
qed

lemma persona_signed_in:
  assumes "devLoginAsPersona cfg e p ip w = (Inr pair, w')"
  shows "signed_in cfg (OpDevPersona e p ip) pair w w'"
proof -
  let ?spec = "persona_specs (GOOGLE_OAUTH_ALLOWED_DOMAIN cfg) (persona_key p)"
  obtain u w1 new w2 x where up: "upsert_user cfg (ps_email ?spec) id new w = (Inr u, w1)" "u_archivedAt u = None"
      "u_email new = ps_email ?spec"
    and team: "(case ps_team ?spec of None \<Rightarrow> (Inr (), w1) | Some t \<Rightarrow> join_team (uuid e 1) u t w1) = (Inr x, w2)"
    and l: "login_as cfg e 1 2 ''dev_login'' LoginDev (Some (persona_name p)) (Some [(''persona'', JStr (persona_name p))]) ip u
      (case ps_guestRole ?spec of None \<Rightarrow> w2
        | Some role \<Rightarrow> if ps_kind ?spec = UClient then open_projects (\<lambda>k. uuid e (k + 3)) u role w2 else w2) = (Inr pair, w')"
    and d: "DEV_AUTH_ENABLED cfg"
    using assms unfolding devLoginAsPersona_def Let_def then_do_Inr attempt_Inr assertDevAuthAllowed_def by fastforce
  let ?w3 = "case ps_guestRole ?spec of None \<Rightarrow> w2
     | Some role \<Rightarrow> if ps_kind ?spec = UClient then open_projects (\<lambda>k. uuid e (k + 3)) u role w2 else w2"
  have w3: "users ?w3 = users w2 \<and> refreshTokens ?w3 = refreshTokens w2"
    by (simp add: open_projects_frame split: option.split)
  have w2: "users w2 = users w1 \<and> refreshTokens w2 = refreshTokens w1"
    using team join_team_frame by (cases "ps_team ?spec") auto
  from up have "u \<in> set (users w1) \<and> refreshTokens w1 = refreshTokens w" using upsert_ok [OF up(1)] by simp
  with login_issued [OF l] up(2) d w2 w3 show ?thesis
    by (intro signed_inI [of u]) (auto simp: sign_in_grounds_def intro: issued_frame)
qed

lemma link_signed_in:
  assumes "verifyMagicLink cfg e email raw ip w = (Inr result, w')"
  shows "signed_in cfg (OpVerifyLink e email raw ip) (fst result) w w'"
proof -
  obtain link u w1 where ck: "check_link cfg (clk e 0) email raw w = Inr link"
    and acc: "accept_link cfg e link email w = (Inr u, w1)" and fin: "finish_link cfg e link ip u w1 = (Inr result, w')"
    using assms by (auto simp: verifyMagicLink_def attempt_Inr then_do_Inr)
  obtain w0 where c: "consume_link (ml_id link) (clk e 1) w = Some w0"
    and up: "upsert_user cfg email id (new_user (uuid e 0) (clk e 2) email (email_local email) UClient None) w0 = (Inr u, w1)"
    using acc by (auto simp: accept_link_def split: option.splits)
  have "refreshTokens w0 = refreshTokens w" using c by (auto simp: consume_link_def split: if_splits)
  moreover have "u \<in> set (users w1) \<and> citext cfg (u_email u) = citext cfg email \<and> refreshTokens w1 = refreshTokens w0"
    using upsert_ok [OF up] by simp
  moreover obtain pair where l: "login_as cfg e 3 1 ''magic_link'' LoginMagicLink None None ip u w1 = (Inr pair, w')"
    and pair: "fst result = pair" and live: "u_archivedAt u = None"
    using fin by (auto simp: finish_link_def attempt_Inr then_do_Inr)
  moreover have "link \<in> set (magicLinks w) \<and> ml_tokenHash link = sha256 cfg raw \<and> lower (ml_email link) = lower email \<and>
      ml_usedAt link = None \<and> clk e 0 \<le> ml_expiresAt link"
    using ck find_row_SomeD [of ml_tokenHash "sha256 cfg raw" "magicLinks w"]
    by (auto simp: check_link_def split: option.splits if_splits)
  ultimately show ?thesis
    using login_issued [OF l] by (intro signed_inI [of u]) (auto simp: sign_in_grounds_def intro: issued_frame)
qed

lemma refresh_signed_in:
  assumes inv: "account_inv cfg w" and ok: "refresh cfg e raw ip ua w = (Inr pair, w')"
  shows "signed_in cfg (OpRefresh e raw ip ua) pair w w'"
proof -
  obtain stored u w1 pair' w2 where rd: "read_refresh cfg (clk e 0) raw w = Inr (stored, u)" and live: "u_archivedAt u = None"
    and c: "claim_refresh (rt_id stored) (clk e 1) w = Some w1"
    and i: "issueTokens cfg e 2 0 (input_of u ip ua) w1 = (Inr pair', w2)"
    and s: "link_successor cfg stored pair' w2 = (Inr pair, w')"
    using ok by (auto simp: refresh_def attempt_Inr then_do_Inr reuse_detected_def race_lost_def Let_def
        split: prod.splits if_splits option.splits)
  have st: "stored \<in> set (refreshTokens w)" "rt_tokenHash stored = sha256 cfg raw" "rt_revokedAt stored = None"
      "clk e 0 \<le> rt_expiresAt stored" "u \<in> set (users w)" "u_id u = rt_userId stored"
    using rd find_row_SomeD [of rt_tokenHash "sha256 cfg raw" "refreshTokens w"] find_userD [of w "rt_userId stored" u]
    by (auto simp: read_refresh_def and_then_Inr)
  have w1: "users w1 = users w" "map rt_id (refreshTokens w1) = map rt_id (refreshTokens w)"
    using c by (auto elim!: claim_refreshE simp: revoking.keys_kept)
  from w1(2) have ids: "rt_id ` set (refreshTokens w1) = rt_id ` set (refreshTokens w)" by (metis list.set_map)
  have w': "pair = pair'" "users w' = users w2" and t': "\<exists>x. refreshTokens w' = update_where (\<lambda>r. rt_id r = rt_id stored)
      (\<lambda>r. r\<lparr>rt_rotatedToId := Some x\<rparr>) (refreshTokens w2)"
    using s by (auto simp: link_successor_def attempt_Inr)
  obtain r where r: "r \<in> set (refreshTokens w2)" "rt_id r \<notin> rt_id ` set (refreshTokens w1)" "rt_userId r = u_id u"
      "rt_tokenHash r = sha256 cfg (refreshToken pair')" "rt_revokedAt r = None"
    using issue_issued [OF i] by (auto simp: issued_def)
  have "rt_id r \<noteq> rt_id stored" using r(2) st(1) ids by auto
  then have "r \<in> set (refreshTokens w')" using t' r(1) by (auto simp: in_update_where)
  moreover have "live_for uid w' \<longrightarrow> uid = u_id u \<or> live_for uid w" for uid
  proof
    assume "live_for uid w'"
    then have "live_for uid w2" using t' by (fastforce simp: live_for_def in_update_where)
    then have "uid = u_id u \<or> live_for uid w1" using issue_issued [OF i] by (simp add: issued_def)
    moreover have "live_for uid w1 \<Longrightarrow> live_for uid w" using c by (fastforce elim!: claim_refreshE simp: live_for_def in_update_where)
    ultimately show "uid = u_id u \<or> live_for uid w" by blast
  qed
  ultimately have "issued cfg u pair w w'" using r ids w'(1) unfolding issued_def by auto
  moreover have "u \<in> set (users w')" using st(5) w1(1) w'(2) issue_issued [OF i] by simp
  ultimately show ?thesis using live st
    by (intro signed_inI [of u]) (auto simp: sign_in_grounds_def)
qed

lemma sign_in_signed_in:
  assumes "account_inv cfg w" and "sign_in_result cfg op w = Some (Inr pair)"
  shows "signed_in cfg op pair w (exec_account cfg op w)"
proof (cases op)
  case (OpGoogle e profile ip)
  with assms show ?thesis
    by (cases "loginWithGoogle cfg e profile ip w") (auto simp: sign_in_result_def intro: google_signed_in)
next
  case (OpVerifyLink e email raw ip)
  with assms obtain result where "fst (verifyMagicLink cfg e email raw ip w) = Inr result" "pair = fst result"
    by (auto simp: sign_in_result_def and_then_Inr)
  with OpVerifyLink show ?thesis
    by (cases "verifyMagicLink cfg e email raw ip w") (auto intro: link_signed_in)
next
  case (OpRefresh e raw ip ua)
  with assms show ?thesis
    by (cases "refresh cfg e raw ip ua w") (auto simp: sign_in_result_def intro: refresh_signed_in)
next
  case (OpIssueFor e who ip ua)
  with assms show ?thesis
    by (cases "issueTokensForUser cfg e who ip ua w") (auto simp: sign_in_result_def intro: issue_for_signed_in)
next
  case (OpDevLogin e who)
  with assms show ?thesis
    by (cases "devLoginFor cfg e who w") (auto simp: sign_in_result_def intro: dev_login_signed_in)
next
  case (OpDevLoginByEmail e email ip)
  with assms show ?thesis
    by (cases "devLoginByEmail cfg e email ip w") (auto simp: sign_in_result_def intro: dev_email_signed_in)
next
  case (OpDevPersona e p ip)
  with assms show ?thesis
    by (cases "devLoginAsPersona cfg e p ip w") (auto simp: sign_in_result_def intro: persona_signed_in)
qed (use assms in \<open>simp_all add: sign_in_result_def\<close>)

text \<open>
  C32: every operation that gives out tokens gives them for one account of the table, stores the hash of
  the new refresh token for that account and leaves no other account with a live token it did not have
  before. It rests on what its way asks for: the email Google vouches for, an unused link that has not
  expired and was sent to the same address, a refresh token of the same account that is neither revoked
  nor expired, the id the caller of \<open>issueTokensForUser\<close> names, or the development switch. The account
  is not archived, except in the development login by id, which does not ask.
\<close>

theorem sign_in_needs_live_account:
  assumes "account_inv cfg w" and "sign_in_result cfg op w = Some (Inr pair)"
  shows "signed_in cfg op pair w (exec_account cfg op w)"
  using assms by (rule sign_in_signed_in)

lemmas session_inv_eval = account_inv_def users_ok_def tokens_ok_def links_ok_def teams_ok_def google_ids_def

theorem sign_in_needs_live_account_witness:
  "\<exists>pair. signed_in sample_config (OpVerifyLink (sample_request CHR ''a'') ''u@x'' ''mail'' None) pair session_world
     (exec_account sample_config (OpVerifyLink (sample_request CHR ''a'') ''u@x'' ''mail'' None) session_world)"
proof -
  let ?op = "OpVerifyLink (sample_request CHR ''a'') ''u@x'' ''mail'' None"
  have inv: "account_inv sample_config session_world" by (simp add: session_inv_eval session_defs)
  have "\<exists>pair. sign_in_result sample_config ?op session_world = Some (Inr pair)"
    by (simp add: sign_in_result_def verifyMagicLink_def then_do_def following_eval)
  then show ?thesis using sign_in_needs_live_account [OF inv, of ?op] by blast
qed

end
