(* ===== verification/UserLaws.thy ===== *)
theory UserLaws
  imports SignIn
begin

text \<open>
  What the administration of accounts may do and to whom: roles, kinds and archiving change only by
  the operations meant for it; an archived user is shut out; the access that is shown for a user is
  the access the guards grant; the pages of the user list together are the list; and an invitation
  leaves one link that works.
\<close>

section \<open>Standing of an account\<close>

definition standing_kept :: "world \<Rightarrow> world \<Rightarrow> bool" where
  "standing_kept w w' \<longleftrightarrow> (\<forall>u \<in> set (users w). \<exists>u' \<in> set (users w'). u_id u' = u_id u \<and> u_kind u' = u_kind u \<and>
     u_companyRole u' = u_companyRole u \<and> u_archivedAt u' = u_archivedAt u \<and> u_email u' = u_email u)"

lemma standing_refl [simp]: "standing_kept w w"
  unfolding standing_kept_def by blast

lemma standing_trans: "standing_kept a b \<Longrightarrow> standing_kept b c \<Longrightarrow> standing_kept a c"
  unfolding standing_kept_def by metis

lemma standing_users: "users w' = users w \<Longrightarrow> standing_kept w0 w' = standing_kept w0 w"
  by (simp add: standing_kept_def)

lemma standing_simps [simp]:
  "standing_kept w0 (emit ev w) = standing_kept w0 w"
  "standing_kept w0 (record_audit uid act ip ua md now w) = standing_kept w0 w"
  "standing_kept w0 (w\<lparr>refreshTokens := rs\<rparr>) = standing_kept w0 w"
  "standing_kept w0 (w\<lparr>magicLinks := ls\<rparr>) = standing_kept w0 w"
  "standing_kept w0 (w\<lparr>teams := tms\<rparr>) = standing_kept w0 w"
  "standing_kept w0 (w\<lparr>teamMembers := ms\<rparr>) = standing_kept w0 w"
  "standing_kept w0 (w\<lparr>accessGrants := gs\<rparr>) = standing_kept w0 w"
  "standing_kept w0 (w\<lparr>tasks := ts\<rparr>) = standing_kept w0 w"
  "standing_kept w0 (w\<lparr>mentions := mns\<rparr>) = standing_kept w0 w"
  "standing_kept w0 (w\<lparr>dashboardAccess := das\<rparr>) = standing_kept w0 w"
  "standing_kept w0 (w\<lparr>outbox := bs\<rparr>) = standing_kept w0 w"
  "standing_kept w0 (w\<lparr>revokedJtis := js\<rparr>) = standing_kept w0 w"
  by (rule standing_users; simp add: record_audit_def)+

lemmas standing_attempt = attempt_inv [where P = "standing_kept w0" for w0]

lemmas standing_then_do = then_do_inv [where P = "standing_kept w0" for w0]

lemmas standing_atomically = atomically_inv [where P = "standing_kept w0" for w0]

lemma standing_write:
  assumes "standing_kept w0 w"
    and "\<And>u. u_id (f u) = u_id u \<and> u_kind (f u) = u_kind u \<and> u_companyRole (f u) = u_companyRole u \<and> u_archivedAt (f u) = u_archivedAt u \<and> u_email (f u) = u_email u"
  shows "standing_kept w0 (w\<lparr>users := update_where P f (users w)\<rparr>)"
proof (rule standing_trans [OF assms(1)])
  show "standing_kept w (w\<lparr>users := update_where P f (users w)\<rparr>)"
    unfolding standing_kept_def
  proof
    fix u assume "u \<in> set (users w)"
    then show "\<exists>u' \<in> set (users (w\<lparr>users := update_where P f (users w)\<rparr>)). u_id u' = u_id u \<and> u_kind u' = u_kind u \<and>
        u_companyRole u' = u_companyRole u \<and> u_archivedAt u' = u_archivedAt u \<and> u_email u' = u_email u"
      using assms(2) by (intro bexI [of _ "if P u then f u else u"]) (auto simp: set_update_where)
  qed
qed

lemma standing_write_user:
  assumes "standing_kept w0 w"
    and "\<And>u. u_id (f u) = u_id u \<and> u_kind (f u) = u_kind u \<and> u_companyRole (f u) = u_companyRole u \<and> u_archivedAt (f u) = u_archivedAt u \<and> u_email (f u) = u_email u"
  shows "standing_kept w0 (snd (write_user uid f w))"
  using assms by (auto simp: write_user_def split: option.split intro: standing_write)

lemma standing_add: "standing_kept w0 w \<Longrightarrow> standing_kept w0 (w\<lparr>users := users w @ [u]\<rparr>)"
  by (erule standing_trans) (force simp: standing_kept_def)

lemma upsert_standing:
  assumes "standing_kept w0 w"
    and "\<And>u. u_id (upd u) = u_id u \<and> u_kind (upd u) = u_kind u \<and> u_companyRole (upd u) = u_companyRole u \<and> u_archivedAt (upd u) = u_archivedAt u \<and> u_email (upd u) = u_email u"
  shows "standing_kept w0 (snd (upsert_user cfg email upd new w))"
  using assms by (cases "find_email cfg w email")
    (auto simp: upsert_user_def unique_users_Inr intro!: standing_attempt standing_write standing_add)

lemma insert_refresh_users: "users (snd (insert_refresh r w)) = users w"
  by (auto simp: insert_refresh_def attempt_def split: sum.split)

lemma issue_standing: "standing_kept w0 w \<Longrightarrow> standing_kept w0 (snd (issueTokens cfg e n i input w))"
  unfolding issueTokens_def Let_def
  by (rule standing_then_do) (auto simp: standing_users [OF insert_refresh_users])

lemma login_standing: "standing_kept w0 w \<Longrightarrow> standing_kept w0 (snd (login_as cfg e n i label act pn md ip user w))"
  by (simp add: login_as_def issue_standing)

lemma insert_link_users: "users (snd (insert_link l w)) = users w"
  by (auto simp: insert_link_def attempt_def split: sum.split)

lemma insert_link_standing: "standing_kept w0 w \<Longrightarrow> standing_kept w0 (snd (insert_link l w))"
  by (simp add: standing_users [OF insert_link_users])

lemma send_mail_standing: "standing_kept w0 w \<Longrightarrow> standing_kept w0 (snd (send_mail e m w))"
  by (simp add: send_mail_def)

lemma request_standing: "standing_kept w0 w \<Longrightarrow> standing_kept w0 (snd (requestMagicLink cfg e n i email ip w))"
  unfolding requestMagicLink_def Let_def
  by (intro standing_attempt standing_then_do insert_link_standing send_mail_standing) simp_all

lemma invite_standing: "standing_kept w0 w \<Longrightarrow> standing_kept w0 (snd (sendProjectInvite cfg e n i args w))"
  unfolding sendProjectInvite_def Let_def expire_invites_def
  by (intro standing_attempt standing_then_do insert_link_standing send_mail_standing) simp_all

lemma claim_users: "claim_refresh rid now w = Some w' \<Longrightarrow> users w' = users w"
  by (auto elim!: claim_refreshE)

lemma consume_users: "consume_link lid now w = Some w' \<Longrightarrow> users w' = users w"
  by (auto simp: consume_link_def split: if_splits)

lemma refresh_standing:
  assumes "standing_kept w0 w"
  shows "standing_kept w0 (snd (refresh cfg e raw ip ua w))"
proof -
  have rev: "standing_kept w0 (revokeAllRefreshTokens uid now w)" for uid now
    using assms by (simp add: revokeAllRefreshTokens_def)
  have rot: "standing_kept w0 (snd (then_do (issueTokens cfg e 2 0 inp w1) (link_successor cfg stored)))"
    if "claim_refresh rid now w = Some w1" for rid now inp stored w1
    using assms standing_users [OF claim_users [OF that]]
    by (intro standing_then_do issue_standing) (auto simp: link_successor_def intro!: standing_attempt)
  show ?thesis
    using assms rev rot
    by (auto simp: refresh_def reuse_detected_def race_lost_def Let_def split: prod.split option.split intro!: standing_attempt)
qed

lemma accept_standing:
  assumes "standing_kept w0 w"
  shows "standing_kept w0 (snd (accept_link cfg e link email w))"
proof (cases "consume_link (ml_id link) (clk e 1) w")
  case (Some w1)
  with assms standing_users [OF consume_users [OF Some]] show ?thesis
    by (auto simp: accept_link_def intro!: standing_atomically upsert_standing)
qed (simp add: accept_link_def assms)

lemma verify_standing: "standing_kept w0 w \<Longrightarrow> standing_kept w0 (snd (verifyMagicLink cfg e email raw ip w))"
  unfolding verifyMagicLink_def finish_link_def
  by (intro standing_attempt standing_then_do accept_standing login_standing) simp_all

lemma login_operations_standing:
  "standing_kept w0 w \<Longrightarrow> standing_kept w0 (snd (loginWithGoogle cfg e profile ip w))"
  "standing_kept w0 w \<Longrightarrow> standing_kept w0 (snd (devLoginFor cfg e uid w))"
  "standing_kept w0 w \<Longrightarrow> standing_kept w0 (snd (issueTokensForUser cfg e uid ip ua w))"
  "standing_kept w0 w \<Longrightarrow> standing_kept w0 (snd (devLoginByEmail cfg e email ip w))"
  unfolding loginWithGoogle_def devLoginFor_def issueTokensForUser_def devLoginByEmail_def Let_def
  by (intro standing_attempt standing_then_do upsert_standing login_standing issue_standing; simp)+

lemma join_team_standing: "standing_kept w0 w \<Longrightarrow> standing_kept w0 (snd (join_team i user team w))"
  by (cases team) (auto simp: join_team_def Let_def intro!: standing_attempt)

lemma persona_standing:
  assumes "standing_kept w0 w"
  shows "standing_kept w0 (snd (devLoginAsPersona cfg e p ip w))"
proof -
  have team: "standing_kept w0 (snd (case t of None \<Rightarrow> (Inr (), w1) | Some x \<Rightarrow> join_team i u x w1))"
    if "standing_kept w0 w1" for t i u w1
    using that by (auto split: option.split intro: join_team_standing)
  have opened: "standing_kept w0 (case r of None \<Rightarrow> w1 | Some x \<Rightarrow> if b then open_projects f u x w1 else w1)"
    if "standing_kept w0 w1" for r b f u w1
    using that by (auto simp: open_projects_def Let_def split: option.split)
  show ?thesis
    unfolding devLoginAsPersona_def Let_def
    by (intro standing_attempt standing_then_do upsert_standing login_standing team opened) (use assms in simp_all)
qed

lemma session_standing:
  assumes "standing_kept w0 w"
  shows "standing_kept w0 (snd (logout cfg e jti raw who ip w))"
    and "standing_kept w0 (snd (revokeSession e uid sid ip ua w))"
    and "standing_kept w0 (snd (revokeOthers cfg e uid raw ip ua w))"
    and "standing_kept w0 (snd (validateJwt e payload w))"
proof -
  show "standing_kept w0 (snd (logout cfg e jti raw who ip w))"
    using assms by (auto simp: logout_def Let_def revoke_hash_def revokeJti_def split: option.split)
  show "standing_kept w0 (snd (revokeSession e uid sid ip ua w))"
    unfolding revokeSession_def using assms by (intro standing_attempt) auto
  show "standing_kept w0 (snd (revokeOthers cfg e uid raw ip ua w))"
    using assms by (simp add: revokeOthers_def Let_def)
  show "standing_kept w0 (snd (validateJwt e payload w))"
    unfolding validateJwt_def touchLastSeen_def using assms
    by (intro standing_attempt) (auto intro!: standing_write split: option.split)
qed

lemma profile_standing:
  assumes "standing_kept w0 w"
  shows "standing_kept w0 (snd (updateMyProfile actor nm url w))"
    and "standing_kept w0 (snd (updateMyPreferences actor h p w))"
proof -
  show "standing_kept w0 (snd (updateMyProfile actor nm url w))"
    unfolding updateMyProfile_def using assms
    by (intro standing_attempt) (auto intro!: standing_then_do standing_write_user simp: patch_profile_def)
  show "standing_kept w0 (snd (updateMyPreferences actor h p w))"
    unfolding updateMyPreferences_def using assms by (intro standing_attempt standing_write_user) auto
qed

lemma team_operations_standing:
  assumes "standing_kept w0 w"
  shows "standing_kept w0 (snd (setTeams actor uid ids w))"
    and "standing_kept w0 (snd (createTeam e actor slug label descr w))"
    and "standing_kept w0 (snd (updateTeam actor tid label' descr' w))"
    and "standing_kept w0 (snd (deleteTeam actor tid w))"
    and "standing_kept w0 (snd (addMember actor tid uid w))"
    and "standing_kept w0 (snd (removeMember actor tid uid w))"
  unfolding setTeams_def createTeam_def updateTeam_def deleteTeam_def addMember_def removeMember_def Let_def
  using assms by (auto intro!: standing_attempt simp: leave_teams_def)

lemma grant_guest_standing: "standing_kept w0 w \<Longrightarrow> standing_kept w0 (snd (grant_guest cfg e actor pid email nm role w))"
  unfolding grant_guest_def upsert_access_def Let_def
  by (auto intro!: standing_then_do standing_attempt upsert_standing split: option.split)

lemma send_invitation_standing:
  "standing_kept w0 w \<Longrightarrow> standing_kept w0 (snd (send_invitation cfg e actor p a email nm role granted w))"
  by (cases granted) (auto simp: send_invitation_def intro!: standing_then_do invite_standing)

lemma invitation_operations_standing:
  assumes "standing_kept w0 w"
  shows "standing_kept w0 (snd (inviteGuest cfg e actor address given w))"
    and "standing_kept w0 (snd (inviteProjectGuest cfg e actor pid address given role w))"
    and "standing_kept w0 (snd (resendPendingInvite cfg e actor lid w))"
    and "standing_kept w0 (snd (revokePendingInvite cfg e actor lid w))"
proof -
  show "standing_kept w0 (snd (inviteGuest cfg e actor address given w))"
    unfolding inviteGuest_def Let_def
    by (intro standing_attempt standing_then_do upsert_standing request_standing) (simp_all add: assms)
  show "standing_kept w0 (snd (inviteProjectGuest cfg e actor pid address given role w))"
    unfolding inviteProjectGuest_def Let_def
    by (intro standing_attempt standing_then_do standing_atomically grant_guest_standing send_invitation_standing) (simp_all add: assms)
  show "standing_kept w0 (snd (resendPendingInvite cfg e actor lid w))"
    unfolding resendPendingInvite_def Let_def
    by (intro standing_attempt standing_then_do invite_standing) (simp_all add: assms)
  show "standing_kept w0 (snd (revokePendingInvite cfg e actor lid w))"
    unfolding revokePendingInvite_def Let_def
    using assms by (intro standing_attempt) (auto split: option.split)
qed

text \<open>
  The operations that are meant to change the standing of a user, with who runs them on whom, and what
  each of them may change of it.
\<close>

fun standing_change :: "account_op \<Rightarrow> (auth_user \<times> string) option" where
  "standing_change (OpRole actor who _) = Some (actor, who)"
| "standing_change (OpKind actor who _) = Some (actor, who)"
| "standing_change (OpArchive _ actor who) = Some (actor, who)"
| "standing_change (OpUnarchive actor who) = Some (actor, who)"
| "standing_change (OpProfile actor who _ _) = Some (actor, who)"
| "standing_change _ = None"

fun allowed_change :: "account_op \<Rightarrow> user_row \<Rightarrow> user_row \<Rightarrow> bool" where
  "allowed_change (OpRole _ _ role) u v \<longleftrightarrow> u_companyRole v = Some role \<and> u_kind v = UInternal \<and>
     u_archivedAt v = u_archivedAt u \<and> u_email v = u_email u"
| "allowed_change (OpKind _ _ kind) u v \<longleftrightarrow> u_kind v = kind \<and>
     u_companyRole v = (if kind = UClient then None else Some Member) \<and> u_archivedAt v = u_archivedAt u \<and> u_email v = u_email u"
| "allowed_change (OpArchive _ _ _) u v \<longleftrightarrow> u_archivedAt v \<noteq> None \<and> u_kind v = u_kind u \<and>
     u_companyRole v = u_companyRole u \<and> u_email v = u_email u"
| "allowed_change (OpUnarchive _ _) u v \<longleftrightarrow> u_archivedAt v = None \<and> u_kind v = u_kind u \<and>
     u_companyRole v = u_companyRole u \<and> u_email v = u_email u"
| "allowed_change (OpProfile _ _ _ _) u v \<longleftrightarrow> u_kind v = u_kind u \<and> u_companyRole v = u_companyRole u \<and>
     u_archivedAt v = u_archivedAt u"
| "allowed_change _ u v \<longleftrightarrow> False"

definition on_own_account :: "account_op \<Rightarrow> bool" where
  "on_own_account op = (case op of OpArchive _ _ _ \<Rightarrow> False | OpKind _ _ _ \<Rightarrow> False | _ \<Rightarrow> True)"

lemma others_keep_standing: "standing_change op = None \<Longrightarrow> standing_kept w (exec_account cfg op w)"
  by (cases op) (simp_all add: login_operations_standing persona_standing session_standing profile_standing
      team_operations_standing invitation_operations_standing request_standing verify_standing refresh_standing)

lemma write_user_users:
  "users (snd (write_user uid f w)) = users w \<or> users (snd (write_user uid f w)) = update_where (\<lambda>u. u_id u = uid) f (users w)"
  by (simp add: write_user_def split: option.split)

text \<open>What an operation on one user does to the table.\<close>

definition changes_one :: "account_op \<Rightarrow> auth_user \<Rightarrow> string \<Rightarrow> world \<Rightarrow> world \<Rightarrow> bool" where
  "changes_one op actor who w w' \<longleftrightarrow> users w' = users w \<or>
     au_companyRole actor = Some Admin \<and> (au_id actor = who \<longrightarrow> on_own_account op) \<and>
     (\<exists>f. users w' = update_where (\<lambda>u. u_id u = who) f (users w) \<and>
        (\<forall>u \<in> set (users w). u_id (f u) = u_id u \<and> (u_id u = who \<longrightarrow> allowed_change op u (f u))))"

lemma changes_oneI:
  assumes "au_companyRole actor = Some Admin" and "au_id actor = who \<longrightarrow> on_own_account op"
    and "users w' = update_where (\<lambda>u. u_id u = who) f (users w)"
    and "\<And>u. u \<in> set (users w) \<Longrightarrow> u_id (f u) = u_id u"
    and "\<And>u. u \<in> set (users w) \<Longrightarrow> u_id u = who \<Longrightarrow> allowed_change op u (f u)"
  shows "changes_one op actor who w w'"
  using assms unfolding changes_one_def by blast

lemma changes_none: "users w' = users w \<Longrightarrow> changes_one op actor who w w'"
  by (simp add: changes_one_def)

lemma only_user:
  assumes "account_inv cfg w" and "find_user w who = Some u" and "x \<in> set (users w)" and "u_id x = who"
  shows "x = u"
  using assms find_userD [OF assms(2)] by (metis account_inv_def users_ok_def distinct_map inj_onD)

lemma change_role_one:
  assumes inv: "account_inv cfg w"
  shows "changes_one (OpRole actor who role) actor who w (snd (changeRole cfg' actor who role w))"
proof (cases "users (snd (changeRole cfg' actor who role w)) = users w")
  case False
  obtain u where u: "find_user w who = Some u" "au_companyRole actor = Some Admin"
    and us: "users (snd (changeRole cfg' actor who role w)) = update_where (\<lambda>u. u_id u = who)
      (\<lambda>r. r\<lparr>u_companyRole := Some role, u_kind := (if u_kind u = UClient then UInternal else u_kind r)\<rparr>) (users w)"
    using False by (auto simp: changeRole_def Let_def attempt_def then_do_def require_admin_def require_def write_user_def
        split: sum.splits option.splits if_splits)
  show ?thesis
    by (rule changes_oneI [OF u(2) _ us])
      (auto simp: on_own_account_def dest!: only_user [OF inv u(1)], metis user_kind.exhaust)
qed (rule changes_none)

lemma change_kind_one:
  "changes_one (OpKind actor who kind) actor who w (snd (changeKind cfg' actor who kind w))"
proof (cases "users (snd (changeKind cfg' actor who kind w)) = users w")
  case False
  then have a: "au_companyRole actor = Some Admin \<and> au_id actor \<noteq> who \<and>
     users (snd (changeKind cfg' actor who kind w)) = update_where (\<lambda>u. u_id u = who)
      (\<lambda>r. r\<lparr>u_kind := kind, u_companyRole := (if kind = UClient then None else Some Member)\<rparr>) (users w)"
    by (cases kind; auto simp: changeKind_def Let_def attempt_def then_do_def require_admin_def require_def write_user_def
        leave_teams_def split: sum.splits option.splits if_splits)
  show ?thesis by (rule changes_oneI [where f = "\<lambda>r. r\<lparr>u_kind := kind, u_companyRole := (if kind = UClient then None else Some Member)\<rparr>"])
      (use a in simp_all)
qed (rule changes_none)

lemma archive_one:
  "changes_one (OpArchive e actor who) actor who w (snd (archiveUser e actor who w))"
proof (cases "users (snd (archiveUser e actor who w)) = users w")
  case False
  then have a: "au_companyRole actor = Some Admin" "au_id actor \<noteq> who"
    and us: "users (snd (archiveUser e actor who w)) = update_where (\<lambda>u. u_id u = who)
      (\<lambda>r. r\<lparr>u_archivedAt := Some (clk e 0)\<rparr>) (users w)"
    by (auto simp: archiveUser_def attempt_def then_do_def require_admin_def require_def write_user_def
        revokeAllRefreshTokens_def split: sum.splits option.splits if_splits)
  show ?thesis by (rule changes_oneI [OF a(1) _ us]) (use a(2) in simp_all)
qed (rule changes_none)

lemma unarchive_one:
  "changes_one (OpUnarchive actor who) actor who w (snd (unarchiveUser actor who w))"
proof (cases "users (snd (unarchiveUser actor who w)) = users w")
  case False
  then have a: "au_companyRole actor = Some Admin"
    and us: "users (snd (unarchiveUser actor who w)) = update_where (\<lambda>u. u_id u = who) (\<lambda>r. r\<lparr>u_archivedAt := None\<rparr>) (users w)"
    by (auto simp: unarchiveUser_def attempt_def then_do_def require_admin_def require_def write_user_def
        split: sum.splits option.splits if_splits)
  show ?thesis by (rule changes_oneI [OF a _ us]) (simp_all add: on_own_account_def)
qed (rule changes_none)

lemma profile_one:
  "changes_one (OpProfile actor who nm em) actor who w (snd (updateProfile cfg' actor who nm em w))"
proof (cases "users (snd (updateProfile cfg' actor who nm em w)) = users w")
  case False
  then obtain nm' em' where a: "au_companyRole actor = Some Admin"
    and us: "users (snd (updateProfile cfg' actor who nm em w)) = update_where (\<lambda>u. u_id u = who)
      (\<lambda>u. u\<lparr>u_name := override nm' (u_name u), u_email := override em' (u_email u)\<rparr>) (users w)"
    by (auto simp: updateProfile_def Let_def attempt_def require_admin_def require_def unique_users_Inr
        split: sum.splits option.splits if_splits)
  show ?thesis by (rule changes_oneI [OF a _ us]) (simp_all add: on_own_account_def)
qed (rule changes_none)

lemma standing_change_effect:
  "account_inv cfg w \<Longrightarrow> standing_change op = Some (actor, who) \<Longrightarrow> changes_one op actor who w (exec_account cfg op w)"
  by (cases op) (auto simp: change_role_one change_kind_one archive_one unarchive_one profile_one)

text \<open>
  C34: the kind, the company role, the archiving and the email address of a user change only by the
  operation for that column, run on that user by an administrator: \<open>changeRole\<close> and \<open>changeKind\<close> set the
  role and the kind and leave the rest, \<open>archiveUser\<close> and \<open>unarchiveUser\<close> only the archiving,
  \<open>updateProfile\<close> only the address; nobody archives or converts the own account.
\<close>

theorem account_changes_are_authorised:
  assumes inv: "account_inv cfg w" and ok: "account_ok cfg op w"
    and u: "u \<in> set (users w)" and u': "u' \<in> set (users (exec_account cfg op w))" and same: "u_id u' = u_id u"
    and changed: "(u_kind u', u_companyRole u', u_archivedAt u', u_email u') \<noteq>
      (u_kind u, u_companyRole u, u_archivedAt u, u_email u)"
  shows "\<exists>actor. standing_change op = Some (actor, u_id u) \<and> au_companyRole actor = Some Admin \<and>
     allowed_change op u u' \<and> (au_id actor = u_id u \<longrightarrow> on_own_account op)"
proof (cases "standing_change op")
  case None
  have "account_inv cfg (exec_account cfg op w)" by (rule accounts.exec_inv [OF inv ok])
  then have d: "distinct (map u_id (users (exec_account cfg op w)))" by (simp add: account_inv_def users_ok_def)
  obtain v where v: "v \<in> set (users (exec_account cfg op w))" "u_id v = u_id u" "u_kind v = u_kind u"
      "u_companyRole v = u_companyRole u" "u_archivedAt v = u_archivedAt u" "u_email v = u_email u"
    using others_keep_standing [OF None, of w cfg] u unfolding standing_kept_def by blast
  have "v = u'" using d v(1,2) u' same by (metis distinct_map inj_onD)
  with v changed show ?thesis by simp
next
  case (Some x)
  obtain actor who where x: "x = (actor, who)" by (cases x)
  have d: "distinct (map u_id (users w))" using inv by (simp add: account_inv_def users_ok_def)
  have one: "r = u" if "r \<in> set (users w)" "u_id r = u_id u" for r using d that u by (metis distinct_map inj_onD)
  have "users (exec_account cfg op w) \<noteq> users w" using u' same changed one by metis
  then obtain f where f: "users (exec_account cfg op w) = update_where (\<lambda>u. u_id u = who) f (users w)"
      "\<And>r. r \<in> set (users w) \<Longrightarrow> u_id (f r) = u_id r"
      "\<And>r. r \<in> set (users w) \<Longrightarrow> u_id r = who \<Longrightarrow> allowed_change op r (f r)"
    and who: "au_companyRole actor = Some Admin" "au_id actor = who \<longrightarrow> on_own_account op"
    using standing_change_effect [OF inv Some [unfolded x]] unfolding changes_one_def by blast
  obtain r where r: "r \<in> set (users w)" "u' = (if u_id r = who then f r else r)"
    using u' unfolding f(1) set_update_where by blast
  have "r = u" using one [OF r(1)] f(2) [OF r(1)] r(2) same by (auto split: if_splits)
  with r changed have "u_id u = who" "u' = f u" by (auto split: if_splits)
  with f(3) [OF u] who Some x show ?thesis by blast
qed

definition office_world :: world where
  "office_world = empty_world\<lparr>users := [(sample_user ''A'')\<lparr>u_companyRole := Some Admin\<rparr>, sample_user ''U''],
     refreshTokens := [sample_refresh ''t1'' ''U'' ''hold'']\<rparr>"

lemmas office_defs = office_world_def sample_user_def empty_world_def sample_admin_def sample_config_def sample_request_def
  sample_refresh_def

theorem account_changes_are_authorised_witness:
  "\<exists>actor. standing_change (OpArchive (sample_request CHR ''a'') sample_admin ''U'') = Some (actor, ''U'') \<and>
     au_companyRole actor = Some Admin \<and> au_id actor \<noteq> ''U''"
proof -
  let ?op = "OpArchive (sample_request CHR ''a'') sample_admin ''U''"
  let ?u = "sample_user ''U''"
  let ?u' = "?u\<lparr>u_archivedAt := Some 1000\<rparr>"
  have inv: "account_inv sample_config office_world" by (simp add: session_inv_eval office_defs)
  have u: "?u \<in> set (users office_world)" by (simp add: office_defs)
  have u': "?u' \<in> set (users (exec_account sample_config ?op office_world))"
    by (simp add: archiveUser_def require_admin_def require_def write_user_def find_user_def then_do_def
        revokeAllRefreshTokens_def office_defs)
  have "u_id ?u = ''U''" by (simp add: sample_user_def)
  with account_changes_are_authorised [OF inv _ u u'] show ?thesis by (auto simp: sample_user_def on_own_account_def)
qed

definition is_archived :: "string \<Rightarrow> world \<Rightarrow> bool" where
  "is_archived uid w \<longleftrightarrow> (\<exists>u. find_user w uid = Some u \<and> u_archivedAt u \<noteq> None)"

lemma archived_iff:
  assumes "account_inv cfg w"
  shows "is_archived uid w \<longleftrightarrow> (\<exists>u \<in> set (users w). u_id u = uid \<and> u_archivedAt u \<noteq> None)"
proof -
  have "distinct (map u_id (users w))" using assms by (simp add: account_inv_def users_ok_def)
  from find_row_distinct [OF this] show ?thesis
    unfolding is_archived_def find_user_def by (metis find_row_SomeD)
qed

text \<open>Only \<open>unarchiveUser\<close> on the user ends an archiving.\<close>

lemma archived_kept:
  assumes inv: "account_inv cfg w" and ok: "account_ok cfg op w" and a: "is_archived uid w"
    and op: "\<And>actor. op \<noteq> OpUnarchive actor uid"
  shows "is_archived uid (exec_account cfg op w)"
proof -
  obtain u where u: "u \<in> set (users w)" "u_id u = uid" "u_archivedAt u \<noteq> None" using a archived_iff [OF inv] by blast
  have "\<exists>v \<in> set (users (exec_account cfg op w)). u_id v = uid \<and> u_archivedAt v \<noteq> None"
  proof (cases "standing_change op")
    case None
    from others_keep_standing [OF this, of w cfg] u show ?thesis unfolding standing_kept_def by metis
  next
    case (Some x)
    obtain actor who where x: "x = (actor, who)" by (cases x)
    from standing_change_effect [OF inv Some [unfolded x]] consider "users (exec_account cfg op w) = users w"
      | f where "users (exec_account cfg op w) = update_where (\<lambda>u. u_id u = who) f (users w)"
        "u_id (f u) = u_id u" "u_id u = who \<longrightarrow> allowed_change op u (f u)"
      unfolding changes_one_def using u(1) by blast
    then show ?thesis
    proof cases
      case 1
      with u show ?thesis by auto
    next
      case 2
      have "u_id u = who \<longrightarrow> u_archivedAt (f u) \<noteq> None" using 2(3) op Some x u(2,3) by (cases op) auto
      with 2(1,2) u show ?thesis unfolding 2(1) set_update_where
        by (intro bexI [of _ "if u_id u = who then f u else u"]) auto
    qed
  qed
  with archived_iff [OF accounts.exec_inv [OF inv ok]] show ?thesis by blast
qed

lemma archived_along:
  assumes "account_inv cfg w" and "accounts.run_ok cfg ops w" and "is_archived uid w"
    and "\<And>actor. OpUnarchive actor uid \<notin> set ops"
  shows "is_archived uid (fold (exec_account cfg) ops w)"
  using assms
proof (induction ops arbitrary: w)
  case (Cons op ops)
  have ok: "account_ok cfg op w" "accounts.run_ok cfg ops (exec_account cfg op w)"
    using Cons.prems(2) by (simp_all add: accounts.run_ok.simps)
  have "is_archived uid (exec_account cfg op w)" using Cons.prems(4) by (intro archived_kept [OF Cons.prems(1) ok(1) Cons.prems(3)]) auto
  with Cons.IH [OF accounts.exec_inv [OF Cons.prems(1) ok(1)] ok(2)] Cons.prems(4) show ?case by simp
qed simp

lemma archived_request: "is_archived (jp_sub payload) w \<Longrightarrow> \<exists>err. validateJwt e payload w = (Inl err, w)"
  by (auto simp: is_archived_def validateJwt_def attempt_def require_def)

lemma archived_refresh:
  assumes inv: "account_inv cfg w" and f: "find_row rt_tokenHash (sha256 cfg raw) (refreshTokens w) = Some stored"
    and a: "is_archived (rt_userId stored) w"
  shows "\<exists>err. refresh cfg e raw ip ua w = (Inl err, w)"
proof (cases "rt_revokedAt stored")
  case (Some t)
  with f show ?thesis by (simp add: refresh_def read_refresh_def)
next
  case None
  have "stored \<in> set (refreshTokens w)" using find_row_SomeD [OF f] by simp
  with None inv have "rt_rotatedToId stored = None" by (auto simp: account_inv_def tokens_ok_def)
  moreover obtain u t where "find_user w (rt_userId stored) = Some u" "u_archivedAt u = Some t"
    using a by (auto simp: is_archived_def)
  ultimately show ?thesis using f None
    by (cases "rt_expiresAt stored < clk e 0") (simp_all add: refresh_def read_refresh_def require_def truthy_def)
qed

lemma archived_sign_in:
  assumes inv: "account_inv cfg w" and ok: "account_ok cfg op w" and a: "is_archived uid w"
    and sr: "sign_in_result cfg op w = Some (Inr pair)" and op: "\<not> skips_archive_check op"
  shows "\<exists>v. u_id v \<noteq> uid \<and> issued cfg v pair w (exec_account cfg op w)"
proof -
  let ?w = "exec_account cfg op w"
  obtain v where v: "v \<in> set (users ?w)" "u_archivedAt v = None" "issued cfg v pair w ?w"
    using sign_in_signed_in [OF inv sr] op by (auto simp: signed_in_def)
  have inv': "account_inv cfg ?w" by (rule accounts.exec_inv [OF inv ok])
  have "is_archived uid ?w" using sr by (intro archived_kept [OF inv ok a]) (auto simp: sign_in_result_def)
  then obtain u where "find_user ?w uid = Some u" "u_archivedAt u \<noteq> None" by (auto simp: is_archived_def)
  with only_user [OF inv' _ v(1)] v(2) have "u_id v \<noteq> uid" by metis
  with v(3) show ?thesis by blast
qed



section \<open>The access that is shown\<close>

definition acting_as :: "user_row \<Rightarrow> auth_user" where
  "acting_as u = \<lparr>au_id = u_id u, au_email = u_email u, au_kind = u_kind u, au_companyRole = u_companyRole u, au_jti = []\<rparr>"

lemma better_grant_role: "fst (better_grant b g) = max (fst b) (a_role g)"
  by (auto simp: better_grant_def max_def less_eq_project_role_def role_rank_inject [symmetric])

lemma foldl_better_role: "fst (foldl better_grant b gs) = foldl (\<lambda>r g. max r (a_role g)) (fst b) gs"
  by (induction gs arbitrary: b) (simp_all add: better_grant_role)

lemma foldl_max_Max: "foldl (\<lambda>r g. max r (f g)) b gs = Max (insert (b :: project_role) (f ` set gs))"
proof (induction gs arbitrary: b)
  case (Cons g gs)
  have "Max (insert (max b (f g)) (f ` set gs)) = Max (insert b (insert (f g) (f ` set gs)))"
    by (cases "gs = []") (simp_all add: max.assoc)
  with Cons show ?case by simp
qed simp

lemma grant_for_matches:
  assumes "u_kind u = UClient \<longrightarrow> my_team_ids (u_id u) w = []"
  shows "a_projectId g = pid \<and> grant_for (u_id u) w g \<longleftrightarrow> grant_matches w (acting_as u) pid g"
  using assms by (cases "u_kind u") (auto simp: grant_for_def grant_matches_def team_ids_def my_team_ids_def acting_as_def)

lemma client_in_no_team:
  assumes "account_inv cfg w" and "u \<in> set (users w)" and "u_kind u = UClient"
  shows "my_team_ids (u_id u) w = []"
proof -
  have d: "distinct (map u_id (users w))" using assms(1) by (simp add: account_inv_def users_ok_def)
  have "x = u" if "x \<in> set (users w)" "u_id x = u_id u" for x using d that assms(2) by (metis distinct_map inj_onD)
  with assms(3) have "u_id u \<notin> internal_ids (users w)" by (force simp: internal_ids_def)
  then show ?thesis using assms(1) by (auto simp: account_inv_def teams_ok_def my_team_ids_def filter_empty_conv)
qed

lemma shown_role:
  assumes "gs \<noteq> []" and "kind = UInternal \<Longrightarrow> \<forall>g \<in> set gs. a_role g \<noteq> Client"
  shows "fst (foldl better_grant (seed_access kind) gs) = Max (a_role ` set gs)"
proof -
  have "fst (seed_access kind) \<le> Max (a_role ` set gs)"
  proof (cases kind)
    case UInternal
    obtain g where g: "g \<in> set gs" using assms(1) by (cases gs) auto
    then have "Viewer \<le> a_role g" using assms(2) [OF UInternal] by (cases "a_role g") (auto simp: less_eq_project_role_def)
    also have "a_role g \<le> Max (a_role ` set gs)" using g by simp
    finally show ?thesis using UInternal by (simp add: seed_access_def)
  qed (simp add: seed_access_def)
  then show ?thesis using assms(1) by (simp add: foldl_better_role foldl_max_Max max_absorb2)
qed

text \<open>
  C36: in an office where no client is in a team (the invariant), the projects and roles that
  \<open>getUser\<close> shows for a user who is a client, or an internal user to whom no grant gives the role Client, are
  exactly the live projects on which the guards give that user a role, with that role.
\<close>

theorem shown_access_is_effective:
  assumes inv: "account_inv cfg w" and u: "u \<in> set (users w)" and ps: "distinct (map p_id (projects w))"
    and clients: "\<forall>g \<in> set (accessGrants w). u_kind u = UInternal \<and> grant_for (u_id u) w g \<longrightarrow> a_role g \<noteq> Client"
  shows "(\<exists>v \<in> set (resolveProjectAccess e (u_id u) (u_kind u) (u_companyRole u) w). av_projectId v = pid \<and> av_role v = role) \<longleftrightarrow>
     (\<exists>p. find_project w pid = Some p \<and> p_archivedAt p = None \<and> effectiveRole w (acting_as u) pid = Inr (Some role))"
proof -
  let ?au = "acting_as u"
  let ?gs = "\<lambda>pid. filter (\<lambda>g. a_projectId g = pid \<and> grant_for (u_id u) w g) (accessGrants w)"
  have find: "find_project w (p_id p) = Some p" if "p \<in> set (projects w)" for p
    using find_row_distinct [OF ps that] by (simp add: find_project_def)
  have au: "au_kind ?au = u_kind u" "au_companyRole ?au = u_companyRole u" by (simp_all add: acting_as_def)
  show ?thesis
  proof (cases "u_kind u = UInternal \<and> u_companyRole u = Some Admin")
    case True
    then have "effectiveRole w ?au pid = Inr (Some Manager)" by (simp add: effectiveRole_def au)
    with True show ?thesis using find
      by (auto simp: resolveProjectAccess_def Let_def dest: find_projectD)
  next
    case False
    have gs: "?gs pid = filter (grant_matches w ?au pid) (accessGrants w)" for pid
      using client_in_no_team [OF inv u] grant_for_matches [of u w] by (intro filter_cong) auto
    have eff: "effectiveRole w ?au (p_id p) = Inr (if ?gs (p_id p) \<noteq> [] then Some (Max (a_role ` set (?gs (p_id p))))
        else if p_visibility p = PPublic \<and> u_kind u = UInternal then Some Viewer else None)" if "p \<in> set (projects w)" for p
      using False find [OF that] unfolding effectiveRole_def au gs
      by (auto simp: foldl_max_role Let_def)
    have shown: "fst (foldl better_grant (seed_access (u_kind u)) (?gs (p_id p))) =
        (if ?gs (p_id p) \<noteq> [] then Max (a_role ` set (?gs (p_id p))) else Viewer)"
      if "?gs (p_id p) \<noteq> [] \<or> u_kind u = UInternal \<and> p_visibility p = PPublic" for p
    proof (cases "?gs (p_id p) = []")
      case True
      with that show ?thesis by (simp add: seed_access_def)
    next
      case False
      have "fst (foldl better_grant (seed_access (u_kind u)) (?gs (p_id p))) = Max (a_role ` set (?gs (p_id p)))"
        by (rule shown_role [OF False]) (use clients in auto)
      with False show ?thesis by simp
    qed
    let ?view = "\<lambda>p. let best = foldl better_grant (seed_access (u_kind u)) (?gs (p_id p))
       in \<lparr>av_projectId = p_id p, av_role = fst best, av_source = fst (snd best), av_grantId = snd (snd best)\<rparr>"
    have set_views: "set (resolveProjectAccess e (u_id u) (u_kind u) (u_companyRole u) w) =
        ?view ` {p \<in> set (projects w). p_archivedAt p = None \<and> (?gs (p_id p) \<noteq> [] \<or> u_kind u = UInternal \<and> p_visibility p = PPublic)}"
      using False by (auto simp: resolveProjectAccess_def Let_def)
    have "(\<exists>v \<in> set (resolveProjectAccess e (u_id u) (u_kind u) (u_companyRole u) w). av_projectId v = pid \<and> av_role v = role) \<longleftrightarrow>
        (\<exists>p \<in> set (projects w). p_archivedAt p = None \<and> p_id p = pid \<and> effectiveRole w ?au (p_id p) = Inr (Some role))"
    proof
      assume "\<exists>v \<in> set (resolveProjectAccess e (u_id u) (u_kind u) (u_companyRole u) w). av_projectId v = pid \<and> av_role v = role"
      then obtain p where p: "p \<in> set (projects w)" "p_archivedAt p = None" "p_id p = pid"
          "?gs (p_id p) \<noteq> [] \<or> u_kind u = UInternal \<and> p_visibility p = PPublic"
          "fst (foldl better_grant (seed_access (u_kind u)) (?gs (p_id p))) = role"
        unfolding set_views by (auto simp: Let_def)
      then have "effectiveRole w ?au (p_id p) = Inr (Some role)" using eff [OF p(1)] shown [OF p(4)] by (auto split: if_splits)
      with p show "\<exists>p \<in> set (projects w). p_archivedAt p = None \<and> p_id p = pid \<and> effectiveRole w ?au (p_id p) = Inr (Some role)" by blast
    next
      assume "\<exists>p \<in> set (projects w). p_archivedAt p = None \<and> p_id p = pid \<and> effectiveRole w ?au (p_id p) = Inr (Some role)"
      then obtain p where p: "p \<in> set (projects w)" "p_archivedAt p = None" "p_id p = pid" "effectiveRole w ?au (p_id p) = Inr (Some role)" by blast
      have some: "?gs (p_id p) \<noteq> [] \<or> u_kind u = UInternal \<and> p_visibility p = PPublic"
        using p(4) eff [OF p(1)] by (simp split: if_splits)
      have "fst (foldl better_grant (seed_access (u_kind u)) (?gs (p_id p))) = role"
        using p(4) eff [OF p(1)] shown [OF some] by (simp split: if_splits)
      with p some show "\<exists>v \<in> set (resolveProjectAccess e (u_id u) (u_kind u) (u_companyRole u) w). av_projectId v = pid \<and> av_role v = role"
        unfolding set_views by (intro bexI [of _ "?view p"]) (auto simp: Let_def)
    qed
    also have "\<dots> \<longleftrightarrow> (\<exists>p. find_project w pid = Some p \<and> p_archivedAt p = None \<and> effectiveRole w ?au pid = Inr (Some role))"
      using find by (auto dest: find_projectD)
    finally show ?thesis .
  qed
qed

definition access_world :: world where
  "access_world = empty_world\<lparr>users := [sample_user ''U''], projects := [sample_project],
     accessGrants := [\<lparr>a_id = ''g1'', a_projectId = ''P'', a_subjectKind = SubjUser, a_userId = Some ''U'',
       a_teamId = None, a_role = Contributor, a_grantedById = ''A''\<rparr>]\<rparr>"

theorem shown_access_is_effective_witness:
  "\<exists>v \<in> set (resolveProjectAccess sample_env ''U'' UInternal (Some Member) access_world).
     av_projectId v = ''P'' \<and> av_role v = Contributor"
proof -
  let ?u = "sample_user ''U''"
  have inv: "account_inv sample_config access_world"
    by (simp add: session_inv_eval access_world_def sample_config_def sample_user_def empty_world_def)
  have u: "?u \<in> set (users access_world)" and ps: "distinct (map p_id (projects access_world))"
    and c: "\<forall>g \<in> set (accessGrants access_world). u_kind ?u = UInternal \<and> grant_for (u_id ?u) access_world g \<longrightarrow> a_role g \<noteq> Client"
    by (simp_all add: access_world_def empty_world_def)
  have "find_project access_world ''P'' = Some sample_project" and "p_archivedAt sample_project = None"
    and "effectiveRole access_world (acting_as ?u) ''P'' = Inr (Some Contributor)"
    by (simp_all add: access_world_def empty_world_def find_project_def sample_project_def effectiveRole_def acting_as_def
        sample_user_def grant_matches_def team_ids_def)
  with shown_access_is_effective [OF inv u ps c, of sample_env "''P''" Contributor]
  show ?thesis by (simp add: sample_user_def)
qed

text \<open>An internal user with a grant as Client is shown as Viewer, which the guards do not grant.\<close>

theorem client_grant_shown_as_viewer:
  fixes w :: world
  assumes "w = access_world\<lparr>accessGrants := map (\<lambda>g. g\<lparr>a_role := Client\<rparr>) (accessGrants access_world)\<rparr>"
  shows "map av_role (resolveProjectAccess sample_env ''U'' UInternal (Some Member) w) = [Viewer]"
    and "effectiveRole w (acting_as (sample_user ''U'')) ''P'' = Inr (Some Client)"
  by (simp_all add: assms access_world_def empty_world_def sample_project_def resolveProjectAccess_def grant_for_def
      my_team_ids_def seed_access_def better_grant_def effectiveRole_def find_project_def acting_as_def
      sample_user_def grant_matches_def team_ids_def sample_env_def)

text \<open>\<open>addMember\<close> puts a client into a team, which \<open>setTeams\<close> refuses; \<open>changeKind\<close> compares the domain by case.\<close>

theorem client_joins_team:
  assumes "au_companyRole actor = Some Admin" and "tid \<in> te_id ` set (teams w)" and "find_user w uid = Some u"
    and "u_kind u = UClient"
  shows "fst (addMember actor tid uid w) = Inr ()" and "(tid, uid) \<in> membership_key ` set (teamMembers (snd (addMember actor tid uid w)))"
    and "fst (setTeams actor uid [tid] w) = Inl (Forbidden ''Clients cannot belong to Teams'')"
proof -
  have "uid \<in> u_id ` set (users w)" using find_userD [OF assms(3)] by auto
  then show "fst (addMember actor tid uid w) = Inr ()"
    and "(tid, uid) \<in> membership_key ` set (teamMembers (snd (addMember actor tid uid w)))"
    using assms insert_absent_key [of membership_key "\<lparr>tm_teamId = tid, tm_userId = uid\<rparr>"]
    by (simp_all add: addMember_def require_admin_def membership_key_def)
  show "fst (setTeams actor uid [tid] w) = Inl (Forbidden ''Clients cannot belong to Teams'')"
    using assms by (simp add: setTeams_def require_admin_def)
qed

section \<open>Pages\<close>

text \<open>With no two users created at the same time, the order asked for leaves one list.\<close>

lemma matching_users_set: "set (matching_users contains kind arch q w) = {u \<in> set (users w). user_matches contains kind arch q u}"
  by (simp add: matching_users_def)

lemma one_order:
  assumes times: "distinct (map u_createdAt (users w))"
    and xs: "distinct xs" "set xs = {u \<in> set (users w). user_matches contains kind arch q u}"
    and sorted: "sorted_wrt (\<lambda>a b. u_createdAt b \<le> u_createdAt a) xs"
  shows "xs = matching_users contains kind arch q w"
proof -
  let ?ys = "matching_users contains kind arch q w"
  let ?t = "\<lambda>u. - u_createdAt u"
  have inj: "inj_on ?t (set (users w))" using times by (auto simp: distinct_map inj_on_def)
  have ys: "distinct ?ys"
    using distinct_order_by [OF distinct_map_filter [OF times]] unfolding matching_users_def distinct_map by blast
  have "sorted_wrt (\<lambda>a b. u_createdAt b \<le> u_createdAt a) ?ys"
    unfolding matching_users_def by (rule sorted_order_by) (auto simp: total_preorder_def)
  then have "sorted (map ?t ?ys)" and "sorted (map ?t xs)" using sorted by (simp_all add: sorted_wrt_map)
  moreover have "distinct (map ?t ?ys)" and "distinct (map ?t xs)"
    using inj ys xs by (auto simp: distinct_map matching_users_set intro: inj_on_subset)
  ultimately show ?thesis
    using xs(2) inj by (intro map_sorted_distinct_set_unique [of ?t]) (auto simp: matching_users_set intro: inj_on_subset)
qed

text \<open>
  C37: in an office where no two users were created at the same time, whatever limit is asked for,
  following the cursors from the first page of the user list shows every matching user exactly once, newest
  first; and that order is the only one the database may answer the page queries in. (They order by the
  time of creation alone, so for users created at the same time the database is free to order them
  differently from page to page.)
\<close>

theorem pages_list_every_user:
  assumes "distinct (map u_id (users w))" and "[] \<notin> u_id ` set (users w)" and "length (users w) \<le> n"
    and times: "distinct (map u_createdAt (users w))"
  shows "follow_pages (\<lambda>cursor. listInternal contains cursor limit kf archived q w) n None =
       map (\<lambda>u. (u, teams_of (u_id u) w)) (matching_users contains (kind_of_filter kf) archived q w) \<and>
     (\<forall>xs. distinct xs \<and> set xs = {u \<in> set (users w). user_matches contains (kind_of_filter kf) archived q u} \<longrightarrow>
       (sorted_wrt (\<lambda>a b. u_createdAt b \<le> u_createdAt a) xs \<longleftrightarrow>
        xs = matching_users contains (kind_of_filter kf) archived q w))"
proof -
  let ?xs = "matching_users contains (kind_of_filter kf) archived q w"
  let ?f = "\<lambda>u. (u, teams_of (u_id u) w)"
  have page: "(\<lambda>cursor. listInternal contains cursor limit kf archived q w) =
      page_of u_id (normalizeLimit limit) ?f (\<lambda>x. u_id (fst x)) ?xs"
    by (simp add: fun_eq_iff listInternal_def page_of_def Let_def)
  have d: "distinct (map u_id ?xs)"
    unfolding matching_users_def by (intro distinct_order_by distinct_map_filter assms(1))
  have sub: "set ?xs \<subseteq> set (users w)" by (auto simp: matching_users_def)
  have len: "length ?xs \<le> n" using assms(3) by (auto simp: matching_users_def intro: order_trans [OF length_filter_le])
  have "follow_pages (page_of u_id (normalizeLimit limit) ?f (\<lambda>x. u_id (fst x)) ?xs) n None = map ?f (drop 0 ?xs)"
    by (rule follow_pages_suffix [OF d]) (use assms(2) sub len normalizeLimit_bounds in \<open>auto simp: after_cursor_def\<close>)
  moreover have "sorted_wrt (\<lambda>a b. u_createdAt b \<le> u_createdAt a) ?xs"
    unfolding matching_users_def by (rule sorted_order_by) (auto simp: total_preorder_def)
  ultimately show ?thesis unfolding page using one_order [OF times] by auto
qed

definition hired_world :: world where
  "hired_world = empty_world\<lparr>users := [sample_user ''U'', (sample_user ''V'')\<lparr>u_createdAt := 7\<rparr>]\<rparr>"

theorem pages_list_every_user_witness:
  "map fst (follow_pages (\<lambda>cursor. listInternal (\<lambda>a b. True) cursor (Some (Fin 1)) (Some AllKinds) False None hired_world) 2 None) =
     [(sample_user ''V'')\<lparr>u_createdAt := 7\<rparr>, sample_user ''U'']"
proof -
  have "distinct (map u_id (users hired_world))" and "[] \<notin> u_id ` set (users hired_world)"
    and "length (users hired_world) \<le> 2" and "distinct (map u_createdAt (users hired_world))"
    by (simp_all add: hired_world_def office_defs)
  note pages = pages_list_every_user [OF this, of "\<lambda>a b. True" "Some (Fin 1)" "Some AllKinds" False None, THEN conjunct1]
  show ?thesis unfolding pages
    by (simp add: matching_users_def kind_of_filter_def user_matches_def hired_world_def office_defs)
qed

section \<open>Invitations\<close>

text \<open>
  After an invitation is sent, exactly one link for its address and project works, the new one,
  whose secret the last mail carries to the address, whatever was sent before.
\<close>

theorem one_invitation_works:
  assumes ok: "sendProjectInvite cfg e n i args w = (Inr (), w')"
    and clock: "clk e n \<le> clk e (n + 1)" "clk e (n + 1) \<le> now" "now < clk e (n + 2) + PROJECT_INVITE_TTL_SECONDS cfg * 1000"
  shows "map ml_tokenHash (filter (outstanding_invite cfg (lower (pi_email args)) (pi_projectId args) now) (magicLinks w')) =
       [sha256 cfg (randomBytes e 0)] \<and>
     (\<exists>ms. outbox w' = ms @ [invite_mail cfg args (lower (pi_email args)) (randomBytes e 0)])"
proof -
  let ?email = "lower (pi_email args)"
  let ?old = "update_where (outstanding_invite cfg ?email (pi_projectId args) (clk e n)) (\<lambda>l. l\<lparr>ml_expiresAt := clk e (n + 1)\<rparr>) (magicLinks w)"
  let ?new = "\<lparr>ml_id = uuid e i, ml_email = ?email, ml_tokenHash = sha256 cfg (randomBytes e 0), ml_intent = ProjectInvite,
               ml_expiresAt = clk e (n + 2) + PROJECT_INVITE_TTL_SECONDS cfg * 1000, ml_usedAt = None,
               ml_ip = if_truthy (pi_ip args), ml_projectId = Some (pi_projectId args),
               ml_invitedByUserId = Some (pi_inviterUserId args), ml_createdAt = clk e (n + 3)\<rparr>"
  have links: "magicLinks w' = ?old @ [?new]"
    and mails: "outbox w' = outbox w @ [invite_mail cfg args ?email (randomBytes e 0)]"
    using ok unfolding sendProjectInvite_def Let_def expire_invites_def
    by (auto simp: attempt_Inr then_do_Inr insert_link_def send_mail_def split: if_splits)
  have "filter (outstanding_invite cfg ?email (pi_projectId args) now) ?old = []"
    using clock by (auto simp: filter_empty_conv in_update_where outstanding_invite_def)
  moreover have "outstanding_invite cfg ?email (pi_projectId args) now ?new"
    using clock(3) by (simp add: outstanding_invite_def)
  ultimately show ?thesis using links mails by simp
qed

definition invited_world :: world where
  "invited_world = office_world\<lparr>projects := [sample_project], magicLinks :=
     [(sample_link ''l0'' ''g@ext'' ''hfirst'')\<lparr>ml_intent := ProjectInvite, ml_projectId := Some ''P''\<rparr>]\<rparr>"

theorem one_invitation_works_witness:
  "\<exists>w'. sendProjectInvite sample_config (sample_request CHR ''a'') 0 0 \<lparr>pi_email = ''g@ext'', pi_projectId = ''P'',
       pi_projectName = ''p'', pi_inviterUserId = ''A'', pi_inviterName = ''a'', pi_role = ''Viewer'', pi_ip = None\<rparr>
       invited_world = (Inr (), w') \<and>
     map ml_tokenHash (filter (outstanding_invite sample_config (lower ''g@ext'') ''P'' 2000) (magicLinks w')) = [''haraw'']"
proof -
  let ?args = "\<lparr>pi_email = ''g@ext'', pi_projectId = ''P'', pi_projectName = ''p'', pi_inviterUserId = ''A'',
     pi_inviterName = ''a'', pi_role = ''Viewer'', pi_ip = None\<rparr>"
  let ?e = "sample_request CHR ''a''"
  obtain w' where w': "sendProjectInvite sample_config ?e 0 0 ?args invited_world = (Inr (), w')"
    by (simp add: sendProjectInvite_def Let_def lower_def lower_char_def email_domain_def on_company_domain_def
        expire_invites_def insert_link_def unique_rows_def fk_ok_def send_mail_def outstanding_invite_def
        invited_world_def office_defs sample_project_def sample_link_def)
  have "clk ?e 0 \<le> clk ?e (0 + 1)" "clk ?e (0 + 1) \<le> 2000"
    "2000 < clk ?e (0 + 2) + PROJECT_INVITE_TTL_SECONDS sample_config * 1000"
    by (simp_all add: sample_request_def sample_config_def)
  from one_invitation_works [OF w' this] w' show ?thesis
    by (simp add: sample_request_def sample_config_def)
qed

section \<open>The account tables\<close>

text \<open>
  C35: operations on accounts, in any sequence that leaves out \<open>addMember\<close> of a client and a development
  persona whose address belongs to an account of another kind, keep: a user is a client exactly when the
  user has no company role; a refresh token that was rotated is revoked; only internal users are in teams
  (\<open>setTeams\<close> refuses clients, \<open>changeKind\<close> to client leaves all teams). The tables also stay such as
  the constraints of the database have them: identifiers, emails up to case, Google accounts and hashes are
  unique and refresh tokens, team memberships and links point to rows that exist.
\<close>

theorem account_operations_keep_invariant:
  assumes "account_inv cfg w" and "accounts.run_ok cfg ops w"
  shows "account_inv cfg (fold (exec_account cfg) ops w)"
  by (rule accounts.run_inv [OF assms])

theorem account_operations_keep_invariant_witness:
  "account_inv sample_config (fold (exec_account sample_config)
     [OpCreateTeam (sample_request CHR ''a'') sample_admin ''dev'' ''Dev'' None, OpAddMember sample_admin ''a'' ''U'',
      OpRefresh (sample_request CHR ''b'') ''old'' None None] office_world)"
proof (rule account_operations_keep_invariant)
  show "account_inv sample_config office_world" by (simp add: session_inv_eval office_defs)
  show "accounts.run_ok sample_config
     [OpCreateTeam (sample_request CHR ''a'') sample_admin ''dev'' ''Dev'' None, OpAddMember sample_admin ''a'' ''U'',
      OpRefresh (sample_request CHR ''b'') ''old'' None None] office_world"
    by (simp add: accounts.run_ok.simps createTeam_def require_admin_def Let_def attempt_def unique_rows_def require_def
        office_defs sample_project_def emit_def env.truncate_def)
qed

end
