(* ===== verification/Markdown.thy ===== *)
theory Markdown
  imports Schema JsText "HOL-Library.Sublist"
begin

text \<open>
  \<^verbatim>\<open>apps/api/src/modules/docs/prosemirror-markdown.ts\<close>: the markdown text of an editor's
  document tree, which the full-text index reads, and the proof that no word of the tree gets lost
  in it.
\<close>

section \<open>The serializer\<close>

definition children :: "pm_node \<Rightarrow> pm_node list" where
  "children n = override (pm_content n) []"

lemma children_smaller: "c \<in> set (children n) \<Longrightarrow> size c < size n"
  by (cases n) (auto simp: children_def override_def less_Suc_eq_le intro: le_trans [OF size_list_estimation'] split: option.splits)

lemma children_at_smaller: "(i, c) \<in> set (enumerate k (children n)) \<Longrightarrow> size c < size n"
  by (rule children_smaller) (auto simp: enumerate_eq_zip dest: set_zip_rightD)

lemma in_enumerate: "x \<in> set xs \<Longrightarrow> \<exists>i. (i, x) \<in> set (enumerate k xs)"
proof -
  assume "x \<in> set xs"
  then obtain i where "i < length xs" "xs ! i = x" by (auto simp: in_set_conv_nth)
  then have "(k + i, x) \<in> set (enumerate k xs)" by (simp add: in_set_enumerate_eq)
  then show ?thesis by blast
qed

text \<open>A text attribute that is not text, or missing, is the default.\<close>

definition attr_text :: "string \<Rightarrow> string \<Rightarrow> json_object \<Rightarrow> string" where
  "attr_text fallback key attrs = (case map_of attrs key of Some (JStr s) \<Rightarrow> s | _ \<Rightarrow> fallback)"

definition clampLevel :: "json option \<Rightarrow> nat" where
  "clampLevel level = (case level of
     Some (JNum (Fin q)) \<Rightarrow> if q < 1 then 1 else if q > 6 then 6 else nat \<lfloor>q\<rfloor>
   | _ \<Rightarrow> 1)"

definition has_mark :: "string \<Rightarrow> pm_node \<Rightarrow> json_object option" where
  "has_mark ty n = map_of (pm_marks n) ty"

definition wrap_if :: "bool \<Rightarrow> string \<Rightarrow> string \<Rightarrow> string" where
  "wrap_if b fence s = (if b then fence @ s @ fence else s)"

definition render_text :: "pm_node \<Rightarrow> string" where
  "render_text n =
     (let code = wrap_if (has_mark ''code'' n \<noteq> None) ''`'' (override (pm_text n) []);
          italic = wrap_if (has_mark ''italic'' n \<noteq> None) ''*'' code;
          bold = wrap_if (has_mark ''bold'' n \<noteq> None) ''**'' italic;
          struck = wrap_if (has_mark ''strike'' n \<noteq> None) ''~~'' bold
      in case has_mark ''link'' n of None \<Rightarrow> struck
         | Some attrs \<Rightarrow> ''['' @ struck @ '']('' @ attr_text [] ''href'' attrs @ '')'')"

definition render_mention :: "json_object \<Rightarrow> string" where
  "render_mention attrs = (if attr_text ''user'' ''kind'' attrs = ''task'' then ''#'' else ''@'') @
     (let label = attr_text [] ''label'' attrs in if label = [] then attr_text [] ''id'' attrs else label)"

function renderInlineNode :: "pm_node \<Rightarrow> string" where
  "renderInlineNode n =
     (if pm_type n = ''text'' then render_text n
      else if pm_type n = ''hardBreak'' then ''  '' @ newline
      else if pm_type n = ''mention'' then render_mention (pm_attrs n)
      else if pm_type n = ''image'' then ''!['' @ attr_text [] ''alt'' (pm_attrs n) @ '']('' @ attr_text [] ''src'' (pm_attrs n) @ '')''
      else if pm_content n \<noteq> None then concat (map renderInlineNode (children n))
      else override (pm_text n) [])"
  by auto
termination by (relation "measure size") (auto intro: children_smaller)

declare renderInlineNode.simps [simp del]

definition renderInline :: "pm_node list \<Rightarrow> string" where
  "renderInline nodes = concat (map renderInlineNode nodes)"

text \<open>\<open>split('\n')\<close>.\<close>

fun lines_of :: "string \<Rightarrow> string list" where
  "lines_of [] = [[]]"
| "lines_of (c # s) = (if [c] = newline then [] # lines_of s
     else (case lines_of s of [] \<Rightarrow> [[c]] | l # ls \<Rightarrow> (c # l) # ls))"

definition quote_lines :: "string \<Rightarrow> string" where
  "quote_lines s = join newline (map (\<lambda>l. ''> '' @ l) (lines_of s))"

definition indent :: "nat \<Rightarrow> string" where
  "indent depth = concat (replicate depth ''  '')"

definition is_list :: "pm_node \<Rightarrow> bool" where
  "is_list n \<longleftrightarrow> pm_type n \<in> {''bulletList'', ''orderedList'', ''taskList''}"

text \<open>
  A paragraph of an item stands on the line of its marker; lists in it are indented one level more,
  and follow an empty line unless they come first.
\<close>

function renderBlock :: "pm_node \<Rightarrow> nat \<Rightarrow> string"
  and renderListItem :: "pm_node \<Rightarrow> nat \<Rightarrow> string \<Rightarrow> string"
  and renderTaskItem :: "pm_node \<Rightarrow> nat \<Rightarrow> string" where
  "renderBlock n depth =
     (if pm_type n = ''heading'' then
        replicate (clampLevel (map_of (pm_attrs n) ''level'')) CHR ''#'' @ '' '' @ renderInline (children n)
      else if pm_type n = ''bulletList'' then
        join newline (map (\<lambda>li. renderListItem li depth ''-'') (children n))
      else if pm_type n = ''orderedList'' then
        join newline (map (\<lambda>(i, li). renderListItem li depth (show_nat i @ ''.'')) (enumerate 1 (children n)))
      else if pm_type n = ''taskList'' then
        join newline (map (\<lambda>ti. renderTaskItem ti depth) (children n))
      else if pm_type n = ''blockquote'' then
        quote_lines (join (newline @ newline) (map (\<lambda>b. renderBlock b depth) (children n)))
      else if pm_type n = ''codeBlock'' then
        ''```'' @ attr_text [] ''language'' (pm_attrs n) @ newline @
          concat (map (\<lambda>c. override (pm_text c) []) (children n)) @ newline @ ''```''
      else if pm_type n = ''horizontalRule'' then ''---''
      else renderInline (children n))"
| "renderListItem n depth marker = indent depth @ marker @ '' '' @
     join newline (map (\<lambda>(i, c).
       if pm_type c = ''paragraph'' then renderInline (children c)
       else (if is_list c \<and> i \<noteq> 0 then newline else []) @ renderBlock c (depth + 1)) (enumerate 0 (children n)))"
| "renderTaskItem n depth = indent depth @ ''- ['' @
     (if map_of (pm_attrs n) ''checked'' = Some (JBool True) then ''x'' else '' '') @ ''] '' @
     join newline (map (\<lambda>c.
       if pm_type c = ''paragraph'' then renderInline (children c) else renderBlock c (depth + 1)) (children n))"
  by pat_completeness auto
termination
  by (relation "measure (case_sum (\<lambda>(n, _). size n) (case_sum (\<lambda>(n, _, _). size n) (\<lambda>(n, _). size n)))")
    (auto intro: children_smaller children_at_smaller)

declare renderBlock.simps [simp del] renderListItem.simps [simp del] renderTaskItem.simps [simp del]

definition proseMirrorJsonToMarkdown :: "pm_node option \<Rightarrow> string" where
  "proseMirrorJsonToMarkdown doc = (case doc of None \<Rightarrow> []
     | Some d \<Rightarrow> trim (join (newline @ newline) (filter (\<lambda>md. md \<noteq> []) (map (\<lambda>c. renderBlock c 0) (children d)))))"

section \<open>No word is lost\<close>

text \<open>
  The texts of a tree, and the trees that the editor's schema admits: inline nodes are leaves and
  stand inside paragraphs, headings or nodes the serializer does not know.
\<close>

definition inline_types :: "string set" where
  "inline_types = {''text'', ''hardBreak'', ''mention'', ''image''}"

function all_texts :: "pm_node \<Rightarrow> string list" where
  "all_texts n = (if pm_type n = ''text'' then [override (pm_text n) []] else []) @ concat (map all_texts (children n))"
  by auto
termination by (relation "measure size") (auto intro: children_smaller)

function leaves_ok :: "pm_node \<Rightarrow> bool" where
  "leaves_ok n \<longleftrightarrow> (pm_type n \<in> inline_types \<longrightarrow> children n = []) \<and> (\<forall>c \<in> set (children n). leaves_ok c)"
  by auto
termination by (relation "measure size") (auto intro: children_smaller)

function block_ok :: "pm_node \<Rightarrow> bool" where
  "block_ok n \<longleftrightarrow>
     (if is_list n then \<forall>li \<in> set (children n). pm_type li \<noteq> ''text'' \<and> (\<forall>c \<in> set (children li). block_ok c)
      else if pm_type n = ''blockquote'' then \<forall>b \<in> set (children n). block_ok b
      else if pm_type n = ''codeBlock'' then \<forall>c \<in> set (children n). pm_type c = ''text'' \<and> children c = []
      else if pm_type n = ''horizontalRule'' then children n = []
      else pm_type n \<notin> inline_types \<and> leaves_ok n)"
  by auto
termination by (relation "measure size") (auto intro: children_smaller less_trans)

declare all_texts.simps [simp del] leaves_ok.simps [simp del] block_ok.simps [simp del]

definition word :: "string \<Rightarrow> bool" where
  "word v \<longleftrightarrow> v \<noteq> [] \<and> (\<forall>c \<in> set v. \<not> is_space c)"

lemma sublist_concat: "x \<in> set xs \<Longrightarrow> sublist v x \<Longrightarrow> sublist v (concat xs)"
  by (induction xs) (auto intro: sublist_order.order.trans sublist_appendI)

lemma sublist_join: "x \<in> set xs \<Longrightarrow> sublist v x \<Longrightarrow> sublist v (join sep xs)"
  by (induction sep xs rule: join.induct) (auto simp: sublist_append)

lemma newline_space: "is_space c" if "[c] = newline"
  using that by (auto simp: newline_def is_space_def)

lemma sublist_within: "sublist v s \<Longrightarrow> sublist v (a @ s @ b)"
  by (auto simp: sublist_append)

lemma sublist_after: "sublist v s \<Longrightarrow> sublist v (a @ s)"
  using sublist_within [of v s a "[]"] by simp

lemma lines_of_nonempty: "lines_of s \<noteq> []"
  by (induction s) (auto split: list.splits)

lemma prefix_line:
  "prefix v s \<Longrightarrow> \<forall>c \<in> set v. \<not> is_space c \<Longrightarrow> prefix v (hd (lines_of s))"
proof (induction s arbitrary: v)
  case (Cons c s)
  obtain l ls where ls: "lines_of s = l # ls" using lines_of_nonempty by (metis list.exhaust)
  show ?case
  proof (cases v)
    case (Cons d v')
    with Cons.prems have "d = c" "prefix v' s" "[c] \<noteq> newline" using newline_space by auto
    with Cons Cons.IH [of v'] Cons.prems(2) ls show ?thesis by simp
  qed simp
qed simp

lemma sublist_line: "word v \<Longrightarrow> sublist v s \<Longrightarrow> \<exists>l \<in> set (lines_of s). sublist v l"
proof (induction s)
  case (Cons c s)
  obtain l ls where ls: "lines_of s = l # ls" using lines_of_nonempty by (metis list.exhaust)
  from Cons.prems(2) consider "prefix v (c # s)" | "sublist v s" by (auto simp: sublist_Cons_right)
  then show ?case
  proof cases
    case 1
    have "prefix v (hd (lines_of (c # s)))" using prefix_line [OF 1] Cons.prems(1) by (simp add: word_def)
    moreover have "hd (lines_of (c # s)) \<in> set (lines_of (c # s))" using ls by simp
    ultimately show ?thesis by blast
  next
    case 2
    then obtain l' where "l' \<in> set (lines_of s)" "sublist v l'" using Cons by blast
    then show ?thesis using ls by (auto simp: sublist_Cons_right)
  qed
qed (simp add: word_def)

lemma sublist_quote: "word v \<Longrightarrow> sublist v s \<Longrightarrow> sublist v (quote_lines s)"
  unfolding quote_lines_def using sublist_line [of v s]
  by (auto intro!: sublist_join sublist_after simp del: append_Cons append_Nil)

lemma sublist_dropWhile:
  assumes "word v" and "sublist v s" shows "sublist v (dropWhile is_space s)"
  using assms(2)
proof (induction s)
  case (Cons c s)
  show ?case
  proof (cases "is_space c")
    case True
    have "\<not> prefix v (c # s)" using True assms(1) by (cases v) (auto simp: word_def)
    with Cons True show ?thesis by (auto simp: sublist_Cons_right)
  qed (use Cons.prems in simp)
qed simp

lemma word_rev: "word (rev v) = word v"
  by (simp add: word_def)

lemma sublist_trim: "word v \<Longrightarrow> sublist v s \<Longrightarrow> sublist v (trim s)"
  unfolding trim_def using sublist_dropWhile [of v s] sublist_dropWhile [of "rev v" "rev (dropWhile is_space s)"]
  by (simp add: word_rev sublist_rev_left)

lemma sublist_wrap: "sublist v s \<Longrightarrow> sublist v (wrap_if b fence s)"
  by (simp add: wrap_if_def sublist_within)

lemma render_text_sublist: "sublist (override (pm_text n) []) (render_text n)"
  unfolding render_text_def Let_def
  by (cases "has_mark ''link'' n") (auto intro!: sublist_wrap sublist_within simp del: append_Cons append_Nil)

lemma inline_keeps_text:
  "leaves_ok n \<Longrightarrow> t \<in> set (all_texts n) \<Longrightarrow> sublist t (renderInlineNode n)"
proof (induction n rule: measure_induct_rule [of size])
  case (less n)
  have leaves: "pm_type n \<in> inline_types \<Longrightarrow> children n = []" and sub: "\<forall>c \<in> set (children n). leaves_ok c"
    using less.prems(1) by (simp_all add: leaves_ok.simps [of n])
  show ?case
  proof (cases "pm_type n \<in> inline_types")
    case True
    then have "children n = []" by (rule leaves)
    then have "pm_type n = ''text''" "t = override (pm_text n) []"
      using less.prems(2) by (auto simp: all_texts.simps [of n] split: if_splits)
    then show ?thesis by (simp add: renderInlineNode.simps [of n] render_text_sublist)
  next
    case False
    then obtain c where c: "c \<in> set (children n)" "t \<in> set (all_texts c)"
      using less.prems(2) by (auto simp: all_texts.simps [of n] inline_types_def)
    then have "sublist t (renderInlineNode c)" using less.IH children_smaller sub by blast
    moreover have "pm_content n \<noteq> None" using c by (cases "pm_content n") (simp_all add: children_def)
    ultimately show ?thesis
      using False c by (auto simp: renderInlineNode.simps [of n] inline_types_def intro!: sublist_concat)
  qed
qed

lemma inline_list_keeps_text:
  "\<forall>c \<in> set cs. leaves_ok c \<Longrightarrow> c \<in> set cs \<Longrightarrow> t \<in> set (all_texts c) \<Longrightarrow> sublist t (renderInline cs)"
  unfolding renderInline_def by (auto intro!: sublist_concat inline_keeps_text)

lemma code_keeps_text:
  assumes "c \<in> set cs" and "\<forall>c \<in> set cs. pm_type c = ''text'' \<and> children c = []" and "t \<in> set (all_texts c)"
  shows "sublist t (concat (map (\<lambda>c. override (pm_text c) []) cs))"
proof -
  have "t = override (pm_text c) []" using assms by (auto simp: all_texts.simps [of c])
  then show ?thesis using assms(1) by (auto intro!: sublist_concat)
qed

lemma block_keeps_words:
  "block_ok n \<Longrightarrow> t \<in> set (all_texts n) \<Longrightarrow> word v \<Longrightarrow> sublist v t \<Longrightarrow> sublist v (renderBlock n depth)"
proof (induction n arbitrary: depth rule: measure_induct_rule [of size])
  case (less n)
  note ok = less.prems(1) [unfolded block_ok.simps [of n]]
  show ?case
  proof (cases "is_list n")
    case True
    then obtain li where li: "li \<in> set (children n)" "t \<in> set (all_texts li)"
      using less.prems(2) by (auto simp: all_texts.simps [of n] is_list_def split: if_splits)
    with ok True obtain c where c: "c \<in> set (children li)" "t \<in> set (all_texts c)"
      by (auto simp: all_texts.simps [of li])
    then have sub: "sublist v (renderBlock c d)" for d
      using less.IH [of c d] less.prems(3,4) ok True li children_smaller by (meson less_trans)
    have para: "sublist v (renderInline (children c))" if "pm_type c = ''paragraph''"
      using sub that by (simp add: renderBlock.simps [of c])
    obtain i where i: "(i, c) \<in> set (enumerate 0 (children li))"
      using in_enumerate [OF c(1)] by blast
    let ?f = "\<lambda>d c. if pm_type c = ''paragraph'' then renderInline (children c) else renderBlock c (d + 1)"
    have shown: "sublist v (?f d c)" for d using para sub by simp
    have item: "sublist v (renderListItem li d m)" for d m
      unfolding renderListItem.simps [of li] using shown [of d] i
      by (intro sublist_after, intro sublist_join [where x = "(\<lambda>(i, c). if pm_type c = ''paragraph'' then renderInline (children c)
          else (if is_list c \<and> i \<noteq> 0 then newline else []) @ renderBlock c (d + 1)) (i, c)"])
        (auto simp only: list.set_map intro!: imageI, auto intro: sublist_after)
    have "?f d c \<in> set (map (?f d) (children li))" for d
      unfolding list.set_map by (rule rev_image_eqI [OF c(1) refl])
    then have todo: "sublist v (renderTaskItem li d)" for d
      unfolding renderTaskItem.simps [of li] by (intro sublist_after) (rule sublist_join [OF _ shown])
    obtain j where j: "(j, li) \<in> set (enumerate 1 (children n))"
      using in_enumerate [OF li(1)] by blast
    show ?thesis
      using True li(1) j item todo by (auto simp: renderBlock.simps [of n] is_list_def intro!: sublist_join image_eqI)
  next
    case notlist: False
    show ?thesis
    proof (cases "pm_type n = ''blockquote''")
      case True
      then obtain b where b: "b \<in> set (children n)" "t \<in> set (all_texts b)"
        using less.prems(2) by (auto simp: all_texts.simps [of n])
      then have "sublist v (renderBlock b depth)"
        using less.IH [of b depth] less.prems(3,4) ok notlist True children_smaller by auto
      then show ?thesis
        using True b(1) less.prems(3) by (auto simp: renderBlock.simps [of n] intro!: sublist_quote sublist_join image_eqI)
    next
      case noquote: False
      show ?thesis
      proof (cases "pm_type n = ''codeBlock''")
        case True
        then obtain c where c: "c \<in> set (children n)" "t \<in> set (all_texts c)"
          using less.prems(2) by (auto simp: all_texts.simps [of n])
        then have "sublist t (concat (map (\<lambda>c. override (pm_text c) []) (children n)))"
          using ok True by (intro code_keeps_text) (auto simp: is_list_def)
        then have "sublist v (concat (map (\<lambda>c. override (pm_text c) []) (children n)))"
          using less.prems(4) sublist_order.order.trans by blast
        then have "sublist v ((''```'' @ attr_text [] ''language'' (pm_attrs n) @ newline) @
            concat (map (\<lambda>c. override (pm_text c) []) (children n)) @ newline @ ''```'')"
          by (rule sublist_within)
        then show ?thesis using True by (simp add: renderBlock.simps [of n])
      next
        case nocode: False
        obtain c where c: "c \<in> set (children n)" "t \<in> set (all_texts c)" "pm_type n \<noteq> ''horizontalRule''" and leaves: "leaves_ok n"
        proof (cases "pm_type n = ''horizontalRule''")
          case True
          with ok notlist noquote nocode less.prems(2) show ?thesis by (simp add: all_texts.simps [of n])
        next
          case False
          with ok notlist noquote nocode have "pm_type n \<noteq> ''text''" "leaves_ok n" by (simp_all add: inline_types_def)
          with False less.prems(2) that show ?thesis by (auto simp: all_texts.simps [of n])
        qed
        have "\<forall>c \<in> set (children n). leaves_ok c" using leaves by (simp add: leaves_ok.simps [of n])
        then have "sublist t (renderInline (children n))" using c(1,2) by (rule inline_list_keeps_text)
        then have "sublist v (renderInline (children n))" using less.prems(4) sublist_order.order.trans by blast
        then show ?thesis using notlist noquote nocode c(3)
          sublist_after [of v "renderInline (children n)" "replicate (clampLevel (map_of (pm_attrs n) ''level'')) CHR ''#'' @ '' ''"]
          by (simp add: renderBlock.simps [of n] is_list_def)
      qed
    qed
  qed
qed

text \<open>
  C38: the index sees every word: a word in any text of a document whose nodes stand where the editor's
  schema puts them is a word of its markdown, in lists, quotes, code and marked text alike.
\<close>

theorem markdown_keeps_words:
  assumes "pm_type d = ''doc''" and "\<forall>c \<in> set (children d). block_ok c"
    and "t \<in> set (all_texts d)" and "word v" and "sublist v t"
  shows "sublist v (proseMirrorJsonToMarkdown (Some d))"
proof -
  obtain c where c: "c \<in> set (children d)" "t \<in> set (all_texts c)"
    using assms(1,3) by (auto simp: all_texts.simps [of d])
  then have md: "sublist v (renderBlock c 0)" using assms by (intro block_keeps_words) auto
  moreover have "renderBlock c 0 \<noteq> []" using md assms(4) by (auto simp: word_def)
  ultimately show ?thesis
    using c(1) assms(4) by (auto simp: proseMirrorJsonToMarkdown_def intro!: sublist_trim sublist_join image_eqI)
qed

definition text_node :: "string \<Rightarrow> pm_node" where
  "text_node s = PmNode ''text'' [] None [(''bold'', [])] (Some s)"

definition sample_doc_tree :: pm_node where
  "sample_doc_tree = PmNode ''doc'' [] (Some [PmNode ''blockquote'' [] (Some [PmNode ''bulletList'' []
     (Some [PmNode ''listItem'' [] (Some [PmNode ''paragraph'' [] (Some [text_node ''two words'']) [] None]) [] None]) [] None]) [] None]) [] None"

lemmas node_evals =
  block_ok.simps [of "PmNode a b c d e" for a b c d e] leaves_ok.simps [of "PmNode a b c d e" for a b c d e]
  all_texts.simps [of "PmNode a b c d e" for a b c d e]

theorem markdown_keeps_words_witness:
  "sublist ''words'' (proseMirrorJsonToMarkdown (Some sample_doc_tree))"
proof -
  have w: "word ''words''" by (simp add: word_def is_space_def)
  have s: "sublist ''words'' ''two words''" by (rule sublist_appendI [of "''words''" "''two ''" "[]", simplified])
  show ?thesis
    by (rule markdown_keeps_words [OF _ _ _ w s])
      (simp_all add: sample_doc_tree_def text_node_def children_def node_evals is_list_def inline_types_def)
qed

end
