(* ===== verification/Docs.thy ===== *)
theory Docs
  imports Tasks Markdown
begin

text \<open>
  \<^verbatim>\<open>apps/api/src/modules/docs/docs.service.ts\<close>: the documents of a project with their versions,
  the tasks linked to them and the comments on them. The editor may send its tree, the markdown, or
  both; when only the tree comes, the markdown is derived from it.
\<close>

section \<open>Reading\<close>

definition find_doc :: "world \<Rightarrow> string \<Rightarrow> doc_row option" where
  "find_doc w did = find_row dc_id did (docs w)"

definition doc_or :: "string \<Rightarrow> world \<Rightarrow> string \<Rightarrow> doc_row res" where
  "doc_or message w did = found (NotFound message) (find_doc w did)"

text \<open>Identifiers compare byte by byte; a null parent comes last.\<close>

fun text_le :: "string \<Rightarrow> string \<Rightarrow> bool" where
  "text_le [] t = True"
| "text_le (c # s) [] = False"
| "text_le (c # s) (d # t) = (if c = d then text_le s t else code_unit c < code_unit d)"

definition null_last :: "string option \<Rightarrow> string option \<Rightarrow> bool" where
  "null_last a b = (case (a, b) of (_, None) \<Rightarrow> True | (None, Some _) \<Rightarrow> False | (Some s, Some t) \<Rightarrow> text_le s t)"

definition doc_order :: "doc_row \<Rightarrow> doc_row \<Rightarrow> bool" where
  "doc_order a b = (if dc_parentDocId a \<noteq> dc_parentDocId b then null_last (dc_parentDocId a) (dc_parentDocId b)
     else if dc_position a \<noteq> dc_position b then dc_position a \<le> dc_position b
     else dc_createdAt a \<le> dc_createdAt b)"

definition listDocs :: "auth_user \<Rightarrow> string \<Rightarrow> world \<Rightarrow> doc_row list res" where
  "listDocs u pid w = and_then (assertAtLeast w u pid Viewer) (\<lambda>_.
     Inr (order_by doc_order (filter (\<lambda>d. dc_projectId d = pid \<and> dc_archivedAt d = None) (docs w))))"

definition getDoc :: "auth_user \<Rightarrow> string \<Rightarrow> world \<Rightarrow> doc_row res" where
  "getDoc u did w = and_then (doc_or ''Doc not found'' w did) (\<lambda>doc.
     and_then (assertAtLeast w u (dc_projectId doc) Viewer) (\<lambda>_. Inr doc))"

definition revisions_of :: "string \<Rightarrow> world \<Rightarrow> doc_revision_row list" where
  "revisions_of did w = filter (\<lambda>v. dv_docId v = did) (docRevisions w)"

definition listDocRevisions :: "auth_user \<Rightarrow> string \<Rightarrow> world \<Rightarrow> doc_revision_row list res" where
  "listDocRevisions u did w = and_then (doc_or ''Not Found'' w did) (\<lambda>doc.
     and_then (assertAtLeast w u (dc_projectId doc) Viewer) (\<lambda>_.
     Inr (take 50 (order_by (\<lambda>a b. dv_createdAt b \<le> dv_createdAt a) (revisions_of did w)))))"

section \<open>Writing\<close>

record doc_input =
  dn_title :: string
  dn_body :: "string option"
  dn_contentJson :: "pm_node option option"
  dn_parentDocId :: "string option"

text \<open>\<open>None\<close> is a property that is absent, \<open>Some None\<close> one that is null.\<close>

record doc_patch =
  dh_title :: "string option"
  dh_body :: "string option"
  dh_contentJson :: "pm_node option option"
  dh_parentDocId :: "string option option"
  dh_position :: "int option"

text \<open>A tree that is null is not stored.\<close>

definition stored_tree :: "pm_node option option \<Rightarrow> pm_node option option" where
  "stored_tree json = (case json of Some (Some n) \<Rightarrow> Some (Some n) | _ \<Rightarrow> None)"

definition resolved_body :: "doc_input \<Rightarrow> string" where
  "resolved_body input = (case dn_body input of Some b \<Rightarrow> b
     | None \<Rightarrow> (case dn_contentJson input of Some (Some n) \<Rightarrow> proseMirrorJsonToMarkdown (Some n) | _ \<Rightarrow> []))"

definition insert_revision :: "string \<Rightarrow> doc_row \<Rightarrow> pm_node option option \<Rightarrow> string \<Rightarrow> int \<Rightarrow> world \<Rightarrow> unit res \<times> world" where
  "insert_revision vid doc json author now w =
     attempt (unique_rows dv_id (docRevisions w @ [\<lparr>dv_id = vid, dv_docId = dc_id doc, dv_title = dc_title doc,
         dv_body = dc_body doc, dv_contentJson = stored_tree json, dv_authorUserId = author, dv_createdAt = now\<rparr>])) w (\<lambda>rows.
     (Inr (), w\<lparr>docRevisions := rows\<rparr>))"

definition new_doc :: "env \<Rightarrow> auth_user \<Rightarrow> string \<Rightarrow> doc_input \<Rightarrow> doc_row" where
  "new_doc e u pid input = \<lparr>dc_id = uuid e 0, dc_projectId = pid, dc_title = dn_title input,
     dc_body = resolved_body input, dc_contentJson = stored_tree (dn_contentJson input), dc_authorUserId = au_id u,
     dc_position = 0, dc_parentDocId = if_truthy (dn_parentDocId input), dc_archivedAt = None, dc_createdAt = clk e 0\<rparr>"

definition createDoc :: "env \<Rightarrow> auth_user \<Rightarrow> string \<Rightarrow> doc_input \<Rightarrow> world \<Rightarrow> doc_row res \<times> world" where
  "createDoc e u pid input w =
     attempt (assertAtLeast w u pid Contributor) w (\<lambda>_.
     let doc = new_doc e u pid input
     in attempt (unique_rows dc_id (docs w @ [doc])) w (\<lambda>rows.
        attempt (require (pid \<in> p_id ` set (projects w) \<and> fk_ok dc_id rows (dc_parentDocId doc)) (DbError P2003)) w (\<lambda>_.
        then_do (insert_revision (uuid e 1) doc (dn_contentJson input) (au_id u) (clk e 1) (w\<lparr>docs := rows\<rparr>)) (\<lambda>_ w1.
        (Inr doc, emit (DocEvent (DocCreated_ev (dc_id doc) pid (au_id u))) w1)))))"

definition derived_body :: "doc_patch \<Rightarrow> string option" where
  "derived_body patch = (case (dh_body patch, dh_contentJson patch) of
     (None, Some (Some n)) \<Rightarrow> Some (proseMirrorJsonToMarkdown (Some n)) | (b, _) \<Rightarrow> b)"

definition patch_doc :: "doc_patch \<Rightarrow> doc_row \<Rightarrow> doc_row" where
  "patch_doc patch d = d\<lparr>dc_title := override (dh_title patch) (dc_title d),
     dc_body := override (derived_body patch) (dc_body d),
     dc_position := override (dh_position patch) (dc_position d),
     dc_parentDocId := override (dh_parentDocId patch) (dc_parentDocId d),
     dc_contentJson := (case dh_contentJson patch of None \<Rightarrow> dc_contentJson d | Some json \<Rightarrow> Some json)\<rparr>"

text \<open>A version is kept when the markdown or the title is another, or a tree was sent.\<close>

definition content_changed :: "doc_patch \<Rightarrow> doc_row \<Rightarrow> bool" where
  "content_changed patch d \<longleftrightarrow> (derived_body patch \<noteq> None \<and> derived_body patch \<noteq> Some (dc_body d)) \<or>
     (dh_title patch \<noteq> None \<and> dh_title patch \<noteq> Some (dc_title d)) \<or> dh_contentJson patch \<noteq> None"

definition write_doc :: "env \<Rightarrow> auth_user \<Rightarrow> doc_patch \<Rightarrow> doc_row \<Rightarrow> world \<Rightarrow> doc_row res \<times> world" where
  "write_doc e u patch doc w =
     attempt (require (fk_ok dc_id (docs w) (dc_parentDocId (patch_doc patch doc))) (DbError P2003)) w (\<lambda>_.
     let w1 = w\<lparr>docs := update_where (\<lambda>d. dc_id d = dc_id doc) (patch_doc patch) (docs w)\<rparr>
     in if content_changed patch doc
        then then_do (insert_revision (uuid e 0) (patch_doc patch doc) (dh_contentJson patch) (au_id u) (clk e 0) w1) (\<lambda>_ w2.
          (Inr (patch_doc patch doc), w2))
        else (Inr (patch_doc patch doc), w1))"

definition updateDoc :: "env \<Rightarrow> auth_user \<Rightarrow> string \<Rightarrow> doc_patch \<Rightarrow> world \<Rightarrow> doc_row res \<times> world" where
  "updateDoc e u did patch w =
     attempt (doc_or ''Not Found'' w did) w (\<lambda>doc.
     attempt (assertAtLeast w u (dc_projectId doc) Contributor) w (\<lambda>_.
     then_do (atomically w (write_doc e u patch doc w)) (\<lambda>updated w1.
     (Inr updated, emit (DocEvent (DocUpdated_ev did (dc_projectId doc) (au_id u))) w1))))"

definition archiveDoc :: "env \<Rightarrow> auth_user \<Rightarrow> string \<Rightarrow> world \<Rightarrow> doc_row res \<times> world" where
  "archiveDoc e u did w =
     attempt (doc_or ''Not Found'' w did) w (\<lambda>doc.
     attempt (assertAtLeast w u (dc_projectId doc) (if dc_authorUserId doc \<noteq> au_id u then Manager else Contributor)) w (\<lambda>_.
     let upd = (\<lambda>d. d\<lparr>dc_archivedAt := Some (clk e 0)\<rparr>)
     in (Inr (upd doc), emit (DocEvent (DocArchived_ev did (dc_projectId doc) (au_id u)))
          (w\<lparr>docs := update_where (\<lambda>d. dc_id d = did) upd (docs w)\<rparr>))))"

definition restore_patch :: "doc_revision_row \<Rightarrow> doc_patch" where
  "restore_patch v = \<lparr>dh_title = Some (dv_title v), dh_body = Some (dv_body v), dh_contentJson = None,
     dh_parentDocId = None, dh_position = None\<rparr>"

definition restoreRevision :: "env \<Rightarrow> auth_user \<Rightarrow> string \<Rightarrow> string \<Rightarrow> world \<Rightarrow> doc_row res \<times> world" where
  "restoreRevision e u did vid w =
     attempt (doc_or ''Not Found'' w did) w (\<lambda>doc.
     attempt (assertAtLeast w u (dc_projectId doc) Contributor) w (\<lambda>_.
     attempt (found (NotFound ''Revision not found'') (find_row dv_id vid (docRevisions w))) w (\<lambda>v.
     attempt (require (dv_docId v = did) (NotFound ''Revision not found'')) w (\<lambda>_.
     updateDoc e u did (restore_patch v) w))))"

section \<open>Tasks of a document\<close>

definition doc_task_key :: "doc_task_row \<Rightarrow> string \<times> string" where
  "doc_task_key r = (dt_docId r, dt_taskId r)"

definition newest_link :: "doc_task_row list \<Rightarrow> doc_task_row list" where
  "newest_link = order_by (\<lambda>a b. dt_addedAt b \<le> dt_addedAt a)"

definition listDocsForTask :: "auth_user \<Rightarrow> string \<Rightarrow> world \<Rightarrow> (doc_task_row \<times> doc_row option) list res" where
  "listDocsForTask u tid w = and_then (found (NotFound ''Task not found'') (find_task w tid)) (\<lambda>task.
     and_then (canSeeTask w u (t_projectId task) (t_visibility task)) (\<lambda>sees.
     and_then (require sees (NotFound ''Task not found'')) (\<lambda>_.
     Inr (map (\<lambda>r. (r, find_doc w (dt_docId r))) (newest_link (filter (\<lambda>r. dt_taskId r = tid) (docTasks w)))))))"

definition listTasksForDoc :: "auth_user \<Rightarrow> string \<Rightarrow> world \<Rightarrow> (doc_task_row \<times> task_row option) list res" where
  "listTasksForDoc u did w = and_then (doc_or ''Doc not found'' w did) (\<lambda>doc.
     and_then (assertAtLeast w u (dc_projectId doc) Viewer) (\<lambda>_.
     Inr (map (\<lambda>r. (r, find_task w (dt_taskId r))) (newest_link (filter (\<lambda>r. dt_docId r = did) (docTasks w))))))"

definition linkTaskToDoc :: "env \<Rightarrow> auth_user \<Rightarrow> string \<Rightarrow> string \<Rightarrow> world \<Rightarrow> unit res \<times> world" where
  "linkTaskToDoc e u did tid w =
     attempt (doc_or ''Doc not found'' w did) w (\<lambda>doc.
     attempt (found (NotFound ''Task not found'') (find_task w tid)) w (\<lambda>_.
     attempt (assertAtLeast w u (dc_projectId doc) Contributor) w (\<lambda>_.
     (Inr (), w\<lparr>docTasks := insert_absent doc_task_key \<lparr>dt_docId = did, dt_taskId = tid, dt_addedAt = clk e 0\<rparr> (docTasks w)\<rparr>))))"

definition unlinkTaskFromDoc :: "auth_user \<Rightarrow> string \<Rightarrow> string \<Rightarrow> world \<Rightarrow> unit res \<times> world" where
  "unlinkTaskFromDoc u did tid w =
     attempt (doc_or ''Doc not found'' w did) w (\<lambda>doc.
     attempt (assertAtLeast w u (dc_projectId doc) Contributor) w (\<lambda>_.
     (Inr (), w\<lparr>docTasks := delete_where (\<lambda>r. doc_task_key r = (did, tid)) (docTasks w)\<rparr>)))"

section \<open>Comments on a document\<close>

definition find_doc_comment :: "world \<Rightarrow> string \<Rightarrow> doc_comment_row option" where
  "find_doc_comment w cid = find_row dm_id cid (docComments w)"

definition listDocComments :: "auth_user \<Rightarrow> string \<Rightarrow> world \<Rightarrow> doc_comment_row list res" where
  "listDocComments u did w = and_then (doc_or ''Doc not found'' w did) (\<lambda>doc.
     and_then (assertAtLeast w u (dc_projectId doc) Viewer) (\<lambda>_.
     Inr (order_by (\<lambda>a b. dm_createdAt a \<le> dm_createdAt b)
       (filter (\<lambda>c. dm_docId c = did \<and> dm_deletedAt c = None) (docComments w)))))"

text \<open>A reply to a reply hangs on the comment that one hangs on; a parent on another document is ignored.\<close>

definition thread_parent :: "string \<Rightarrow> string option \<Rightarrow> world \<Rightarrow> string option" where
  "thread_parent did parent w = (case if_truthy parent of None \<Rightarrow> None
     | Some pid \<Rightarrow> (case find_doc_comment w pid of None \<Rightarrow> None
         | Some p \<Rightarrow> if dm_docId p = did then Some (override (dm_parentCommentId p) (dm_id p)) else None))"

definition addDocComment :: "env \<Rightarrow> auth_user \<Rightarrow> string \<Rightarrow> string \<Rightarrow> string option \<Rightarrow> world \<Rightarrow> doc_comment_row res \<times> world" where
  "addDocComment e u did body parent w =
     attempt (doc_or ''Doc not found'' w did) w (\<lambda>doc.
     attempt (assertAtLeast w u (dc_projectId doc) Contributor) w (\<lambda>_.
     let c = \<lparr>dm_id = uuid e 0, dm_docId = did, dm_authorUserId = au_id u, dm_bodyMd = body,
           dm_parentCommentId = thread_parent did parent w, dm_deletedAt = None, dm_createdAt = clk e 0\<rparr>
     in attempt (unique_rows dm_id (docComments w @ [c])) w (\<lambda>rows. (Inr c, w\<lparr>docComments := rows\<rparr>))))"

definition deleteDocComment :: "env \<Rightarrow> auth_user \<Rightarrow> string \<Rightarrow> world \<Rightarrow> unit res \<times> world" where
  "deleteDocComment e u cid w =
     attempt (found (NotFound ''Comment not found'') (find_doc_comment w cid)) w (\<lambda>c.
     attempt (doc_or ''Not Found'' w (dm_docId c)) w (\<lambda>doc.
     attempt (if dm_authorUserId c \<noteq> au_id u then and_then (assertAtLeast w u (dc_projectId doc) Manager) (\<lambda>_. Inr ()) else Inr ()) w (\<lambda>_.
     (Inr (), w\<lparr>docComments := update_where (\<lambda>c. dm_id c = cid) (\<lambda>c. c\<lparr>dm_deletedAt := Some (clk e 0)\<rparr>) (docComments w)\<rparr>))))"

end
