(* ===== verification/DocLaws.thy ===== *)
theory DocLaws
  imports Docs TaskLaws
begin

text \<open>
  Laws of documents: the invariant of their tables, the versions of a document as an abstract machine
  that only appends and whose last version is what the document shows, and what the checks of the
  service leave open.
\<close>

section \<open>The invariant\<close>

definition latest :: "doc_row \<Rightarrow> doc_revision_row list \<Rightarrow> bool" where
  "latest d vs \<longleftrightarrow> vs \<noteq> [] \<and> dv_title (last vs) = dc_title d \<and> dv_body (last vs) = dc_body d"

definition docs_ok :: "doc_row list \<Rightarrow> doc_revision_row list \<Rightarrow> bool" where
  "docs_ok ds vs \<longleftrightarrow> distinct (map dc_id ds) \<and> distinct (map dv_id vs) \<and> dv_docId ` set vs \<subseteq> dc_id ` set ds \<and>
     (\<forall>d \<in> set ds. fk_ok dc_id ds (dc_parentDocId d) \<and> latest d (filter (\<lambda>v. dv_docId v = dc_id d) vs))"

definition doc_links_ok :: "string set \<Rightarrow> string set \<Rightarrow> doc_task_row list \<Rightarrow> bool" where
  "doc_links_ok ds ts rs \<longleftrightarrow> distinct (map doc_task_key rs) \<and> dt_docId ` set rs \<subseteq> ds \<and> dt_taskId ` set rs \<subseteq> ts"

text \<open>Threads are one level deep and stay on their document.\<close>

definition doc_threads_ok :: "string set \<Rightarrow> doc_comment_row list \<Rightarrow> bool" where
  "doc_threads_ok ds cs \<longleftrightarrow> distinct (map dm_id cs) \<and> dm_docId ` set cs \<subseteq> ds \<and>
     (\<forall>c \<in> set cs. \<forall>k. dm_parentCommentId c = Some k \<longrightarrow>
        (\<exists>p \<in> set cs. dm_id p = k \<and> dm_docId p = dm_docId c \<and> dm_parentCommentId p = None))"

definition docs_inv :: "world \<Rightarrow> bool" where
  "docs_inv w \<longleftrightarrow> docs_ok (docs w) (docRevisions w) \<and>
     doc_links_ok (dc_id ` set (docs w)) (t_id ` set (tasks w)) (docTasks w) \<and>
     doc_threads_ok (dc_id ` set (docs w)) (docComments w)"

lemma docs_inv_emit [simp]: "docs_inv (emit ev w) = docs_inv w"
  by (simp add: docs_inv_def)

lemma find_docD: "find_doc w did = Some d \<Longrightarrow> d \<in> set (docs w) \<and> dc_id d = did"
  by (auto simp: find_doc_def dest: find_row_SomeD)

lemma fk_ok_mono: "fk_ok key rows x \<Longrightarrow> key ` set rows \<subseteq> key ` set rows' \<Longrightarrow> fk_ok key rows' x"
  by (auto simp: fk_ok_def split: option.splits)

lemma docs_ok_add:
  assumes ok: "docs_ok ds vs" and new: "dc_id d \<notin> dc_id ` set ds" "dv_id v \<notin> dv_id ` set vs"
    and v: "dv_docId v = dc_id d" "dv_title v = dc_title d" "dv_body v = dc_body d"
    and parent: "fk_ok dc_id (ds @ [d]) (dc_parentDocId d)"
  shows "docs_ok (ds @ [d]) (vs @ [v])"
proof -
  have none: "filter (\<lambda>v. dv_docId v = dc_id d) vs = []"
  proof -
    have "dv_docId x \<in> dc_id ` set ds" if "x \<in> set vs" for x
      using ok that unfolding docs_ok_def by blast
    with new(1) show ?thesis by (metis (mono_tags, lifting) filter_False)
  qed
  have other: "latest x (filter (\<lambda>v. dv_docId v = dc_id x) (vs @ [v]))" if "x \<in> set ds" for x
    using ok that new(1) v(1) by (auto simp: docs_ok_def)
  have parents: "fk_ok dc_id (ds @ [d]) (dc_parentDocId x)" if "x \<in> set ds" for x
    using ok that by (auto simp: docs_ok_def intro: fk_ok_mono)
  have "latest d (filter (\<lambda>v. dv_docId v = dc_id d) (vs @ [v]))" using none v by (simp add: latest_def)
  with other parents parent have "\<forall>x \<in> set (ds @ [d]). fk_ok dc_id (ds @ [d]) (dc_parentDocId x) \<and>
      latest x (filter (\<lambda>v. dv_docId v = dc_id x) (vs @ [v]))" by simp
  moreover have "distinct (map dc_id (ds @ [d]))" "distinct (map dv_id (vs @ [v]))"
      "dv_docId ` set (vs @ [v]) \<subseteq> dc_id ` set (ds @ [d])"
    using ok new v(1) by (auto simp: docs_ok_def)
  ultimately show ?thesis unfolding docs_ok_def by blast
qed

lemma update_where_ids: "(\<And>r. key (f r) = key r) \<Longrightarrow> key ` set (update_where p f rows) = key ` set rows"
  by (metis list.set_map map_update_where)

text \<open>A row changes; its title and text become those of a version that is added, or stay.\<close>

lemma docs_ok_update:
  assumes ok: "docs_ok ds vs" and d: "d \<in> set ds" and f: "\<And>x. dc_id (f x) = dc_id x"
    and parent: "fk_ok dc_id ds (dc_parentDocId (f d))"
    and added: "added = [] \<and> dc_title (f d) = dc_title d \<and> dc_body (f d) = dc_body d \<or>
      (\<exists>v. added = [v] \<and> dv_id v \<notin> dv_id ` set vs \<and> dv_docId v = dc_id d \<and> dv_title v = dc_title (f d) \<and> dv_body v = dc_body (f d))"
  shows "docs_ok (update_where (\<lambda>x. dc_id x = dc_id d) f ds) (vs @ added)"
proof -
  let ?ds = "update_where (\<lambda>x. dc_id x = dc_id d) f ds"
  have ids: "map dc_id ?ds = map dc_id ds" by (rule map_update_where) (rule f)
  have set_ids: "dc_id ` set ?ds = dc_id ` set ds" by (rule update_where_ids) (rule f)
  have one: "x = d" if "x \<in> set ds" "dc_id x = dc_id d" for x
    using ok that d by (auto simp: docs_ok_def distinct_map dest: inj_onD)
  have fk: "fk_ok dc_id ?ds k = fk_ok dc_id ds k" for k unfolding fk_ok_def set_ids ..
  have "fk_ok dc_id ?ds (dc_parentDocId y) \<and> latest y (filter (\<lambda>v. dv_docId v = dc_id y) (vs @ added))"
    if y: "y \<in> set ?ds" for y
  proof -
    from y obtain x where x: "x \<in> set ds" "y = (if dc_id x = dc_id d then f x else x)"
      by (auto simp: set_update_where)
    show ?thesis
    proof (cases "dc_id x = dc_id d")
      case True
      then have y: "y = f d" using one [OF x(1)] x(2) by simp
      have "latest d (filter (\<lambda>v. dv_docId v = dc_id d) vs)" using ok d by (simp add: docs_ok_def)
      with added y show ?thesis unfolding fk using parent f by (auto simp: latest_def)
    next
      case False
      then have "y = x" "latest x (filter (\<lambda>v. dv_docId v = dc_id x) vs)" "fk_ok dc_id ds (dc_parentDocId x)"
        using ok x by (simp_all add: docs_ok_def)
      with False added show ?thesis unfolding fk by auto
    qed
  qed
  moreover have "distinct (map dv_id (vs @ added))" "dv_docId ` set (vs @ added) \<subseteq> dc_id ` set ?ds"
    using ok added d unfolding set_ids by (auto simp: docs_ok_def image_iff)
  moreover have "distinct (map dc_id ?ds)" using ok unfolding ids by (simp add: docs_ok_def)
  ultimately show ?thesis unfolding docs_ok_def by blast
qed

lemma insert_revision_run:
  "vid \<notin> dv_id ` set (docRevisions w) \<Longrightarrow> distinct (map dv_id (docRevisions w)) \<Longrightarrow>
   insert_revision vid doc json author now w = (Inr (), w\<lparr>docRevisions := docRevisions w @
     [\<lparr>dv_id = vid, dv_docId = dc_id doc, dv_title = dc_title doc, dv_body = dc_body doc,
       dv_contentJson = stored_tree json, dv_authorUserId = author, dv_createdAt = now\<rparr>]\<rparr>)"
  by (simp add: insert_revision_def unique_rows_def)

lemma createDoc_inv:
  assumes inv: "docs_inv w" and new: "uuid e 1 \<notin> dv_id ` set (docRevisions w)"
  shows "docs_inv (snd (createDoc e u pid input w))"
  unfolding createDoc_def Let_def
proof (intro attempt_inv [where P = docs_inv] inv)
  fix r rows x
  assume rows: "unique_rows dc_id (docs w @ [new_doc e u pid input]) = Inr rows"
    and fk: "require (pid \<in> p_id ` set (projects w) \<and> fk_ok dc_id rows (dc_parentDocId (new_doc e u pid input))) (DbError P2003) = Inr x"
  have d: "dc_id (new_doc e u pid input) \<notin> dc_id ` set (docs w)" and rows_eq: "rows = docs w @ [new_doc e u pid input]"
    using rows by auto
  have vs: "distinct (map dv_id (docRevisions w))" using inv by (simp add: docs_inv_def docs_ok_def)
  have "docs_inv (w\<lparr>docs := docs w @ [new_doc e u pid input], docRevisions := docRevisions w @
     [\<lparr>dv_id = uuid e 1, dv_docId = dc_id (new_doc e u pid input), dv_title = dc_title (new_doc e u pid input),
       dv_body = dc_body (new_doc e u pid input), dv_contentJson = stored_tree (dn_contentJson input),
       dv_authorUserId = au_id u, dv_createdAt = clk e 1\<rparr>]\<rparr>)"
    using inv new d fk rows_eq
    by (auto simp: docs_inv_def doc_links_ok_def doc_threads_ok_def intro!: docs_ok_add)
  then show "docs_inv (snd (then_do (insert_revision (uuid e 1) (new_doc e u pid input) (dn_contentJson input) (au_id u)
      (clk e 1) (w\<lparr>docs := rows\<rparr>)) (\<lambda>_ w1. (Inr (new_doc e u pid input),
      emit (DocEvent (DocCreated_ev (dc_id (new_doc e u pid input)) pid (au_id u))) w1))))"
    using new vs by (simp add: rows_eq insert_revision_run)
qed

lemma patch_doc_id [simp]: "dc_id (patch_doc p d) = dc_id d"
  by (simp add: patch_doc_def)

lemma unchanged_text:
  "\<not> content_changed p d \<Longrightarrow> dc_title (patch_doc p d) = dc_title d \<and> dc_body (patch_doc p d) = dc_body d"
  by (cases "dh_title p"; cases "derived_body p") (auto simp: content_changed_def patch_doc_def)

lemma docs_inv_rows:
  assumes "docs_inv w" and "docs_ok ds vs" and "dc_id ` set ds = dc_id ` set (docs w)"
  shows "docs_inv (w\<lparr>docs := ds, docRevisions := vs\<rparr>)"
  using assms by (simp add: docs_inv_def)

interpretation doc_patching: row_update dc_id "patch_doc p" for p
  by unfold_locales simp

text \<open>What \<open>updateDoc\<close> leaves, when it succeeds.\<close>

lemma write_doc_run:
  assumes inv: "docs_inv w" and d: "d \<in> set (docs w)" and new: "uuid e 0 \<notin> dv_id ` set (docRevisions w)"
    and ok: "write_doc e u p d w = (Inr r, w')"
  shows "r = patch_doc p d \<and> fk_ok dc_id (docs w) (dc_parentDocId r) \<and>
    w' = w\<lparr>docs := update_where (\<lambda>x. dc_id x = dc_id d) (patch_doc p) (docs w),
      docRevisions := docRevisions w @ (if content_changed p d then [\<lparr>dv_id = uuid e 0, dv_docId = dc_id d,
        dv_title = dc_title r, dv_body = dc_body r, dv_contentJson = stored_tree (dh_contentJson p),
        dv_authorUserId = au_id u, dv_createdAt = clk e 0\<rparr>] else [])\<rparr>"
  using ok new inv
  by (auto simp: write_doc_def Let_def attempt_Inr insert_revision_run docs_inv_def docs_ok_def split: if_splits)

lemma write_doc_inv:
  assumes "docs_inv w" and "d \<in> set (docs w)" and "uuid e 0 \<notin> dv_id ` set (docRevisions w)"
    and "write_doc e u p d w = (Inr r, w')"
  shows "docs_inv w'"
proof -
  note run = write_doc_run [OF assms]
  have ids: "dc_id ` set (update_where (\<lambda>x. dc_id x = dc_id d) (patch_doc p) (docs w)) = dc_id ` set (docs w)"
    by (rule update_where_ids) simp
  have "docs_inv (w\<lparr>docs := update_where (\<lambda>x. dc_id x = dc_id d) (patch_doc p) (docs w),
      docRevisions := docRevisions w @ (if content_changed p d then [\<lparr>dv_id = uuid e 0, dv_docId = dc_id d,
        dv_title = dc_title r, dv_body = dc_body r, dv_contentJson = stored_tree (dh_contentJson p),
        dv_authorUserId = au_id u, dv_createdAt = clk e 0\<rparr>] else [])\<rparr>)"
    using assms run ids unchanged_text [of p d]
    by (intro docs_inv_rows docs_ok_update) (auto simp: docs_inv_def)
  with run show ?thesis by simp
qed

lemma updateDoc_inv:
  assumes inv: "docs_inv w" and new: "uuid e 0 \<notin> dv_id ` set (docRevisions w)"
  shows "docs_inv (snd (updateDoc e u did p w))"
  unfolding updateDoc_def
proof (intro attempt_inv [where P = docs_inv] then_do_inv [where P = docs_inv] inv)
  fix d r assume "doc_or ''Not Found'' w did = Inr d"
  then have d: "d \<in> set (docs w)" by (auto simp: doc_or_def dest: find_docD)
  show "docs_inv (snd (atomically w (write_doc e u p d w)))"
    using write_doc_inv [OF inv d new] inv
    by (cases "write_doc e u p d w"; cases "fst (write_doc e u p d w)") (auto simp: atomically_def)
qed simp

lemma restoreRevision_inv:
  assumes "docs_inv w" and "uuid e 0 \<notin> dv_id ` set (docRevisions w)"
  shows "docs_inv (snd (restoreRevision e u did vid w))"
  unfolding restoreRevision_def
  by (intro attempt_inv [where P = docs_inv] assms(1) updateDoc_inv assms)

lemma archiveDoc_inv:
  assumes inv: "docs_inv w"
  shows "docs_inv (snd (archiveDoc e u did w))"
  unfolding archiveDoc_def Let_def
proof (intro attempt_inv [where P = docs_inv] inv)
  fix d assume "doc_or ''Not Found'' w did = Inr d"
  then have d: "d \<in> set (docs w)" "dc_id d = did" by (auto simp: doc_or_def dest: find_docD)
  let ?arch = "dc_archivedAt_update (\<lambda>_. Some (clk e 0))"
  have "docs_ok (update_where (\<lambda>x. dc_id x = dc_id d) ?arch (docs w)) (docRevisions w @ [])"
    using inv d by (intro docs_ok_update) (auto simp: docs_inv_def docs_ok_def)
  moreover have "dc_id ` set (update_where (\<lambda>x. dc_id x = dc_id d) ?arch (docs w)) = dc_id ` set (docs w)"
    by (rule update_where_ids) simp
  ultimately show "docs_inv (snd (Inr (?arch d), emit (DocEvent (DocArchived_ev did (dc_projectId d) (au_id u)))
      (w\<lparr>docs := update_where (\<lambda>d. dc_id d = did) ?arch (docs w)\<rparr>)))"
    using inv d by (simp add: docs_inv_def)
qed

lemma linkTaskToDoc_inv: "docs_inv w \<Longrightarrow> docs_inv (snd (linkTaskToDoc e u did tid w))"
  unfolding linkTaskToDoc_def
  by (intro attempt_inv [where P = docs_inv])
    (auto simp: docs_inv_def doc_links_ok_def set_insert_absent doc_or_def distinct_insert_absent dest!: find_docD find_taskD)

lemma unlinkTaskFromDoc_inv: "docs_inv w \<Longrightarrow> docs_inv (snd (unlinkTaskFromDoc u did tid w))"
  unfolding unlinkTaskFromDoc_def
  by (intro attempt_inv [where P = docs_inv]) (auto simp: docs_inv_def doc_links_ok_def distinct_delete_where)

lemma thread_parent_ok:
  assumes "doc_threads_ok ds (docComments w)" and "thread_parent did parent w = Some k"
  shows "\<exists>p \<in> set (docComments w). dm_id p = k \<and> dm_docId p = did \<and> dm_parentCommentId p = None"
proof -
  from assms(2) obtain pid p where p: "find_doc_comment w pid = Some p" "dm_docId p = did"
    and k: "k = override (dm_parentCommentId p) (dm_id p)"
    by (auto simp: thread_parent_def split: option.splits if_splits)
  then have "p \<in> set (docComments w)" by (auto simp: find_doc_comment_def dest: find_row_SomeD)
  with assms(1) p k show ?thesis by (cases "dm_parentCommentId p") (auto simp: doc_threads_ok_def)
qed

lemma addDocComment_inv:
  assumes inv: "docs_inv w"
  shows "docs_inv (snd (addDocComment e u did body parent w))"
  unfolding addDocComment_def Let_def
proof (intro attempt_inv [where P = docs_inv] inv)
  fix d rows
  let ?c = "\<lparr>dm_id = uuid e 0, dm_docId = did, dm_authorUserId = au_id u, dm_bodyMd = body,
     dm_parentCommentId = thread_parent did parent w, dm_deletedAt = None, dm_createdAt = clk e 0\<rparr>"
  assume d: "doc_or ''Doc not found'' w did = Inr d" and rows: "unique_rows dm_id (docComments w @ [?c]) = Inr rows"
  have ok: "doc_threads_ok (dc_id ` set (docs w)) (docComments w)" using inv by (simp add: docs_inv_def)
  have did: "did \<in> dc_id ` set (docs w)" using d by (auto simp: doc_or_def dest!: find_docD)
  have new: "uuid e 0 \<notin> dm_id ` set (docComments w)" "rows = docComments w @ [?c]" using rows by auto
  have "\<exists>p \<in> set rows. dm_id p = k \<and> dm_docId p = dm_docId c \<and> dm_parentCommentId p = None"
    if "c \<in> set rows" "dm_parentCommentId c = Some k" for c k
  proof (cases "c = ?c")
    case True
    with thread_parent_ok [OF ok] that(2) new(2) show ?thesis by fastforce
  next
    case False
    with ok that new(2) show ?thesis by (fastforce simp: doc_threads_ok_def)
  qed
  with ok did new have "doc_threads_ok (dc_id ` set (docs w)) rows" by (simp add: doc_threads_ok_def)
  with inv show "docs_inv (snd (Inr ?c, w\<lparr>docComments := rows\<rparr>))" by (simp add: docs_inv_def)
qed

text \<open>The condition on threads depends on three columns only.\<close>

definition thread_key :: "doc_comment_row \<Rightarrow> string \<times> string \<times> string option" where
  "thread_key c = (dm_id c, dm_docId c, dm_parentCommentId c)"

lemma doc_threads_keys:
  "doc_threads_ok ds cs \<longleftrightarrow> distinct (map fst (map thread_key cs)) \<and> fst ` snd ` set (map thread_key cs) \<subseteq> ds \<and>
     (\<forall>(i, d, p) \<in> set (map thread_key cs). \<forall>k. p = Some k \<longrightarrow> (k, d, None) \<in> set (map thread_key cs))"
proof -
  have ids: "map fst (map thread_key cs) = map dm_id cs" "fst ` snd ` set (map thread_key cs) = dm_docId ` set cs"
    by (simp_all add: thread_key_def image_image)
  have "(k, d, None) \<in> set (map thread_key cs) \<longleftrightarrow> (\<exists>p \<in> set cs. dm_id p = k \<and> dm_docId p = d \<and> dm_parentCommentId p = None)" for k d
    by (auto simp: thread_key_def image_iff)
  then show ?thesis unfolding ids doc_threads_ok_def by (simp add: thread_key_def)
qed

lemma deleteDocComment_inv:
  assumes "docs_inv w"
  shows "docs_inv (snd (deleteDocComment e u cid w))"
proof -
  have keys: "map thread_key (update_where p (\<lambda>c. c\<lparr>dm_deletedAt := x\<rparr>) cs) = map thread_key cs" for p x cs
    by (rule map_update_where) (simp add: thread_key_def)
  have "doc_threads_ok ds (update_where p (\<lambda>c. c\<lparr>dm_deletedAt := x\<rparr>) cs) = doc_threads_ok ds cs" for ds p x cs
    unfolding doc_threads_keys keys ..
  with assms show ?thesis
    unfolding deleteDocComment_def by (intro attempt_inv [where P = docs_inv]) (simp_all add: docs_inv_def)
qed

lemma cascade_task_ids: "t_id ` set (tasks (cascade_task tid w)) = t_id ` set (tasks w) - {tid}"
  unfolding cascade_tasks by (auto simp: image_image)

lemma removeTask_docs_inv: "docs_inv w \<Longrightarrow> docs_inv (snd (removeTask u tid w))"
proof -
  assume inv: "docs_inv w"
  have kept: "docs (cascade_task tid w) = docs w" "docRevisions (cascade_task tid w) = docRevisions w"
      "docComments (cascade_task tid w) = docComments w"
      "docTasks (cascade_task tid w) = delete_where (\<lambda>r. dt_taskId r = tid) (docTasks w)"
    by (simp_all add: cascade_task_def)
  have "docs_inv (cascade_task tid w)"
    using inv unfolding docs_inv_def doc_links_ok_def cascade_task_ids kept by (auto simp: distinct_delete_where)
  with inv show ?thesis unfolding removeTask_def by (intro attempt_inv [where P = docs_inv]) simp_all
qed

section \<open>The versions of a document\<close>

text \<open>The titles and texts a document has had, the current ones last.\<close>

definition versions :: "world \<Rightarrow> string \<Rightarrow> (string \<times> string) list" where
  "versions w did = map (\<lambda>v. (dv_title v, dv_body v)) (revisions_of did w)"

text \<open>The abstract machine: a title and a text come after those of one document.\<close>

inductive version_step :: "(string \<Rightarrow> (string \<times> string) list) \<Rightarrow> (string \<Rightarrow> (string \<times> string) list) \<Rightarrow> bool" where
  added: "version_step vs (vs(did := vs did @ [x]))"

inductive_cases version_stepE: "version_step vs vs'"

lemma version_steps_append:
  "version_step\<^sup>*\<^sup>* vs vs' \<Longrightarrow> \<exists>more. vs' did = vs did @ more"
proof (induction rule: rtranclp_induct)
  case (step y z)
  then show ?case by (auto elim!: version_stepE)
qed simp

definition keeps_versions :: "world \<Rightarrow> world \<Rightarrow> bool" where
  "keeps_versions w w' \<longleftrightarrow> version_step\<^sup>=\<^sup>= (versions w) (versions w')"

lemma keeps_versions_same: "docRevisions w' = docRevisions w \<Longrightarrow> keeps_versions w w'"
  by (simp add: keeps_versions_def versions_def revisions_of_def fun_eq_iff)

lemma keeps_versions_added:
  assumes "docRevisions w' = docRevisions w @ [v]"
  shows "keeps_versions w w'"
proof -
  have "versions w' = (versions w)(dv_docId v := versions w (dv_docId v) @ [(dv_title v, dv_body v)])"
    by (simp add: versions_def revisions_of_def assms fun_eq_iff)
  then show ?thesis by (simp add: keeps_versions_def version_step.added)
qed

lemma latest_version:
  assumes "docs_inv w" and "find_doc w did = Some d"
  shows "versions w did \<noteq> [] \<and> last (versions w did) = (dc_title d, dc_body d)"
proof -
  from find_docD [OF assms(2)] assms(1) have "latest d (revisions_of did w)"
    by (auto simp: docs_inv_def docs_ok_def revisions_of_def)
  then show ?thesis by (simp add: latest_def versions_def last_map)
qed

lemmas version_steps = attempt_inv [where P = "keeps_versions w" for w]

lemma createDoc_versions:
  assumes "docs_inv w" and "uuid e 1 \<notin> dv_id ` set (docRevisions w)"
  shows "keeps_versions w (snd (createDoc e u pid input w))"
proof -
  have "distinct (map dv_id (docRevisions w))" using assms(1) by (simp add: docs_inv_def docs_ok_def)
  then show ?thesis unfolding createDoc_def Let_def
    using assms(2) by (intro version_steps) (simp_all add: keeps_versions_same insert_revision_run keeps_versions_added emit_def)
qed

lemma updateDoc_versions:
  assumes "docs_inv w" and "uuid e 0 \<notin> dv_id ` set (docRevisions w)"
  shows "keeps_versions w (snd (updateDoc e u did p w))"
  unfolding updateDoc_def
proof (intro version_steps)
  fix d assume "doc_or ''Not Found'' w did = Inr d"
  then have d: "d \<in> set (docs w)" by (auto simp: doc_or_def dest: find_docD)
  show "keeps_versions w (snd (then_do (atomically w (write_doc e u p d w))
      (\<lambda>updated w1. (Inr updated, emit (DocEvent (DocUpdated_ev did (dc_projectId d) (au_id u))) w1))))"
  proof (cases "write_doc e u p d w")
    case (Pair r w')
    show ?thesis
    proof (cases r)
      case (Inr a)
      with Pair write_doc_run [OF assms(1) d assms(2), of u p a w'] show ?thesis
        by (auto simp: atomically_def emit_def split: if_splits intro: keeps_versions_same keeps_versions_added)
    qed (simp add: Pair atomically_def keeps_versions_same)
  qed
qed (simp_all add: keeps_versions_same)

section \<open>Operations\<close>

datatype doc_op =
    CreateDoc env auth_user string doc_input
  | UpdateDoc env auth_user string doc_patch
  | ArchiveDoc env auth_user string
  | RestoreRevision env auth_user string string
  | LinkTaskToDoc env auth_user string string
  | UnlinkTaskFromDoc auth_user string string
  | AddDocComment env auth_user string string "string option"
  | DeleteDocComment env auth_user string
  | RemoveLinkedTask auth_user string

fun exec_doc :: "doc_op \<Rightarrow> world \<Rightarrow> world" where
  "exec_doc (CreateDoc e u pid input) w = snd (createDoc e u pid input w)"
| "exec_doc (UpdateDoc e u did p) w = snd (updateDoc e u did p w)"
| "exec_doc (ArchiveDoc e u did) w = snd (archiveDoc e u did w)"
| "exec_doc (RestoreRevision e u did vid) w = snd (restoreRevision e u did vid w)"
| "exec_doc (LinkTaskToDoc e u did tid) w = snd (linkTaskToDoc e u did tid w)"
| "exec_doc (UnlinkTaskFromDoc u did tid) w = snd (unlinkTaskFromDoc u did tid w)"
| "exec_doc (AddDocComment e u did body parent) w = snd (addDocComment e u did body parent w)"
| "exec_doc (DeleteDocComment e u cid) w = snd (deleteDocComment e u cid w)"
| "exec_doc (RemoveLinkedTask u tid) w = snd (removeTask u tid w)"

text \<open>The identifier the operation draws for a version is not that of another one.\<close>

fun new_version_id :: "doc_op \<Rightarrow> world \<Rightarrow> bool" where
  "new_version_id (CreateDoc e u pid input) w = (uuid e 1 \<notin> dv_id ` set (docRevisions w))"
| "new_version_id (UpdateDoc e u did p) w = (uuid e 0 \<notin> dv_id ` set (docRevisions w))"
| "new_version_id (RestoreRevision e u did vid) w = (uuid e 0 \<notin> dv_id ` set (docRevisions w))"
| "new_version_id _ w = True"

lemma other_versions:
  "keeps_versions w (snd (archiveDoc e u did w))" "keeps_versions w (snd (linkTaskToDoc e u did tid w))"
  "keeps_versions w (snd (unlinkTaskFromDoc u did tid w))" "keeps_versions w (snd (addDocComment e u did body parent w))"
  "keeps_versions w (snd (deleteDocComment e u did w))" "keeps_versions w (snd (removeTask u tid w))"
  unfolding archiveDoc_def linkTaskToDoc_def unlinkTaskFromDoc_def addDocComment_def deleteDocComment_def removeTask_def Let_def
  by (intro version_steps; simp add: keeps_versions_same cascade_task_def emit_def)+

lemma restoreRevision_versions:
  "docs_inv w \<Longrightarrow> uuid e 0 \<notin> dv_id ` set (docRevisions w) \<Longrightarrow> keeps_versions w (snd (restoreRevision e u did vid w))"
  unfolding restoreRevision_def by (intro version_steps updateDoc_versions) (simp_all add: keeps_versions_same)

interpretation doc_runs: refining_system docs_inv new_version_id exec_doc versions version_step
proof
  fix w op assume ok: "docs_inv w" "new_version_id op w"
  then show "docs_inv (exec_doc op w)"
    by (cases op) (simp_all add: createDoc_inv updateDoc_inv archiveDoc_inv restoreRevision_inv linkTaskToDoc_inv
      unlinkTaskFromDoc_inv addDocComment_inv deleteDocComment_inv removeTask_docs_inv)
  from ok have "keeps_versions w (exec_doc op w)"
    by (cases op) (simp_all add: createDoc_versions updateDoc_versions restoreRevision_versions other_versions)
  then show "version_step\<^sup>=\<^sup>= (versions w) (versions (exec_doc op w))" by (simp add: keeps_versions_def)
qed

definition doc_world :: world where
  "doc_world = task_world\<lparr>docs := [\<lparr>dc_id = ''d1'', dc_projectId = ''P'', dc_title = ''two'', dc_body = ''b'', dc_contentJson = None,
       dc_authorUserId = ''A'', dc_position = 0, dc_parentDocId = None, dc_archivedAt = None, dc_createdAt = 0\<rparr>],
     docRevisions := [
       \<lparr>dv_id = ''v1'', dv_docId = ''d1'', dv_title = ''one'', dv_body = ''a'', dv_contentJson = None, dv_authorUserId = ''A'', dv_createdAt = 0\<rparr>,
       \<lparr>dv_id = ''v2'', dv_docId = ''d1'', dv_title = ''two'', dv_body = ''b'', dv_contentJson = None, dv_authorUserId = ''A'', dv_createdAt = 1\<rparr>]\<rparr>"

lemma doc_world_ok [simp]: "docs_inv doc_world"
  by (simp add: docs_inv_def docs_ok_def doc_links_ok_def doc_threads_ok_def latest_def fk_ok_def doc_world_def task_samples)

text \<open>A document becomes its own parent: the parent of an update is not checked.\<close>

lemma document_is_its_own_parent:
  "map dc_parentDocId (docs (snd (updateDoc sample_env sample_admin ''d1'' \<lparr>dh_title = None, dh_body = None, dh_contentJson = None,
     dh_parentDocId = Some (Some ''d1''), dh_position = None\<rparr> doc_world))) = [Some ''d1'']"
  by (simp add: updateDoc_def doc_or_def find_doc_def doc_world_def write_doc_def content_changed_def derived_body_def
    patch_doc_def fk_ok_def atomically_def)

text \<open>Linking asks for no role on the project of the task, and the list of the document shows the task.\<close>

lemma linked_task_is_shown:
  assumes "find_doc w did = Some d" and "find_task w tid = Some t" and "assertAtLeast w u (dc_projectId d) Contributor = Inr r"
    and "linkTaskToDoc e u did tid w = (Inr (), w')" and "listTasksForDoc u did w' = Inr rows"
  shows "Some t \<in> snd ` set rows"
proof -
  have w': "w' = w\<lparr>docTasks := insert_absent doc_task_key \<lparr>dt_docId = did, dt_taskId = tid, dt_addedAt = clk e 0\<rparr> (docTasks w)\<rparr>"
    using assms(1-4) by (simp add: linkTaskToDoc_def doc_or_def)
  have "doc_task_key \<lparr>dt_docId = did, dt_taskId = tid, dt_addedAt = clk e 0\<rparr> \<in> doc_task_key ` set (docTasks w')"
    unfolding w' by (simp add: insert_absent_key)
  then obtain x where "x \<in> set (docTasks w')" "dt_docId x = did" "dt_taskId x = tid" by (auto simp: doc_task_key_def)
  moreover have "find_task w' tid = Some t" using assms(2) by (simp add: w' find_task_def)
  ultimately show ?thesis using assms(5) by (force simp: listTasksForDoc_def and_then_Inr newest_link_def)
qed

section \<open>Properties\<close>

text \<open>
  C39: no version of a document is lost. Whatever operations on documents and deletions of tasks run, the titles
  and texts a document has had stay, in order, and new ones come only after them, by steps of the abstract machine;
  a document always shows the last of its versions; and the invariant holds: identifiers are unique,
  versions, links and comments belong to existing documents (links to existing tasks, once each), a parent exists, and a
  reply hangs on a comment of the same document that is not a reply.
\<close>

theorem documents_keep_every_version:
  assumes "docs_inv w" and "doc_runs.run_ok ops w"
  shows "docs_inv (fold exec_doc ops w) \<and> version_step\<^sup>*\<^sup>* (versions w) (versions (fold exec_doc ops w)) \<and>
    (\<exists>more. versions (fold exec_doc ops w) did = versions w did @ more) \<and>
    (\<forall>d. find_doc (fold exec_doc ops w) did = Some d \<longrightarrow>
       versions (fold exec_doc ops w) did \<noteq> [] \<and> last (versions (fold exec_doc ops w) did) = (dc_title d, dc_body d))"
  using assms doc_runs.run_inv doc_runs.run_refines version_steps_append latest_version by blast

theorem documents_keep_every_version_witness:
  "\<exists>more. versions (fold exec_doc [RestoreRevision sample_env sample_admin ''d1'' ''v1'',
       LinkTaskToDoc sample_env sample_admin ''d1'' ''t1'', RemoveLinkedTask sample_admin ''t1''] doc_world) ''d1'' =
     [(''one'', ''a''), (''two'', ''b'')] @ more"
proof -
  have "versions doc_world ''d1'' = [(''one'', ''a''), (''two'', ''b'')]"
    by (simp add: versions_def revisions_of_def doc_world_def)
  then show ?thesis
    using documents_keep_every_version [of doc_world "[RestoreRevision sample_env sample_admin ''d1'' ''v1'',
      LinkTaskToDoc sample_env sample_admin ''d1'' ''t1'', RemoveLinkedTask sample_admin ''t1'']" "''d1''"]
    by (simp add: doc_world_ok sample_env_def del: exec_doc.simps fold_simps) (simp add: doc_world_def)
qed

lemma restore_run:
  assumes inv: "docs_inv w" and new: "uuid e 0 \<notin> dv_id ` set (docRevisions w)"
    and ok: "restoreRevision e u did vid w = (Inr r, w')"
  shows "\<exists>v d. v \<in> set (revisions_of did w) \<and> dv_id v = vid \<and> find_doc w did = Some d \<and>
    has_role w u (dc_projectId d) Contributor \<and>
    r = d\<lparr>dc_title := dv_title v, dc_body := dv_body v\<rparr> \<and> find_doc w' did = Some r \<and>
    (\<forall>k. k \<noteq> did \<longrightarrow> find_doc w' k = find_doc w k) \<and>
    versions w' did = versions w did @ (if r = d then [] else [(dv_title v, dv_body v)])"
proof -
  from ok obtain v d0 where v: "find_row dv_id vid (docRevisions w) = Some v" "dv_docId v = did"
    and d0: "find_doc w did = Some d0" "has_role w u (dc_projectId d0) Contributor"
    and upd: "updateDoc e u did (restore_patch v) w = (Inr r, w')"
    by (auto simp: restoreRevision_def attempt_Inr doc_or_def assertAtLeast_ok [symmetric])
  from upd obtain d w1 where d: "find_doc w did = Some d" and w1: "write_doc e u (restore_patch v) d w = (Inr r, w1)"
    and w': "w' = emit (DocEvent (DocUpdated_ev did (dc_projectId d) (au_id u))) w1"
    by (auto simp: updateDoc_def attempt_Inr doc_or_def then_do_Inr)
  have row: "v \<in> set (revisions_of did w)" "dv_id v = vid" using find_row_SomeD [OF v(1)] v(2) by (simp_all add: revisions_of_def)
  have d': "d \<in> set (docs w)" "dc_id d = did" using find_docD [OF d] by simp_all
  have patch: "patch_doc (restore_patch v) d = d\<lparr>dc_title := dv_title v, dc_body := dv_body v\<rparr>"
    by (simp add: patch_doc_def restore_patch_def derived_body_def)
  have changed: "content_changed (restore_patch v) d \<longleftrightarrow> d\<lparr>dc_title := dv_title v, dc_body := dv_body v\<rparr> \<noteq> d"
    by (cases d) (auto simp: content_changed_def restore_patch_def derived_body_def)
  note run = write_doc_run [OF inv d'(1) new w1, unfolded patch changed]
  have found: "find_doc w' k = map_option (\<lambda>x. if dc_id x = did then patch_doc (restore_patch v) x else x) (find_doc w k)" for k
    using run by (simp add: w' find_doc_def emit_def doc_patching.find_updated d')
  have "find_doc w' did = Some r" unfolding found d using d'(2) run patch by simp
  moreover have "find_doc w' k = find_doc w k" if "k \<noteq> did" for k
    unfolding found using that find_docD [of w k] by (cases "find_doc w k") auto
  moreover have "versions w' did = versions w did @ (if r = d then [] else [(dv_title v, dv_body v)])"
    using run d' by (auto simp: w' versions_def revisions_of_def emit_def)
  moreover have "d0 = d" using d0(1) d by simp
  ultimately show ?thesis using row d d0(2) run by blast
qed

text \<open>
  C40: what restoring a version does. It needs the role of a contributor on the project of the document;
  when it succeeds, the version is one of this document, the document shows its title and its text, the
  other columns but the stored tree of the editor (on which nothing is said here) are as before, no other
  document changes, and the restored title and text are kept as a new version after all the old ones,
  unless they are the ones the document had.
\<close>

theorem restored_version_comes_back:
  assumes inv: "docs_inv w" and new: "uuid e 0 \<notin> dv_id ` set (docRevisions w)"
    and ok: "restoreRevision e u did vid w = (Inr r, w')"
  shows "\<exists>v d. v \<in> set (revisions_of did w) \<and> dv_id v = vid \<and> find_doc w did = Some d \<and>
    has_role w u (dc_projectId d) Contributor \<and>
    find_doc w' did = Some r \<and> dc_title r = dv_title v \<and> dc_body r = dv_body v \<and>
    r\<lparr>dc_title := dc_title d, dc_body := dc_body d, dc_contentJson := dc_contentJson d\<rparr> = d \<and>
    (\<forall>k. k \<noteq> did \<longrightarrow> find_doc w' k = find_doc w k) \<and>
    versions w' did = versions w did @
      (if (dc_title r, dc_body r) = (dc_title d, dc_body d) then [] else [(dv_title v, dv_body v)])"
proof -
  obtain v d where v: "v \<in> set (revisions_of did w)" "dv_id v = vid" and d: "find_doc w did = Some d"
      "has_role w u (dc_projectId d) Contributor"
    and r: "r = d\<lparr>dc_title := dv_title v, dc_body := dv_body v\<rparr>" and found: "find_doc w' did = Some r"
      "\<forall>k. k \<noteq> did \<longrightarrow> find_doc w' k = find_doc w k"
    and vs: "versions w' did = versions w did @ (if r = d then [] else [(dv_title v, dv_body v)])"
    using restore_run [OF inv new ok] by blast
  have eq: "r = d \<longleftrightarrow> (dc_title r, dc_body r) = (dc_title d, dc_body d)" unfolding r by (cases d) auto
  have rest: "r\<lparr>dc_title := dc_title d, dc_body := dc_body d, dc_contentJson := dc_contentJson d\<rparr> = d"
    unfolding r by (cases d) simp
  have shown: "dc_title r = dv_title v" "dc_body r = dv_body v" by (simp_all add: r)
  show ?thesis
    by (intro exI [of _ v] exI [of _ d] conjI) (rule v d found shown rest vs [unfolded eq])+
qed

text \<open>
  The restored text does not reach the tree of the editor, from which the column of the text is meant to
  be derived: the tree stays that of the version before.
\<close>

lemma restored_tree_is_stale:
  assumes "docs_inv w" and "uuid e 0 \<notin> dv_id ` set (docRevisions w)"
    and "restoreRevision e u did vid w = (Inr r, w')" and "find_doc w did = Some d"
  shows "dc_contentJson r = dc_contentJson d"
  using restore_run [OF assms(1-3)] assms(4) by auto

theorem restored_version_comes_back_witness:
  "map dc_title (docs (snd (restoreRevision sample_env sample_admin ''d1'' ''v1'' doc_world))) = [''one''] \<and>
   versions (snd (restoreRevision sample_env sample_admin ''d1'' ''v1'' doc_world)) ''d1'' = [(''one'', ''a''), (''two'', ''b''), (''one'', ''a'')]"
proof -
  let ?r = "restoreRevision sample_env sample_admin ''d1'' ''v1'' doc_world"
  have new: "uuid sample_env 0 \<notin> dv_id ` set (docRevisions doc_world)" by (simp add: sample_env_def doc_world_def)
  have run: "\<exists>r. fst ?r = Inr r" "map dc_title (docs (snd ?r)) = [''one'']"
    by (simp_all add: restoreRevision_def updateDoc_def doc_or_def find_doc_def doc_world_def write_doc_def content_changed_def
      derived_body_def patch_doc_def restore_patch_def insert_revision_run sample_env_def fk_ok_def atomically_def)
  then obtain r where r: "?r = (Inr r, snd ?r)" by (metis prod.collapse)
  have "versions doc_world ''d1'' = [(''one'', ''a''), (''two'', ''b'')]" "revisions_of ''d1'' doc_world = docRevisions doc_world"
    by (simp_all add: versions_def revisions_of_def doc_world_def)
  with restored_version_comes_back [OF doc_world_ok new r] run show ?thesis
    by (auto simp: doc_world_def find_doc_def)
qed

end
