(* ===== verification/Spec2Isabelle.thy ===== *)
theory Spec2Isabelle
  imports ProjectWorkflow TaskGraph Projects SprintLaws Worklogs GoalLaws Recurrence AutoStatus CustomFieldLaws CommentLaws AutomationLaws UserLaws DocLaws
begin

text \<open>
  Verification of Nockta Flow, a project-management application: the services of its API under
  \<^verbatim>\<open>src/apps/api/src\<close>, written in TypeScript with NestJS and a Prisma client over
  PostgreSQL (\<^verbatim>\<open>src/apps/api/prisma/schema.prisma\<close>).

  \<^bold>\<open>How the program is put together.\<close> A request reaches a controller, which authenticates it
  (\<^verbatim>\<open>auth/strategies/jwt.strategy.ts\<close>) and calls one method of a service with the user and the
  input. The service asks \<^verbatim>\<open>permissions.service.ts\<close> for the user's role on the project, checks
  the input, reads and writes tables, often in one transaction, and emits events that other services
  hear (automations, notifications, chat). The model keeps that shape: \<open>world\<close> (theory Schema) is
  one record with a list of rows per table, the emitted events, the outbox of mail and the revoked
  access tokens; a method is a function from an environment, the user, the input and the world to
  a result, an error or a value, and the world after it. An error leaves the world as it was at the
  throw: a failed transaction is rolled back with \<open>atomically\<close>, writes before a throw outside a
  transaction stay. A constraint of the schema that the code relies on (primary key, unique key,
  foreign key, the width of an integer column) is a branch that returns the Prisma error.

  \<^bold>\<open>What is outside and how it enters.\<close> The environment \<open>env\<close> is a parameter: the clock at each
  reading, the identifiers drawn (\<open>uuid\<close>), the collation of text columns, the function that gives a
  board position between two others (package \<^verbatim>\<open>fractional-indexing\<close>). Further parameters are hashing,
  token signing, random bytes, comparison of addresses without case and the fate of mail
  (\<open>auth_config\<close>, \<open>auth_env\<close>), the local time zone, the parser of dates and of URLs, date texts, and
  the answers of remote servers (\<open>fetch\<close>). What a theorem needs of them is a hypothesis that names
  documented behaviour: fresh identifiers, a clock that does not run backwards. Strings are lists of
  characters, so of code units below 256; the long dash of some messages is written as two hyphens.
  Unbounded integers stand for times in milliseconds; where the width of a column or the rounding of
  a double matters it is written out (\<open>int4\<close> in Worklogs, \<open>jsnum\<close> in JsNumber).

  \<^bold>\<open>Theories and sources\<close> (paths under \<^verbatim>\<open>src/apps/api/src/modules\<close>).

  \<^item> Prelude: results, guards, updates of rows by condition, the fold of transactions, and the
    locales \<open>row_update\<close> (an update that keeps a key), \<open>guarded_handler\<close> and \<open>atomic_handler\<close> (no
    effect without the role, no effect on an error), \<open>operation_system\<close> (operations that keep an
    invariant, and so any run of them), \<open>refining_system\<close> (each operation is at most one step of an
    abstract machine) and \<open>labelled_system\<close> (each operation is the one abstract step its name stands for,
    or none). Schema: the tables, inputs, events and the world.
  \<^item> JsNumber, JsText, JsDate: binary64 numbers as exact rationals with rounding, the conversions
    between numbers and text, and dates of the proleptic Gregorian calendar with a zone function.
  \<^item> Permissions: \<^verbatim>\<open>permissions/permissions.service.ts\<close>. Workflow: \<^verbatim>\<open>tasks/workflow.ts\<close>.
    ProjectWorkflow: \<^verbatim>\<open>projects/project-workflow.service.ts\<close>. Projects: \<^verbatim>\<open>projects/projects.service.ts\<close>.
  \<^item> Tasks, TaskLaws, TaskGraph: \<^verbatim>\<open>tasks/tasks.service.ts\<close>, its operations, their laws, and the
    dependency graph.
  \<^item> Sprints, SprintLaws: \<^verbatim>\<open>sprints/sprints.service.ts\<close>. Labels: \<^verbatim>\<open>labels/labels.service.ts\<close>.
    Worklogs: \<^verbatim>\<open>worklog/worklog.service.ts\<close>. Goals, GoalLaws: \<^verbatim>\<open>goals/goals.service.ts\<close>.
    Recurrence: \<^verbatim>\<open>recurrence/recurrence.service.ts\<close>. AutoStatus: \<^verbatim>\<open>github/auto-status.service.ts\<close>.
  \<^item> FormulaParser, FormulaEval, FormulaPrint, FormulaLaws, FormulaSafety:
    \<^verbatim>\<open>custom-fields/formula-evaluator.ts\<close>. CustomFields, CustomFieldLaws:
    \<^verbatim>\<open>custom-fields/custom-fields.service.ts\<close>.
  \<^item> Comments, CommentLaws: \<^verbatim>\<open>comments/comments.service.ts\<close>. Automations, AutomationLaws:
    \<^verbatim>\<open>automations/automations.service.ts\<close> and \<^verbatim>\<open>automations.listener.ts\<close>.
  \<^item> Docs, DocLaws: \<^verbatim>\<open>docs/docs.service.ts\<close>. Markdown: \<^verbatim>\<open>docs/prosemirror-markdown.ts\<close>, the text
    the search index reads.
  \<^item> Auth, Users: \<^verbatim>\<open>auth/auth.service.ts\<close>, \<^verbatim>\<open>sessions.service.ts\<close>, \<^verbatim>\<open>session.service.ts\<close>,
    \<^verbatim>\<open>audit-log.service.ts\<close>, \<^verbatim>\<open>mail.service.ts\<close>, \<^verbatim>\<open>strategies/jwt.strategy.ts\<close>;
    \<^verbatim>\<open>users/users.service.ts\<close>, \<^verbatim>\<open>teams/teams.service.ts\<close>, and in Pagination the cursor pages
    of \<^verbatim>\<open>common/pagination\<close>. AccountLaws, UserLaws: their invariant and laws. Interleaving, SignInLaws,
    SignIn: requests whose database steps interleave, and what a token or a mailed link can still do.

  \<^bold>\<open>What the lemmas show.\<close> For each group of tables an invariant that every operation, and so every
  run, keeps (identifiers and unique keys, references, at most one active sprint or running timer,
  weights that sum to 100, acyclic formulas, hierarchy of tasks). For each service what it refuses and
  what it changes (the \<open>guarded_handler\<close> interpretations and the theorems about created, moved,
  removed rows). Abstract machines that the services refine: the life cycle of sprints and the history
  of comment texts, where the label of a step is read off the operation, so that along a run each
  operation is seen to take no other step; and the versions of documents. Equivalences: the workflow rows of a new project and the preset constants; the access a
  member page shows and the access the guards give (for a user whom no grant makes a client by mistake). What an archived user can still do along any later
  run of account operations: nothing but the development login. Termination: the parser of formulas, the rule engine, the
  pages of a list. Interleavings: a due schedule, a refresh token and a magic link are each taken once,
  whatever runs in between.

  \<^bold>\<open>Where the code does not do what it says.\<close> Theorems are stated so that they do not hold because of such
  a behaviour; the behaviour has a lemma of its own or is left open: the completion time of a task
  merged on GitHub (\<open>merged_task_is_not_stamped\<close>), the editor tree of a restored document
  (\<open>restored_tree_is_stale\<close>), tasks of the focal project in the dependency graph of a guest
  (\<open>graph_reveals_hidden_task\<close>), a client in a team (\<open>client_joins_team\<close>), an internal user with a grant as
  client (\<open>client_grant_shown_as_viewer\<close>), pages of users created at the same time (assumed away).

  \<^bold>\<open>Bounds and fuel.\<close> The walk over parents stops after 50 tasks (\<open>MAX_HOPS\<close>) and the tree of goals after
  depth 10, as in the code; the graph of links is clamped to depths 0 to 4, a list of tasks to 5000,
  a page to 1 to 200 rows. The parser of formulas takes the number of tokens as fuel, and
  FormulaLaws shows that this always decides; a formula has at most 4096 characters and 1024 tokens. A webhook is
  attempted at most twice, a comment can be edited for 15 minutes.

  \<^bold>\<open>What is not modelled.\<close> Controllers and data-transfer classes (routing and shapes of input), the
  search, notifications, delivery of mail and chat messages, uploads and virus scans, templates,
  dashboards, retrospectives, deployments, webhooks, the event log, the client portal, the language model and
  vector search, the rendering of exports, the import adapters, analytics queries, the realtime
  gateway, and the web client: the manifest lists each with the reason.
\<close>

end
